(* ===== verification/Esp_Prelude.thy ===== *)
theory Esp_Prelude
  imports Main "HOL-Library.Word" "HOL-Library.Monad_Syntax"
begin

text \<open>
  Shared vocabulary of the development: machine integers, the little-endian codec that every
  \<open>memcpy\<close> of a \<open>uint32_t\<close> performs on the targets, the C string helpers of the command parsers,
  runs of event-driven machines, and the two interfaces (\<open>event_machine\<close>, \<open>fifo\<close>) that the
  components implement.
\<close>

unbundle bit_operations_syntax

type_synonym u8 = "8 word"
type_synonym u16 = "16 word"
type_synonym u32 = "32 word"

named_theorems byte_simps "rewriting of byte buffers and little-endian words"
named_theorems clamp_simps "bounds of the saturation helpers"

section \<open>Bytes and little-endian words\<close>

text \<open>\<open>memcpy(dst, &value, 4)\<close> and \<open>memcpy(&value, src, 4)\<close> on a little-endian target.\<close>

definition le32 :: "u32 \<Rightarrow> u8 list" where
  "le32 v = [ucast v, ucast (drop_bit 8 v), ucast (drop_bit 16 v), ucast (drop_bit 24 v)]"

definition word_of_le :: "u8 \<Rightarrow> u8 \<Rightarrow> u8 \<Rightarrow> u8 \<Rightarrow> u32" where
  "word_of_le a b c d =
     ucast a OR push_bit 8 (ucast b) OR push_bit 16 (ucast c) OR push_bit 24 (ucast d)"

text \<open>A four-byte read of a buffer; \<open>None\<close> is an access outside the buffer.\<close>

definition read_le32 :: "u8 list \<Rightarrow> nat \<Rightarrow> u32 option" where
  "read_le32 buf off =
     (if off + 4 \<le> length buf
      then Some (word_of_le (buf ! off) (buf ! (off + 1)) (buf ! (off + 2)) (buf ! (off + 3)))
      else None)"

lemma length_le32 [simp, byte_simps]: "length (le32 v) = 4"
  by (simp add: le32_def)

lemma word_of_le_bytes:
  "word_of_le (ucast v) (ucast (drop_bit 8 v)) (ucast (drop_bit 16 v)) (ucast (drop_bit 24 v)) = v"
proof (rule bit_word_eqI)
  fix n assume "n < LENGTH(32)"
  then have "n < 32" by simp
  then consider "n < 8" | "8 \<le> n \<and> n < 16" | "16 \<le> n \<and> n < 24" | "24 \<le> n \<and> n < 32"
    by linarith
  then show "bit (word_of_le (ucast v) (ucast (drop_bit 8 v)) (ucast (drop_bit 16 v))
      (ucast (drop_bit 24 v))) n = bit v n"
    by cases (auto simp: word_of_le_def bit_simps)
qed

lemma read_le32_append:
  "read_le32 (xs @ le32 v @ ys) (length xs) = Some v"
  by (simp add: read_le32_def le32_def nth_append word_of_le_bytes)

lemma read_le32_le32 [byte_simps]: "read_le32 (le32 v @ ys) 0 = Some v"
  using read_le32_append [of "[]" v ys] by simp

lemma read_le32_Cons [byte_simps]: "read_le32 (x # le32 v @ ys) 1 = Some v"
  using read_le32_append [of "[x]" v ys] by simp

lemma read_le32_bound: "read_le32 buf off = Some v \<Longrightarrow> off + 4 \<le> length buf"
  by (simp add: read_le32_def split: if_splits)

lemma read_le32_total [byte_simps]: "off + 4 \<le> length buf \<Longrightarrow> \<exists>v. read_le32 buf off = Some v"
  by (simp add: read_le32_def)

lemma read_le32_prefix:
  assumes "off + 4 \<le> n" "n \<le> length buf"
  shows "read_le32 (take n buf) off = read_le32 buf off"
  using assms by (simp add: read_le32_def)

text \<open>\<open>memcpy(dst + off, src, length src)\<close> into a buffer of fixed length.\<close>

definition overwrite :: "u8 list \<Rightarrow> nat \<Rightarrow> u8 list \<Rightarrow> u8 list" where
  "overwrite buf off src = take off buf @ src @ drop (off + length src) buf"

lemma length_overwrite [byte_simps]:
  "off + length src \<le> length buf \<Longrightarrow> length (overwrite buf off src) = length buf"
  by (simp add: overwrite_def)

lemma overwrite_at:
  "off + length src \<le> length buf \<Longrightarrow> take (length src) (drop off (overwrite buf off src)) = src"
  by (simp add: overwrite_def)

lemma overwrite_other:
  assumes "off + length src \<le> length buf" "b \<le> off \<or> off + length src \<le> a"
  shows "take (b - a) (drop a (overwrite buf off src)) = take (b - a) (drop a buf)"
proof (rule nth_equalityI)
  show "length (take (b - a) (drop a (overwrite buf off src))) = length (take (b - a) (drop a buf))"
    using assms(1) by (simp add: length_overwrite)
next
  fix i assume "i < length (take (b - a) (drop a (overwrite buf off src)))"
  then have i: "i < b - a" "a + i < length buf"
    using assms(1) by (auto simp: length_overwrite)
  from i assms have "overwrite buf off src ! (a + i) = buf ! (a + i)"
    by (auto simp: overwrite_def nth_append min_def)
  with i assms(1) show "take (b - a) (drop a (overwrite buf off src)) ! i = take (b - a) (drop a buf) ! i"
    by (simp add: length_overwrite)
qed

section \<open>Saturation\<close>

text \<open>The pattern \<open>if (x < lo) x = lo; else if (x > hi) x = hi;\<close>\<close>

definition saturate :: "int \<Rightarrow> int \<Rightarrow> int \<Rightarrow> int" where
  "saturate lo hi x = (if x < lo then lo else if x > hi then hi else x)"

lemma saturate_bounds [clamp_simps]: "lo \<le> hi \<Longrightarrow> lo \<le> saturate lo hi x \<and> saturate lo hi x \<le> hi"
  by (simp add: saturate_def)

lemma saturate_id [clamp_simps]: "lo \<le> x \<Longrightarrow> x \<le> hi \<Longrightarrow> saturate lo hi x = x"
  by (simp add: saturate_def)

lemma saturate_idem [clamp_simps]: "lo \<le> hi \<Longrightarrow> saturate lo hi (saturate lo hi x) = saturate lo hi x"
  by (simp add: saturate_def)

section \<open>C strings\<close>

text \<open>
  A C string is modelled by its characters before the terminating NUL. \<open>strcmp(a, b) == 0\<close> is
  equality; \<open>strncmp(a, b, n) == 0\<close>, with \<open>b\<close> a literal of at least \<open>n\<close> characters, says that
  the first \<open>n\<close> characters agree.
\<close>

definition strncmp_eq :: "string \<Rightarrow> string \<Rightarrow> nat \<Rightarrow> bool" where
  "strncmp_eq a b n \<longleftrightarrow> take n a = take n b"

definition is_space :: "char \<Rightarrow> bool" where
  "is_space c \<longleftrightarrow> c = CHR '' '' \<or> (9 \<le> (of_char c :: nat) \<and> (of_char c :: nat) \<le> 13)"

definition is_digit :: "char \<Rightarrow> bool" where
  "is_digit c \<longleftrightarrow> 48 \<le> (of_char c :: nat) \<and> (of_char c :: nat) \<le> 57"

fun digits_value :: "int \<Rightarrow> string \<Rightarrow> int" where
  "digits_value acc [] = acc"
| "digits_value acc (c # cs) =
     (if is_digit c then digits_value (acc * 10 + (of_char c - 48)) cs else acc)"

text \<open>
  \<open>strtol(s, NULL, 10)\<close> with the 32-bit \<open>long\<close> of the targets: leading white space, one optional
  sign, the longest run of digits, saturation at \<open>LONG_MIN\<close> and \<open>LONG_MAX\<close>; no digits give 0.
\<close>

definition strtol :: "string \<Rightarrow> int" where
  "strtol s =
     (let t = dropWhile is_space s;
          v = (case t of
                 [] \<Rightarrow> 0
               | c # cs \<Rightarrow> if c = CHR ''-'' then - digits_value 0 cs
                           else if c = CHR ''+'' then digits_value 0 cs
                           else digits_value 0 t)
      in saturate (- (2 ^ 31)) (2 ^ 31 - 1) v)"

lemma strtol_range: "- (2 ^ 31) \<le> strtol s \<and> strtol s < 2 ^ 31"
  unfolding strtol_def Let_def saturate_def by simp

lemma strncmp_eq_refl [simp]: "strncmp_eq a a n"
  by (simp add: strncmp_eq_def)

text \<open>Decimal output of an unsigned number (\<open>printf("%u")\<close>).\<close>

fun dec_string :: "nat \<Rightarrow> string" where
  "dec_string n =
     (if n < 10 then [char_of (48 + n)] else dec_string (n div 10) @ [char_of (48 + n mod 10)])"

declare dec_string.simps [simp del]

text \<open>Decimal output of a signed number (\<open>printf("%d")\<close>).\<close>

definition int_string :: "int \<Rightarrow> string" where
  "int_string n = (if n < 0 then ''-'' @ dec_string (nat (- n)) else dec_string (nat n))"

lemma digit_char [simp]:
  assumes "n < 10"
  shows "is_digit (char_of (48 + n :: nat))" and "(of_char (char_of (48 + n :: nat)) :: int) = 48 + int n"
proof -
  have c: "(of_char (char_of (48 + n :: nat)) :: nat) = 48 + n"
    using assms by (simp only: of_char_of) simp
  then show "is_digit (char_of (48 + n :: nat))" using assms by (simp add: is_digit_def)
  have "(of_char (char_of (48 + n :: nat)) :: int) = int (of_char (char_of (48 + n :: nat)))"
    by (simp only: of_nat_of_char)
  with c show "(of_char (char_of (48 + n :: nat)) :: int) = 48 + int n" by simp
qed

lemma dec_string_digits: "list_all is_digit (dec_string n) \<and> dec_string n \<noteq> []"
proof (induction n rule: dec_string.induct)
  case (1 n)
  then show ?case by (subst (1 2) dec_string.simps) auto
qed

lemma digits_value_snoc:
  "list_all is_digit xs \<Longrightarrow> is_digit c \<Longrightarrow>
   digits_value acc (xs @ [c]) = digits_value acc xs * 10 + (of_char c - 48)"
  by (induction xs arbitrary: acc) auto

lemma digits_value_dec_string: "digits_value 0 (dec_string n) = int n"
proof (induction n rule: dec_string.induct)
  case (1 n)
  show ?case
  proof (cases "n < 10")
    case True
    then show ?thesis by (subst dec_string.simps) simp
  next
    case False
    have "digits_value 0 (dec_string n) = digits_value 0 (dec_string (n div 10)) * 10 + int (n mod 10)"
      using dec_string_digits [of "n div 10"] False
      by (subst dec_string.simps) (simp add: digits_value_snoc)
    with "1.IH" False show ?thesis by (simp add: zdiv_int zmod_int)
  qed
qed

lemma strtol_dec_string: "strtol (dec_string n) = (if n < 2 ^ 31 then int n else 2 ^ 31 - 1)"
proof -
  obtain c cs where cs: "dec_string n = c # cs" using dec_string_digits [of n] by (cases "dec_string n") auto
  then have c: "is_digit c" using dec_string_digits [of n] by simp
  then have "\<not> is_space c" "c \<noteq> CHR ''-''" "c \<noteq> CHR ''+''"
    by (auto simp: is_digit_def is_space_def)
  then have "strtol (dec_string n) = saturate (- (2 ^ 31)) (2 ^ 31 - 1) (digits_value 0 (dec_string n))"
    unfolding strtol_def Let_def cs by simp
  then show ?thesis by (simp add: digits_value_dec_string saturate_def)
qed

lemma dec_string_length: "0 < k \<Longrightarrow> n < 10 ^ k \<Longrightarrow> length (dec_string n) \<le> k"
proof (induction k arbitrary: n rule: nat_induct_non_zero)
  case 1
  then show ?case by (simp add: dec_string.simps [of n])
next
  case (Suc k)
  then have "length (dec_string (n div 10)) \<le> k" by (simp add: less_mult_imp_div_less mult.commute)
  then show ?case by (subst dec_string.simps) (simp del: dec_string.simps)
qed

lemma int_string_length:
  assumes "0 < k" "\<bar>n\<bar> < 10 ^ k"
  shows "length (int_string n) \<le> k + 1"
proof -
  have "nat (- n) < 10 ^ k" "nat n < 10 ^ k" using assms(2) by (auto simp: nat_less_iff)
  with dec_string_length [OF assms(1)] show ?thesis by (auto simp: int_string_def intro: le_SucI)
qed

text \<open>\<open>snprintf\<close> into a buffer of \<open>n\<close> bytes.\<close>

definition c_snprintf :: "nat \<Rightarrow> string \<Rightarrow> string" where
  "c_snprintf n s = take (n - 1) s"

section \<open>Runs of event-driven machines\<close>

lemma bind_total: "\<exists>y. m = Some y \<Longrightarrow> \<exists>z. m \<bind> (\<lambda>y. Some (g y)) = Some z"
  by auto

text \<open>
  A firmware component reacts to one event at a time; a step is \<open>None\<close> when the code aborts or
  accesses memory it does not own.
\<close>

fun run_events :: "('s \<Rightarrow> 'e \<Rightarrow> 's option) \<Rightarrow> 's \<Rightarrow> 'e list \<Rightarrow> 's option" where
  "run_events step s [] = Some s"
| "run_events step s (e # es) = step s e \<bind> (\<lambda>s'. run_events step s' es)"

lemma run_events_append:
  "run_events step s (es @ es') = run_events step s es \<bind> (\<lambda>s'. run_events step s' es')"
  by (induction es arbitrary: s) (auto split: Option.bind_splits)

locale safe_machine =
  fixes step :: "'s \<Rightarrow> 'e \<Rightarrow> 's option"
    and inv :: "'s \<Rightarrow> bool"
  assumes step_inv: "inv s \<Longrightarrow> step s e = Some s' \<Longrightarrow> inv s'"
begin

lemma run_inv: "inv s \<Longrightarrow> run_events step s es = Some s' \<Longrightarrow> inv s'"
  by (induction es arbitrary: s) (auto split: Option.bind_splits dest: step_inv)

end

locale event_machine = safe_machine +
  fixes ok :: "'e \<Rightarrow> bool"
  assumes step_total: "inv s \<Longrightarrow> ok e \<Longrightarrow> \<exists>s'. step s e = Some s'"
begin

lemma run_total: "inv s \<Longrightarrow> list_all ok es \<Longrightarrow> \<exists>s'. run_events step s es = Some s' \<and> inv s'"
proof (induction es arbitrary: s)
  case Nil
  then show ?case by simp
next
  case (Cons e es)
  from Cons.prems step_total obtain s1 where s1: "step s e = Some s1" by fastforce
  with Cons.prems have "inv s1" by (blast intro: step_inv)
  with Cons s1 show ?case by simp
qed

end

text \<open>
  A component that implements an abstract machine as long as its callers keep to the contract \<open>ok\<close>, which
  may depend on what happened before.
\<close>

fun path_ok :: "('a \<Rightarrow> 'e \<Rightarrow> bool) \<Rightarrow> ('a \<Rightarrow> 'e \<Rightarrow> 'a) \<Rightarrow> 'a \<Rightarrow> 'e list \<Rightarrow> bool" where
  "path_ok ok astep a [] \<longleftrightarrow> True"
| "path_ok ok astep a (e # es) \<longleftrightarrow> ok a e \<and> path_ok ok astep (astep a e) es"

locale simulation =
  fixes step :: "'s \<Rightarrow> 'e \<Rightarrow> 's option"
    and rep :: "'s \<Rightarrow> 'a \<Rightarrow> bool"
    and astep :: "'a \<Rightarrow> 'e \<Rightarrow> 'a"
    and ok :: "'a \<Rightarrow> 'e \<Rightarrow> bool"
  assumes step_sim: "rep s a \<Longrightarrow> ok a e \<Longrightarrow> \<exists>s'. step s e = Some s' \<and> rep s' (astep a e)"
begin

lemma run_sim: "rep s a \<Longrightarrow> path_ok ok astep a es \<Longrightarrow> \<exists>s'. run_events step s es = Some s' \<and> rep s' (foldl astep a es)"
proof (induction es arbitrary: s a)
  case (Cons e es)
  from Cons.prems step_sim obtain s1 where s1: "step s e = Some s1" "rep s1 (astep a e)" by fastforce
  with Cons.IH [OF s1(2)] Cons.prems(2) show ?case by simp
qed simp

end

section \<open>First-in first-out queues\<close>

text \<open>Sending a list of elements, and taking \<open>n\<close> elements out.\<close>

fun enq_all :: "('a \<Rightarrow> 'q \<Rightarrow> 'q option) \<Rightarrow> 'a list \<Rightarrow> 'q \<Rightarrow> 'q option" where
  "enq_all enq [] q = Some q"
| "enq_all enq (x # xs) q = enq x q \<bind> enq_all enq xs"

fun deq_n :: "('q \<Rightarrow> ('a \<times> 'q) option) \<Rightarrow> nat \<Rightarrow> 'q \<Rightarrow> ('a list \<times> 'q) option" where
  "deq_n deq 0 q = Some ([], q)"
| "deq_n deq (Suc n) q = deq q \<bind> (\<lambda>(x, q'). deq_n deq n q' \<bind> (\<lambda>(xs, q''). Some (x # xs, q'')))"

text \<open>
  The contract the message queues share: \<open>rep q xs\<close> says that the concrete queue \<open>q\<close> holds the
  elements \<open>xs\<close>, oldest first. \<open>enq\<close> may refuse (full), \<open>deq\<close> refuses exactly on an empty queue.
\<close>

locale fifo =
  fixes rep :: "'q \<Rightarrow> 'a list \<Rightarrow> bool"
    and enq :: "'a \<Rightarrow> 'q \<Rightarrow> 'q option"
    and deq :: "'q \<Rightarrow> ('a \<times> 'q) option"
  assumes enq_rep: "rep q xs \<Longrightarrow> enq x q = Some q' \<Longrightarrow> rep q' (xs @ [x])"
    and deq_rep: "rep q (x # xs) \<Longrightarrow> \<exists>q'. deq q = Some (x, q') \<and> rep q' xs"
    and deq_empty: "rep q [] \<Longrightarrow> deq q = None"
begin

lemma enq_all_rep: "rep q ys \<Longrightarrow> enq_all enq xs q = Some q' \<Longrightarrow> rep q' (ys @ xs)"
proof (induction xs arbitrary: q ys)
  case Nil
  then show ?case by simp
next
  case (Cons x xs)
  from Cons.prems obtain q1 where q1: "enq x q = Some q1" "enq_all enq xs q1 = Some q'"
    by (auto split: Option.bind_splits)
  from Cons.IH [OF enq_rep [OF Cons.prems(1) q1(1)] q1(2)] show ?case by simp
qed

lemma deq_n_rep:
  "rep q (xs @ ys) \<Longrightarrow> \<exists>q'. deq_n deq (length xs) q = Some (xs, q') \<and> rep q' ys"
proof (induction xs arbitrary: q)
  case Nil
  then show ?case by simp
next
  case (Cons x xs)
  then obtain q1 where q1: "deq q = Some (x, q1)" "rep q1 (xs @ ys)"
    using deq_rep [of q x "xs @ ys"] by auto
  from Cons.IH [OF q1(2)] q1(1) show ?case by auto
qed

text \<open>Everything sent comes out, once, in the order it was sent, behind what was there before.\<close>

lemma fifo_order:
  assumes "rep q ys" "enq_all enq xs q = Some q1"
  shows "\<exists>q2. deq_n deq (length ys + length xs) q1 = Some (ys @ xs, q2) \<and> rep q2 []"
  using deq_n_rep [of q1 "ys @ xs" "[]"] enq_all_rep [OF assms] by simp

end

text \<open>
  A queue with a capacity: it accepts an element it has a place for exactly while it holds fewer than
  \<open>cap\<close> of them.
\<close>

locale bounded_fifo = fifo +
  fixes cap :: "'q \<Rightarrow> nat" and fits :: "'q \<Rightarrow> 'a \<Rightarrow> bool"
  assumes enq_room: "rep q xs \<Longrightarrow> fits q x \<Longrightarrow> length xs < cap q \<Longrightarrow> \<exists>q'. enq x q = Some q'"
    and enq_full: "rep q xs \<Longrightarrow> length xs \<ge> cap q \<Longrightarrow> enq x q = None"
    and enq_keeps: "rep q xs \<Longrightarrow> enq x q = Some q' \<Longrightarrow> cap q' = cap q \<and> fits q' = fits q"
begin

lemma enq_all_room:
  "rep q xs \<Longrightarrow> list_all (fits q) ys \<Longrightarrow> length xs + length ys \<le> cap q \<Longrightarrow>
   \<exists>q'. enq_all enq ys q = Some q' \<and> rep q' (xs @ ys) \<and> cap q' = cap q"
proof (induction ys arbitrary: q xs)
  case Nil
  then show ?case by simp
next
  case (Cons y ys)
  then obtain q1 where q1: "enq y q = Some q1" using enq_room [of q xs y] by auto
  note k = enq_keeps [OF Cons.prems(1) q1]
  have "\<exists>q'. enq_all enq ys q1 = Some q' \<and> rep q' ((xs @ [y]) @ ys) \<and> cap q' = cap q1"
    using Cons.prems k by (intro Cons.IH enq_rep [OF Cons.prems(1) q1]) simp_all
  with q1 k show ?case by simp
qed

text \<open>A full burst goes in, comes out in order, and while it is in nothing more is accepted.\<close>

lemma burst:
  assumes "rep q []" "list_all (fits q) ys" "length ys \<le> cap q"
  shows "\<exists>q1 q2. enq_all enq ys q = Some q1 \<and> deq_n deq (length ys) q1 = Some (ys, q2) \<and> rep q2 [] \<and>
    (length ys = cap q \<longrightarrow> (\<forall>z. enq z q1 = None))"
proof -
  from enq_all_room [OF assms(1,2)] assms(3) obtain q1 where
    q1: "enq_all enq ys q = Some q1" "rep q1 ys" "cap q1 = cap q" by auto
  from deq_n_rep [of q1 ys "[]"] q1(2) obtain q2 where "deq_n deq (length ys) q1 = Some (ys, q2)" "rep q2 []"
    by auto
  with q1 enq_full [OF q1(2)] show ?thesis by auto
qed

end

end
