(* ===== verification/Can_Bus.thy ===== *)
theory Can_Bus
  imports Esp_Prelude
begin

text \<open>
  The CAN helper shared by the three controllers (\<open>submodules/robot_canbus/lib/robot_canbus.c\<close>).
  The TWAI driver and the FreeRTOS queue are not in the repository: a call to them is a value of
  \<open>can_call\<close>, and what such a call returns is an argument of the operation that makes it.
\<close>

section \<open>Frames\<close>

record twai_message =
  msg_identifier :: u32
  data_length_code :: nat
  data :: "u8 list"
  flags :: u32

definition CANBUS_MESSAGE_ID :: u32 where
  "CANBUS_MESSAGE_ID = 0x1F"

definition CANBUS_MAX_WAIT_MS :: nat where
  "CANBUS_MAX_WAIT_MS = 100"

definition MAX_QUEUE_ELEMENT :: nat where
  "MAX_QUEUE_ELEMENT = 10"

datatype can_call =
    XQueueSend twai_message nat
  | TwaiTransmit twai_message nat
  | TwaiDriverInstall
  | TwaiStart
  | XQueueCreate nat
  | CreateReceiveTask
  | CreateSendTask

text \<open>The message a sender builds: the type byte, then the value in little-endian order.\<close>

definition can_frame :: "u8 \<Rightarrow> u32 \<Rightarrow> twai_message" where
  "can_frame message_type val =
     \<lparr>msg_identifier = CANBUS_MESSAGE_ID, data_length_code = 5,
      data = message_type # le32 val @ replicate 3 0, flags = 0\<rparr>"

definition AddMessageToSend :: "u8 \<Rightarrow> u32 \<Rightarrow> can_call" where
  "AddMessageToSend message_type val = XQueueSend (can_frame message_type val) 10"

section \<open>The node: handler, queue, tasks\<close>

record 'h canbus =
  canbus_message_handler :: "'h option"
  send_queue_created :: bool

definition canbus_initial :: "'h canbus" where
  "canbus_initial = \<lparr>canbus_message_handler = None, send_queue_created = False\<rparr>"

definition SetCanbusMessageHandler :: "'h \<Rightarrow> 'h canbus \<Rightarrow> 'h canbus" where
  "SetCanbusMessageHandler fcn b = b\<lparr>canbus_message_handler := Some fcn\<rparr>"

text \<open>
  One iteration of the receive task: \<open>rx\<close> is what \<open>twai_receive\<close> delivered (\<open>None\<close>: time-out or
  error). The result is the handler that is called and its two arguments.
\<close>

definition canbus_receive_task :: "'h canbus \<Rightarrow> twai_message option \<Rightarrow> ('h \<times> int \<times> u8 list) option" where
  "canbus_receive_task b rx =
     (case rx of
        None \<Rightarrow> None
      | Some m \<Rightarrow>
          if msg_identifier m = CANBUS_MESSAGE_ID then
            (case canbus_message_handler b of
               None \<Rightarrow> None
             | Some h \<Rightarrow> Some (h, int (data_length_code m), data m))
          else None)"

definition heart_beat :: twai_message where
  "heart_beat = \<lparr>msg_identifier = CANBUS_MESSAGE_ID, data_length_code = 2,
     data = [0xAB, 0xCD] @ replicate 6 0, flags = 0\<rparr>"

text \<open>
  One iteration of the send task: \<open>qrx\<close> is what \<open>xQueueReceive\<close> delivered within a second. The
  task ends at once when there is no queue.
\<close>

definition canbus_send_task :: "'h canbus \<Rightarrow> twai_message option \<Rightarrow> can_call option" where
  "canbus_send_task b qrx =
     (if \<not> send_queue_created b then None
      else Some (case qrx of
                   Some tx_msg \<Rightarrow> TwaiTransmit tx_msg CANBUS_MAX_WAIT_MS
                 | None \<Rightarrow> TwaiTransmit heart_beat CANBUS_MAX_WAIT_MS))"

definition InitializeCanbus :: "bool \<Rightarrow> bool \<Rightarrow> bool \<Rightarrow> 'h canbus \<Rightarrow> 'h canbus \<times> can_call list" where
  "InitializeCanbus install_ok start_ok queue_ok b =
     (if \<not> install_ok then (b, [TwaiDriverInstall])
      else if \<not> start_ok then (b, [TwaiDriverInstall, TwaiStart])
      else (b\<lparr>send_queue_created := queue_ok\<rparr>,
            [TwaiDriverInstall, TwaiStart, XQueueCreate MAX_QUEUE_ELEMENT,
             CreateReceiveTask, CreateSendTask]))"

section \<open>Laws\<close>

text \<open>What the driver hands to the receive task: an 8-byte buffer and a length within it.\<close>

definition wf_message :: "twai_message \<Rightarrow> bool" where
  "wf_message m \<longleftrightarrow> length (data m) = 8 \<and> data_length_code m \<le> 8"

lemma can_frame_sel [simp]:
  "msg_identifier (can_frame t v) = CANBUS_MESSAGE_ID"
  "data_length_code (can_frame t v) = 5"
  "data (can_frame t v) = t # le32 v @ replicate 3 0"
  by (simp_all add: can_frame_def)

lemma wf_can_frame [simp]: "wf_message (can_frame t v)"
  by (simp add: wf_message_def)

lemma wf_heart_beat [simp]: "wf_message heart_beat"
  by (simp add: wf_message_def heart_beat_def)

lemma can_frame_inj: "can_frame t v = can_frame t' v' \<longleftrightarrow> t = t' \<and> v = v'"
proof
  assume "can_frame t v = can_frame t' v'"
  then have "data (can_frame t v) = data (can_frame t' v')" by simp
  then have "t = t'" and "le32 v @ replicate 3 0 = le32 v' @ replicate 3 0" by simp_all
  then have "read_le32 (le32 v @ replicate 3 0) 0 = read_le32 (le32 v' @ replicate 3 0) 0" by simp
  with \<open>t = t'\<close> show "t = t' \<and> v = v'" by (simp add: read_le32_le32)
qed simp

lemma receive_can_frame:
  "canbus_message_handler b = Some h \<Longrightarrow>
   canbus_receive_task b (Some (can_frame t v)) = Some (h, 5, t # le32 v @ replicate 3 0)"
  by (simp add: canbus_receive_task_def)

lemma receive_needs_id:
  "canbus_receive_task b (Some m) = Some r \<Longrightarrow> msg_identifier m = CANBUS_MESSAGE_ID"
  by (simp add: canbus_receive_task_def split: if_splits)

text \<open>
  The node is quiet before it is set up: without a registered handler no frame reaches the
  application, without the queue nothing is transmitted; and a set-up node transmits in every
  iteration, the oldest queued frame if there is one and the two-byte heartbeat otherwise.
\<close>

theorem canbus_tasks_contract:
  "canbus_receive_task canbus_initial rx = None \<and>
   canbus_send_task canbus_initial qrx = None \<and>
   canbus_send_task (fst (InitializeCanbus True True True b)) (Some m) = Some (TwaiTransmit m 100) \<and>
   canbus_send_task (fst (InitializeCanbus True True True b)) None = Some (TwaiTransmit heart_beat 100) \<and>
   canbus_message_handler (fst (InitializeCanbus i s q b)) = canbus_message_handler b"
  by (auto simp: canbus_receive_task_def canbus_send_task_def canbus_initial_def InitializeCanbus_def
      CANBUS_MAX_WAIT_MS_def split: option.splits)

end
