(* ===== verification/Motor_Control.thy ===== *)
theory Motor_Control
  imports Can_Bus
begin

text \<open>
  The mecanum platform controller (\<open>IDF_robot_control/main/control/control_callback.c\<close>): the
  motion request that CAN and BLE messages set, the periodic task that ramps the motors towards
  it, and the watchdog that \<open>app_main\<close> polls. Every call to the port expander, the PWM unit and
  the LED is recorded in \<open>calls\<close>, in order. The sections that the code runs under \<open>motor_lock_\<close>
  are single steps.
\<close>

section \<open>State\<close>

datatype motion_cmd =
    MOTION_STOP | MOTION_FORWARD | MOTION_BACKWARD | MOTION_LEFT | MOTION_RIGHT
  | MOTION_ROTATE_LEFT | MOTION_ROTATE_RIGHT

datatype hw_call =
    Mcp_set_mode_output nat
  | Mcp_set_level nat nat
  | Ledc_timer_config
  | Ledc_channel_config nat
  | Ledc_set_duty nat int
  | Ledc_update_duty nat
  | Gpio_config
  | Gpio_set_level nat
  | I2cdev_init
  | Mcp_init_desc
  | Create_motor_task
  | Esp_restart

definition DEFAULT_MOTOR_SPEED :: int where "DEFAULT_MOTOR_SPEED = 125"
definition MOTOR_ACCEL_STEP :: int where "MOTOR_ACCEL_STEP = 8"
definition MOTOR_DECEL_STEP :: int where "MOTOR_DECEL_STEP = 12"
definition NO_MESSAGE_STOP_DELAY :: int where "NO_MESSAGE_STOP_DELAY = 1000000"
definition LED_LIGHT_OFF :: nat where "LED_LIGHT_OFF = 0"
definition LED_LIGHT_ON :: nat where "LED_LIGHT_ON = 1"

record motor =
  requested_motion :: motion_cmd
  current_motion :: motion_cmd
  requested_speed :: int
  current_speed :: int
  configured_speed :: int
  led_updated_time :: int
  motor_lock_created :: bool
  motor_task_created :: bool
  calls :: "hw_call list"

definition motor_initial :: motor where
  "motor_initial =
     \<lparr>requested_motion = MOTION_STOP, current_motion = MOTION_STOP, requested_speed = 0,
      current_speed = 0, configured_speed = DEFAULT_MOTOR_SPEED, led_updated_time = 0,
      motor_lock_created = False, motor_task_created = False, calls = []\<rparr>"

definition emit :: "hw_call list \<Rightarrow> motor \<Rightarrow> motor" where
  "emit cs s = s\<lparr>calls := calls s @ cs\<rparr>"

section \<open>Driving the wheels\<close>

definition MOTOR_STBY_MCP_PIN :: nat where "MOTOR_STBY_MCP_PIN = 0"

definition set_motor_standby :: "bool \<Rightarrow> hw_call list" where
  "set_motor_standby en = [Mcp_set_level MOTOR_STBY_MCP_PIN (if en then 1 else 0)]"

definition set_a_direction :: "bool \<Rightarrow> hw_call list" where
  "set_a_direction front = [Mcp_set_level 1 (if front then 0 else 1), Mcp_set_level 2 (if front then 1 else 0)]"

definition set_b_direction :: "bool \<Rightarrow> hw_call list" where
  "set_b_direction front = [Mcp_set_level 3 (if front then 0 else 1), Mcp_set_level 4 (if front then 1 else 0)]"

definition set_c_direction :: "bool \<Rightarrow> hw_call list" where
  "set_c_direction front = [Mcp_set_level 5 (if front then 0 else 1), Mcp_set_level 6 (if front then 1 else 0)]"

definition set_d_direction :: "bool \<Rightarrow> hw_call list" where
  "set_d_direction front = [Mcp_set_level 7 (if front then 0 else 1), Mcp_set_level 8 (if front then 1 else 0)]"

definition motor_set_speed :: "int \<Rightarrow> int \<Rightarrow> int \<Rightarrow> int \<Rightarrow> hw_call list" where
  "motor_set_speed speedA speedB speedC speedD =
     [Ledc_set_duty 0 speedA, Ledc_update_duty 0, Ledc_set_duty 1 speedB, Ledc_update_duty 1,
      Ledc_set_duty 2 speedC, Ledc_update_duty 2, Ledc_set_duty 3 speedD, Ledc_update_duty 3]"

definition forward :: "int \<Rightarrow> hw_call list" where
  "forward speed = set_motor_standby True @ set_a_direction True @ set_b_direction True @
     set_c_direction True @ set_d_direction True @ motor_set_speed speed speed speed speed"

definition backward :: "int \<Rightarrow> hw_call list" where
  "backward speed = set_motor_standby True @ set_a_direction False @ set_b_direction False @
     set_c_direction False @ set_d_direction False @ motor_set_speed speed speed speed speed"

definition turn_left :: "int \<Rightarrow> hw_call list" where
  "turn_left speed = set_motor_standby True @ set_a_direction True @ set_b_direction False @
     set_c_direction True @ set_d_direction False @ motor_set_speed speed speed speed speed"

definition turn_right :: "int \<Rightarrow> hw_call list" where
  "turn_right speed = set_motor_standby True @ set_a_direction False @ set_b_direction True @
     set_c_direction False @ set_d_direction True @ motor_set_speed speed speed speed speed"

definition rotate_left_m :: "int \<Rightarrow> hw_call list" where
  "rotate_left_m speed = set_motor_standby True @ set_a_direction True @ set_b_direction False @
     set_c_direction False @ set_d_direction True @ motor_set_speed speed speed speed speed"

definition rotate_right_m :: "int \<Rightarrow> hw_call list" where
  "rotate_right_m speed = set_motor_standby True @ set_a_direction False @ set_b_direction True @
     set_c_direction True @ set_d_direction False @ motor_set_speed speed speed speed speed"

definition stop_soft :: "hw_call list" where
  "stop_soft = motor_set_speed 0 0 0 0"

fun apply_motion_direction :: "motion_cmd \<Rightarrow> hw_call list" where
  "apply_motion_direction MOTION_FORWARD = forward 0"
| "apply_motion_direction MOTION_BACKWARD = backward 0"
| "apply_motion_direction MOTION_LEFT = turn_left 0"
| "apply_motion_direction MOTION_RIGHT = turn_right 0"
| "apply_motion_direction MOTION_ROTATE_LEFT = rotate_left_m 0"
| "apply_motion_direction MOTION_ROTATE_RIGHT = rotate_right_m 0"
| "apply_motion_direction MOTION_STOP = []"

section \<open>Requests and the control task\<close>

definition set_motion_target_locked :: "motion_cmd \<Rightarrow> int \<Rightarrow> motor \<Rightarrow> motor" where
  "set_motion_target_locked motion speed s =
     (let speed = (if speed < 0 then 0 else if speed > 255 then 255 else speed)
      in s\<lparr>requested_motion := motion,
           requested_speed := (if motion = MOTION_STOP then 0 else speed)\<rparr>)"

text \<open>One period of \<open>motor_control_task\<close>, from \<open>motor_lock\<close> to \<open>motor_unlock\<close>.\<close>

definition ramp :: "int \<Rightarrow> int \<Rightarrow> int" where
  "ramp target_speed cur =
     (if cur < target_speed then
        (let c = cur + MOTOR_ACCEL_STEP in if c > target_speed then target_speed else c)
      else if cur > target_speed then
        (let c = cur - MOTOR_DECEL_STEP in if c < target_speed then target_speed else c)
      else cur)"

definition motor_control_task :: "motor \<Rightarrow> motor" where
  "motor_control_task s =
     (let s1 = (if current_motion s \<noteq> requested_motion s \<and> current_speed s = 0
                then let s' = s\<lparr>current_motion := requested_motion s\<rparr>
                     in if current_motion s' \<noteq> MOTION_STOP
                        then emit (apply_motion_direction (current_motion s')) s' else s'
                else s);
          target_speed = (if current_motion s1 = requested_motion s1 then requested_speed s1 else 0);
          s2 = s1\<lparr>current_speed := ramp target_speed (current_speed s1)\<rparr>
      in if current_speed s2 \<le> 0 then emit stop_soft (s2\<lparr>current_speed := 0\<rparr>)
         else emit (motor_set_speed (current_speed s2) (current_speed s2) (current_speed s2)
                      (current_speed s2)) s2)"

section \<open>Messages\<close>

text \<open>The optional speed argument; \<open>None\<close> is a read past the end of the message buffer.\<close>

definition parse_speed_or_default :: "int \<Rightarrow> u8 list \<Rightarrow> motor \<Rightarrow> int option" where
  "parse_speed_or_default len val s =
     (if len \<ge> 5 then read_le32 val 1 \<bind> (\<lambda>v. Some (if v > 255 then 255 else uint v))
      else Some (configured_speed s))"

fun message_motion :: "int \<Rightarrow> motion_cmd option" where
  "message_motion t =
     (if t = 8 then Some MOTION_FORWARD
      else if t = 2 then Some MOTION_BACKWARD
      else if t = 4 then Some MOTION_LEFT
      else if t = 5 then Some MOTION_STOP
      else if t = 6 then Some MOTION_RIGHT
      else if t = 7 then Some MOTION_ROTATE_LEFT
      else if t = 9 then Some MOTION_ROTATE_RIGHT
      else None)"

definition apply_message :: "u8 \<Rightarrow> int \<Rightarrow> motor \<Rightarrow> motor" where
  "apply_message message_type speed s =
     (case message_motion (uint message_type) of
        Some MOTION_STOP \<Rightarrow> set_motion_target_locked MOTION_STOP 0 s
      | Some m \<Rightarrow> set_motion_target_locked m speed s
      | None \<Rightarrow>
          if message_type = 10 then
            (let s1 = s\<lparr>configured_speed := speed\<rparr>
             in if requested_motion s1 \<noteq> MOTION_STOP
                then s1\<lparr>requested_speed := configured_speed s1\<rparr> else s1)
          else s)"

definition HandleControlMessage :: "int \<Rightarrow> int \<Rightarrow> u8 list option \<Rightarrow> motor \<Rightarrow> motor option" where
  "HandleControlMessage now len val s =
     (case val of
        None \<Rightarrow> Some s
      | Some v \<Rightarrow>
          if len \<le> 0 then Some s
          else if v = [] then None
          else do {
            speed \<leftarrow> parse_speed_or_default len v s;
            if hd v = 66 then Some (emit [Esp_restart] s)
            else Some (emit [Gpio_set_level LED_LIGHT_ON]
                         ((apply_message (hd v) speed s)\<lparr>led_updated_time := now\<rparr>))
          })"

definition ControlMessageCallback :: "int \<Rightarrow> int \<Rightarrow> u8 list option \<Rightarrow> motor \<Rightarrow> motor option" where
  "ControlMessageCallback now len val = HandleControlMessage now len val"

definition CansbusControlMessageCallback :: "int \<Rightarrow> int \<Rightarrow> u8 list option \<Rightarrow> motor \<Rightarrow> motor option" where
  "CansbusControlMessageCallback now len val = HandleControlMessage now len val"

section \<open>Set-up and watchdog\<close>

definition SetUpLed :: "motor \<Rightarrow> motor" where
  "SetUpLed s = emit [Gpio_config, Gpio_set_level LED_LIGHT_OFF] s"

definition motor_pwm_init :: "hw_call list" where
  "motor_pwm_init = [Ledc_timer_config, Ledc_channel_config 0, Ledc_channel_config 1,
     Ledc_channel_config 2, Ledc_channel_config 3]"

text \<open>\<open>None\<close> is \<open>abort()\<close>: no mutex, or a failed \<open>ESP_ERROR_CHECK\<close>.\<close>

definition InitMotorMcp23017 :: "bool \<Rightarrow> bool \<Rightarrow> bool \<Rightarrow> motor \<Rightarrow> motor option" where
  "InitMotorMcp23017 mutex_ok i2cdev_ok desc_ok s =
     (if \<not> motor_lock_created s \<and> \<not> mutex_ok then None
      else if \<not> i2cdev_ok then None
      else if \<not> desc_ok then None
      else let s1 = emit ([I2cdev_init, Mcp_init_desc] @ map Mcp_set_mode_output [0..<9] @
                        set_motor_standby True @ motor_pwm_init @ stop_soft)
                      (s\<lparr>motor_lock_created := True\<rparr>)
           in Some (if motor_task_created s1 then s1
                    else emit [Create_motor_task] (s1\<lparr>motor_task_created := True\<rparr>)))"

definition UpdateLed :: "int \<Rightarrow> motor \<Rightarrow> motor" where
  "UpdateLed boottime_ms s =
     (if boottime_ms - led_updated_time s > NO_MESSAGE_STOP_DELAY
      then set_motion_target_locked MOTION_STOP 0
             (emit [Gpio_set_level LED_LIGHT_OFF] s\<lparr>led_updated_time := boottime_ms\<rparr>)
      else s)"


section \<open>The controller as a machine\<close>

datatype motor_event =
    Motor_tick
  | Can_message int int "u8 list option"
  | Ble_message int int "u8 list option"
  | Watchdog_poll int

fun motor_step :: "motor \<Rightarrow> motor_event \<Rightarrow> motor option" where
  "motor_step s Motor_tick = Some (motor_control_task s)"
| "motor_step s (Can_message now len val) = CansbusControlMessageCallback now len val s"
| "motor_step s (Ble_message now len val) = ControlMessageCallback now len val s"
| "motor_step s (Watchdog_poll now) = Some (UpdateLed now s)"

text \<open>Both transports hand over a buffer of at least \<open>len\<close> bytes, or a null pointer.\<close>

fun message_ok :: "int \<Rightarrow> u8 list option \<Rightarrow> bool" where
  "message_ok len None = True"
| "message_ok len (Some v) = (len \<le> int (length v))"

fun motor_event_ok :: "motor_event \<Rightarrow> bool" where
  "motor_event_ok (Can_message now len val) = message_ok len val"
| "motor_event_ok (Ble_message now len val) = message_ok len val"
| "motor_event_ok _ = True"

section \<open>What the hardware sees\<close>

text \<open>
  The duty last commanded on each PWM channel and the level last written to each pin of the port
  expander, read off the recorded calls.
\<close>

fun duty_after :: "(nat \<Rightarrow> int) \<Rightarrow> hw_call list \<Rightarrow> nat \<Rightarrow> int" where
  "duty_after d [] = d"
| "duty_after d (Ledc_set_duty ch v # cs) = duty_after (d(ch := v)) cs"
| "duty_after d (c # cs) = duty_after d cs"

fun level_after :: "(nat \<Rightarrow> nat) \<Rightarrow> hw_call list \<Rightarrow> nat \<Rightarrow> nat" where
  "level_after l [] = l"
| "level_after l (Mcp_set_level p v # cs) = level_after (l(p := v)) cs"
| "level_after l (c # cs) = level_after l cs"

text \<open>No direction pin is ever written while a wheel is driven.\<close>

fun reversal_safe :: "(nat \<Rightarrow> int) \<Rightarrow> hw_call list \<Rightarrow> bool" where
  "reversal_safe d [] = True"
| "reversal_safe d (Ledc_set_duty ch v # cs) = reversal_safe (d(ch := v)) cs"
| "reversal_safe d (Mcp_set_level p v # cs) =
     ((p = MOTOR_STBY_MCP_PIN \<or> list_all (\<lambda>ch. d ch = 0) [0, 1, 2, 3]) \<and> reversal_safe d cs)"
| "reversal_safe d (c # cs) = reversal_safe d cs"

lemma duty_after_append [simp]: "duty_after d (xs @ ys) = duty_after (duty_after d xs) ys"
proof (induction xs arbitrary: d)
  case Nil
  then show ?case by simp
next
  case (Cons c cs)
  then show ?case by (cases c) (simp_all add: fun_upd_def)
qed

lemma level_after_append [simp]: "level_after l (xs @ ys) = level_after (level_after l xs) ys"
proof (induction xs arbitrary: l)
  case Nil
  then show ?case by simp
next
  case (Cons c cs)
  then show ?case by (cases c) (simp_all add: fun_upd_def)
qed

lemma reversal_safe_append [simp]:
  "reversal_safe d (xs @ ys) \<longleftrightarrow> reversal_safe d xs \<and> reversal_safe (duty_after d xs) ys"
proof (induction xs arbitrary: d)
  case Nil
  then show ?case by simp
next
  case (Cons c cs)
  then show ?case by (cases c) (simp_all add: fun_upd_def)
qed

text \<open>Which wheels (A, B, C, D) turn forward in a motion: the mecanum table.\<close>

fun wheel_table :: "motion_cmd \<Rightarrow> bool list" where
  "wheel_table MOTION_FORWARD = [True, True, True, True]"
| "wheel_table MOTION_BACKWARD = [False, False, False, False]"
| "wheel_table MOTION_LEFT = [True, False, True, False]"
| "wheel_table MOTION_RIGHT = [False, True, False, True]"
| "wheel_table MOTION_ROTATE_LEFT = [True, False, False, True]"
| "wheel_table MOTION_ROTATE_RIGHT = [False, True, True, False]"
| "wheel_table MOTION_STOP = []"

text \<open>The two direction inputs of wheel \<open>w\<close> are pins \<open>2w+1\<close> and \<open>2w+2\<close>.\<close>

definition wheels_match :: "(nat \<Rightarrow> nat) \<Rightarrow> motion_cmd \<Rightarrow> bool" where
  "wheels_match l m \<longleftrightarrow>
     (let t = wheel_table m in
      list_all (\<lambda>w. l (2 * w + 1) = (if t ! w then 0 else 1) \<and> l (2 * w + 2) = (if t ! w then 1 else 0))
        [0..<length t])"

lemmas wheel_defs = forward_def backward_def turn_left_def turn_right_def rotate_left_m_def
  rotate_right_m_def set_motor_standby_def set_a_direction_def set_b_direction_def
  set_c_direction_def set_d_direction_def MOTOR_STBY_MCP_PIN_def

definition all_duties :: "(nat \<Rightarrow> int) \<Rightarrow> int \<Rightarrow> bool" where
  "all_duties d v \<longleftrightarrow> list_all (\<lambda>ch. d ch = v) [0, 1, 2, 3]"

lemma motor_set_speed_effect [simp]:
  "all_duties (duty_after d (motor_set_speed v v v v)) v"
  "level_after l (motor_set_speed a b c e) = l"
  "reversal_safe d (motor_set_speed a b c e)"
  by (simp_all add: motor_set_speed_def all_duties_def)

lemma apply_direction_effect:
  assumes "all_duties d 0"
  shows "reversal_safe d (apply_motion_direction m)"
    and "all_duties (duty_after d (apply_motion_direction m)) 0"
    and "wheels_match (level_after l (apply_motion_direction m)) m"
  using assms
  by (cases m; simp add: all_duties_def wheel_defs motor_set_speed_def wheels_match_def upt_rec)+

section \<open>The invariant\<close>

text \<open>The calls a started controller has made begin with the set-up, so all duties start at 0.\<close>

definition motor_duty :: "motor \<Rightarrow> nat \<Rightarrow> int" where
  "motor_duty s = duty_after (\<lambda>_. 0) (calls s)"

definition motor_level :: "motor \<Rightarrow> nat \<Rightarrow> nat" where
  "motor_level s = level_after (\<lambda>_. 0) (calls s)"

definition motor_inv :: "motor \<Rightarrow> bool" where
  "motor_inv s \<longleftrightarrow>
     0 \<le> current_speed s \<and> current_speed s \<le> 255 \<and>
     0 \<le> requested_speed s \<and> requested_speed s \<le> 255 \<and>
     0 \<le> configured_speed s \<and> configured_speed s \<le> 255 \<and>
     (requested_motion s = MOTION_STOP \<longrightarrow> requested_speed s = 0) \<and>
     (current_motion s = MOTION_STOP \<longrightarrow> current_speed s = 0) \<and>
     reversal_safe (\<lambda>_. 0) (calls s) \<and>
     all_duties (motor_duty s) (current_speed s) \<and>
     (current_motion s \<noteq> MOTION_STOP \<longrightarrow> wheels_match (motor_level s) (current_motion s))"

lemma motor_inv_initial: "motor_inv motor_initial"
  by (simp add: motor_inv_def motor_initial_def DEFAULT_MOTOR_SPEED_def motor_duty_def all_duties_def)

lemma motor_duty_emit [simp]: "motor_duty (emit cs s) = duty_after (motor_duty s) cs"
  by (simp add: motor_duty_def emit_def)

lemma motor_level_emit [simp]: "motor_level (emit cs s) = level_after (motor_level s) cs"
  by (simp add: motor_level_def emit_def)

lemma emit_sel [simp]:
  "requested_motion (emit cs s) = requested_motion s"
  "current_motion (emit cs s) = current_motion s"
  "requested_speed (emit cs s) = requested_speed s"
  "current_speed (emit cs s) = current_speed s"
  "configured_speed (emit cs s) = configured_speed s"
  "led_updated_time (emit cs s) = led_updated_time s"
  "calls (emit cs s) = calls s @ cs"
  by (simp_all add: emit_def)

lemma motor_hw_update [simp]:
  "motor_duty (s\<lparr>current_speed := v\<rparr>) = motor_duty s"
  "motor_duty (s\<lparr>current_motion := m\<rparr>) = motor_duty s"
  "motor_duty (s\<lparr>requested_motion := m\<rparr>) = motor_duty s"
  "motor_duty (s\<lparr>requested_speed := v\<rparr>) = motor_duty s"
  "motor_duty (s\<lparr>configured_speed := v\<rparr>) = motor_duty s"
  "motor_duty (s\<lparr>led_updated_time := t\<rparr>) = motor_duty s"
  "motor_level (s\<lparr>current_speed := v\<rparr>) = motor_level s"
  "motor_level (s\<lparr>current_motion := m\<rparr>) = motor_level s"
  "motor_level (s\<lparr>requested_motion := m\<rparr>) = motor_level s"
  "motor_level (s\<lparr>requested_speed := v\<rparr>) = motor_level s"
  "motor_level (s\<lparr>configured_speed := v\<rparr>) = motor_level s"
  "motor_level (s\<lparr>led_updated_time := t\<rparr>) = motor_level s"
  by (simp_all add: motor_duty_def motor_level_def)

lemma ramp_range: "0 \<le> t \<Longrightarrow> t \<le> 255 \<Longrightarrow> 0 \<le> c \<Longrightarrow> c \<le> 255 \<Longrightarrow> 0 \<le> ramp t c \<and> ramp t c \<le> 255"
  by (simp add: ramp_def Let_def MOTOR_ACCEL_STEP_def MOTOR_DECEL_STEP_def)

text \<open>The direction change at the start of a period, taken only at speed zero.\<close>

definition turn :: "motor \<Rightarrow> motor" where
  "turn s =
     (if current_motion s \<noteq> requested_motion s \<and> current_speed s = 0
      then let s' = s\<lparr>current_motion := requested_motion s\<rparr>
           in if current_motion s' \<noteq> MOTION_STOP
              then emit (apply_motion_direction (current_motion s')) s' else s'
      else s)"

definition target_speed :: "motor \<Rightarrow> int" where
  "target_speed s = (if current_motion s = requested_motion s then requested_speed s else 0)"

lemma motor_control_task_turn:
  "motor_control_task s =
     (let s1 = turn s; v = ramp (target_speed s1) (current_speed s1)
      in if v \<le> 0 then emit stop_soft (s1\<lparr>current_speed := 0\<rparr>)
         else emit (motor_set_speed v v v v) (s1\<lparr>current_speed := v\<rparr>))"
  by (simp add: motor_control_task_def turn_def target_speed_def Let_def)

lemma turn_inv:
  assumes "motor_inv s"
  shows "motor_inv (turn s)"
proof (cases "current_motion s \<noteq> requested_motion s \<and> current_speed s = 0")
  case True
  with assms have "all_duties (motor_duty s) 0" by (simp add: motor_inv_def)
  note eff = apply_direction_effect [OF this, where m = "requested_motion s"]
  from True assms eff show ?thesis
    by (simp add: turn_def motor_inv_def Let_def flip: motor_duty_def)
next
  case False
  then have "turn s = s" by (auto simp: turn_def)
  with assms show ?thesis by simp
qed

lemma target_speed_range: "motor_inv s \<Longrightarrow> 0 \<le> target_speed s \<and> target_speed s \<le> 255"
  by (simp add: target_speed_def motor_inv_def)

lemma motor_control_task_inv:
  assumes "motor_inv s"
  shows "motor_inv (motor_control_task s)"
proof -
  define s1 where "s1 = turn s"
  define v where "v = ramp (target_speed s1) (current_speed s1)"
  have i: "motor_inv s1" unfolding s1_def by (rule turn_inv [OF assms])
  then have "0 \<le> v \<and> v \<le> 255"
    unfolding v_def using ramp_range target_speed_range [OF i] by (simp add: motor_inv_def)
  moreover have "current_motion s1 = MOTION_STOP \<Longrightarrow> v = 0"
    using i by (auto simp: motor_inv_def v_def ramp_def target_speed_def)
  moreover have "motor_control_task s =
      emit (if v \<le> 0 then stop_soft else motor_set_speed v v v v) (s1\<lparr>current_speed := max 0 v\<rparr>)"
    by (auto simp: motor_control_task_turn Let_def s1_def v_def max_def)
  ultimately show ?thesis
    using i by (auto simp: motor_inv_def stop_soft_def max_def)
qed

lemma set_motion_target_locked_inv:
  "motor_inv s \<Longrightarrow> motor_inv (set_motion_target_locked m v s)"
  by (simp add: set_motion_target_locked_def motor_inv_def Let_def)

lemma emit_led_inv [simp]: "motor_inv (emit [Gpio_set_level v] s) \<longleftrightarrow> motor_inv s"
  by (simp add: motor_inv_def)

lemma emit_restart_inv [simp]: "motor_inv (emit [Esp_restart] s) \<longleftrightarrow> motor_inv s"
  by (simp add: motor_inv_def)

lemma led_time_inv [simp]: "motor_inv (s\<lparr>led_updated_time := t\<rparr>) \<longleftrightarrow> motor_inv s"
  by (simp add: motor_inv_def)

lemma parse_speed_range:
  assumes "motor_inv s" "parse_speed_or_default len v s = Some sp"
  shows "0 \<le> sp \<and> sp \<le> 255"
proof (cases "len \<ge> 5")
  case True
  with assms obtain w where w: "sp = (if w > 255 then 255 else uint (w :: u32))"
    by (fastforce simp: parse_speed_or_default_def split: Option.bind_splits)
  have "\<not> w > 255 \<Longrightarrow> uint w \<le> 255"
    by (simp add: word_less_def)
  then show ?thesis by (simp add: w)
next
  case False
  with assms show ?thesis by (simp add: parse_speed_or_default_def motor_inv_def)
qed

lemma apply_message_inv:
  assumes "motor_inv s" "0 \<le> sp" "sp \<le> 255"
  shows "motor_inv (apply_message t sp s)"
proof -
  have "motor_inv (s\<lparr>configured_speed := sp\<rparr>)" using assms by (simp add: motor_inv_def)
  moreover have "requested_motion s \<noteq> MOTION_STOP \<Longrightarrow>
      motor_inv (s\<lparr>configured_speed := sp, requested_speed := sp\<rparr>)"
    using assms by (simp add: motor_inv_def)
  ultimately show ?thesis
    using assms(1)
    by (auto simp: apply_message_def Let_def set_motion_target_locked_inv
        split: option.split motion_cmd.split)
qed

lemma HandleControlMessage_inv:
  assumes "motor_inv s" "HandleControlMessage now len val s = Some s'"
  shows "motor_inv s'"
  using assms parse_speed_range [OF assms(1)]
  by (fastforce simp: HandleControlMessage_def apply_message_inv
      split: option.splits if_splits Option.bind_splits)

lemma HandleControlMessage_total:
  assumes "message_ok len val"
  shows "\<exists>s'. HandleControlMessage now len val s = Some s'"
proof (cases val)
  case None
  then show ?thesis by (simp add: HandleControlMessage_def)
next
  case (Some v)
  with assms have "len \<ge> 5 \<Longrightarrow> \<exists>w. read_le32 v 1 = Some w"
    by (intro read_le32_total) simp
  with Some assms show ?thesis
    by (cases "len \<ge> 5") (auto simp: HandleControlMessage_def parse_speed_or_default_def)
qed

lemma UpdateLed_inv: "motor_inv s \<Longrightarrow> motor_inv (UpdateLed t s)"
  by (simp add: UpdateLed_def set_motion_target_locked_inv)

lemma motor_step_inv: "motor_inv s \<Longrightarrow> motor_step s e = Some s' \<Longrightarrow> motor_inv s'"
  by (cases e) (auto simp: motor_control_task_inv UpdateLed_inv HandleControlMessage_inv
      ControlMessageCallback_def CansbusControlMessageCallback_def)

lemma motor_step_total: "motor_event_ok e \<Longrightarrow> \<exists>s'. motor_step s e = Some s'"
  by (cases e) (auto simp: HandleControlMessage_total
      ControlMessageCallback_def CansbusControlMessageCallback_def)

interpretation motor: event_machine motor_step motor_inv motor_event_ok
  by unfold_locales (auto intro: motor_step_inv motor_step_total)

section \<open>Speed profile\<close>

lemma motor_control_task_requests [simp]:
  "requested_motion (motor_control_task s) = requested_motion s"
  "requested_speed (motor_control_task s) = requested_speed s"
  by (simp_all add: motor_control_task_def Let_def)

lemma motor_control_task_matched:
  assumes "motor_inv s" "current_motion s = requested_motion s"
  shows "current_motion (motor_control_task s) = requested_motion s"
    and "current_speed (motor_control_task s) = ramp (requested_speed s) (current_speed s)"
  using assms
  by (auto simp: motor_control_task_def Let_def motor_inv_def ramp_def MOTOR_ACCEL_STEP_def)

lemma motor_control_task_brake:
  assumes "motor_inv s" "current_motion s \<noteq> requested_motion s" "current_speed s > 0"
  shows "current_motion (motor_control_task s) = current_motion s"
    and "current_speed (motor_control_task s) = max 0 (current_speed s - 12)"
  using assms
  by (auto simp: motor_control_task_def Let_def motor_inv_def ramp_def MOTOR_DECEL_STEP_def)

lemma motor_control_task_turn_round:
  assumes "motor_inv s" "current_motion s \<noteq> requested_motion s" "current_speed s = 0"
  shows "current_motion (motor_control_task s) = requested_motion s"
    and "current_speed (motor_control_task s) = ramp (requested_speed s) 0"
  using assms
  by (auto simp: motor_control_task_def Let_def motor_inv_def ramp_def MOTOR_ACCEL_STEP_def)

text \<open>The number of control periods that are still needed to reach the request.\<close>

definition periods_left :: "motor \<Rightarrow> nat" where
  "periods_left s =
     (let c = current_speed s; r = requested_speed s in
      if current_motion s = requested_motion s then
        (if c \<le> r then nat ((r - c + 7) div 8) else nat ((c - r + 11) div 12))
      else nat ((c + 11) div 12) + max 1 (nat ((r + 7) div 8)))"

definition settled :: "motor \<Rightarrow> bool" where
  "settled s \<longleftrightarrow> current_motion s = requested_motion s \<and> current_speed s = requested_speed s"

lemma periods_left_zero: "periods_left s = 0 \<Longrightarrow> settled s"
  by (auto simp: periods_left_def settled_def Let_def split: if_splits)

lemma periods_left_bound: "motor_inv s \<Longrightarrow> periods_left s \<le> 54"
  by (auto simp: periods_left_def motor_inv_def Let_def)

lemma settled_stable: "motor_inv s \<Longrightarrow> settled s \<Longrightarrow> settled (motor_control_task s)"
  using motor_control_task_matched [of s] by (simp add: settled_def ramp_def)

lemma less_step: "(a :: nat) + 1 \<le> b \<Longrightarrow> a + m \<le> b + m - 1"
  by simp

lemma brake_periods:
  fixes c :: int
  assumes "0 < c"
  shows "nat ((max 0 (c - 12) + 11) div 12) + 1 \<le> nat ((c + 11) div 12)"
proof -
  have "(c + 11) div 12 = (c - 12 + 11) div 12 + 1" by linarith
  moreover have "1 \<le> (c + 11) div 12" using assms by linarith
  moreover have "12 \<le> c \<Longrightarrow> 0 \<le> (c - 12 + 11) div 12" by linarith
  ultimately show ?thesis by (cases "12 \<le> c") (simp_all add: max_def)
qed

lemma periods_left_decreases:
  assumes "motor_inv s" "periods_left s > 0"
  shows "periods_left (motor_control_task s) \<le> periods_left s - 1"
proof -
  from assms(1) have r: "0 \<le> current_speed s" "0 \<le> requested_speed s" by (simp_all add: motor_inv_def)
  consider (matched) "current_motion s = requested_motion s"
    | (brake) "current_motion s \<noteq> requested_motion s" "current_speed s > 0"
    | (round) "current_motion s \<noteq> requested_motion s" "current_speed s = 0"
    using r by linarith
  then show ?thesis
  proof cases
    case matched
    with motor_control_task_matched [OF assms(1)] assms r show ?thesis
      by (auto simp: periods_left_def Let_def ramp_def MOTOR_ACCEL_STEP_def MOTOR_DECEL_STEP_def)
  next
    case brake
    let ?m = "max 1 (nat ((requested_speed s + 7) div 8))"
    have a: "periods_left (motor_control_task s) = nat ((max 0 (current_speed s - 12) + 11) div 12) + ?m"
      using motor_control_task_brake [OF assms(1) brake] brake(1)
      by (simp only: periods_left_def Let_def motor_control_task_requests if_False)
    have b: "periods_left s = nat ((current_speed s + 11) div 12) + ?m"
      using brake(1) by (simp only: periods_left_def Let_def if_False)
    show ?thesis unfolding a b by (rule less_step [OF brake_periods [OF brake(2)]])
  next
    case round
    with motor_control_task_turn_round [OF assms(1) round] r show ?thesis
      by (auto simp: periods_left_def Let_def ramp_def MOTOR_ACCEL_STEP_def)
  qed
qed

definition motor_ticks :: "nat \<Rightarrow> motor \<Rightarrow> motor" where
  "motor_ticks n s = (motor_control_task ^^ n) s"

lemma motor_ticks_simps [simp]:
  "motor_ticks 0 s = s"
  "motor_ticks (Suc n) s = motor_ticks n (motor_control_task s)"
  by (simp_all add: motor_ticks_def funpow_Suc_right del: funpow.simps(2))

lemma motor_ticks_inv: "motor_inv s \<Longrightarrow> motor_inv (motor_ticks n s)"
  by (induction n arbitrary: s) (simp_all add: motor_control_task_inv)

lemma motor_ticks_settle:
  "motor_inv s \<Longrightarrow> periods_left s \<le> n \<Longrightarrow> settled (motor_ticks n s)"
proof (induction n arbitrary: s)
  case 0
  then show ?case by (simp add: periods_left_zero)
next
  case (Suc n)
  have "periods_left (motor_control_task s) \<le> n \<or> settled (motor_control_task s)"
    using Suc.prems periods_left_decreases [of s] settled_stable [of s] periods_left_zero [of s]
    by (cases "periods_left s = 0") auto
  moreover have "settled t \<Longrightarrow> motor_inv t \<Longrightarrow> settled (motor_ticks k t)" for k t
    by (induction k arbitrary: t) (auto simp: settled_stable motor_control_task_inv)
  ultimately show ?case
    using Suc motor_control_task_inv by (metis motor_ticks_simps(2))
qed

lemma motor_ticks_requests [simp]:
  "requested_motion (motor_ticks n s) = requested_motion s"
  "requested_speed (motor_ticks n s) = requested_speed s"
  by (induction n arbitrary: s) auto

lemma periods_left_stop: "motor_inv s \<Longrightarrow> requested_motion s = MOTION_STOP \<Longrightarrow> periods_left s \<le> 23"
  by (auto simp: periods_left_def motor_inv_def Let_def)

lemma started_controller_inv:
  assumes "InitMotorMcp23017 m i d (SetUpLed motor_initial) = Some s"
  shows "motor_inv s"
  using assms
  by (auto simp: InitMotorMcp23017_def SetUpLed_def Let_def motor_initial_def motor_inv_def
      motor_duty_def motor_level_def emit_def all_duties_def motor_pwm_init_def stop_soft_def
      motor_set_speed_def set_motor_standby_def MOTOR_STBY_MCP_PIN_def DEFAULT_MOTOR_SPEED_def
      upt_rec split: if_splits)

section \<open>Properties\<close>

text \<open>
  C2. Safety of every run. From a successful start-up, any interleaving of control periods, CAN
  and BLE messages and watchdog polls runs without a fault; on the way no direction pin is
  written while a wheel is driven, and in the end all four duties equal the current speed, which
  is within 0..255, and the direction pins show the mecanum pattern of the current motion.
\<close>

theorem motor_run_safe:
  assumes start: "InitMotorMcp23017 m i d (SetUpLed motor_initial) = Some s0"
    and ok: "list_all motor_event_ok es"
  shows "\<exists>s. run_events motor_step s0 es = Some s \<and>
           reversal_safe (\<lambda>_. 0) (calls s) \<and>
           0 \<le> current_speed s \<and> current_speed s \<le> 255 \<and>
           all_duties (motor_duty s) (current_speed s) \<and>
           (current_motion s \<noteq> MOTION_STOP \<longrightarrow> wheels_match (motor_level s) (current_motion s))"
  using motor.run_total [OF started_controller_inv [OF start] ok] by (auto simp: motor_inv_def)

theorem motor_run_safe_witness:
  "\<exists>s0 s. InitMotorMcp23017 True True True (SetUpLed motor_initial) = Some s0 \<and>
     run_events motor_step s0
       [Can_message 5 5 (Some [8, 100, 0, 0, 0]), Motor_tick, Ble_message 9 1 (Some [2]), Motor_tick]
       = Some s \<and> reversal_safe (\<lambda>_. 0) (calls s)"
proof -
  obtain s0 where s0: "InitMotorMcp23017 True True True (SetUpLed motor_initial) = Some s0"
    by (simp add: InitMotorMcp23017_def Let_def)
  have ok: "list_all motor_event_ok
      [Can_message 5 5 (Some [8, 100, 0, 0, 0]), Motor_tick, Ble_message 9 1 (Some [2]), Motor_tick]"
    by simp
  from motor_run_safe [OF s0 ok] s0 show ?thesis by blast
qed

text \<open>
  C27. Convergence. Without further messages the controller reaches every request within 54
  control periods (1.08 s): the motion asked for, at the speed asked for; a stop within 23.
\<close>

theorem motor_reaches_request:
  assumes "motor_inv s"
  shows "settled (motor_ticks 54 s) \<and>
         (requested_motion s = MOTION_STOP \<longrightarrow>
            current_motion (motor_ticks 23 s) = MOTION_STOP \<and> current_speed (motor_ticks 23 s) = 0)"
proof -
  have "requested_motion s = MOTION_STOP \<Longrightarrow> settled (motor_ticks 23 s)"
    using motor_ticks_settle [OF assms periods_left_stop [OF assms]] .
  moreover have "requested_motion s = MOTION_STOP \<Longrightarrow> requested_speed s = 0"
    using assms by (simp add: motor_inv_def)
  ultimately show ?thesis
    using motor_ticks_settle [OF assms periods_left_bound [OF assms]] by (auto simp: settled_def)
qed

theorem motor_reaches_request_witness:
  "settled (motor_ticks 54 (set_motion_target_locked MOTION_LEFT 300 motor_initial))"
  using motor_reaches_request [OF set_motion_target_locked_inv [OF motor_inv_initial]] by blast

text \<open>
  Smooth ramps. In one control period the speed rises by at most 8 and falls by at most 12,
  and it never overshoots the target of that period.
\<close>

theorem motor_slew_limited:
  assumes "motor_inv s"
  shows "current_speed (motor_control_task s) - current_speed s \<le> 8 \<and>
         current_speed s - current_speed (motor_control_task s) \<le> 12 \<and>
         (current_motion (motor_control_task s) = requested_motion s \<longrightarrow>
            current_speed (motor_control_task s) \<le> max (current_speed s) (requested_speed s)) \<and>
         (current_motion (motor_control_task s) \<noteq> current_motion s \<longrightarrow> current_speed s = 0)"
proof -
  from assms have r: "0 \<le> current_speed s" "0 \<le> requested_speed s" by (simp_all add: motor_inv_def)
  consider "current_motion s = requested_motion s"
    | "current_motion s \<noteq> requested_motion s" "current_speed s > 0"
    | "current_motion s \<noteq> requested_motion s" "current_speed s = 0"
    using r by linarith
  then show ?thesis
    using motor_control_task_matched [OF assms] motor_control_task_brake [OF assms]
      motor_control_task_turn_round [OF assms] r
    by cases (auto simp: ramp_def Let_def MOTOR_ACCEL_STEP_def MOTOR_DECEL_STEP_def)
qed

theorem motor_slew_limited_witness:
  "current_speed (motor_control_task (set_motion_target_locked MOTION_LEFT 300 motor_initial)) -
   current_speed (set_motion_target_locked MOTION_LEFT 300 motor_initial) \<le> 8"
  using motor_slew_limited [OF set_motion_target_locked_inv [OF motor_inv_initial]] by blast

text \<open>
  C28. Dead-man stop. When more than a second has passed since the last message, the next poll
  requests a stop and switches the LED off, and 23 control periods later the platform stands,
  with all duties at zero.
\<close>

theorem motor_watchdog_stops:
  assumes "motor_inv s" and "now > led_updated_time s + 1000000"
  shows "requested_motion (UpdateLed now s) = MOTION_STOP \<and>
         last (calls (UpdateLed now s)) = Gpio_set_level LED_LIGHT_OFF \<and>
         current_speed (motor_ticks 23 (UpdateLed now s)) = 0 \<and>
         all_duties (motor_duty (motor_ticks 23 (UpdateLed now s))) 0"
proof -
  define t where "t = UpdateLed now s"
  have t: "requested_motion t = MOTION_STOP" "last (calls t) = Gpio_set_level LED_LIGHT_OFF"
    using assms(2)
    by (simp_all add: t_def UpdateLed_def set_motion_target_locked_def NO_MESSAGE_STOP_DELAY_def)
  have i: "motor_inv t" unfolding t_def by (rule UpdateLed_inv [OF assms(1)])
  then have r: "requested_speed t = 0" using t by (simp add: motor_inv_def)
  have "settled (motor_ticks 23 t)"
    by (rule motor_ticks_settle [OF i periods_left_stop [OF i t(1)]])
  then have z: "current_speed (motor_ticks 23 t) = 0" using r by (simp add: settled_def)
  have "all_duties (motor_duty (motor_ticks 23 t)) (current_speed (motor_ticks 23 t))"
    using motor_ticks_inv [OF i, of 23] by (simp only: motor_inv_def)
  with t z show ?thesis by (simp add: t_def)
qed

theorem motor_watchdog_stops_witness:
  "requested_motion (UpdateLed 1000001 (set_motion_target_locked MOTION_LEFT 9 motor_initial)) = MOTION_STOP"
  using motor_watchdog_stops [OF set_motion_target_locked_inv [OF motor_inv_initial],
      of MOTION_LEFT 9 1000001]
  by (simp add: set_motion_target_locked_def motor_initial_def)

end
