(* ===== verification/Servo_Control.thy ===== *)
theory Servo_Control
  imports Can_Bus
begin

text \<open>
  The pan/tilt controller (\<open>IDF_esp32c3_servo_control/main/servo_control.c\<close>): angles and PWM
  duties, the CAN message handler and the idle power-save task. PWM calls are recorded in
  \<open>servo_calls\<close>; \<open>ok\<close> says which of them the driver accepts, and a refused one aborts
  (\<open>ESP_ERROR_CHECK\<close>), which is the result \<open>None\<close>.
\<close>

section \<open>State\<close>

datatype servo_call =
    Servo_set_duty nat u32
  | Servo_update_duty nat
  | Servo_ledc_stop nat nat
  | Servo_timer_config
  | Servo_channel_config nat int
  | Servo_create_task

record servo =
  lr_angle :: int
  ud_angle :: int
  initialized :: bool
  output_enabled :: bool
  servo_lock_created :: bool
  power_save_task_created :: bool
  last_activity_us :: int
  servo_calls :: "servo_call list"

definition CMD_SERVO_DOWN :: u8 where "CMD_SERVO_DOWN = 12"
definition CMD_SERVO_LEFT :: u8 where "CMD_SERVO_LEFT = 14"
definition CMD_SERVO_STOP :: u8 where "CMD_SERVO_STOP = 15"
definition CMD_SERVO_RIGHT :: u8 where "CMD_SERVO_RIGHT = 16"
definition CMD_SERVO_UP :: u8 where "CMD_SERVO_UP = 18"

lemmas servo_cmds = CMD_SERVO_DOWN_def CMD_SERVO_LEFT_def CMD_SERVO_STOP_def CMD_SERVO_RIGHT_def
  CMD_SERVO_UP_def

definition SERVO_MIN_ANGLE :: int where "SERVO_MIN_ANGLE = 0"
definition SERVO_MAX_ANGLE :: int where "SERVO_MAX_ANGLE = 180"
definition SERVO_INIT_ANGLE :: int where "SERVO_INIT_ANGLE = 90"
definition SERVO_MIN_PULSE_US :: u32 where "SERVO_MIN_PULSE_US = 500"
definition SERVO_MAX_PULSE_US :: u32 where "SERVO_MAX_PULSE_US = 2500"
definition SERVO_PWM_FREQ_HZ :: u32 where "SERVO_PWM_FREQ_HZ = 50"
definition SERVO_PWM_RES :: nat where "SERVO_PWM_RES = 14"
definition SERVO_IDLE_POWER_SAVE_TIMEOUT_MS :: int where "SERVO_IDLE_POWER_SAVE_TIMEOUT_MS = 3000"
definition SERVO_LR_INVERT :: bool where "SERVO_LR_INVERT = True"
definition SERVO_UD_INVERT :: bool where "SERVO_UD_INVERT = True"

definition servo_initial :: servo where
  "servo_initial =
     \<lparr>lr_angle = SERVO_INIT_ANGLE, ud_angle = SERVO_INIT_ANGLE, initialized = False,
      output_enabled = False, servo_lock_created = False, power_save_task_created = False,
      last_activity_us = 0, servo_calls = []\<rparr>"

section \<open>Angles and duties\<close>

definition signed_step :: "int \<Rightarrow> bool \<Rightarrow> int" where
  "signed_step stp invert = (if invert then - stp else stp)"

text \<open>All arithmetic is on \<open>uint32_t\<close>, wrap-around included.\<close>

definition angle_to_duty :: "int \<Rightarrow> u32" where
  "angle_to_duty angle =
     (let angle = (if angle < SERVO_MIN_ANGLE then SERVO_MIN_ANGLE
                   else if angle > SERVO_MAX_ANGLE then SERVO_MAX_ANGLE else angle);
          max_duty = push_bit SERVO_PWM_RES 1 - 1 :: u32;
          pulse_us = SERVO_MIN_PULSE_US +
            word_of_int (angle - SERVO_MIN_ANGLE) * (SERVO_MAX_PULSE_US - SERVO_MIN_PULSE_US) div
            word_of_int (SERVO_MAX_ANGLE - SERVO_MIN_ANGLE);
          duty = (pulse_us * SERVO_PWM_FREQ_HZ * (max_duty + 1)) div 1000000
      in if duty > max_duty then max_duty else duty)"

definition checked :: "(servo_call \<Rightarrow> bool) \<Rightarrow> servo_call \<Rightarrow> servo \<Rightarrow> servo option" where
  "checked ok c s = (if ok c then Some (s\<lparr>servo_calls := servo_calls s @ [c]\<rparr>) else None)"

definition set_servo_angle :: "(servo_call \<Rightarrow> bool) \<Rightarrow> nat \<Rightarrow> int \<Rightarrow> servo \<Rightarrow> servo option" where
  "set_servo_angle ok channel angle s = do {
     s1 \<leftarrow> checked ok (Servo_set_duty channel (angle_to_duty angle)) s;
     checked ok (Servo_update_duty channel) s1
   }"

definition set_servo_output_enabled :: "(servo_call \<Rightarrow> bool) \<Rightarrow> bool \<Rightarrow> servo \<Rightarrow> servo option" where
  "set_servo_output_enabled ok en s =
     (if en = output_enabled s then Some s
      else if en then do {
        s1 \<leftarrow> set_servo_angle ok 0 (lr_angle s) s;
        s2 \<leftarrow> set_servo_angle ok 1 (ud_angle s1) s1;
        Some (s2\<lparr>output_enabled := True\<rparr>)
      }
      else do {
        s1 \<leftarrow> checked ok (Servo_ledc_stop 0 0) s;
        s2 \<leftarrow> checked ok (Servo_ledc_stop 1 0) s1;
        Some (s2\<lparr>output_enabled := False\<rparr>)
      })"

definition note_servo_activity_locked :: "int \<Rightarrow> servo \<Rightarrow> servo" where
  "note_servo_activity_locked now s = s\<lparr>last_activity_us := now\<rparr>"

section \<open>The tasks\<close>

text \<open>One period of the power-save task at time \<open>now\<close>.\<close>

definition servo_idle_power_save_task :: "(servo_call \<Rightarrow> bool) \<Rightarrow> int \<Rightarrow> servo \<Rightarrow> servo option" where
  "servo_idle_power_save_task ok now s =
     (if initialized s \<and> output_enabled s then
        (let idle_us = now - last_activity_us s
         in if idle_us \<ge> SERVO_IDLE_POWER_SAVE_TIMEOUT_MS * 1000
            then set_servo_output_enabled ok False s else Some s)
      else Some s)"

text \<open>\<open>None\<close> is a read past the end of the message buffer.\<close>

definition decode_step :: "u8 list option \<Rightarrow> int \<Rightarrow> int option" where
  "decode_step buf dlc =
     (if dlc < 5 then Some 3
      else case buf of
             None \<Rightarrow> Some 3
           | Some d \<Rightarrow> read_le32 d 1 \<bind> (\<lambda>val.
               Some (if val = 0 then 3 else if val > 20 then 20 else uint val)))"

definition servo_control_init ::
  "(servo_call \<Rightarrow> bool) \<Rightarrow> bool \<Rightarrow> int \<Rightarrow> int \<Rightarrow> int \<Rightarrow> servo \<Rightarrow> servo option" where
  "servo_control_init ok mutex_ok now pin_left_right pin_up_down s =
     (if \<not> servo_lock_created s \<and> \<not> mutex_ok then None
      else do {
        s1 \<leftarrow> checked ok Servo_timer_config (s\<lparr>servo_lock_created := True\<rparr>);
        s2 \<leftarrow> checked ok (Servo_channel_config 0 pin_left_right) s1;
        s3 \<leftarrow> checked ok (Servo_channel_config 1 pin_up_down) s2;
        s4 \<leftarrow> set_servo_output_enabled ok True s3;
        let s5 = (note_servo_activity_locked now s4)\<lparr>initialized := True\<rparr>;
        Some (if power_save_task_created s5 then s5
              else s5\<lparr>power_save_task_created := True, servo_calls := servo_calls s5 @ [Servo_create_task]\<rparr>)
      })"

text \<open>The angle update of a movement command; \<open>None\<close> for every other command.\<close>

definition move_servo :: "u8 \<Rightarrow> int \<Rightarrow> servo \<Rightarrow> servo option" where
  "move_servo cmd stp s =
     (if cmd = CMD_SERVO_UP then Some (s\<lparr>ud_angle := ud_angle s + signed_step stp SERVO_UD_INVERT\<rparr>)
      else if cmd = CMD_SERVO_DOWN then Some (s\<lparr>ud_angle := ud_angle s - signed_step stp SERVO_UD_INVERT\<rparr>)
      else if cmd = CMD_SERVO_LEFT then Some (s\<lparr>lr_angle := lr_angle s - signed_step stp SERVO_LR_INVERT\<rparr>)
      else if cmd = CMD_SERVO_RIGHT then Some (s\<lparr>lr_angle := lr_angle s + signed_step stp SERVO_LR_INVERT\<rparr>)
      else None)"

definition limit_angles :: "servo \<Rightarrow> servo" where
  "limit_angles s =
     (let s1 = (if lr_angle s < SERVO_MIN_ANGLE then s\<lparr>lr_angle := SERVO_MIN_ANGLE\<rparr>
                else if lr_angle s > SERVO_MAX_ANGLE then s\<lparr>lr_angle := SERVO_MAX_ANGLE\<rparr> else s)
      in if ud_angle s1 < SERVO_MIN_ANGLE then s1\<lparr>ud_angle := SERVO_MIN_ANGLE\<rparr>
         else if ud_angle s1 > SERVO_MAX_ANGLE then s1\<lparr>ud_angle := SERVO_MAX_ANGLE\<rparr> else s1)"

definition servo_control_canbus_message_handler ::
  "(servo_call \<Rightarrow> bool) \<Rightarrow> int \<Rightarrow> int \<Rightarrow> u8 list option \<Rightarrow> servo \<Rightarrow> servo option" where
  "servo_control_canbus_message_handler ok now dlc buf s =
     (case buf of
        None \<Rightarrow> Some s
      | Some d \<Rightarrow>
          if \<not> initialized s \<or> dlc \<le> 0 then Some s
          else if d = [] then None
          else do {
            let cmd = hd d;
            stp \<leftarrow> decode_step (Some d) dlc;
            (case move_servo cmd stp s of
               Some _ \<Rightarrow> do {
                 s1 \<leftarrow> set_servo_output_enabled ok True s;
                 s2 \<leftarrow> move_servo cmd stp s1;
                 let s3 = limit_angles (note_servo_activity_locked now s2);
                 s4 \<leftarrow> set_servo_angle ok 0 (lr_angle s3) s3;
                 set_servo_angle ok 1 (ud_angle s4) s4
               }
             | None \<Rightarrow>
                 if cmd = CMD_SERVO_STOP then do {
                   s1 \<leftarrow> set_servo_angle ok 0 (lr_angle s) s;
                   set_servo_angle ok 1 (ud_angle s1) s1
                 }
                 else Some s)
          })"

section \<open>Duties: the 32-bit arithmetic is exact\<close>

text \<open>The pulse width and the duty over the natural numbers.\<close>

definition duty_spec :: "int \<Rightarrow> nat" where
  "duty_spec angle = (500 + nat (saturate 0 180 angle) * 2000 div 180) * 819200 div 1000000"

lemma duty_spec_range: "409 \<le> duty_spec a \<and> duty_spec a \<le> 2048"
proof -
  have "nat (saturate 0 180 a) * 2000 div 180 \<le> 180 * 2000 div 180"
    by (rule div_le_mono, rule mult_le_mono1) (auto simp: saturate_def)
  then have p: "500 + nat (saturate 0 180 a) * 2000 div 180 \<le> 2500" by simp
  have "(500 + nat (saturate 0 180 a) * 2000 div 180) * 819200 div 1000000 \<le> 2500 * 819200 div 1000000"
    by (rule div_le_mono, rule mult_le_mono1) (rule p)
  moreover have "500 * 819200 div 1000000 \<le> (500 + nat (saturate 0 180 a) * 2000 div 180) * 819200 div 1000000"
    by (rule div_le_mono) simp
  ultimately show ?thesis by (simp add: duty_spec_def)
qed

lemma angle_to_duty_exact: "unat (angle_to_duty a) = duty_spec a"
proof -
  define n where "n = nat (saturate 0 180 a)"
  have n: "n \<le> 180" by (auto simp: n_def saturate_def)
  have sat: "(if a < SERVO_MIN_ANGLE then SERVO_MIN_ANGLE
       else if a > SERVO_MAX_ANGLE then SERVO_MAX_ANGLE else a) = int n"
    by (simp add: n_def saturate_def SERVO_MIN_ANGLE_def SERVO_MAX_ANGLE_def)
  define p :: nat where "p = 500 + n * 2000 div 180"
  have "n * 2000 div 180 \<le> 180 * 2000 div 180" by (rule div_le_mono) (use n in simp)
  then have p: "p \<le> 2500" by (simp add: p_def)
  have m: "unat (word_of_nat n * 2000 :: u32) = n * 2000"
    using n by (simp add: unat_word_ariths unat_of_nat)
  have pulse: "unat (SERVO_MIN_PULSE_US + word_of_int (int n - SERVO_MIN_ANGLE) * (SERVO_MAX_PULSE_US - SERVO_MIN_PULSE_US) div
      word_of_int (SERVO_MAX_ANGLE - SERVO_MIN_ANGLE)) = p"
    using n p m by (simp add: SERVO_MIN_PULSE_US_def SERVO_MAX_PULSE_US_def SERVO_MIN_ANGLE_def SERVO_MAX_ANGLE_def
       unat_word_ariths(1) unat_div p_def)
  define w :: u32 where "w = SERVO_MIN_PULSE_US + word_of_int (int n - SERVO_MIN_ANGLE) * (SERVO_MAX_PULSE_US - SERVO_MIN_PULSE_US) div
      word_of_int (SERVO_MAX_ANGLE - SERVO_MIN_ANGLE)"
  have w: "unat w = p" unfolding w_def by (rule pulse)
  have d: "unat (w * SERVO_PWM_FREQ_HZ * 16384 div 1000000) = p * 819200 div 1000000"
    using p by (simp add: unat_div unat_word_ariths(2) w SERVO_PWM_FREQ_HZ_def)
  have "p * 819200 div 1000000 = duty_spec a" by (simp add: duty_spec_def p_def n_def)
  with duty_spec_range [of a] d have le: "\<not> w * SERVO_PWM_FREQ_HZ * 16384 div 1000000 > 16383"
    by (simp add: word_less_nat_alt)
  have "angle_to_duty a = w * SERVO_PWM_FREQ_HZ * 16384 div 1000000"
    using le unfolding angle_to_duty_def sat w_def [symmetric] Let_def SERVO_PWM_RES_def by (simp add: push_bit_eq_mult)
  with d show ?thesis by (simp add: duty_spec_def p_def n_def)
qed

section \<open>Handlers\<close>

lemma checked_Some [simp]:
  "checked ok c s = Some s' \<longleftrightarrow> ok c \<and> s' = s\<lparr>servo_calls := servo_calls s @ [c]\<rparr>"
  by (auto simp: checked_def)

text \<open>The calls that put an angle on a channel.\<close>

definition angle_calls :: "nat \<Rightarrow> int \<Rightarrow> servo_call list" where
  "angle_calls ch a = [Servo_set_duty ch (angle_to_duty a), Servo_update_duty ch]"

lemma set_servo_angle_Some [simp]:
  "set_servo_angle ok ch a s = Some s' \<longleftrightarrow>
     list_all ok (angle_calls ch a) \<and> s' = s\<lparr>servo_calls := servo_calls s @ angle_calls ch a\<rparr>"
  by (auto simp: set_servo_angle_def angle_calls_def bind_eq_Some_conv)

definition both_angles :: "servo \<Rightarrow> servo_call list" where
  "both_angles s = angle_calls 0 (lr_angle s) @ angle_calls 1 (ud_angle s)"

lemma set_servo_output_enabled_Some:
  "set_servo_output_enabled ok en s = Some s' \<Longrightarrow>
     lr_angle s' = lr_angle s \<and> ud_angle s' = ud_angle s \<and> initialized s' = initialized s \<and>
     last_activity_us s' = last_activity_us s \<and> output_enabled s' = en \<and>
     servo_calls s' = servo_calls s @
       (if en = output_enabled s then [] else if en then both_angles s
        else [Servo_ledc_stop 0 0, Servo_ledc_stop 1 0])"
  by (auto simp: set_servo_output_enabled_def both_angles_def bind_eq_Some_conv split: if_splits)

lemma limit_angles_saturate:
  "limit_angles s = s\<lparr>lr_angle := saturate 0 180 (lr_angle s), ud_angle := saturate 0 180 (ud_angle s)\<rparr>"
  by (simp add: limit_angles_def Let_def saturate_def SERVO_MIN_ANGLE_def SERVO_MAX_ANGLE_def)

lemma decode_step_range: "decode_step buf dlc = Some k \<Longrightarrow> 1 \<le> k \<and> k \<le> 20"
proof -
  assume a: "decode_step buf dlc = Some k"
  have "1 \<le> uint v \<and> uint v \<le> 20" if "v \<noteq> 0" "\<not> v > 20" for v :: u32
  proof -
    have "uint v \<noteq> 0" using that(1) by (simp add: uint_0_iff)
    moreover have "uint v \<le> 20" using that(2) by (simp add: word_less_def)
    ultimately show ?thesis using uint_ge_0 [of v] by linarith
  qed
  with a show ?thesis
    by (fastforce simp: decode_step_def split: if_splits option.splits Option.bind_splits)
qed

section \<open>What the servos see\<close>

text \<open>
  Read off the recorded calls: the duty last written to each channel, and whether the channel's
  output runs (an update starts it, \<open>ledc_stop\<close> stops it).
\<close>

fun shown_after :: "(nat \<Rightarrow> u32 option) \<Rightarrow> servo_call list \<Rightarrow> nat \<Rightarrow> u32 option" where
  "shown_after d [] = d"
| "shown_after d (Servo_set_duty ch v # cs) = shown_after (d(ch \<mapsto> v)) cs"
| "shown_after d (c # cs) = shown_after d cs"

fun running_after :: "(nat \<Rightarrow> bool) \<Rightarrow> servo_call list \<Rightarrow> nat \<Rightarrow> bool" where
  "running_after r [] = r"
| "running_after r (Servo_update_duty ch # cs) = running_after (r(ch := True)) cs"
| "running_after r (Servo_ledc_stop ch lv # cs) = running_after (r(ch := False)) cs"
| "running_after r (c # cs) = running_after r cs"

lemma shown_after_append [simp]: "shown_after d (xs @ ys) = shown_after (shown_after d xs) ys"
proof (induction xs arbitrary: d)
  case (Cons c cs)
  then show ?case by (cases c) (simp_all add: fun_upd_def)
qed simp

lemma running_after_append [simp]: "running_after r (xs @ ys) = running_after (running_after r xs) ys"
proof (induction xs arbitrary: r)
  case (Cons c cs)
  then show ?case by (cases c) (simp_all add: fun_upd_def)
qed simp

definition shown :: "servo \<Rightarrow> nat \<Rightarrow> u32 option" where
  "shown s = shown_after (\<lambda>_. None) (servo_calls s)"

definition running :: "servo \<Rightarrow> nat \<Rightarrow> bool" where
  "running s = running_after (\<lambda>_. False) (servo_calls s)"

definition servo_inv :: "servo \<Rightarrow> bool" where
  "servo_inv s \<longleftrightarrow>
     0 \<le> lr_angle s \<and> lr_angle s \<le> 180 \<and> 0 \<le> ud_angle s \<and> ud_angle s \<le> 180 \<and>
     (initialized s \<longrightarrow> shown s 0 = Some (angle_to_duty (lr_angle s)) \<and>
                        shown s 1 = Some (angle_to_duty (ud_angle s))) \<and>
     (output_enabled s \<longrightarrow> initialized s \<and> running s 0 \<and> running s 1)"

lemma both_angles_effect:
  "shown_after d (both_angles s) = d(0 \<mapsto> angle_to_duty (lr_angle s), 1 \<mapsto> angle_to_duty (ud_angle s))"
  "running_after r (both_angles s) = r(0 := True, 1 := True)"
  by (simp_all add: both_angles_def angle_calls_def fun_upd_def fun_eq_iff)

lemma servo_inv_initial: "servo_inv servo_initial"
  by (simp add: servo_inv_def servo_initial_def SERVO_INIT_ANGLE_def)

text \<open>Every handler path ends with both channels showing the current angles, or changes no call.\<close>

lemma servo_inv_both_angles:
  assumes "servo_calls s = cs @ both_angles s" "initialized s"
    "0 \<le> lr_angle s" "lr_angle s \<le> 180" "0 \<le> ud_angle s" "ud_angle s \<le> 180"
  shows "servo_inv s"
  using assms by (simp add: servo_inv_def shown_def running_def both_angles_effect)

text \<open>What one message does, in closed form.\<close>

lemma handler_ignores:
  "buf = None \<or> \<not> initialized s \<or> dlc \<le> 0 \<Longrightarrow>
   servo_control_canbus_message_handler ok now dlc buf s = Some s"
  by (auto simp: servo_control_canbus_message_handler_def split: option.split)

lemma move_servo_cases:
  "move_servo cmd stp s = None \<longleftrightarrow> cmd \<notin> {CMD_SERVO_UP, CMD_SERVO_DOWN, CMD_SERVO_LEFT, CMD_SERVO_RIGHT}"
  by (auto simp: move_servo_def)

lemma move_servo_frame:
  "move_servo cmd stp s = Some s' \<Longrightarrow>
     initialized s' = initialized s \<and> output_enabled s' = output_enabled s \<and> servo_calls s' = servo_calls s"
  by (auto simp: move_servo_def split: if_splits)

text \<open>The new angle pair of a movement, as a function of the old one.\<close>

definition moved_angles :: "u8 \<Rightarrow> int \<Rightarrow> int \<times> int \<Rightarrow> int \<times> int" where
  "moved_angles cmd k p =
     (if cmd = CMD_SERVO_UP then (fst p, saturate 0 180 (snd p - k))
      else if cmd = CMD_SERVO_DOWN then (fst p, saturate 0 180 (snd p + k))
      else if cmd = CMD_SERVO_LEFT then (saturate 0 180 (fst p + k), snd p)
      else if cmd = CMD_SERVO_RIGHT then (saturate 0 180 (fst p - k), snd p)
      else p)"

lemma limit_moved:
  assumes "move_servo cmd k s = Some s'"
    "0 \<le> lr_angle s" "lr_angle s \<le> 180" "0 \<le> ud_angle s" "ud_angle s \<le> 180"
  shows "(lr_angle (limit_angles s'), ud_angle (limit_angles s')) =
         moved_angles cmd k (lr_angle s, ud_angle s)"
  using assms
  by (auto simp: move_servo_def moved_angles_def limit_angles_saturate signed_step_def saturate_id
      SERVO_UD_INVERT_def SERVO_LR_INVERT_def servo_cmds split: if_splits)

lemma handler_moves:
  assumes run: "servo_control_canbus_message_handler ok now dlc (Some (cmd # rest)) s = Some s'"
    and inv: "servo_inv s" "initialized s" "dlc > 0"
    and k: "decode_step (Some (cmd # rest)) dlc = Some k"
    and cmd: "move_servo cmd k s \<noteq> None"
  shows "(lr_angle s', ud_angle s') = moved_angles cmd k (lr_angle s, ud_angle s)"
    and "output_enabled s'" and "last_activity_us s' = now" and "initialized s'"
    and "\<exists>cs. servo_calls s' = cs @ both_angles s'"
proof -
  from cmd obtain m where m: "move_servo cmd k s = Some m" by blast
  from run inv(2,3) k m obtain s1 s2 where s1: "set_servo_output_enabled ok True s = Some s1"
    and s2: "move_servo cmd k s1 = Some s2"
    and s': "s' = (limit_angles (note_servo_activity_locked now s2))
       \<lparr>servo_calls := servo_calls s2 @ both_angles (limit_angles s2)\<rparr>"
    by (auto simp: servo_control_canbus_message_handler_def Let_def bind_eq_Some_conv both_angles_def
        limit_angles_saturate note_servo_activity_locked_def)
  note o1 = set_servo_output_enabled_Some [OF s1]
  note f2 = move_servo_frame [OF s2]
  have r: "0 \<le> lr_angle s1" "lr_angle s1 \<le> 180" "0 \<le> ud_angle s1" "ud_angle s1 \<le> 180"
    using inv(1) o1 by (simp_all add: servo_inv_def)
  show "(lr_angle s', ud_angle s') = moved_angles cmd k (lr_angle s, ud_angle s)"
    using limit_moved [OF s2 r] o1 by (simp add: s' limit_angles_saturate note_servo_activity_locked_def)
  show "output_enabled s'" "last_activity_us s' = now" "initialized s'"
    using o1 f2 inv(2) by (simp_all add: s' limit_angles_saturate note_servo_activity_locked_def)
  have "both_angles s' = both_angles (limit_angles s2)"
    by (simp add: s' both_angles_def limit_angles_saturate note_servo_activity_locked_def)
  then show "\<exists>cs. servo_calls s' = cs @ both_angles s'" by (simp add: s')
qed

lemma handler_stop:
  assumes "servo_control_canbus_message_handler ok now dlc (Some (CMD_SERVO_STOP # rest)) s = Some s'"
    and "initialized s" "dlc > 0"
  shows "s' = s\<lparr>servo_calls := servo_calls s @ both_angles s\<rparr>"
  using assms
  by (auto simp: servo_control_canbus_message_handler_def Let_def bind_eq_Some_conv both_angles_def
      move_servo_def servo_cmds split: if_splits)

lemma handler_unknown:
  assumes "servo_control_canbus_message_handler ok now dlc (Some (cmd # rest)) s = Some s'"
    and "cmd \<notin> {CMD_SERVO_UP, CMD_SERVO_DOWN, CMD_SERVO_LEFT, CMD_SERVO_RIGHT, CMD_SERVO_STOP}"
  shows "s' = s"
  using assms move_servo_cases [of cmd]
  by (cases "initialized s \<and> dlc > 0")
    (auto simp: servo_control_canbus_message_handler_def Let_def bind_eq_Some_conv)

section \<open>The controller as a machine\<close>

datatype servo_event = Servo_message int int "u8 list option" | Servo_idle_check int

fun servo_step :: "(servo_call \<Rightarrow> bool) \<Rightarrow> servo \<Rightarrow> servo_event \<Rightarrow> servo option" where
  "servo_step ok s (Servo_message now dlc buf) = servo_control_canbus_message_handler ok now dlc buf s"
| "servo_step ok s (Servo_idle_check now) = servo_idle_power_save_task ok now s"

fun servo_event_ok :: "servo_event \<Rightarrow> bool" where
  "servo_event_ok (Servo_message now dlc (Some d)) = (dlc \<le> int (length d))"
| "servo_event_ok _ = True"

lemma moved_angles_range:
  "0 \<le> fst p \<Longrightarrow> fst p \<le> 180 \<Longrightarrow> 0 \<le> snd p \<Longrightarrow> snd p \<le> 180 \<Longrightarrow>
   0 \<le> fst (moved_angles cmd k p) \<and> fst (moved_angles cmd k p) \<le> 180 \<and>
   0 \<le> snd (moved_angles cmd k p) \<and> snd (moved_angles cmd k p) \<le> 180"
  by (simp add: moved_angles_def saturate_bounds)

lemma handler_inv:
  assumes inv: "servo_inv s"
    and run: "servo_control_canbus_message_handler ok now dlc buf s = Some s'"
  shows "servo_inv s'"
proof (cases "buf = None \<or> \<not> initialized s \<or> dlc \<le> 0")
  case True
  with run inv show ?thesis by (simp add: handler_ignores)
next
  case False
  with run obtain cmd rest where b: "buf = Some (cmd # rest)"
    by (cases buf; cases "the buf") (auto simp: servo_control_canbus_message_handler_def)
  from run False b obtain k where k: "decode_step (Some (cmd # rest)) dlc = Some k"
    by (auto simp: servo_control_canbus_message_handler_def Let_def bind_eq_Some_conv)
  consider "move_servo cmd k s \<noteq> None" | "cmd = CMD_SERVO_STOP"
    | "cmd \<notin> {CMD_SERVO_UP, CMD_SERVO_DOWN, CMD_SERVO_LEFT, CMD_SERVO_RIGHT, CMD_SERVO_STOP}"
    using move_servo_cases [of cmd k s] by blast
  then show ?thesis
  proof cases
    case 1
    have run': "servo_control_canbus_message_handler ok now dlc (Some (cmd # rest)) s = Some s'"
      using run b by simp
    have pre: "initialized s" "dlc > 0" using False by auto
    note h = handler_moves [OF run' inv pre k 1]
    have "0 \<le> lr_angle s' \<and> lr_angle s' \<le> 180 \<and> 0 \<le> ud_angle s' \<and> ud_angle s' \<le> 180"
      using moved_angles_range [of "(lr_angle s, ud_angle s)" cmd k] inv
      by (simp add: servo_inv_def flip: h(1))
    with h(4,5) show ?thesis using servo_inv_both_angles by blast
  next
    case 2
    with run b False have "s' = s\<lparr>servo_calls := servo_calls s @ both_angles s\<rparr>"
      by (auto dest: handler_stop)
    then have "servo_calls s' = servo_calls s @ both_angles s'" by (simp add: both_angles_def)
    with \<open>s' = _\<close> inv False show ?thesis
      by (intro servo_inv_both_angles) (simp_all add: servo_inv_def)
  next
    case 3
    with run b inv show ?thesis by (auto dest: handler_unknown)
  qed
qed

lemma idle_check_inv:
  assumes "servo_inv s" "servo_idle_power_save_task ok now s = Some s'"
  shows "servo_inv s'"
  using assms
  by (auto simp: servo_idle_power_save_task_def Let_def servo_inv_def shown_def running_def
      split: if_splits dest!: set_servo_output_enabled_Some)

lemma servo_step_inv: "servo_inv s \<Longrightarrow> servo_step ok s e = Some s' \<Longrightarrow> servo_inv s'"
  by (cases e) (auto intro: handler_inv idle_check_inv)

lemma set_servo_output_enabled_total: "\<exists>s'. set_servo_output_enabled (\<lambda>_. True) en s = Some s'"
  by (simp add: set_servo_output_enabled_def checked_def set_servo_angle_def)

lemma decode_step_total: "dlc \<le> int (length d) \<Longrightarrow> \<exists>k. decode_step (Some d) dlc = Some k"
  using read_le32_total [of 1 d] by (auto simp: decode_step_def)

lemma set_servo_angle_total: "set_servo_angle (\<lambda>_. True) ch a s = Some (s\<lparr>servo_calls := servo_calls s @ angle_calls ch a\<rparr>)"
  by (simp add: list_all_length)

lemma servo_step_total: "servo_event_ok e \<Longrightarrow> \<exists>s'. servo_step (\<lambda>_. True) s e = Some s'"
proof (cases e)
  case (Servo_idle_check now)
  then show ?thesis
    using set_servo_output_enabled_total by (simp add: servo_idle_power_save_task_def Let_def)
next
  case (Servo_message now dlc buf)
  assume ok: "servo_event_ok e"
  show ?thesis
  proof (cases "buf = None \<or> \<not> initialized s \<or> dlc \<le> 0")
    case True
    with Servo_message show ?thesis by (simp add: handler_ignores)
  next
    case False
    then obtain d where d: "buf = Some d" "d \<noteq> []" "dlc \<le> int (length d)"
      using ok Servo_message by (cases buf; cases "the buf") auto
    obtain k where k: "decode_step (Some d) dlc = Some k" using decode_step_total [OF d(3)] by blast
    obtain s1 where s1: "set_servo_output_enabled (\<lambda>_. True) True s = Some s1"
      using set_servo_output_enabled_total by blast
    show ?thesis
      using Servo_message False d k s1 move_servo_cases [of "hd d" k s] move_servo_cases [of "hd d" k s1]
      by (auto simp: servo_control_canbus_message_handler_def Let_def set_servo_angle_total
          split: option.split)
  qed
qed

interpretation servo: safe_machine "servo_step ok" servo_inv for ok
  by unfold_locales (rule servo_step_inv)

interpretation servo_ok: event_machine "servo_step (\<lambda>_. True)" servo_inv servo_event_ok
  by unfold_locales (auto intro: servo_step_total)

lemma servo_control_init_inv:
  assumes inv: "servo_inv s"
    and run: "servo_control_init ok m now p q s = Some s'"
  shows "servo_inv s' \<and> initialized s' \<and> output_enabled s' \<and> last_activity_us s' = now"
proof -
  define t where "t = s\<lparr>servo_lock_created := True,
    servo_calls := ((servo_calls s @ [Servo_timer_config]) @ [Servo_channel_config 0 p]) @ [Servo_channel_config 1 q]\<rparr>"
  from run obtain u where u: "set_servo_output_enabled ok True t = Some u"
    and s': "s' = (let v = (note_servo_activity_locked now u)\<lparr>initialized := True\<rparr>
       in if power_save_task_created v then v
          else v\<lparr>power_save_task_created := True, servo_calls := servo_calls v @ [Servo_create_task]\<rparr>)"
    by (auto simp: servo_control_init_def t_def Let_def bind_eq_Some_conv split: if_splits)
  note o = set_servo_output_enabled_Some [OF u]
  have t: "lr_angle t = lr_angle s" "ud_angle t = ud_angle s" "initialized t = initialized s"
    "output_enabled t = output_enabled s" "shown t = shown s" "running t = running s"
    by (simp_all add: t_def shown_def running_def)
  have sh: "shown u 0 = Some (angle_to_duty (lr_angle s)) \<and> shown u 1 = Some (angle_to_duty (ud_angle s)) \<and>
      running u 0 \<and> running u 1"
  proof (cases "output_enabled t")
    case True
    with o t inv show ?thesis by (simp add: servo_inv_def shown_def running_def)
  next
    case False
    with o t show ?thesis by (simp add: shown_def running_def both_angles_effect)
  qed
  have "shown s' = shown u" "running s' = running u" "initialized s'" "output_enabled s'"
    "last_activity_us s' = now" "lr_angle s' = lr_angle s" "ud_angle s' = ud_angle s"
    using o t by (simp_all add: s' Let_def shown_def running_def note_servo_activity_locked_def)
  with sh inv show ?thesis by (simp add: servo_inv_def)
qed

lemma servo_control_init_total: "\<exists>s'. servo_control_init (\<lambda>_. True) True now p q s = Some s'"
  by (simp add: servo_control_init_def checked_def Let_def,
      rule bind_total, rule set_servo_output_enabled_total)

section \<open>Properties\<close>

text \<open>
  The duty of every angle, out-of-range ones included, is computed without 32-bit wrap-around:
  it is the pulse 500 + a * 2000 / 180 microseconds (a saturated to 0..180) scaled to 14 bits at
  50 Hz, it lies between 409 and 2048, and a larger angle never gives a smaller duty.
\<close>

theorem angle_to_duty_correct:
  "unat (angle_to_duty a) = (500 + nat (saturate 0 180 a) * 2000 div 180) * 819200 div 1000000 \<and>
   409 \<le> unat (angle_to_duty a) \<and> unat (angle_to_duty a) \<le> 2048 \<and>
   (a \<le> b \<longrightarrow> unat (angle_to_duty a) \<le> unat (angle_to_duty b))"
proof -
  have "duty_spec a \<le> duty_spec b" if "a \<le> b"
  proof -
    have "nat (saturate 0 180 a) \<le> nat (saturate 0 180 b)" using that by (auto simp: saturate_def)
    then have "nat (saturate 0 180 a) * 2000 div 180 \<le> nat (saturate 0 180 b) * 2000 div 180"
      by (intro div_le_mono mult_le_mono1)
    then show ?thesis unfolding duty_spec_def by (intro div_le_mono mult_le_mono1) simp
  qed
  moreover have "unat (angle_to_duty a) = (500 + nat (saturate 0 180 a) * 2000 div 180) * 819200 div 1000000"
    unfolding angle_to_duty_exact duty_spec_def by (rule refl)
  ultimately show ?thesis
    using duty_spec_range [of a] unfolding angle_to_duty_exact by blast
qed

theorem angle_to_duty_correct_witness:
  "unat (angle_to_duty 90) = 1228 \<and> unat (angle_to_duty 0) \<le> unat (angle_to_duty 90)"
  using angle_to_duty_correct [of 90 90] angle_to_duty_correct [of 0 90] by (simp add: saturate_def)

text \<open>
  C29. Every run of the servo controller after initialisation, whatever messages (within their
  buffers) and idle checks it sees, completes without a fault while the PWM driver accepts the
  calls; both angles stay within 0..180, both channels show the duty of the current angles, and
  the flag \<open>output_enabled\<close> implies that both outputs run.
\<close>

theorem servo_run_safe:
  assumes init: "servo_control_init (\<lambda>_. True) m t p q servo_initial = Some s0"
    and ok: "list_all servo_event_ok es"
  shows "\<exists>s. run_events (servo_step (\<lambda>_. True)) s0 es = Some s \<and>
           0 \<le> lr_angle s \<and> lr_angle s \<le> 180 \<and> 0 \<le> ud_angle s \<and> ud_angle s \<le> 180 \<and>
           (initialized s \<longrightarrow> shown s 0 = Some (angle_to_duty (lr_angle s)) \<and>
                              shown s 1 = Some (angle_to_duty (ud_angle s))) \<and>
           (output_enabled s \<longrightarrow> running s 0 \<and> running s 1)"
  using servo_ok.run_total [of s0 es] servo_control_init_inv [OF servo_inv_initial init] ok
  by (auto simp: servo_inv_def)

theorem servo_run_safe_witness:
  "\<exists>s0 s. servo_control_init (\<lambda>_. True) True 0 4 3 servo_initial = Some s0 \<and>
     run_events (servo_step (\<lambda>_. True)) s0
       [Servo_message 7 5 (Some [18, 20, 0, 0, 0]), Servo_idle_check 4000000] = Some s \<and>
     lr_angle s \<le> 180"
proof -
  obtain s0 where s0: "servo_control_init (\<lambda>_. True) True 0 4 3 servo_initial = Some s0"
    using servo_control_init_total by blast
  have ok: "list_all servo_event_ok [Servo_message 7 5 (Some [18, 20, 0, 0, 0]), Servo_idle_check 4000000]"
    by simp
  from servo_run_safe [OF s0 ok] s0 show ?thesis by blast
qed

text \<open>
  A movement command moves exactly one axis, by the decoded step (1 to 20 degrees), against
  the installation inversion, saturating at the mechanical limits; it powers the output, shows the
  new angles on both channels and restarts the idle timer.
\<close>

theorem servo_movement:
  assumes "servo_control_canbus_message_handler ok now dlc (Some (cmd # rest)) s = Some s'"
    and "servo_inv s" "initialized s" "dlc > 0"
    and "decode_step (Some (cmd # rest)) dlc = Some k"
    and "cmd \<in> {CMD_SERVO_UP, CMD_SERVO_DOWN, CMD_SERVO_LEFT, CMD_SERVO_RIGHT}"
  shows "(lr_angle s', ud_angle s') =
           (if cmd = 18 then (lr_angle s, saturate 0 180 (ud_angle s - k))
            else if cmd = 12 then (lr_angle s, saturate 0 180 (ud_angle s + k))
            else if cmd = 14 then (saturate 0 180 (lr_angle s + k), ud_angle s)
            else (saturate 0 180 (lr_angle s - k), ud_angle s)) \<and>
         1 \<le> k \<and> k \<le> 20 \<and> output_enabled s' \<and> last_activity_us s' = now \<and>
         shown s' 0 = Some (angle_to_duty (lr_angle s')) \<and>
         shown s' 1 = Some (angle_to_duty (ud_angle s'))"
proof -
  have c: "move_servo cmd k s \<noteq> None" using assms(6) move_servo_cases [of cmd k s] by simp
  note h = handler_moves [OF assms(1-5) c]
  have "servo_inv s'" by (rule handler_inv [OF assms(2,1)])
  then have "shown s' 0 = Some (angle_to_duty (lr_angle s')) \<and>
      shown s' 1 = Some (angle_to_duty (ud_angle s'))"
    using h(4) by (simp add: servo_inv_def)
  with h assms(6) decode_step_range [OF assms(5)] show ?thesis
    by (auto simp: moved_angles_def servo_cmds)
qed

definition ready_servo :: servo where
  "ready_servo = servo_initial\<lparr>initialized := True, output_enabled := True,
     servo_calls := both_angles servo_initial\<rparr>"

lemma ready_servo_inv: "servo_inv ready_servo"
  by (rule servo_inv_both_angles [of _ "[]"])
    (simp_all add: ready_servo_def both_angles_def servo_initial_def SERVO_INIT_ANGLE_def)

theorem servo_movement_witness:
  "\<exists>s'. servo_control_canbus_message_handler (\<lambda>_. True) 7 1 (Some [18]) ready_servo = Some s' \<and>
     ud_angle s' = 87 \<and> output_enabled s'"
proof -
  have k: "decode_step (Some [18]) 1 = Some 3" by (simp add: decode_step_def)
  obtain s' where s': "servo_control_canbus_message_handler (\<lambda>_. True) 7 1 (Some [18]) ready_servo = Some s'"
    using servo_step_total [of "Servo_message 7 1 (Some [18])" ready_servo] by auto
  have i: "initialized ready_servo" "ud_angle ready_servo = 90"
    by (simp_all add: ready_servo_def servo_initial_def SERVO_INIT_ANGLE_def)
  have "(lr_angle s', ud_angle s') = (lr_angle ready_servo, saturate 0 180 (90 - 3)) \<and> output_enabled s'"
    using servo_movement [OF s' ready_servo_inv i(1) _ k] i by (simp add: servo_cmds)
  with s' show ?thesis by (simp add: saturate_def)
qed

text \<open>
  Power save. With the output enabled, an idle check stops both PWM outputs exactly when at
  least three seconds have passed since the last movement command, and changes nothing before.
\<close>

theorem servo_power_save:
  assumes "initialized s" "output_enabled s"
    and "servo_idle_power_save_task ok now s = Some s'"
  shows "if now - last_activity_us s \<ge> 3000000
         then \<not> output_enabled s' \<and> \<not> running s' 0 \<and> \<not> running s' 1 \<and>
              lr_angle s' = lr_angle s \<and> ud_angle s' = ud_angle s
         else s' = s"
  using assms
  by (auto simp: servo_idle_power_save_task_def Let_def SERVO_IDLE_POWER_SAVE_TIMEOUT_MS_def running_def
      split: if_splits dest!: set_servo_output_enabled_Some)

theorem servo_power_save_witness:
  "\<exists>s'. servo_idle_power_save_task (\<lambda>_. True) 3000000 ready_servo = Some s' \<and> \<not> running s' 0"
proof -
  have i: "initialized ready_servo" "output_enabled ready_servo" "last_activity_us ready_servo = 0"
    by (simp_all add: ready_servo_def servo_initial_def)
  obtain s' where s': "servo_idle_power_save_task (\<lambda>_. True) 3000000 ready_servo = Some s'"
    using servo_step_total [of "Servo_idle_check 3000000" ready_servo] by auto
  from servo_power_save [OF i(1,2) s'] s' i(3) show ?thesis by auto
qed

text \<open>
  SERVO_STOP after power save. While the output is switched off, a STOP message drives both
  PWM channels again but leaves \<open>output_enabled\<close> false, and from then on no idle check, however
  late, switches them off: the comment in the handler promises that the idle task will.
\<close>

theorem servo_stop_defeats_power_save:
  assumes "servo_control_canbus_message_handler ok now dlc (Some (CMD_SERVO_STOP # rest)) s = Some s'"
    and "initialized s" "dlc > 0" "\<not> output_enabled s"
  shows "running s' 0 \<and> running s' 1 \<and> servo_idle_power_save_task ok' later s' = Some s'"
  using handler_stop [OF assms(1-3)] assms(4)
  by (simp add: running_def both_angles_effect servo_idle_power_save_task_def)

theorem servo_stop_defeats_power_save_witness:
  "\<exists>s'. servo_control_canbus_message_handler (\<lambda>_. True) 9 5 (Some [15, 0, 0, 0, 0])
          (ready_servo\<lparr>output_enabled := False\<rparr>) = Some s' \<and>
        running s' 0 \<and> servo_idle_power_save_task (\<lambda>_. True) 90000000 s' = Some s'"
proof -
  let ?s = "ready_servo\<lparr>output_enabled := False\<rparr>"
  have i: "initialized ?s" "\<not> output_enabled ?s"
    by (simp_all add: ready_servo_def)
  obtain s' where s': "servo_control_canbus_message_handler (\<lambda>_. True) 9 5
      (Some (CMD_SERVO_STOP # [0, 0, 0, 0])) ?s = Some s'"
    using servo_step_total [of "Servo_message 9 5 (Some [15, 0, 0, 0, 0])" ?s] by (auto simp: servo_cmds)
  from servo_stop_defeats_power_save [OF s' i(1) _ i(2)] s' show ?thesis
    by (auto simp: servo_cmds)
qed

end
