(* ===== verification/App_Commands.thy ===== *)
theory App_Commands
  imports Can_Bus
begin

text \<open>
  The command dispatcher of the P4 firmware (\<open>IDF_esp32p4_webrtc/main/webrtc.c\<close>): text commands
  that arrive over the signalling channel (\<open>door_bell_on_cmd\<close>) or from the console and MQTT
  (\<open>send_cmd\<close>) become CAN frames or change the door-bell state. Calls that leave the file are
  recorded in \<open>app_calls\<close>.
\<close>

section \<open>State\<close>

datatype door_bell_state =
    DOOR_BELL_STATE_NONE | DOOR_BELL_STATE_RINGING | DOOR_BELL_STATE_CONNECTING | DOOR_BELL_STATE_CONNECTED

text \<open>The order of the C enumeration, used by \<open>door_bell_state < DOOR_BELL_STATE_CONNECTING\<close>.\<close>

fun door_bell_rank :: "door_bell_state \<Rightarrow> nat" where
  "door_bell_rank DOOR_BELL_STATE_NONE = 0"
| "door_bell_rank DOOR_BELL_STATE_RINGING = 1"
| "door_bell_rank DOOR_BELL_STATE_CONNECTING = 2"
| "door_bell_rank DOOR_BELL_STATE_CONNECTED = 3"

instantiation door_bell_state :: linorder
begin

definition less_eq_door_bell_state :: "door_bell_state \<Rightarrow> door_bell_state \<Rightarrow> bool" where
  "less_eq_door_bell_state a b \<longleftrightarrow> door_bell_rank a \<le> door_bell_rank b"

definition less_door_bell_state :: "door_bell_state \<Rightarrow> door_bell_state \<Rightarrow> bool" where
  "less_door_bell_state a b \<longleftrightarrow> door_bell_rank a < door_bell_rank b"

instance
proof
  fix a b c :: door_bell_state
  show "(a < b) = (a \<le> b \<and> \<not> b \<le> a)"
    by (auto simp: less_eq_door_bell_state_def less_door_bell_state_def)
  show "a \<le> a" by (simp add: less_eq_door_bell_state_def)
  show "a \<le> b \<Longrightarrow> b \<le> c \<Longrightarrow> a \<le> c" by (simp add: less_eq_door_bell_state_def)
  show "a \<le> b \<Longrightarrow> b \<le> a \<Longrightarrow> a = b"
    by (cases a; cases b) (simp_all add: less_eq_door_bell_state_def)
  show "a \<le> b \<or> b \<le> a" by (auto simp: less_eq_door_bell_state_def)
qed

end

datatype door_bell_tone = DOOR_BELL_TONE_RING | DOOR_BELL_TONE_OPEN_DOOR | DOOR_BELL_TONE_JOIN_SUCCESS

datatype custom_data_via = VIA_NONE | VIA_SIGNALING | VIA_DATA_CHANNEL

datatype app_call =
    Can can_call
  | Send_custom_data string
  | Play_music door_bell_tone nat
  | Stop_music
  | Enable_peer_connection bool

record app =
  current_velocity :: u32
  servo_velocity :: u32
  door_bell :: door_bell_state
  rtp_transformer_enabled :: bool
  webrtc_open :: bool
  app_calls :: "app_call list"

definition app_initial :: app where
  "app_initial =
     \<lparr>current_velocity = 125, servo_velocity = 5, door_bell = DOOR_BELL_STATE_NONE,
      rtp_transformer_enabled = False, webrtc_open = False, app_calls = []\<rparr>"

definition app_emit :: "app_call \<Rightarrow> app \<Rightarrow> app" where
  "app_emit c a = a\<lparr>app_calls := app_calls a @ [c]\<rparr>"

definition send_can :: "u8 \<Rightarrow> u32 \<Rightarrow> app \<Rightarrow> app" where
  "send_can t v a = app_emit (Can (AddMessageToSend t v)) a"

fun tone_duration :: "door_bell_tone \<Rightarrow> nat" where
  "tone_duration DOOR_BELL_TONE_RING = 4000"
| "tone_duration DOOR_BELL_TONE_OPEN_DOOR = 0"
| "tone_duration DOOR_BELL_TONE_JOIN_SUCCESS = 0"

definition play_tone :: "door_bell_tone \<Rightarrow> app \<Rightarrow> app" where
  "play_tone t a = app_emit (Play_music t (tone_duration t)) a"

definition door_bell_change_state :: "door_bell_state \<Rightarrow> app \<Rightarrow> app" where
  "door_bell_change_state st a =
     (let a1 = a\<lparr>door_bell := st\<rparr>
      in if st = DOOR_BELL_STATE_CONNECTING \<or> st = DOOR_BELL_STATE_NONE
         then app_emit Stop_music a1 else a1)"

section \<open>Robot and servo commands\<close>

definition is_cmd :: "string \<Rightarrow> string option \<Rightarrow> string option \<Rightarrow> bool" where
  "is_cmd cmd exact legacy \<longleftrightarrow> (case exact of Some e \<Rightarrow> cmd = e | None \<Rightarrow> False) \<or>
     (case legacy of Some l \<Rightarrow> cmd = l | None \<Rightarrow> False)"

definition ProcessServoCommand :: "string \<Rightarrow> app \<Rightarrow> bool \<times> app" where
  "ProcessServoCommand cmd a =
     (if is_cmd cmd (Some ''SERVO_UP'') (Some ''HeadUp'') then (True, send_can 18 (servo_velocity a) a)
      else if is_cmd cmd (Some ''SERVO_DOWN'') (Some ''HeadDown'') then (True, send_can 12 (servo_velocity a) a)
      else if is_cmd cmd (Some ''SERVO_LEFT'') (Some ''HeadLeft'') then (True, send_can 14 (servo_velocity a) a)
      else if is_cmd cmd (Some ''SERVO_RIGHT'') (Some ''HeadRight'') then (True, send_can 16 (servo_velocity a) a)
      else if is_cmd cmd (Some ''SERVO_STOP'') None then (True, send_can 15 0 a)
      else (False, a))"

definition ProcessServoConfigCommand :: "string \<Rightarrow> app \<Rightarrow> bool \<times> app" where
  "ProcessServoConfigCommand cmd a =
     (if \<not> strncmp_eq cmd ''SERVO_STEP:'' 11 then (False, a)
      else (let stp = strtol (drop 11 cmd);
                stp = (if stp < 0 then 0 else if stp > 20 then 20 else stp)
            in (True, a\<lparr>servo_velocity := word_of_int stp\<rparr>)))"

definition ProcessMoveConfigCommand :: "string \<Rightarrow> app \<Rightarrow> bool \<times> app" where
  "ProcessMoveConfigCommand cmd a =
     (if \<not> strncmp_eq cmd ''ROBOT_SPEED:'' 12 then (False, a)
      else (let speed = strtol (drop 12 cmd);
                speed = (if speed < 0 then 0 else if speed > 255 then 255 else speed);
                a1 = a\<lparr>current_velocity := word_of_int speed\<rparr>
            in (True, send_can 10 (current_velocity a1) a1)))"

definition ProcessMoveCommand :: "string \<Rightarrow> app \<Rightarrow> bool \<times> app" where
  "ProcessMoveCommand cmd a =
     (if is_cmd cmd (Some ''ROBOT_UP'') (Some ''Up'') then (True, send_can 8 (current_velocity a) a)
      else if is_cmd cmd (Some ''ROBOT_DOWN'') (Some ''Down'') then (True, send_can 2 (current_velocity a) a)
      else if is_cmd cmd (Some ''ROBOT_LEFT'') (Some ''Left'') then (True, send_can 4 (current_velocity a) a)
      else if is_cmd cmd (Some ''ROBOT_RIGHT'') (Some ''Right'') then (True, send_can 6 (current_velocity a) a)
      else if is_cmd cmd (Some ''ROBOT_ROTATE_LEFT'') (Some ''RotateLeft'')
        then (True, send_can 7 (current_velocity a) a)
      else if is_cmd cmd (Some ''ROBOT_ROTATE_RIGHT'') (Some ''RotateRight'')
        then (True, send_can 9 (current_velocity a) a)
      else if is_cmd cmd (Some ''ROBOT_STOP'') (Some ''Stop'') then (True, send_can 5 0 a)
      else (False, a))"

section \<open>The two entry points\<close>

definition SAME_STR :: "string \<Rightarrow> string \<Rightarrow> bool" where
  "SAME_STR a b = strncmp_eq a b (length b)"

definition door_bell_command :: "string \<Rightarrow> app \<Rightarrow> app" where
  "door_bell_command cmd a =
     (if SAME_STR cmd ''OPEN_DOOR'' then
        (let a1 = app_emit (Send_custom_data ''DOOR_OPENED'') a
         in if door_bell a1 < DOOR_BELL_STATE_CONNECTING
            then play_tone DOOR_BELL_TONE_OPEN_DOOR a1 else a1)
      else if SAME_STR cmd ''ACCEPT_CALL'' then
        app_emit (Enable_peer_connection True) (door_bell_change_state DOOR_BELL_STATE_CONNECTING a)
      else if SAME_STR cmd ''DENY_CALL'' then
        door_bell_change_state DOOR_BELL_STATE_NONE (app_emit (Enable_peer_connection False) a)
      else if SAME_STR cmd ''ENABLE_RTP_TRANSFORMER'' then
        (if \<not> rtp_transformer_enabled a then a\<lparr>rtp_transformer_enabled := True\<rparr> else a)
      else if SAME_STR cmd ''DISABLE_RTP_TRANSFORMER'' then
        (if rtp_transformer_enabled a then a\<lparr>rtp_transformer_enabled := False\<rparr> else a)
      else a)"

definition door_bell_on_cmd :: "custom_data_via \<Rightarrow> string \<Rightarrow> int \<Rightarrow> app \<Rightarrow> app" where
  "door_bell_on_cmd via cmd len a =
     (if via \<noteq> VIA_SIGNALING then a
      else if len = 0 \<or> \<not> webrtc_open a then a
      else case ProcessServoConfigCommand cmd a of (True, a1) \<Rightarrow> a1
      | (False, _) \<Rightarrow> case ProcessMoveConfigCommand cmd a of (True, a1) \<Rightarrow> a1
      | (False, _) \<Rightarrow> case ProcessServoCommand cmd a of (True, a1) \<Rightarrow> a1
      | (False, _) \<Rightarrow> case ProcessMoveCommand cmd a of (True, a1) \<Rightarrow> a1
      | (False, _) \<Rightarrow> door_bell_command cmd a)"

definition send_cmd :: "string option \<Rightarrow> app \<Rightarrow> app" where
  "send_cmd c a =
     (case c of None \<Rightarrow> a
      | Some cmd \<Rightarrow>
        case ProcessServoConfigCommand cmd a of (True, a1) \<Rightarrow> a1
      | (False, _) \<Rightarrow> case ProcessServoCommand cmd a of (True, a1) \<Rightarrow> a1
      | (False, _) \<Rightarrow> case ProcessMoveCommand cmd a of (True, a1) \<Rightarrow> a1
      | (False, _) \<Rightarrow>
          if SAME_STR cmd ''ring'' then
            (let a1 = app_emit (Send_custom_data ''RING'') a
             in if door_bell a1 < DOOR_BELL_STATE_CONNECTING
                then play_tone DOOR_BELL_TONE_RING (a1\<lparr>door_bell := DOOR_BELL_STATE_RINGING\<rparr>)
                else a1)
          else a)"

section \<open>The dispatcher as a machine\<close>

datatype app_event =
    Peer_command custom_data_via string int
  | Local_command "string option"

fun app_step :: "app \<Rightarrow> app_event \<Rightarrow> app option" where
  "app_step a (Peer_command via cmd len) = Some (door_bell_on_cmd via cmd len a)"
| "app_step a (Local_command c) = Some (send_cmd c a)"

definition robot_types :: "u8 list" where
  "robot_types = [2, 4, 5, 6, 7, 8, 9, 10]"

definition servo_types :: "u8 list" where
  "servo_types = [12, 14, 15, 16, 18]"

fun app_call_ok :: "app_call \<Rightarrow> bool" where
  "app_call_ok (Can (XQueueSend m w)) =
     (list_ex (\<lambda>t. hd (data m) = t) (robot_types @ servo_types) \<and>
      (\<exists>t v. m = can_frame t v \<and> v \<le> 255) \<and> w = 10)"
| "app_call_ok (Can _) = False"
| "app_call_ok _ = True"

definition app_inv :: "app \<Rightarrow> bool" where
  "app_inv a \<longleftrightarrow> current_velocity a \<le> 255 \<and> servo_velocity a \<le> 20 \<and> list_all app_call_ok (app_calls a)"

lemma app_inv_initial: "app_inv app_initial"
  by (simp add: app_inv_def app_initial_def)

lemma send_can_inv:
  "app_inv a \<Longrightarrow> v \<le> 255 \<Longrightarrow> t \<in> set (robot_types @ servo_types) \<Longrightarrow> app_inv (send_can t v a)"
  by (auto simp: app_inv_def send_can_def app_emit_def AddMessageToSend_def list_ex_iff)

lemma app_inv_velocities: "app_inv a \<Longrightarrow> current_velocity a \<le> 255 \<and> servo_velocity a \<le> 255"
  by (auto simp: app_inv_def intro: order_trans [of "servo_velocity a" 20 255])

lemma word_of_int_limit:
  assumes "0 \<le> i" "i \<le> n" "n \<le> 255"
  shows "(word_of_int i :: u32) \<le> word_of_int n"
  using assms by (simp add: word_le_def uint_word_of_int take_bit_int_eq_self)

lemma ProcessServoCommand_inv: "app_inv a \<Longrightarrow> app_inv (snd (ProcessServoCommand cmd a))"
  by (simp add: ProcessServoCommand_def app_inv_velocities send_can_inv servo_types_def)

lemma ProcessMoveCommand_inv: "app_inv a \<Longrightarrow> app_inv (snd (ProcessMoveCommand cmd a))"
  by (simp add: ProcessMoveCommand_def app_inv_velocities send_can_inv robot_types_def)

lemma ProcessServoConfigCommand_inv: "app_inv a \<Longrightarrow> app_inv (snd (ProcessServoConfigCommand cmd a))"
proof -
  assume i: "app_inv a"
  have "app_inv (a\<lparr>servo_velocity := word_of_int k\<rparr>)" if "0 \<le> k" "k \<le> 20" for k :: int
    using i word_of_int_limit [of k 20] that by (simp add: app_inv_def)
  then show ?thesis
    using i by (simp add: ProcessServoConfigCommand_def Let_def)
qed

lemma ProcessMoveConfigCommand_inv: "app_inv a \<Longrightarrow> app_inv (snd (ProcessMoveConfigCommand cmd a))"
proof -
  assume i: "app_inv a"
  have "app_inv (send_can 10 (word_of_int k) (a\<lparr>current_velocity := word_of_int k\<rparr>))"
    if "0 \<le> k" "k \<le> 255" for k :: int
    using i word_of_int_limit [of k 255] that
    by (intro send_can_inv) (simp_all add: app_inv_def robot_types_def)
  then show ?thesis
    using i by (simp add: ProcessMoveConfigCommand_def Let_def)
qed

lemma app_emit_inv [simp]: "app_call_ok c \<Longrightarrow> app_inv (app_emit c a) = app_inv a"
  by (simp add: app_inv_def app_emit_def)

lemma app_inv_fields [simp]:
  "app_inv (a\<lparr>door_bell := d\<rparr>) = app_inv a"
  "app_inv (a\<lparr>rtp_transformer_enabled := r\<rparr>) = app_inv a"
  by (simp_all add: app_inv_def)

lemma door_bell_command_inv: "app_inv a \<Longrightarrow> app_inv (door_bell_command cmd a)"
  by (simp add: door_bell_command_def play_tone_def door_bell_change_state_def Let_def)

lemmas process_inv = ProcessServoCommand_inv ProcessMoveCommand_inv ProcessServoConfigCommand_inv
  ProcessMoveConfigCommand_inv

text \<open>A processor that reports False leaves the state alone.\<close>

lemma process_False:
  "ProcessServoCommand cmd a = (False, b) \<Longrightarrow> b = a"
  "ProcessMoveCommand cmd a = (False, b) \<Longrightarrow> b = a"
  "ProcessServoConfigCommand cmd a = (False, b) \<Longrightarrow> b = a"
  "ProcessMoveConfigCommand cmd a = (False, b) \<Longrightarrow> b = a"
  by (auto simp: ProcessServoCommand_def ProcessMoveCommand_def ProcessServoConfigCommand_def
      ProcessMoveConfigCommand_def Let_def split: if_splits)

lemma handled_case [simp]:
  "(case p of (True, a1) \<Rightarrow> a1 | (False, _) \<Rightarrow> r) = (if fst p then snd p else r)"
  by (cases p; cases "fst p") simp_all

lemma door_bell_on_cmd_inv: "app_inv a \<Longrightarrow> app_inv (door_bell_on_cmd via cmd n a)"
  unfolding door_bell_on_cmd_def handled_case
  by (simp add: process_inv door_bell_command_inv)

lemma send_cmd_inv: "app_inv a \<Longrightarrow> app_inv (send_cmd c a)"
  unfolding send_cmd_def handled_case
  by (cases c) (simp_all add: process_inv play_tone_def Let_def)

interpretation app: event_machine app_step app_inv "\<lambda>_. True"
proof
  fix a e b
  assume "app_inv a" "app_step a e = Some b"
  then show "app_inv b" by (cases e) (auto simp: door_bell_on_cmd_inv send_cmd_inv)
next
  fix a e
  show "\<exists>b. app_step a e = Some b" by (cases e) auto
qed

lemma bell_commands_pass [simp]:
  "ProcessServoConfigCommand ''OPEN_DOOR'' a = (False, a)"
  "ProcessMoveConfigCommand ''OPEN_DOOR'' a = (False, a)"
  "ProcessServoCommand ''OPEN_DOOR'' a = (False, a)"
  "ProcessMoveCommand ''OPEN_DOOR'' a = (False, a)"
  "ProcessServoConfigCommand ''ACCEPT_CALL'' a = (False, a)"
  "ProcessMoveConfigCommand ''ACCEPT_CALL'' a = (False, a)"
  "ProcessServoCommand ''ACCEPT_CALL'' a = (False, a)"
  "ProcessMoveCommand ''ACCEPT_CALL'' a = (False, a)"
  "ProcessServoConfigCommand ''DENY_CALL'' a = (False, a)"
  "ProcessMoveConfigCommand ''DENY_CALL'' a = (False, a)"
  "ProcessServoCommand ''DENY_CALL'' a = (False, a)"
  "ProcessMoveCommand ''DENY_CALL'' a = (False, a)"
  "ProcessServoConfigCommand ''ring'' a = (False, a)"
  "ProcessMoveConfigCommand ''ring'' a = (False, a)"
  "ProcessServoCommand ''ring'' a = (False, a)"
  "ProcessMoveCommand ''ring'' a = (False, a)"
  by (simp_all add: ProcessServoConfigCommand_def ProcessMoveConfigCommand_def ProcessServoCommand_def ProcessMoveCommand_def is_cmd_def strncmp_eq_def)

lemma before_call: "d < DOOR_BELL_STATE_CONNECTING \<longleftrightarrow> d \<in> {DOOR_BELL_STATE_NONE, DOOR_BELL_STATE_RINGING}"
  by (cases d) (simp_all add: less_door_bell_state_def)

lemmas bell_defs = door_bell_on_cmd_def send_cmd_def door_bell_command_def SAME_STR_def strncmp_eq_def
  door_bell_change_state_def play_tone_def app_emit_def Let_def before_call

section \<open>Properties\<close>

text \<open>
  Whatever commands arrive, in whatever order and from either entry point, every frame the
  dispatcher puts on the CAN bus carries a type that one of the two controllers understands and a
  value of at most 255, the robot speed stays within 0..255 and the servo step within 0..20.
\<close>

theorem app_run_bounded:
  "\<exists>a. run_events app_step app_initial es = Some a \<and>
       current_velocity a \<le> 255 \<and> servo_velocity a \<le> 20 \<and>
       list_all app_call_ok (app_calls a)"
  using app.run_total [OF app_inv_initial, of es] by (auto simp: app_inv_def list_all_length)

text \<open>
  Speed configuration over the signalling channel: \<open>ROBOT_SPEED:n\<close> stores the number,
  saturated at 255, and sends it to the platform in a type 10 frame; \<open>SERVO_STEP:n\<close> stores the
  number, saturated at 20, and sends nothing.
\<close>

theorem velocity_commands:
  assumes "webrtc_open a" and "len \<noteq> 0"
  shows "door_bell_on_cmd VIA_SIGNALING (''ROBOT_SPEED:'' @ dec_string n) len a =
           send_can 10 (word_of_int (min 255 (int n))) (a\<lparr>current_velocity := word_of_int (min 255 (int n))\<rparr>) \<and>
         door_bell_on_cmd VIA_SIGNALING (''SERVO_STEP:'' @ dec_string n) len a =
           a\<lparr>servo_velocity := word_of_int (min 20 (int n))\<rparr>"
proof -
  have s: "strtol (dec_string n) \<ge> 0" by (simp add: strtol_dec_string)
  have m: "(if strtol (dec_string n) < 0 then 0 else if strtol (dec_string n) > k then k
      else strtol (dec_string n)) = min k (int n)" if "k \<le> 255" for k
    using that by (simp add: strtol_dec_string)
  have "ProcessMoveConfigCommand (''ROBOT_SPEED:'' @ dec_string n) a =
      (True, send_can 10 (word_of_int (min 255 (int n))) (a\<lparr>current_velocity := word_of_int (min 255 (int n))\<rparr>))"
    using m [of 255] by (simp add: ProcessMoveConfigCommand_def strncmp_eq_def Let_def)
  moreover have "ProcessServoConfigCommand (''SERVO_STEP:'' @ dec_string n) a =
      (True, a\<lparr>servo_velocity := word_of_int (min 20 (int n))\<rparr>)"
    using m [of 20] by (simp add: ProcessServoConfigCommand_def strncmp_eq_def Let_def)
  moreover have "ProcessServoConfigCommand (''ROBOT_SPEED:'' @ dec_string n) a = (False, a)"
    by (simp add: ProcessServoConfigCommand_def strncmp_eq_def)
  ultimately show ?thesis
    using assms by (simp add: door_bell_on_cmd_def)
qed

theorem velocity_commands_witness:
  "door_bell_on_cmd VIA_SIGNALING (''ROBOT_SPEED:'' @ dec_string 300) 15 (app_initial\<lparr>webrtc_open := True\<rparr>) =
     send_can 10 255 (app_initial\<lparr>webrtc_open := True, current_velocity := 255\<rparr>)"
  using velocity_commands [of "app_initial\<lparr>webrtc_open := True\<rparr>" 15 300] by simp

text \<open>
  The same \<open>ROBOT_SPEED\<close> command is lost on the control path (console and MQTT): \<open>send_cmd\<close>
  neither stores the speed nor sends a frame, although the README says that the speed is
  propagated from the web and MQTT to the CAN receivers.
\<close>

theorem send_cmd_drops_speed:
  "send_cmd (Some (''ROBOT_SPEED:'' @ r)) a = a"
  by (simp add: send_cmd_def ProcessServoConfigCommand_def ProcessServoCommand_def
      ProcessMoveCommand_def is_cmd_def SAME_STR_def strncmp_eq_def)

text \<open>
  The door bell over the signalling channel: a door opening is always confirmed to the peer,
  with a tone only while no call is set up; accepting a call moves to CONNECTING and enables the
  peer connection after the music is stopped; denying disables it and falls back to NONE; a local
  ring is announced to the peer, and rings (with its 4 s tone) only while no call is set up.
\<close>

theorem door_bell_protocol:
  assumes "webrtc_open a" and "len \<noteq> 0"
  shows "door_bell_on_cmd VIA_SIGNALING ''OPEN_DOOR'' len a =
           a\<lparr>app_calls := app_calls a @ Send_custom_data ''DOOR_OPENED'' #
              (if door_bell a \<in> {DOOR_BELL_STATE_NONE, DOOR_BELL_STATE_RINGING}
               then [Play_music DOOR_BELL_TONE_OPEN_DOOR 0] else [])\<rparr> \<and>
         door_bell_on_cmd VIA_SIGNALING ''ACCEPT_CALL'' len a =
           a\<lparr>door_bell := DOOR_BELL_STATE_CONNECTING,
              app_calls := app_calls a @ [Stop_music, Enable_peer_connection True]\<rparr> \<and>
         door_bell_on_cmd VIA_SIGNALING ''DENY_CALL'' len a =
           a\<lparr>door_bell := DOOR_BELL_STATE_NONE,
              app_calls := app_calls a @ [Enable_peer_connection False, Stop_music]\<rparr> \<and>
         send_cmd (Some ''ring'') a =
           (if door_bell a \<in> {DOOR_BELL_STATE_NONE, DOOR_BELL_STATE_RINGING}
            then a\<lparr>door_bell := DOOR_BELL_STATE_RINGING,
                    app_calls := app_calls a @ [Send_custom_data ''RING'', Play_music DOOR_BELL_TONE_RING 4000]\<rparr>
            else a\<lparr>app_calls := app_calls a @ [Send_custom_data ''RING'']\<rparr>)"
proof (intro conjI)
  show "door_bell_on_cmd VIA_SIGNALING ''OPEN_DOOR'' len a =
      a\<lparr>app_calls := app_calls a @ Send_custom_data ''DOOR_OPENED'' #
        (if door_bell a \<in> {DOOR_BELL_STATE_NONE, DOOR_BELL_STATE_RINGING}
         then [Play_music DOOR_BELL_TONE_OPEN_DOOR 0] else [])\<rparr>"
    using assms by (simp add: bell_defs)
qed (use assms in \<open>simp_all add: bell_defs\<close>)

theorem door_bell_protocol_witness:
  "door_bell (door_bell_on_cmd VIA_SIGNALING ''ACCEPT_CALL'' 11 (app_initial\<lparr>webrtc_open := True\<rparr>)) =
     DOOR_BELL_STATE_CONNECTING"
  using door_bell_protocol [of "app_initial\<lparr>webrtc_open := True\<rparr>" 11] by simp

end
