(* ===== verification/Data_Queue.thy ===== *)
theory Data_Queue
  imports Esp_Prelude
begin

text \<open>
  The variable-size message queue of \<open>media_lib_sal/port/data_queue.c\<close>: one contiguous buffer in
  which every message is a 4-byte header (its total size) followed by its payload, and which jumps
  back to the start early when the space at the end is too small (\<open>fill_end\<close>). Positions and
  sizes are C \<open>int\<close>s; the buffer is its bytes. Sections under \<open>q->lock\<close> are single steps. A call
  that has to wait on the event group takes \<open>env\<close>: what the other threads do to the queue during
  each wait; when \<open>env\<close> is used up the call is \<open>Blocked\<close>.
\<close>

section \<open>State and results\<close>

datatype dq_bit = DATA_ARRIVE | DATA_CONSUME | USER_FREE

record data_queue =
  buffer :: "u8 list"
  dq_size :: int
  fill_end :: int
  wp :: int
  rp :: int
  filled :: int
  user :: int
  quit :: bool
  write_locked :: bool
  posted :: "dq_bit list"

definition DATA_Q_ALLOC_HEAD_SIZE :: int where
  "DATA_Q_ALLOC_HEAD_SIZE = 4"

text \<open>
  \<open>Crash\<close> is the deliberate null write of the sanity checks, or an access outside the buffer.
\<close>

datatype 'a dq_result = Null_handle 'a | Crash | Blocked data_queue | Ret 'a data_queue

definition post :: "dq_bit list \<Rightarrow> data_queue \<Rightarrow> data_queue" where
  "post bs q = q\<lparr>posted := posted q @ bs\<rparr>"

text \<open>\<open>*((int *) (q->buffer + pos))\<close>.\<close>

definition header_at :: "data_queue \<Rightarrow> int \<Rightarrow> int option" where
  "header_at q pos = (if pos < 0 then None else map_option sint (read_le32 (buffer q) (nat pos)))"

text \<open>
  The objects of a queue: the structure, the buffer, two mutexes and the event group. Each may fail to
  be created (\<open>made\<close>); the contents of a fresh \<open>malloc\<close>ed block are the argument
  \<open>mem\<close>. Creation and destruction are recorded.
\<close>

datatype dq_object = Q_struct | Q_buffer | Q_lock | Q_write_lock | Q_event

definition data_queue_deinit :: "(dq_object \<Rightarrow> bool) \<Rightarrow> dq_object list" where
  "data_queue_deinit present = filter present [Q_lock, Q_write_lock, Q_event, Q_buffer] @ [Q_struct]"

definition data_queue_init ::
  "(dq_object \<Rightarrow> bool) \<Rightarrow> u8 list \<Rightarrow> int \<Rightarrow> data_queue option \<times> dq_object list \<times> dq_object list" where
  "data_queue_init made mem sz =
     (let created = filter made [Q_struct, Q_buffer, Q_lock, Q_write_lock, Q_event] in
      if \<not> made Q_struct then (None, [], [])
      else if \<not> made Q_buffer \<or> \<not> made Q_lock \<or> \<not> made Q_write_lock \<or> \<not> made Q_event
      then (None, created, data_queue_deinit made)
      else (Some \<lparr>buffer = mem, dq_size = sz, fill_end = 0, wp = 0, rp = 0, filled = 0, user = 0,
              quit = False, write_locked = False, posted = []\<rparr>, created, []))"

section \<open>Waiting\<close>

text \<open>
  \<open>data_queue_wait_data\<close> and \<open>data_queue_wait_consume\<close> register as a user, release the lock while
  the environment step \<open>f\<close> happens, and report whether the queue is being shut down.
\<close>

definition data_queue_wait :: "(data_queue \<Rightarrow> data_queue) \<Rightarrow> data_queue \<Rightarrow> bool \<times> data_queue" where
  "data_queue_wait f q =
     (let q1 = f (q\<lparr>user := user q + 1\<rparr>)
      in (quit q1, post [USER_FREE] (q1\<lparr>user := user q1 - 1\<rparr>)))"

section \<open>Space\<close>

definition have_data :: "data_queue \<Rightarrow> bool" where
  "have_data q = (\<not> (wp q = rp q \<and> fill_end q = 0))"

definition have_data_from_last :: "data_queue \<Rightarrow> bool" where
  "have_data_from_last q = (filled q \<noteq> 0)"

definition get_available_size :: "data_queue \<Rightarrow> int" where
  "get_available_size q =
     (if wp q > rp q then dq_size q - wp q
      else if wp q = rp q then (if fill_end q \<noteq> 0 then 0 else dq_size q - wp q)
      else rp q - wp q)"

fun data_queue_get_available :: "data_queue option \<Rightarrow> int" where
  "data_queue_get_available None = 0"
| "data_queue_get_available (Some q) =
     (let avail = (if wp q = rp q \<and> fill_end q = 0 then dq_size q else get_available_size q)
      in if avail \<ge> DATA_Q_ALLOC_HEAD_SIZE then avail - DATA_Q_ALLOC_HEAD_SIZE else 0)"

section \<open>Writing\<close>

text \<open>The jump back to the start of the buffer when the end is too small.\<close>

definition make_room :: "int \<Rightarrow> data_queue \<Rightarrow> data_queue" where
  "make_room sz q =
     (if get_available_size q < sz \<and> fill_end q = 0 then
        (let q1 = (if wp q = rp q then q\<lparr>wp := 0, rp := 0\<rparr> else q)
         in q1\<lparr>fill_end := wp q1, wp := 0\<rparr>)
      else q)"

text \<open>The loop of \<open>data_queue_get_buffer\<close>, with both locks held.\<close>

fun get_buffer_loop :: "(data_queue \<Rightarrow> data_queue) list \<Rightarrow> int \<Rightarrow> data_queue \<Rightarrow> int option dq_result" where
  "get_buffer_loop env sz q =
     (if quit q then Ret None (q\<lparr>write_locked := False\<rparr>)
      else (let q1 = make_room sz q in
        if get_available_size q1 \<ge> sz
        then Ret (Some (wp q1 + DATA_Q_ALLOC_HEAD_SIZE)) (q1\<lparr>user := user q1 + 1\<rparr>)
        else (case env of
                [] \<Rightarrow> Blocked q1
              | f # fs \<Rightarrow>
                  (let (stopped, q2) = data_queue_wait f q1
                   in if stopped then Ret None (q2\<lparr>write_locked := False\<rparr>)
                      else get_buffer_loop fs sz q2))))"

declare get_buffer_loop.simps [simp del]

fun data_queue_get_buffer ::
  "(data_queue \<Rightarrow> data_queue) list \<Rightarrow> data_queue option \<Rightarrow> int \<Rightarrow> int option dq_result" where
  "data_queue_get_buffer env None sz = Null_handle None"
| "data_queue_get_buffer env (Some q) sz =
     (let sz = sz + DATA_Q_ALLOC_HEAD_SIZE
      in if sz > dq_size q then Ret None q
         else if write_locked q then Blocked q
         else get_buffer_loop env sz (q\<lparr>write_locked := True\<rparr>))"

fun data_queue_get_write_data :: "data_queue option \<Rightarrow> int option" where
  "data_queue_get_write_data None = None"
| "data_queue_get_write_data (Some q) = Some (wp q + DATA_Q_ALLOC_HEAD_SIZE)"

fun data_queue_send_buffer :: "data_queue option \<Rightarrow> int \<Rightarrow> int dq_result" where
  "data_queue_send_buffer None sz = Null_handle (-1)"
| "data_queue_send_buffer (Some q) sz =
     (if sz = 0 then
        Ret 0 (post [USER_FREE] (q\<lparr>user := user q - 1, write_locked := False\<rparr>))
      else (let sz = sz + DATA_Q_ALLOC_HEAD_SIZE in
        if get_available_size q \<ge> sz then
          (if wp q < 0 \<or> nat (wp q) + 4 > length (buffer q) then Crash
           else (let q1 = q\<lparr>buffer := overwrite (buffer q) (nat (wp q)) (le32 (word_of_int sz))\<rparr>
             in if sz < 0 \<or> sz > dq_size q1 then Crash
                else Ret 0 (post [DATA_ARRIVE, USER_FREE]
                       (q1\<lparr>wp := wp q1 + sz, filled := filled q1 + sz, user := user q1 - 1,
                           write_locked := False\<rparr>))))
        else Ret (-1) (post [USER_FREE] (q\<lparr>user := user q - 1, write_locked := False\<rparr>))))"

section \<open>Reading\<close>

fun data_queue_have_data :: "data_queue option \<Rightarrow> bool" where
  "data_queue_have_data None = False"
| "data_queue_have_data (Some q) = (if \<not> quit q then have_data q else False)"

text \<open>The message that is read next starts \<open>filled\<close> bytes before the write position.\<close>

definition read_position :: "data_queue \<Rightarrow> int" where
  "read_position q =
     (if filled q \<le> wp q then wp q - filled q else wp q + fill_end q - filled q)"

fun read_lock_loop ::
  "(data_queue \<Rightarrow> data_queue) list \<Rightarrow> data_queue \<Rightarrow> (int \<times> int) option dq_result" where
  "read_lock_loop env q =
     (if quit q then Ret None q
      else if \<not> have_data_from_last q then
        (case env of
           [] \<Rightarrow> Blocked q
         | f # fs \<Rightarrow>
             (let (stopped, q1) = data_queue_wait f q
              in if stopped then Ret None q1 else read_lock_loop fs q1))
      else (let cur_rp = read_position q in
        case header_at q cur_rp of
          None \<Rightarrow> Crash
        | Some data_size \<Rightarrow>
            if data_size < 0 \<or> data_size > dq_size q then Crash
            else Ret (Some (cur_rp + DATA_Q_ALLOC_HEAD_SIZE, data_size - DATA_Q_ALLOC_HEAD_SIZE))
                   (q\<lparr>user := user q + 1\<rparr>)))"

declare read_lock_loop.simps [simp del]

fun data_queue_read_lock ::
  "(data_queue \<Rightarrow> data_queue) list \<Rightarrow> data_queue option \<Rightarrow> (int \<times> int) option dq_result" where
  "data_queue_read_lock env None = Null_handle None"
| "data_queue_read_lock env (Some q) = read_lock_loop env q"

fun data_queue_peek_unlock :: "data_queue option \<Rightarrow> int dq_result" where
  "data_queue_peek_unlock None = Null_handle (-1)"
| "data_queue_peek_unlock (Some q) = Ret 0 (q\<lparr>user := user q - 1\<rparr>)"

text \<open>Taking one message of \<open>size\<close> bytes out of the ring.\<close>

definition advance :: "int \<Rightarrow> data_queue \<Rightarrow> data_queue" where
  "advance sz q =
     (let q1 = q\<lparr>rp := rp q + sz, filled := filled q - sz\<rparr>
      in if fill_end q1 \<noteq> 0 \<and> rp q1 \<ge> fill_end q1 then q1\<lparr>fill_end := 0, rp := 0\<rparr> else q1)"

fun data_queue_read_unlock :: "data_queue option \<Rightarrow> int dq_result" where
  "data_queue_read_unlock None = Null_handle (-1)"
| "data_queue_read_unlock (Some q) =
     (if have_data q then
        (case header_at q (rp q) of
           None \<Rightarrow> Crash
         | Some sz \<Rightarrow>
             if sz < 0 \<or> sz > dq_size q then Crash
             else Ret 0 (post [DATA_CONSUME, USER_FREE]
                    ((advance sz q)\<lparr>user := user q - 1\<rparr>)))
      else Ret 0 q)"

text \<open>\<open>None\<close> is a loop that never ends.\<close>

partial_function (option) consume_loop :: "data_queue \<Rightarrow> int dq_result option" where
  "consume_loop q =
     (if \<not> have_data q \<or> quit q then Some (Ret 0 q)
      else case header_at q (rp q) of
             None \<Rightarrow> Some Crash
           | Some sz \<Rightarrow>
               if sz < 0 \<or> sz \<ge> dq_size q then Some Crash
               else consume_loop (post [DATA_CONSUME] (advance sz q)))"

fun data_queue_consume_all :: "data_queue option \<Rightarrow> int dq_result option" where
  "data_queue_consume_all None = Some (Null_handle 0)"
| "data_queue_consume_all (Some q) = consume_loop q"

partial_function (option) query_loop ::
  "data_queue \<Rightarrow> int \<Rightarrow> int \<Rightarrow> int \<Rightarrow> int \<Rightarrow> (int \<times> int) dq_result option" where
  "query_loop q r ring q_num q_size =
     (if \<not> (r \<noteq> wp q \<or> ring \<noteq> 0) then Some (Ret (q_num, q_size) q)
      else case header_at q r of
             None \<Rightarrow> Some Crash
           | Some sz \<Rightarrow>
               if sz < 0 \<or> sz > dq_size q then Some Crash
               else if ring \<noteq> 0 \<and> r + sz = ring
                 then query_loop q 0 0 (q_num + 1) (q_size + (sz - DATA_Q_ALLOC_HEAD_SIZE))
                 else query_loop q (r + sz) ring (q_num + 1) (q_size + (sz - DATA_Q_ALLOC_HEAD_SIZE)))"

definition data_queue_query :: "data_queue \<Rightarrow> (int \<times> int) dq_result option" where
  "data_queue_query q =
     (if have_data q then query_loop q (rp q) (fill_end q) 0 0 else Some (Ret (0, 0) q))"

section \<open>Shutting down\<close>

text \<open>
  \<open>data_queue_wakeup\<close> raises \<open>quit\<close>, wakes both sides and waits until no user is left; the list is
  what the other threads do during each of those waits.
\<close>

fun wakeup_loop :: "(data_queue \<Rightarrow> data_queue) list \<Rightarrow> data_queue \<Rightarrow> unit dq_result" where
  "wakeup_loop env q =
     (if user q = 0 then Ret () q
      else case env of [] \<Rightarrow> Blocked q | f # fs \<Rightarrow> wakeup_loop fs (f q))"

declare wakeup_loop.simps [simp del]

fun data_queue_wakeup :: "(data_queue \<Rightarrow> data_queue) list \<Rightarrow> data_queue option \<Rightarrow> unit dq_result" where
  "data_queue_wakeup env None = Null_handle ()"
| "data_queue_wakeup env (Some q) = wakeup_loop env (post [DATA_ARRIVE, DATA_CONSUME] (q\<lparr>quit := True\<rparr>))"

section \<open>The messages in the ring\<close>

definition seg :: "u8 list \<Rightarrow> nat \<Rightarrow> nat \<Rightarrow> u8 list" where
  "seg b i j = take (j - i) (drop i b)"

definition encode_msg :: "u8 list \<Rightarrow> u8 list" where
  "encode_msg f = le32 (word_of_nat (length f + 4)) @ f"

definition encode_all :: "u8 list list \<Rightarrow> u8 list" where
  "encode_all fs = concat (map encode_msg fs)"

lemma encode_simps [simp]:
  "length (encode_msg f) = length f + 4"
  "encode_all [] = []"
  "encode_all (f # fs) = encode_msg f @ encode_all fs"
  "encode_all (fs @ gs) = encode_all fs @ encode_all gs"
  by (simp_all add: encode_msg_def encode_all_def)

lemma encode_all_Nil [simp]: "encode_all fs = [] \<longleftrightarrow> fs = []"
  by (cases fs) (auto simp: encode_msg_def le32_def)

lemma length_seg: "i \<le> j \<Longrightarrow> j \<le> length b \<Longrightarrow> length (seg b i j) = j - i"
  by (simp add: seg_def)

lemma seg_split:
  assumes "i \<le> j" "j \<le> k"
  shows "seg b i k = seg b i j @ seg b j k"
proof -
  have "k - i = (j - i) + (k - j)" using assms by simp
  then have "seg b i k = take (j - i) (drop i b) @ take (k - j) (drop (j - i) (drop i b))"
    by (simp only: seg_def take_add)
  then show ?thesis using assms(1) by (simp add: seg_def)
qed

lemma seg_head:
  assumes "seg b i k = xs @ ys" "k \<le> length b" "i \<le> k"
  shows "seg b i (i + length xs) = xs" and "seg b (i + length xs) k = ys" and "i + length xs \<le> k"
proof -
  have "length (xs @ ys) = k - i" using assms length_seg by metis
  then show le: "i + length xs \<le> k" using assms(3) by simp
  have "seg b i (i + length xs) = take (length xs) (seg b i k)"
    using le by (simp add: seg_def min_def)
  then show "seg b i (i + length xs) = xs" by (simp add: assms(1))
  have "seg b (i + length xs) k = drop (length xs) (seg b i k)"
    using le by (simp add: seg_def drop_take add.commute)
  then show "seg b (i + length xs) k = ys" by (simp add: assms(1))
qed

text \<open>
  \<open>dq_rep q fs\<close>: the queue holds the messages \<open>fs\<close>, oldest first. Either the data lies between
  the read and the write position, or it runs from the read position to \<open>fill_end\<close> and goes on at
  the start of the buffer.
\<close>

definition dq_layout :: "u8 list \<Rightarrow> nat \<Rightarrow> nat \<Rightarrow> nat \<Rightarrow> nat \<Rightarrow> u8 list list \<Rightarrow> bool" where
  "dq_layout b r w e n fs \<longleftrightarrow>
     (if e = 0 then r \<le> w \<and> w \<le> length b \<and> seg b r w = encode_all fs \<and> n = w - r
      else w \<le> r \<and> r < e \<and> e \<le> length b \<and> n = (e - r) + w \<and>
           (\<exists>fs1 fs2. fs = fs1 @ fs2 \<and> seg b r e = encode_all fs1 \<and> seg b 0 w = encode_all fs2))"

definition dq_rep :: "data_queue \<Rightarrow> u8 list list \<Rightarrow> bool" where
  "dq_rep q fs \<longleftrightarrow>
     (\<exists>r w e n. rp q = int r \<and> wp q = int w \<and> fill_end q = int e \<and> filled q = int n \<and>
        dq_size q = int (length (buffer q)) \<and> length (buffer q) < 2 ^ 31 \<and>
        dq_layout (buffer q) r w e n fs)"

lemma dq_repI:
  "rp q = int r \<Longrightarrow> wp q = int w \<Longrightarrow> fill_end q = int e \<Longrightarrow> filled q = int n \<Longrightarrow>
   dq_size q = int (length (buffer q)) \<Longrightarrow> length (buffer q) < 2 ^ 31 \<Longrightarrow>
   dq_layout (buffer q) r w e n fs \<Longrightarrow> dq_rep q fs"
  unfolding dq_rep_def by blast

lemma dq_wrapI:
  "e \<noteq> 0 \<Longrightarrow> w \<le> r \<Longrightarrow> r < e \<Longrightarrow> e \<le> length b \<Longrightarrow> n = (e - r) + w \<Longrightarrow> fs = fs1 @ fs2 \<Longrightarrow>
   seg b r e = encode_all fs1 \<Longrightarrow> seg b 0 w = encode_all fs2 \<Longrightarrow> dq_layout b r w e n fs"
  unfolding dq_layout_def by auto

lemma dq_layout_bounds:
  assumes "dq_layout b r w e n fs"
  shows "r \<le> length b" "w \<le> length b" "e \<le> length b" "n \<le> length b"
  using assms by (auto simp: dq_layout_def split: if_splits)

lemma dq_layout_length: "dq_layout b r w e n fs \<Longrightarrow> n = length (encode_all fs)"
  by (auto simp: dq_layout_def length_seg split: if_splits dest!: arg_cong [of _ _ length])

lemma dq_rep_filled: "dq_rep q fs \<Longrightarrow> filled q = int (length (encode_all fs))"
  by (auto simp: dq_rep_def dest: dq_layout_length)

lemma dq_layout_empty: "dq_layout b r w e n fs \<Longrightarrow> fs = [] \<longleftrightarrow> r = w \<and> e = 0"
  by (auto simp: dq_layout_def seg_def split: if_splits dest!: arg_cong [of _ _ length])

lemma have_data_iff: "dq_rep q fs \<Longrightarrow> have_data q \<longleftrightarrow> fs \<noteq> []"
  by (auto simp: dq_rep_def have_data_def dest: dq_layout_empty)

lemma have_data_from_last_iff: "dq_rep q fs \<Longrightarrow> have_data_from_last q \<longleftrightarrow> fs \<noteq> []"
proof -
  assume "dq_rep q fs"
  then have "filled q = int (length (encode_all fs))" by (rule dq_rep_filled)
  then show ?thesis by (simp add: have_data_from_last_def)
qed

text \<open>The oldest message is where both read operations look for it.\<close>

lemma dq_layout_front:
  assumes "dq_layout b r w e n (f # fs)"
  shows "r + length f + 4 \<le> length b" and "seg b r (r + (length f + 4)) = encode_msg f"
    and "n = (if n \<le> w then w - r else e - r + w)" and "n \<le> w \<longleftrightarrow> e = 0"
proof -
  have "r + length f + 4 \<le> length b \<and> seg b r (r + (length f + 4)) = encode_msg f"
  proof (cases "e = 0")
    case True
    with assms have s: "seg b r w = encode_msg f @ encode_all fs" "w \<le> length b" "r \<le> w"
      by (simp_all add: dq_layout_def)
    from seg_head [OF s] s(2) show ?thesis by simp
  next
    case False
    with assms obtain fs1 fs2 where l: "w \<le> r" "r < e" "e \<le> length b" "f # fs = fs1 @ fs2"
      "seg b r e = encode_all fs1" by (auto simp: dq_layout_def)
    then have "fs1 \<noteq> []" using length_seg [of r e b] by auto
    with l obtain gs where "seg b r e = encode_msg f @ encode_all gs" by (cases fs1) auto
    from seg_head [OF this l(3)] l show ?thesis by simp
  qed
  then show "r + length f + 4 \<le> length b" "seg b r (r + (length f + 4)) = encode_msg f" by auto
  show "n \<le> w \<longleftrightarrow> e = 0" "n = (if n \<le> w then w - r else e - r + w)"
    using assms by (auto simp: dq_layout_def split: if_splits)
qed

lemma header_of_seg:
  assumes "seg b r (r + (length f + 4)) = encode_msg f" "r + length f + 4 \<le> length b" "length b < 2 ^ 31"
  shows "map_option sint (read_le32 b r) = Some (int (length f) + 4)"
proof -
  have b: "b = take r b @ encode_msg f @ drop (r + (length f + 4)) b"
    using assms(1) by (metis append_take_drop_id seg_def add_diff_cancel_left' drop_drop add.commute)
  have "read_le32 (take r b @ le32 (word_of_nat (length f + 4)) @ (f @ drop (r + (length f + 4)) b)) (length (take r b))
      = Some (word_of_nat (length f + 4))"
    by (rule read_le32_append)
  then have "read_le32 b r = Some (word_of_nat (length f + 4))"
    using b assms(2) by (simp add: encode_msg_def min_def)
  moreover have "sint (word_of_nat (length f + 4) :: u32) = int (length f) + 4"
    using assms(2,3) by (simp add: signed_of_nat signed_take_bit_int_eq_self del: of_nat_add)
  ultimately show ?thesis by simp
qed


section \<open>Room and writing\<close>

text \<open>The free stretch at the write position.\<close>

definition dq_room :: "u8 list \<Rightarrow> nat \<Rightarrow> nat \<Rightarrow> nat \<Rightarrow> nat" where
  "dq_room b r w e = (if e = 0 then length b - w else r - w)"

lemma get_available_room:
  assumes "dq_layout b r w e n fs" "rp q = int r" "wp q = int w" "fill_end q = int e"
    "dq_size q = int (length b)"
  shows "get_available_size q = int (dq_room b r w e)"
  using assms by (auto simp: get_available_size_def dq_room_def dq_layout_def of_nat_diff split: if_splits)

lemma make_room_rep: "dq_rep q fs \<Longrightarrow> dq_rep (make_room m q) fs"
proof -
  assume "dq_rep q fs"
  then obtain r w e n where q: "rp q = int r" "wp q = int w" "fill_end q = int e" "filled q = int n"
    "dq_size q = int (length (buffer q))" "length (buffer q) < 2 ^ 31"
    and l: "dq_layout (buffer q) r w e n fs" by (auto simp: dq_rep_def)
  show ?thesis
  proof (cases "get_available_size q < m \<and> fill_end q = 0")
    case False
    then have "make_room m q = q" by (simp only: make_room_def if_False)
    with \<open>dq_rep q fs\<close> show ?thesis by simp
  next
    case True
    then have e: "e = 0" using q by simp
    show ?thesis
    proof (cases "w = r")
      case True': True
      then have "make_room m q = q\<lparr>wp := 0, rp := 0, fill_end := 0\<rparr>"
        using True q by (simp add: make_room_def)
      moreover have "dq_layout (buffer q) 0 0 0 n fs"
        using l e True' by (simp add: dq_layout_def seg_def)
      ultimately show ?thesis using q by (intro dq_repI [of _ 0 0 0 n]) simp_all
    next
      case False
      then have "make_room m q = q\<lparr>fill_end := int w, wp := 0\<rparr>"
        using True q by (simp add: make_room_def)
      moreover have "dq_layout (buffer q) r 0 w n fs"
        using l e False by (intro dq_wrapI [of _ _ _ _ _ _ fs "[]"]) (simp_all add: dq_layout_def seg_def)
      ultimately show ?thesis using q by (intro dq_repI [of _ r 0 w n]) simp_all
    qed
  qed
qed

lemma make_room_frame [simp]:
  "buffer (make_room m q) = buffer q" "quit (make_room m q) = quit q"
  "user (make_room m q) = user q" "write_locked (make_room m q) = write_locked q"
  "dq_size (make_room m q) = dq_size q" "filled (make_room m q) = filled q"
  by (simp_all add: make_room_def Let_def)

text \<open>Two writes: the payload by the caller, then the header by \<open>data_queue_send_buffer\<close>.\<close>

definition put_msg :: "u8 list \<Rightarrow> nat \<Rightarrow> u8 list \<Rightarrow> u8 list" where
  "put_msg b w f = overwrite (overwrite b (w + 4) f) w (le32 (word_of_nat (length f + 4)))"

lemma put_msg_seg:
  assumes "w + (length f + 4) \<le> length b"
  shows "length (put_msg b w f) = length b"
    and "seg (put_msg b w f) w (w + (length f + 4)) = encode_msg f"
    and "j \<le> w \<or> w + (length f + 4) \<le> i \<Longrightarrow> seg (put_msg b w f) i j = seg b i j"
proof -
  let ?h = "le32 (word_of_nat (length f + 4))"
  define b1 where "b1 = overwrite b (w + 4) f"
  have l1: "length b1 = length b" unfolding b1_def using assms by (intro length_overwrite) simp
  then show "length (put_msg b w f) = length b"
    unfolding put_msg_def b1_def [symmetric] using assms by (subst length_overwrite) simp_all
  have h: "seg (overwrite b1 w ?h) w (w + 4) = ?h"
    using overwrite_at [of w ?h b1] assms l1 by (simp add: seg_def)
  have "take (length f) (drop (w + 4) b1) = f"
    unfolding b1_def using assms by (intro overwrite_at) simp
  moreover have "seg (overwrite b1 w ?h) (w + 4) (w + (length f + 4)) = seg b1 (w + 4) (w + (length f + 4))"
    unfolding seg_def using assms l1 by (intro overwrite_other) simp_all
  ultimately have "seg (overwrite b1 w ?h) (w + 4) (w + (length f + 4)) = f"
    by (simp add: seg_def)
  with h show "seg (put_msg b w f) w (w + (length f + 4)) = encode_msg f"
    using seg_split [of w "w + 4" "w + (length f + 4)" "overwrite b1 w ?h"]
    by (simp add: put_msg_def b1_def encode_msg_def)
  assume "j \<le> w \<or> w + (length f + 4) \<le> i"
  then have o: "j \<le> w \<or> w + 4 \<le> i" "j \<le> w + 4 \<or> w + 4 + length f \<le> i" by auto
  have "seg (overwrite b1 w ?h) i j = seg b1 i j"
    unfolding seg_def using assms l1 o(1) by (intro overwrite_other) simp_all
  moreover have "seg b1 i j = seg b i j"
    unfolding seg_def b1_def using assms o(2) by (intro overwrite_other) simp_all
  ultimately show "seg (put_msg b w f) i j = seg b i j" by (simp add: put_msg_def b1_def)
qed

lemma put_msg_layout:
  assumes l: "dq_layout b r w e n fs" and room: "length f + 4 \<le> dq_room b r w e"
  shows "dq_layout (put_msg b w f) r (w + (length f + 4)) e (n + (length f + 4)) (fs @ [f])"
proof -
  have fit: "w + (length f + 4) \<le> length b"
    using l room dq_layout_bounds [OF l] by (auto simp: dq_room_def split: if_splits)
  note p = put_msg_seg [OF fit]
  show ?thesis
  proof (cases "e = 0")
    case True
    then have "seg (put_msg b w f) r (w + (length f + 4)) = encode_all fs @ encode_msg f"
      using l p seg_split [of r w "w + (length f + 4)" "put_msg b w f"] by (simp add: dq_layout_def)
    with True l fit p(1) show ?thesis by (simp add: dq_layout_def)
  next
    case False
    with l obtain fs1 fs2 where fs: "fs = fs1 @ fs2" "seg b r e = encode_all fs1" "seg b 0 w = encode_all fs2"
      and o: "w \<le> r" "r < e" "e \<le> length b" "n = (e - r) + w" by (auto simp: dq_layout_def)
    have wr: "w + (length f + 4) \<le> r" using room False o by (simp add: dq_room_def)
    have "seg (put_msg b w f) 0 (w + (length f + 4)) = encode_all (fs2 @ [f])"
      using p fs(3) seg_split [of 0 w "w + (length f + 4)" "put_msg b w f"] by simp
    moreover have "seg (put_msg b w f) r e = encode_all fs1" using p(3) wr fs(2) by simp
    ultimately show ?thesis
      using False o wr p(1) fs(1) by (intro dq_wrapI [of _ _ _ _ _ _ fs1 "fs2 @ [f]"]) simp_all
  qed
qed

section \<open>Reading\<close>

lemma dq_layout_tail:
  assumes l: "dq_layout b r w e n (f # fs)"
  shows "if e \<noteq> 0 \<and> r + (length f + 4) \<ge> e
         then dq_layout b 0 w 0 (n - (length f + 4)) fs
         else dq_layout b (r + (length f + 4)) w e (n - (length f + 4)) fs"
proof (cases "e = 0")
  case True
  with l have s: "seg b r w = encode_msg f @ encode_all fs" "w \<le> length b" "r \<le> w" "n = w - r"
    by (simp_all add: dq_layout_def)
  from seg_head [OF s(1-3)] s True show ?thesis by (simp add: dq_layout_def)
next
  case False
  with l obtain fs1 fs2 where o: "w \<le> r" "r < e" "e \<le> length b" "n = (e - r) + w" "f # fs = fs1 @ fs2"
    "seg b r e = encode_all fs1" "seg b 0 w = encode_all fs2" by (auto simp: dq_layout_def)
  then have "fs1 \<noteq> []" using length_seg [of r e b] by auto
  with o obtain gs where g: "seg b r e = encode_msg f @ encode_all gs" "fs = gs @ fs2" by (cases fs1) auto
  note h = seg_head [OF g(1) o(3)]
  have le: "r + (length f + 4) \<le> e" using h(3) o by simp
  show ?thesis
  proof (cases "r + (length f + 4) = e")
    case True
    with h o have "encode_all gs = []" by (simp add: seg_def)
    then have "fs = fs2" using g by simp
    with True False o show ?thesis by (simp add: dq_layout_def)
  next
    case False': False
    with le h o g False show ?thesis
      by (auto intro: dq_wrapI [of _ _ _ _ _ _ gs fs2])
  qed
qed

lemma header_front:
  assumes "dq_rep q (f # fs)"
  shows "header_at q (rp q) = Some (int (length f) + 4)" and "read_position q = rp q"
    and "int (length f) + 4 \<le> dq_size q" and "rp q \<ge> 0"
    and "seg (buffer q) (nat (rp q + 4)) (nat (rp q + 4) + length f) = f"
proof -
  from assms obtain r w e n where q: "rp q = int r" "wp q = int w" "fill_end q = int e" "filled q = int n"
    "dq_size q = int (length (buffer q))" "length (buffer q) < 2 ^ 31"
    and l: "dq_layout (buffer q) r w e n (f # fs)" by (auto simp: dq_rep_def)
  note fr = dq_layout_front [OF l]
  show "header_at q (rp q) = Some (int (length f) + 4)"
    using header_of_seg [OF fr(2,1)] q by (simp add: header_at_def)
  show "int (length f) + 4 \<le> dq_size q" "rp q \<ge> 0" using fr(1) q by simp_all
  have "n \<le> w + e" "r \<le> w \<or> e \<noteq> 0" using l by (auto simp: dq_layout_def split: if_splits)
  with fr(3,4) l show "read_position q = rp q"
    using q by (auto simp: read_position_def dq_layout_def of_nat_diff split: if_splits)
  have "seg (buffer q) r (r + (length f + 4)) = le32 (word_of_nat (length f + 4)) @ f"
    using fr(2) by (simp add: encode_msg_def)
  from seg_head(2) [OF this] fr(1)
  have "seg (buffer q) (r + 4) (r + (length f + 4)) = f" by simp
  then show "seg (buffer q) (nat (rp q + 4)) (nat (rp q + 4) + length f) = f"
    using q by (simp add: nat_add_distrib add.commute add.left_commute)
qed

lemma advance_rep:
  assumes "dq_rep q (f # fs)"
  shows "dq_rep (advance (int (length f) + 4) q) fs"
proof -
  from assms obtain r w e n where q: "rp q = int r" "wp q = int w" "fill_end q = int e" "filled q = int n"
    "dq_size q = int (length (buffer q))" "length (buffer q) < 2 ^ 31"
    and l: "dq_layout (buffer q) r w e n (f # fs)" by (auto simp: dq_rep_def)
  have n: "length f + 4 \<le> n" using dq_layout_length [OF l] by simp
  note t = dq_layout_tail [OF l]
  show ?thesis
  proof (cases "e \<noteq> 0 \<and> r + (length f + 4) \<ge> e")
    case True
    then have "advance (int (length f) + 4) q =
        q\<lparr>rp := 0, filled := int (n - (length f + 4)), fill_end := 0\<rparr>"
      using q n by (simp add: advance_def of_nat_diff)
    with t True q show ?thesis
      by (intro dq_repI [of _ 0 w 0 "n - (length f + 4)"]) simp_all
  next
    case False
    then have "advance (int (length f) + 4) q =
        q\<lparr>rp := int (r + (length f + 4)), filled := int (n - (length f + 4))\<rparr>"
      using q n by (auto simp: advance_def of_nat_diff)
    moreover have "dq_layout (buffer q) (r + (length f + 4)) w e (n - (length f + 4)) fs"
      using t False by (simp only: if_False)
    ultimately show ?thesis
      using q by (intro dq_repI [of _ "r + (length f + 4)" w e "n - (length f + 4)"]) simp_all
  qed
qed

section \<open>The queue as a first-in first-out queue of messages\<close>

text \<open>The queue is open: it holds \<open>fs\<close> and is not being shut down.\<close>

definition dq_open :: "data_queue \<Rightarrow> u8 list list \<Rightarrow> bool" where
  "dq_open q fs \<longleftrightarrow> dq_rep q fs \<and> \<not> quit q"

text \<open>A writer that has its buffer fills it and sends \<open>f\<close>; a reader that has its message releases it.\<close>

definition dq_fill_send :: "int \<Rightarrow> u8 list \<Rightarrow> data_queue \<Rightarrow> int dq_result" where
  "dq_fill_send pos f q =
     data_queue_send_buffer (Some (q\<lparr>buffer := overwrite (buffer q) (nat pos) f\<rparr>)) (int (length f))"

fun dq_done :: "int dq_result \<Rightarrow> data_queue option" where
  "dq_done (Ret r q) = (if r = 0 then Some q else None)"
| "dq_done _ = None"

definition dq_put :: "u8 list \<Rightarrow> data_queue \<Rightarrow> data_queue option" where
  "dq_put f q =
     (if f = [] then None
      else case data_queue_get_buffer [] (Some q) (int (length f)) of
             Ret (Some pos) q1 \<Rightarrow> dq_done (dq_fill_send pos f q1)
           | _ \<Rightarrow> None)"

definition dq_get :: "data_queue \<Rightarrow> (u8 list \<times> data_queue) option" where
  "dq_get q =
     (case data_queue_read_lock [] (Some q) of
        Ret (Some (pos, len)) q1 \<Rightarrow>
          map_option (Pair (take (nat len) (drop (nat pos) (buffer q1))))
            (dq_done (data_queue_read_unlock (Some q1)))
      | _ \<Rightarrow> None)"

text \<open>The room at the write position.\<close>

definition dq_writable :: "data_queue \<Rightarrow> int \<Rightarrow> bool" where
  "dq_writable q m \<longleftrightarrow> m \<le> get_available_size q"

lemma dq_rep_update [simp]:
  "dq_rep (q\<lparr>user := u\<rparr>) fs = dq_rep q fs" "dq_rep (q\<lparr>write_locked := l\<rparr>) fs = dq_rep q fs"
  "dq_rep (q\<lparr>posted := p\<rparr>) fs = dq_rep q fs" "dq_rep (q\<lparr>quit := t\<rparr>) fs = dq_rep q fs"
  "dq_rep (post bs q) fs = dq_rep q fs"
  by (simp_all add: dq_rep_def post_def)

lemma post_frame [simp]:
  "quit (post bs q) = quit q" "user (post bs q) = user q" "write_locked (post bs q) = write_locked q"
  "buffer (post bs q) = buffer q" "wp (post bs q) = wp q" "rp (post bs q) = rp q"
  "fill_end (post bs q) = fill_end q" "dq_size (post bs q) = dq_size q" "filled (post bs q) = filled q"
  by (simp_all add: post_def)

lemma get_available_size_update [simp]:
  "get_available_size (q\<lparr>user := u\<rparr>) = get_available_size q"
  "get_available_size (q\<lparr>write_locked := l\<rparr>) = get_available_size q"
  "get_available_size (q\<lparr>buffer := b\<rparr>) = get_available_size q"
  "get_available_size (post bs q) = get_available_size q"
  by (simp_all add: get_available_size_def post_def)

lemma advance_frame [simp]:
  "buffer (advance m q) = buffer q" "quit (advance m q) = quit q" "user (advance m q) = user q"
  "write_locked (advance m q) = write_locked q" "wp (advance m q) = wp q" "dq_size (advance m q) = dq_size q"
  by (simp_all add: advance_def Let_def)

text \<open>Without waiting, the loop either reserves enough room or has to block.\<close>

lemma get_buffer_Nil:
  assumes "dq_rep q fs" "get_buffer_loop [] m q = Ret (Some pos) q1"
  shows "dq_rep q1 fs" "dq_writable q1 m" "pos = wp q1 + 4" "user q1 = user q + 1"
    "write_locked q1 = write_locked q" "quit q1 = quit q" "\<not> quit q"
  using assms make_room_rep [OF assms(1), of m]
  by (auto simp: get_buffer_loop.simps dq_writable_def DATA_Q_ALLOC_HEAD_SIZE_def Let_def split: if_splits)

text \<open>A reservation survives every read that happens before the writer sends.\<close>

lemma advance_writable:
  assumes "dq_rep q (f # fs)" "dq_writable q m"
  shows "dq_writable (advance (int (length f) + 4) q) m"
proof -
  from assms(1) obtain r w e n where q: "rp q = int r" "wp q = int w" "fill_end q = int e"
    "dq_size q = int (length (buffer q))"
    and l: "dq_layout (buffer q) r w e n (f # fs)" by (auto simp: dq_rep_def)
  have "r < w \<or> e \<noteq> 0" using dq_layout_empty [OF l] l by (auto simp: dq_layout_def split: if_splits)
  moreover have "r \<le> length (buffer q)" "w \<le> length (buffer q)" "e \<le> length (buffer q)" "e \<noteq> 0 \<longrightarrow> w \<le> r \<and> r < e"
    using l dq_layout_bounds [OF l] by (auto simp: dq_layout_def)
  moreover have "e = 0 \<Longrightarrow> r + (length f + 4) \<le> w"
    using dq_layout_tail [OF l] by (auto simp: dq_layout_def split: if_splits)
  ultimately show ?thesis using assms(2) q
    by (auto simp: dq_writable_def get_available_size_def advance_def Let_def split: if_splits)
qed

lemma send_rep:
  assumes "dq_rep q fs" "dq_writable q (int (length f) + 4)" "f \<noteq> []"
  shows "\<exists>q1. dq_fill_send (wp q + 4) f q = Ret 0 q1 \<and> dq_rep q1 (fs @ [f]) \<and> user q1 = user q - 1 \<and>
           \<not> write_locked q1 \<and> quit q1 = quit q"
proof -
  from assms(1) obtain r w e n where q: "rp q = int r" "wp q = int w" "fill_end q = int e" "filled q = int n"
    "dq_size q = int (length (buffer q))" "length (buffer q) < 2 ^ 31"
    and l: "dq_layout (buffer q) r w e n fs" by (auto simp: dq_rep_def)
  have av: "get_available_size q = int (dq_room (buffer q) r w e)"
    using get_available_room [OF l] q by simp
  then have room: "length f + 4 \<le> dq_room (buffer q) r w e"
    using assms(2) by (simp add: dq_writable_def)
  then have fit: "w + (length f + 4) \<le> length (buffer q)"
    using dq_layout_bounds [OF l] by (auto simp: dq_room_def split: if_splits)
  have len: "length (overwrite (buffer q) (w + 4) f) = length (buffer q)"
    using fit by (intro length_overwrite) simp
  define b where "b = put_msg (buffer q) w f"
  have nw: "nat (wp q + 4) = w + 4" using q by simp
  have le: "le32 (word_of_int (int (length f) + 4)) = le32 (word_of_nat (length f + 4))"
    by simp
  have b: "length b = length (buffer q)"
    unfolding b_def using put_msg_seg(1) [OF fit] .
  have "dq_fill_send (wp q + 4) f q = Ret 0 (post [DATA_ARRIVE, USER_FREE]
      (q\<lparr>buffer := b, wp := int (w + (length f + 4)), filled := int (n + (length f + 4)),
         user := user q - 1, write_locked := False\<rparr>))"
    using assms(3) av room fit len nw q le
    by (simp add: dq_fill_send_def DATA_Q_ALLOC_HEAD_SIZE_def Let_def b_def put_msg_def algebra_simps)
  moreover have "dq_rep (q\<lparr>buffer := b, wp := int (w + (length f + 4)), filled := int (n + (length f + 4)),
         user := user q - 1, write_locked := False\<rparr>) (fs @ [f])"
    using q b put_msg_layout [OF l room]
    by (intro dq_repI [of _ r "w + (length f + 4)" e "n + (length f + 4)"]) (simp_all add: b_def)
  ultimately show ?thesis by simp
qed

lemma dq_put_open: "dq_open q fs \<Longrightarrow> dq_put f q = Some q' \<Longrightarrow> dq_open q' (fs @ [f])"
proof -
  assume o: "dq_open q fs" and p: "dq_put f q = Some q'"
  then have f: "f \<noteq> []" by (auto simp: dq_put_def)
  from p obtain pos q1 where
    g: "get_buffer_loop [] (int (length f) + 4) (q\<lparr>write_locked := True\<rparr>) = Ret (Some pos) q1"
    and d: "dq_done (dq_fill_send pos f q1) = Some q'"
    by (auto simp: dq_put_def Let_def DATA_Q_ALLOC_HEAD_SIZE_def split: dq_result.splits option.splits if_splits)
  have "dq_rep (q\<lparr>write_locked := True\<rparr>) fs" using o by (simp add: dq_open_def)
  note g' = get_buffer_Nil [OF this g]
  from send_rep [OF g'(1,2) f] d g'(3,6) o show ?thesis
    by (auto simp: dq_open_def split: if_splits)
qed

lemma read_lock_front:
  assumes "dq_open q (f # fs)"
  shows "data_queue_read_lock env (Some q) =
    Ret (Some (rp q + 4, int (length f))) (q\<lparr>user := user q + 1\<rparr>)"
  using assms header_front [of q f fs] have_data_from_last_iff [of q "f # fs"]
  by (simp add: dq_open_def read_lock_loop.simps [of env q] DATA_Q_ALLOC_HEAD_SIZE_def)

lemma read_unlock_front:
  assumes "dq_rep q (f # fs)"
  shows "data_queue_read_unlock (Some q) = Ret 0 (post [DATA_CONSUME, USER_FREE]
    ((advance (int (length f) + 4) q)\<lparr>user := user q - 1\<rparr>))"
  using assms header_front [of q f fs] have_data_iff [of q "f # fs"] by simp

lemma advance_user [simp]: "advance m (q\<lparr>user := u\<rparr>) = (advance m q)\<lparr>user := u\<rparr>"
  by (simp add: advance_def Let_def)

lemma dq_get_front:
  assumes "dq_open q (f # fs)"
  shows "dq_get q = Some (f, post [DATA_CONSUME, USER_FREE] ((advance (int (length f) + 4) q)\<lparr>user := user q\<rparr>))"
proof -
  have r: "dq_rep q (f # fs)" using assms by (simp add: dq_open_def)
  have f: "take (length f) (drop (nat (rp q + 4)) (buffer q)) = f"
    using header_front(5) [OF r] by (simp add: seg_def)
  have u: "data_queue_read_unlock (Some (q\<lparr>user := user q + 1\<rparr>)) = Ret 0 (post [DATA_CONSUME, USER_FREE]
    ((advance (int (length f) + 4) q)\<lparr>user := user q\<rparr>))"
    using read_unlock_front [of "q\<lparr>user := user q + 1\<rparr>" f fs] r by simp
  show ?thesis
    unfolding dq_get_def read_lock_front [OF assms] by (simp add: u f del: data_queue_read_unlock.simps)
qed

interpretation dq: fifo dq_open dq_put dq_get
proof unfold_locales
  show "dq_open q (xs @ [x])" if "dq_open p xs" "dq_put x p = Some q" for p q xs x
    using that by (rule dq_put_open)
  show "\<exists>q'. dq_get q = Some (x, q') \<and> dq_open q' xs" if "dq_open q (x # xs)" for q x xs
    using that advance_rep [of q x xs] dq_get_front [OF that] by (simp add: dq_open_def)
  show "dq_get q = None" if "dq_open q []" for q
    using that have_data_from_last_iff [of q "[]"]
    by (simp add: dq_get_def dq_open_def read_lock_loop.simps)
qed

section \<open>Draining and counting\<close>

lemma consume_all_rep:
  "dq_open q fs \<Longrightarrow> \<forall>f \<in> set fs. int (length f) + 4 < dq_size q \<Longrightarrow>
   \<exists>q'. consume_loop q = Some (Ret 0 q') \<and> dq_open q' [] \<and> dq_size q' = dq_size q \<and> user q' = user q"
proof (induction fs arbitrary: q)
  case Nil
  then show ?case using have_data_iff [of q "[]"] by (simp add: consume_loop.simps [of q] dq_open_def)
next
  case (Cons f fs)
  let ?q = "post [DATA_CONSUME] (advance (int (length f) + 4) q)"
  have r: "dq_rep q (f # fs)" and nq: "\<not> quit q" using Cons.prems(1) by (simp_all add: dq_open_def)
  have "consume_loop q = consume_loop ?q"
    using header_front [OF r] have_data_iff [OF r] Cons.prems(2) nq by (simp add: consume_loop.simps [of q])
  moreover have "dq_open ?q fs" using advance_rep [OF r] nq by (simp add: dq_open_def)
  ultimately show ?case using Cons.IH [of ?q] Cons.prems(2) by auto
qed

lemma query_loop_layout:
  assumes "length b < 2 ^ 31" "buffer q = b" "wp q = int w" "dq_size q = int (length b)"
  shows "dq_layout b r w e n fs \<Longrightarrow> query_loop q (int r) (int e) k m =
    Some (Ret (k + int (length fs), m + int (sum_list (map length fs))) q)"
proof (induction fs arbitrary: r e n k m)
  case Nil
  then show ?case using assms dq_layout_empty [OF Nil] by (simp add: query_loop.simps [of q])
next
  case (Cons f fs)
  note fr = dq_layout_front [OF Cons.prems] and t = dq_layout_tail [OF Cons.prems]
  have h: "header_at q (int r) = Some (int (length f) + 4)"
    using header_of_seg [OF fr(2,1) assms(1)] assms(2) by (simp add: header_at_def)
  have ne: "r \<noteq> w \<or> e \<noteq> 0" using dq_layout_empty [OF Cons.prems] by simp
  have le: "e \<noteq> 0 \<Longrightarrow> r + (length f + 4) \<le> e"
  proof -
    assume e: "e \<noteq> 0"
    with Cons.prems obtain fs1 fs2 where o: "r < e" "e \<le> length b" "f # fs = fs1 @ fs2" "seg b r e = encode_all fs1"
      by (auto simp: dq_layout_def)
    then have "fs1 \<noteq> []" using length_seg [of r e b] by auto
    with o obtain gs where "seg b r e = encode_msg f @ encode_all gs" by (cases fs1) auto
    from seg_head(3) [OF this o(2)] o(1) show ?thesis by simp
  qed
  show ?case
  proof (cases "e \<noteq> 0 \<and> r + (length f + 4) = e")
    case True
    with t have "dq_layout b 0 w 0 (n - (length f + 4)) fs" by simp
    from Cons.IH [OF this] have "query_loop q 0 0 (k + 1) (m + int (length f)) =
      Some (Ret (k + 1 + int (length fs), m + int (length f) + int (sum_list (map length fs))) q)" by simp
    with True h fr(1) ne assms show ?thesis
      by (simp add: query_loop.simps [of q "int r"] DATA_Q_ALLOC_HEAD_SIZE_def algebra_simps)
  next
    case False
    with le t have "dq_layout b (r + (length f + 4)) w e (n - (length f + 4)) fs" by (auto split: if_splits)
    from Cons.IH [OF this, of "k + 1" "m + int (length f)"] have
      "query_loop q (int r + (int (length f) + 4)) (int e) (k + 1) (m + int (length f)) =
        Some (Ret (k + 1 + int (length fs), m + int (length f) + int (sum_list (map length fs))) q)" by simp
    moreover have "\<not> (e \<noteq> 0 \<and> int r + (int (length f) + 4) = int e)" using False by linarith
    ultimately show ?thesis using h fr(1) ne assms
      by (auto simp add: query_loop.simps [of q "int r"] DATA_Q_ALLOC_HEAD_SIZE_def algebra_simps)
  qed
qed

lemma read_keeps_reservation:
  "dq_open q (gs @ fs) \<Longrightarrow> dq_writable q m \<Longrightarrow>
   \<exists>q'. deq_n dq_get (length gs) q = Some (gs, q') \<and> dq_open q' fs \<and> wp q' = wp q \<and> dq_writable q' m"
proof (induction gs arbitrary: q)
  case Nil
  then show ?case by simp
next
  case (Cons g gs)
  let ?q = "post [DATA_CONSUME, USER_FREE] ((advance (int (length g) + 4) q)\<lparr>user := user q\<rparr>)"
  have o: "dq_open q (g # (gs @ fs))" using Cons.prems(1) by simp
  then have "dq_open ?q (gs @ fs)" using advance_rep [of q g "gs @ fs"] by (simp add: dq_open_def)
  moreover have "dq_writable ?q m"
    using advance_writable [of q g "gs @ fs" m] o Cons.prems(2) by (simp add: dq_open_def dq_writable_def)
  ultimately obtain q' where "deq_n dq_get (length gs) ?q = Some (gs, q')" "dq_open q' fs" "wp q' = wp ?q"
    "dq_writable q' m" using Cons.IH [of ?q] by blast
  then show ?case using dq_get_front [OF o] by simp
qed

lemma dq_rep_positions:
  assumes "dq_rep q fs"
  shows "0 \<le> rp q" "0 \<le> wp q" "0 \<le> fill_end q" "rp q \<le> dq_size q" "wp q \<le> dq_size q"
    "wp q < rp q \<Longrightarrow> fill_end q \<noteq> 0"
proof -
  from assms obtain r w e n where q: "rp q = int r" "wp q = int w" "fill_end q = int e"
    "dq_size q = int (length (buffer q))" and l: "dq_layout (buffer q) r w e n fs"
    by (auto simp: dq_rep_def)
  note b = dq_layout_bounds [OF l]
  show "0 \<le> rp q" "0 \<le> wp q" "0 \<le> fill_end q" "rp q \<le> dq_size q" "wp q \<le> dq_size q"
    using q b by simp_all
  show "wp q < rp q \<Longrightarrow> fill_end q \<noteq> 0"
    using q l by (auto simp: dq_layout_def split: if_splits)
qed

lemma available_fits:
  assumes "dq_rep q fs"
  shows "wp q + get_available_size q \<le> dq_size q" "get_available_size q \<le> dq_size q"
  using dq_rep_positions [OF assms] by (simp_all add: get_available_size_def)

lemma available_after_room:
  assumes "dq_rep q fs" "0 < sz" "sz \<le> data_queue_get_available (Some q)"
  shows "sz + 4 \<le> get_available_size (make_room (sz + 4) (q\<lparr>write_locked := True\<rparr>))"
proof (cases "wp q = rp q \<and> fill_end q = 0")
  case True
  then have "sz + 4 \<le> dq_size q"
    using assms(2,3) by (simp add: DATA_Q_ALLOC_HEAD_SIZE_def Let_def split: if_splits)
  with True show ?thesis by (simp add: make_room_def get_available_size_def)
next
  case False
  then have "sz + 4 \<le> get_available_size q"
    using assms(2,3) by (auto simp add: DATA_Q_ALLOC_HEAD_SIZE_def Let_def split: if_splits)
  then show ?thesis by (simp add: make_room_def)
qed

section \<open>Properties\<close>

text \<open>
  A concrete queue for the witnesses: sixteen bytes, created by \<open>data_queue_init\<close>.
\<close>

definition dq_sample :: "data_queue" where
  "dq_sample = the (fst (data_queue_init (\<lambda>_. True) (replicate 16 0) 16))"

lemma data_queue_init_open:
  "length mem < 2 ^ 31 \<Longrightarrow> fst (data_queue_init made mem (int (length mem))) = Some q \<Longrightarrow> dq_open q []"
  by (auto simp: data_queue_init_def Let_def dq_open_def dq_layout_def seg_def split: if_splits intro!: dq_repI [of _ 0 0 0 0])

lemma dq_sample_open: "dq_open dq_sample []"
  by (rule data_queue_init_open [of "replicate 16 0" "\<lambda>_. True"]) (simp_all add: dq_sample_def data_queue_init_def Let_def)

text \<open>
  C3. Whatever messages are put into an open queue (through \<open>data_queue_get_buffer\<close> and
  \<open>data_queue_send_buffer\<close>), reading it (\<open>data_queue_read_lock\<close>, \<open>data_queue_read_unlock\<close>)
  returns all of them with their contents intact, in the order they were sent and behind the ones that
  were there before, and leaves the queue empty, wherever the ring wraps.
\<close>

theorem data_queue_fifo:
  assumes "dq_open q ys" and "enq_all dq_put xs q = Some q1"
  shows "\<exists>q2. deq_n dq_get (length ys + length xs) q1 = Some (ys @ xs, q2) \<and> dq_open q2 []"
  using assms by (rule dq.fifo_order)

lemma dq_sample_put: "\<exists>q1. enq_all dq_put [[1, 2, 3], [4]] dq_sample = Some q1"
proof -
  have "\<not> Option.is_none (enq_all dq_put [[1, 2, 3], [4]] dq_sample)" by code_simp
  then show ?thesis by (cases "enq_all dq_put [[1, 2, 3], [4]] dq_sample") simp_all
qed

theorem data_queue_fifo_witness:
  "\<exists>q1 q2. enq_all dq_put [[1, 2, 3], [4]] dq_sample = Some q1 \<and>
     deq_n dq_get 2 q1 = Some ([[1, 2, 3], [4]], q2) \<and> dq_open q2 []"
proof -
  obtain q1 where q1: "enq_all dq_put [[1, 2, 3], [4]] dq_sample = Some q1" using dq_sample_put by blast
  from data_queue_fifo [OF dq_sample_open q1] q1 show ?thesis by (auto simp: numeral_2_eq_2)
qed

text \<open>
  A writer that has reserved a buffer keeps it while readers run: after any number of messages
  have been read and released between \<open>data_queue_get_buffer\<close> and \<open>data_queue_send_buffer\<close>,
  the readers got the old messages intact, the reserved position is still the one sent, and the new
  message is queued behind what is left. The lock of the writers is released.
\<close>

theorem data_queue_reservation:
  assumes o: "dq_open q (gs @ fs)" and f: "f \<noteq> []"
    and b: "data_queue_get_buffer [] (Some q) (int (length f)) = Ret (Some pos) q1"
  shows "\<exists>q2 q3. deq_n dq_get (length gs) q1 = Some (gs, q2) \<and> dq_fill_send pos f q2 = Ret 0 q3 \<and>
           dq_open q3 (fs @ [f]) \<and> \<not> write_locked q3"
proof -
  from b have g: "get_buffer_loop [] (int (length f) + 4) (q\<lparr>write_locked := True\<rparr>) = Ret (Some pos) q1"
    by (auto simp: Let_def DATA_Q_ALLOC_HEAD_SIZE_def split: if_splits)
  have "dq_rep (q\<lparr>write_locked := True\<rparr>) (gs @ fs)" using o by (simp add: dq_open_def)
  note g' = get_buffer_Nil [OF this g]
  have "dq_open q1 (gs @ fs)" using g'(1,6) o by (simp add: dq_open_def)
  from read_keeps_reservation [OF this g'(2)] obtain q2 where
    q2: "deq_n dq_get (length gs) q1 = Some (gs, q2)" "dq_open q2 fs" "wp q2 = wp q1"
      "dq_writable q2 (int (length f) + 4)" by blast
  from q2(2) have r2: "dq_rep q2 fs" and nq: "\<not> quit q2" by (simp_all add: dq_open_def)
  from send_rep [OF r2 q2(4) f] obtain q3 where
    "dq_fill_send (wp q2 + 4) f q2 = Ret 0 q3" "dq_rep q3 (fs @ [f])" "\<not> write_locked q3" "quit q3 = quit q2"
    by blast
  with q2(1,3) g'(3) nq show ?thesis by (simp add: dq_open_def)
qed

lemma dq_sample_reserve:
  "case enq_all dq_put [[1, 2, 3], [4]] dq_sample of None \<Rightarrow> False | Some q \<Rightarrow>
     (case dq_get q of None \<Rightarrow> False | Some (x, q') \<Rightarrow>
        (case data_queue_get_buffer [] (Some q') 1 of
           Ret pos q1 \<Rightarrow> pos = Some 4 | _ \<Rightarrow> False))"
  by code_simp

theorem data_queue_reservation_witness:
  "\<exists>q q1 q2 q3. enq_all dq_put [[1, 2, 3], [4]] dq_sample = Some q \<and>
     deq_n dq_get 1 q1 = Some ([[4]], q2) \<and> dq_fill_send 4 [9] q2 = Ret 0 q3 \<and>
     dq_open q3 [[9]] \<and> \<not> write_locked q3"
proof -
  from dq_sample_reserve obtain q x q' q1 where
    q: "enq_all dq_put [[1, 2, 3], [4]] dq_sample = Some q" "dq_get q = Some (x, q')"
      "data_queue_get_buffer [] (Some q') 1 = Ret (Some 4) q1"
    by (auto split: option.splits prod.splits dq_result.splits)
  have "dq_open q [[1, 2, 3], [4]]" using dq.enq_all_rep [OF dq_sample_open q(1)] by simp
  then have "dq_open q' ([[4]] @ [])" using dq.deq_rep [of q "[1, 2, 3]" "[[4]]"] q(2) by simp
  from data_queue_reservation [OF this, of "[9]" 4 q1] q show ?thesis by auto
qed

text \<open>
  \<open>data_queue_get_available\<close> can be trusted: asking for at most that many bytes never waits
  and never fails while the queue is open and no writer holds the lock, and the buffer returned has
  room for them behind the header.
\<close>

theorem data_queue_available:
  assumes "dq_open q fs" and "\<not> write_locked q" and "0 < sz" and "sz \<le> data_queue_get_available (Some q)"
  shows "\<exists>pos q1. data_queue_get_buffer env (Some q) sz = Ret (Some pos) q1 \<and> dq_open q1 fs \<and>
           pos = wp q1 + 4 \<and> pos + sz \<le> dq_size q"
proof -
  have r: "dq_rep q fs" and nq: "\<not> quit q" using assms(1) by (simp_all add: dq_open_def)
  let ?q = "make_room (sz + 4) (q\<lparr>write_locked := True\<rparr>)"
  have r1: "dq_rep ?q fs" by (rule make_room_rep) (simp add: r)
  have a: "sz + 4 \<le> get_available_size ?q"
    using available_after_room [OF r assms(3,4)] .
  have le: "wp ?q + get_available_size ?q \<le> dq_size q" "get_available_size ?q \<le> dq_size q"
    using available_fits [OF r1] by simp_all
  have "data_queue_get_buffer env (Some q) sz = Ret (Some (wp ?q + 4)) (?q\<lparr>user := user q + 1\<rparr>)"
    using a le assms(2) nq by (simp add: Let_def DATA_Q_ALLOC_HEAD_SIZE_def get_buffer_loop.simps [of env])
  with r1 nq a le show ?thesis by (simp add: dq_open_def)
qed

theorem data_queue_available_witness:
  "\<exists>pos q1. data_queue_get_buffer [] (Some dq_sample) 12 = Ret (Some pos) q1 \<and> dq_open q1 [] \<and>
     pos = wp q1 + 4 \<and> pos + 12 \<le> dq_size dq_sample"
proof (rule data_queue_available [OF dq_sample_open])
  show "\<not> write_locked dq_sample" "(12 :: int) \<le> data_queue_get_available (Some dq_sample)"
    by (simp_all add: dq_sample_def data_queue_init_def DATA_Q_ALLOC_HEAD_SIZE_def Let_def)
qed simp

text \<open>
  \<open>data_queue_consume_all\<close> ends and leaves the queue open and empty, without touching the user
  count, when every message in it is strictly shorter than the buffer.
\<close>

theorem data_queue_consume_all_empties:
  assumes "dq_open q fs" and "\<forall>f \<in> set fs. int (length f) + 4 < dq_size q"
  shows "\<exists>q'. data_queue_consume_all (Some q) = Some (Ret 0 q') \<and> dq_open q' [] \<and> user q' = user q"
  using consume_all_rep [OF assms] by auto

lemma dq_sample_one:
  "case dq_put [1, 2, 3] dq_sample of None \<Rightarrow> False | Some q \<Rightarrow> dq_size q = 16 \<and> user q = 0"
  by code_simp

theorem data_queue_consume_all_empties_witness:
  "\<exists>q q'. dq_put [1, 2, 3] dq_sample = Some q \<and> data_queue_consume_all (Some q) = Some (Ret 0 q') \<and>
     dq_open q' [] \<and> user q' = 0"
proof -
  from dq_sample_one obtain q where q: "dq_put [1, 2, 3] dq_sample = Some q" "dq_size q = 16" "user q = 0"
    by (auto split: option.splits)
  have "dq_open q [[1, 2, 3]]" using dq_put_open [OF dq_sample_open q(1)] by simp
  from data_queue_consume_all_empties [OF this] q show ?thesis by auto
qed

text \<open>
  One message that fills the whole buffer is a legal message: \<open>data_queue_get_buffer\<close> and
  \<open>data_queue_send_buffer\<close> accept it and the reader gets it back; but
  \<open>data_queue_consume_all\<close>, whose sanity check is \<open>size >= q->size\<close> where every other one is
  \<open>size > q->size\<close>, takes its deliberate null write.
\<close>

theorem data_queue_consume_all_maximal:
  assumes "dq_open q [f]" and "int (length f) + 4 = dq_size q"
  shows "data_queue_consume_all (Some q) = Some Crash \<and> (\<exists>q'. dq_get q = Some (f, q') \<and> dq_open q' [])"
proof -
  have r: "dq_rep q [f]" and nq: "\<not> quit q" using assms(1) by (simp_all add: dq_open_def)
  have "data_queue_consume_all (Some q) = Some Crash"
    using header_front [OF r] have_data_iff [OF r] assms(2) nq by (simp add: consume_loop.simps [of q])
  then show ?thesis using dq.deq_rep [OF assms(1)] by simp
qed

lemma dq_sample_full:
  "case dq_put (replicate 12 7) dq_sample of None \<Rightarrow> False | Some q \<Rightarrow> dq_size q = 16"
  by code_simp

theorem data_queue_consume_all_maximal_witness:
  "\<exists>q. dq_put (replicate 12 7) dq_sample = Some q \<and> data_queue_consume_all (Some q) = Some Crash \<and>
     (\<exists>q'. dq_get q = Some (replicate 12 7, q') \<and> dq_open q' [])"
proof -
  from dq_sample_full obtain q where q: "dq_put (replicate 12 7) dq_sample = Some q" "dq_size q = 16"
    by (auto split: option.splits)
  have o: "dq_open q [replicate 12 7]" using dq_put_open [OF dq_sample_open q(1)] by simp
  show ?thesis
    using data_queue_consume_all_maximal [OF o] q by auto
qed

text \<open>
  \<open>data_queue_query\<close> ends and reports the number of queued messages and the sum of their
  payload sizes, without changing the queue.
\<close>

theorem data_queue_query_counts:
  assumes "dq_open q fs"
  shows "data_queue_query q = Some (Ret (int (length fs), int (sum_list (map length fs))) q)"
proof -
  have r: "dq_rep q fs" using assms by (simp add: dq_open_def)
  then obtain r w e n where q: "rp q = int r" "wp q = int w" "fill_end q = int e"
    "dq_size q = int (length (buffer q))" "length (buffer q) < 2 ^ 31"
    and l: "dq_layout (buffer q) r w e n fs" by (auto simp: dq_rep_def)
  from query_loop_layout [OF q(5) refl q(2,4) l, of 0 0] show ?thesis
    using have_data_iff [OF r] q by (auto simp: data_queue_query_def)
qed

theorem data_queue_query_counts_witness:
  "\<exists>q. enq_all dq_put [[1, 2, 3], [4]] dq_sample = Some q \<and> data_queue_query q = Some (Ret (2, 4) q)"
proof -
  obtain q where q: "enq_all dq_put [[1, 2, 3], [4]] dq_sample = Some q" using dq_sample_put by blast
  from data_queue_query_counts [of q "[[1, 2, 3], [4]]"] dq.enq_all_rep [OF dq_sample_open q] q
  show ?thesis by simp
qed

section \<open>Shutting down\<close>

text \<open>Waiting for the users returns only when there is none left, and then at once.\<close>

lemmas wakeup_loop_cases = wakeup_loop.simps [of "[]"] wakeup_loop.simps [of "f # fs" for f fs]

lemma wakeup_loop_user: "wakeup_loop env q = Ret () q' \<Longrightarrow> user q' = 0"
  by (induction env arbitrary: q) (auto simp: wakeup_loop_cases split: if_splits)

lemma wakeup_loop_stuck:
  "user q \<noteq> 0 \<Longrightarrow> \<forall>f \<in> set env. \<forall>s. user (f s) = user s \<Longrightarrow> \<exists>q'. wakeup_loop env q = Blocked q'"
  by (induction env arbitrary: q) (auto simp: wakeup_loop_cases)

text \<open>
  After \<open>data_queue_wakeup\<close> has raised \<open>quit\<close>, no reader and no writer gets into the
  queue any more, whatever it holds and whatever the other threads do: \<open>data_queue_read_lock\<close>
  fails, \<open>data_queue_get_buffer\<close> returns no buffer and gives the lock of the writers back, and no
  data is reported; and \<open>data_queue_wakeup\<close> returns only once its user count is zero.
\<close>

theorem data_queue_wakeup_stops:
  assumes "quit q" and "\<not> write_locked q"
  shows "data_queue_read_lock env (Some q) = Ret None q \<and>
    data_queue_get_buffer env (Some q) sz = Ret None q \<and> \<not> data_queue_have_data (Some q) \<and>
    (\<forall>q'. data_queue_wakeup env (Some q) = Ret () q' \<longrightarrow> user q' = 0)"
  using wakeup_loop_user assms
  by (auto simp: read_lock_loop.simps [of env q] get_buffer_loop.simps [of env] Let_def)

theorem data_queue_wakeup_stops_witness:
  "\<exists>q. data_queue_wakeup [] (Some dq_sample) = Ret () q \<and> quit q \<and> user q = 0 \<and>
     data_queue_read_lock [] (Some q) = Ret None q \<and> data_queue_get_buffer [] (Some q) 3 = Ret None q \<and>
     \<not> data_queue_have_data (Some q)"
proof -
  let ?q = "post [DATA_ARRIVE, DATA_CONSUME] (dq_sample\<lparr>quit := True\<rparr>)"
  have w: "data_queue_wakeup [] (Some dq_sample) = Ret () ?q"
    by (simp add: dq_sample_def data_queue_init_def Let_def wakeup_loop.simps post_def)
  have q: "quit ?q" "\<not> write_locked ?q" by (simp_all add: dq_sample_def data_queue_init_def Let_def)
  have "user ?q = 0" by (simp add: dq_sample_def data_queue_init_def Let_def)
  with w q data_queue_wakeup_stops [OF q, of "[]" 3] show ?thesis by blast
qed

text \<open>
  The user count is not balanced when two readers hold the same message:
  \<open>data_queue_read_lock\<close> counts both, the first \<open>data_queue_read_unlock\<close> takes the message
  out, and the second one, finding no data, returns success without \<open>user--\<close>. One user is left for
  ever, and a \<open>data_queue_wakeup\<close> after that waits for ever for a user that does not exist.
\<close>

theorem data_queue_double_read_leaks_user:
  assumes "dq_open q [f]" and "user q = 0"
  shows "\<exists>m q1 q2 q3 q4.
     data_queue_read_lock [] (Some q) = Ret (Some m) q1 \<and> data_queue_read_lock [] (Some q1) = Ret (Some m) q2 \<and>
     data_queue_read_unlock (Some q2) = Ret 0 q3 \<and> data_queue_read_unlock (Some q3) = Ret 0 q4 \<and>
     user q4 = 1 \<and>
     (\<forall>env. (\<forall>g \<in> set env. \<forall>s. user (g s) = user s) \<longrightarrow> (\<exists>q5. data_queue_wakeup env (Some q4) = Blocked q5))"
proof -
  have r: "dq_rep q [f]" using assms(1) by (simp add: dq_open_def)
  let ?q1 = "q\<lparr>user := user q + 1\<rparr>" and ?q2 = "q\<lparr>user := user q + 2\<rparr>"
  let ?q3 = "post [DATA_CONSUME, USER_FREE] ((advance (int (length f) + 4) ?q2)\<lparr>user := user ?q2 - 1\<rparr>)"
  have "dq_open ?q1 [f]" "dq_rep ?q2 [f]" using assms(1) by (simp_all add: dq_open_def)
  have a: "data_queue_read_lock [] (Some q) = Ret (Some (rp q + 4, int (length f))) ?q1"
    using read_lock_front [OF assms(1)] .
  have b: "data_queue_read_lock [] (Some ?q1) = Ret (Some (rp q + 4, int (length f))) ?q2"
    using read_lock_front [OF \<open>dq_open ?q1 [f]\<close>] by simp
  have c: "data_queue_read_unlock (Some ?q2) = Ret 0 ?q3"
    by (rule read_unlock_front [OF \<open>dq_rep ?q2 [f]\<close>])
  have "dq_rep ?q3 []" using advance_rep [OF \<open>dq_rep ?q2 [f]\<close>] by simp
  then have d: "data_queue_read_unlock (Some ?q3) = Ret 0 ?q3"
    using have_data_iff [of ?q3 "[]"] by simp
  have u: "user ?q3 = 1" using assms(2) by simp
  have "\<exists>q5. data_queue_wakeup env (Some ?q3) = Blocked q5" if "\<forall>g \<in> set env. \<forall>s. user (g s) = user s" for env
    using wakeup_loop_stuck [OF _ that] u by simp
  with a b c d u show ?thesis by blast
qed

theorem data_queue_double_read_leaks_user_witness:
  "\<exists>q q4. dq_put [1, 2, 3] dq_sample = Some q \<and> user q4 = 1 \<and>
     (\<exists>q5. data_queue_wakeup [\<lambda>s. s, \<lambda>s. s] (Some q4) = Blocked q5)"
proof -
  from dq_sample_one obtain q where q: "dq_put [1, 2, 3] dq_sample = Some q" "user q = 0"
    by (auto split: option.splits)
  have "dq_open q [[1, 2, 3]]" using dq_put_open [OF dq_sample_open q(1)] by simp
  from data_queue_double_read_leaks_user [OF this q(2)] obtain q4 where "user q4 = 1"
    "\<forall>env. (\<forall>g \<in> set env. \<forall>s. user (g s) = user s) \<longrightarrow> (\<exists>q5. data_queue_wakeup env (Some q4) = Blocked q5)"
    by blast
  moreover have "\<forall>g \<in> set [\<lambda>s :: data_queue. s, \<lambda>s. s]. \<forall>s. user (g s) = user s" by simp
  ultimately show ?thesis using q(1) by blast
qed

text \<open>
  Creation is all or nothing: when every object could be made the new queue is open and empty and
  nothing is released; when one is missing the caller gets no queue and exactly the objects that
  were made are released again, each once.
\<close>

theorem data_queue_init_balanced:
  assumes "length mem < 2 ^ 31"
  shows "case data_queue_init made mem (int (length mem)) of
           (Some q, created, released) \<Rightarrow> (\<forall>x. made x) \<and> dq_open q [] \<and> released = []
         | (None, created, released) \<Rightarrow> set released = set created \<and> distinct released \<and> distinct created"
proof -
  have all: "(\<forall>x. made x) \<longleftrightarrow> made Q_struct \<and> made Q_buffer \<and> made Q_lock \<and> made Q_write_lock \<and> made Q_event"
    by (metis dq_object.exhaust)
  show ?thesis
    using data_queue_init_open [OF assms, of made] unfolding all
    by (simp add: data_queue_init_def data_queue_deinit_def Let_def insert_commute)
qed

theorem data_queue_init_balanced_witness:
  "case data_queue_init (\<lambda>x. x \<noteq> Q_event) [0] 1 of
     (Some q, created, released) \<Rightarrow> False
   | (None, created, released) \<Rightarrow> set released = set created \<and> distinct released \<and> distinct created"
  using data_queue_init_balanced [where mem = "[0]" and made = "\<lambda>x. x \<noteq> Q_event"]
  by (auto split: prod.splits option.splits)

end
