(* ===== verification/Msg_Queue.thy ===== *)
theory Msg_Queue
  imports Esp_Prelude
begin

text \<open>
  The fixed-size message queue of \<open>media_lib_sal/port/msg_q.c\<close>: a ring of \<open>number\<close> cells of
  \<open>each_size\<close> bytes with the position \<open>cur\<close> of the oldest message and the count
  \<open>filled\<close>. A section under \<open>data_mutex\<close> is one step. Where the code waits (on the condition
  variable, or in a \<open>usleep\<close> loop) the operation takes \<open>env\<close>: what the other threads do to the
  queue during each wait; with \<open>env\<close> used up it is \<open>Mq_blocked\<close>. \<open>Mq_crash\<close> is an access
  through a null pointer or with a negative size.
\<close>

section \<open>State\<close>

datatype mq_signal = Cond_signal | Cond_broadcast

record msg_q =
  q_data :: "u8 list option list"
  q_name :: string
  q_cur :: int
  each_size :: int
  q_number :: int
  q_filled :: int
  q_quit :: bool
  q_reset :: bool
  q_user :: int
  q_signals :: "mq_signal list"

datatype 'a mq_result = Mq_crash | Mq_blocked msg_q | Mq_ret 'a msg_q

definition mq_notify :: "mq_signal \<Rightarrow> msg_q \<Rightarrow> msg_q" where
  "mq_notify c q = q\<lparr>q_signals := q_signals q @ [c]\<rparr>"

text \<open>
  Creation. \<open>calloc_ok\<close> and \<open>table_ok\<close> say whether the two allocations of the structure and of
  the table of cells succeed, \<open>mem i\<close> is the block obtained for cell \<open>i\<close>. A null table is written
  to without a check. The outer \<open>None\<close> is that crash.
\<close>

definition msg_q_new ::
  "bool \<Rightarrow> bool \<Rightarrow> (nat \<Rightarrow> u8 list option) \<Rightarrow> string \<Rightarrow> int \<Rightarrow> int \<Rightarrow> msg_q option option" where
  "msg_q_new calloc_ok table_ok mem name msg_number msg_size =
     (if msg_size = 0 \<or> msg_number = 0 then Some None
      else if \<not> calloc_ok then Some None
      else if \<not> table_ok \<and> msg_number > 0 then None
      else Some (Some \<lparr>q_data = map mem [0..<nat msg_number], q_name = name, q_cur = 0,
        each_size = msg_size, q_number = msg_number, q_filled = 0, q_quit = False, q_reset = False,
        q_user = 0, q_signals = []\<rparr>))"

definition msg_q_create ::
  "bool \<Rightarrow> bool \<Rightarrow> (nat \<Rightarrow> u8 list option) \<Rightarrow> int \<Rightarrow> int \<Rightarrow> msg_q option option" where
  "msg_q_create calloc_ok table_ok mem msg_number msg_size =
     msg_q_new calloc_ok table_ok mem [] msg_number msg_size"

definition msg_q_create_by_name ::
  "bool \<Rightarrow> bool \<Rightarrow> (nat \<Rightarrow> u8 list option) \<Rightarrow> string \<Rightarrow> int \<Rightarrow> int \<Rightarrow> msg_q option option" where
  "msg_q_create_by_name calloc_ok table_ok mem name msg_size msg_number =
     msg_q_new calloc_ok table_ok mem name msg_number msg_size"

section \<open>Operations\<close>

text \<open>\<open>pthread_cond_wait\<close> between \<open>user++\<close> and \<open>user--\<close>.\<close>

definition mq_wait :: "(msg_q \<Rightarrow> msg_q) \<Rightarrow> msg_q \<Rightarrow> msg_q" where
  "mq_wait f q = (let q1 = f (q\<lparr>q_user := q_user q + 1\<rparr>) in q1\<lparr>q_user := q_user q1 - 1\<rparr>)"

fun msg_q_wait_consume :: "(msg_q \<Rightarrow> msg_q) option \<Rightarrow> msg_q option \<Rightarrow> int mq_result option" where
  "msg_q_wait_consume env None = None"
| "msg_q_wait_consume env (Some q) =
     Some (if q_filled q \<noteq> 0 then
       (case env of
          None \<Rightarrow> Mq_blocked q
        | Some f \<Rightarrow> (let q1 = mq_wait f q in Mq_ret (if \<not> q_quit q1 \<and> \<not> q_reset q1 then 0 else -1) q1))
     else Mq_ret 0 q)"

text \<open>
  The bytes a \<open>memcpy\<close> of \<open>size\<close> bytes leaves in cell \<open>idx\<close>, and those it reads from it. The
  caller's buffer is a list of bytes.
\<close>

definition store_msg :: "int \<Rightarrow> u8 list \<Rightarrow> int \<Rightarrow> msg_q \<Rightarrow> msg_q option" where
  "store_msg idx msg sz q =
     (if idx < 0 \<or> nat idx \<ge> length (q_data q) \<or> sz < 0 \<or> nat sz > length msg then None
      else case q_data q ! nat idx of
             None \<Rightarrow> None
           | Some cell \<Rightarrow>
               if nat sz > length cell then None
               else Some (q\<lparr>q_data := (q_data q)[nat idx := Some (overwrite cell 0 (take (nat sz) msg))]\<rparr>))"

definition load_msg :: "int \<Rightarrow> int \<Rightarrow> msg_q \<Rightarrow> u8 list option" where
  "load_msg idx sz q =
     (if idx < 0 \<or> nat idx \<ge> length (q_data q) \<or> sz < 0 then None
      else case q_data q ! nat idx of
             None \<Rightarrow> None
           | Some cell \<Rightarrow> if nat sz > length cell then None else Some (take (nat sz) cell))"

fun send_wait :: "(msg_q \<Rightarrow> msg_q) list \<Rightarrow> msg_q \<Rightarrow> unit mq_result" where
  "send_wait env q =
     (if \<not> q_quit q \<and> q_filled q \<ge> q_number q \<and> \<not> q_reset q then
        (case env of [] \<Rightarrow> Mq_blocked q | f # fs \<Rightarrow> send_wait fs (mq_wait f q))
      else Mq_ret () q)"

declare send_wait.simps [simp del]

text \<open>The part of \<open>msg_q_send\<close> behind the waiting loop.\<close>

definition send_locked :: "u8 list \<Rightarrow> int \<Rightarrow> msg_q \<Rightarrow> int mq_result" where
  "send_locked msg sz q =
     (let q1 = (if q_reset q then q\<lparr>q_reset := False\<rparr> else q) in
      if \<not> q_quit q1 \<and> \<not> q_reset q1 then
        (case store_msg ((q_cur q1 + q_filled q1) mod q_number q1) msg sz q1 of
           None \<Rightarrow> Mq_crash
         | Some q2 \<Rightarrow> Mq_ret 0 (mq_notify Cond_signal (q2\<lparr>q_filled := q_filled q2 + 1\<rparr>)))
      else Mq_ret (-2) q1)"

fun msg_q_send :: "(msg_q \<Rightarrow> msg_q) list \<Rightarrow> msg_q option \<Rightarrow> u8 list \<Rightarrow> int \<Rightarrow> int mq_result option" where
  "msg_q_send env None msg sz = None"
| "msg_q_send env (Some q) msg sz =
     Some (if sz > each_size q then Mq_ret (-1) q
           else case send_wait env q of
                  Mq_ret _ q1 \<Rightarrow> send_locked msg sz q1
                | Mq_blocked q1 \<Rightarrow> Mq_blocked q1
                | Mq_crash \<Rightarrow> Mq_crash)"

text \<open>The waiting loop of \<open>msg_q_recv\<close>; \<open>False\<close> is the early return of \<open>no_wait\<close>.\<close>

fun recv_wait :: "(msg_q \<Rightarrow> msg_q) list \<Rightarrow> bool \<Rightarrow> msg_q \<Rightarrow> bool mq_result" where
  "recv_wait env no_wait q =
     (if \<not> q_quit q \<and> q_filled q = 0 \<and> \<not> q_reset q then
        (if no_wait then Mq_ret False q
         else case env of [] \<Rightarrow> Mq_blocked q | f # fs \<Rightarrow> recv_wait fs no_wait (mq_wait f q))
      else Mq_ret True q)"

declare recv_wait.simps [simp del]

definition recv_locked :: "int \<Rightarrow> msg_q \<Rightarrow> (int \<times> u8 list option) mq_result" where
  "recv_locked sz q =
     (if \<not> q_quit q \<and> \<not> q_reset q then
        (case load_msg (q_cur q) sz q of
           None \<Rightarrow> Mq_crash
         | Some m \<Rightarrow> Mq_ret (0, Some m)
             (mq_notify Cond_signal (q\<lparr>q_filled := q_filled q - 1, q_cur := (q_cur q + 1) mod q_number q\<rparr>)))
      else Mq_ret (-2, None) (if q_reset q then q\<lparr>q_reset := False\<rparr> else q))"

fun msg_q_recv ::
  "(msg_q \<Rightarrow> msg_q) list \<Rightarrow> msg_q option \<Rightarrow> int \<Rightarrow> bool \<Rightarrow> (int \<times> u8 list option) mq_result option" where
  "msg_q_recv env None sz no_wait = None"
| "msg_q_recv env (Some q) sz no_wait =
     Some (if sz > each_size q then Mq_ret (-1, None) q
           else case recv_wait env no_wait q of
                  Mq_ret False q1 \<Rightarrow> Mq_ret (1, None) q1
                | Mq_ret True q1 \<Rightarrow> recv_locked sz q1
                | Mq_blocked q1 \<Rightarrow> Mq_blocked q1
                | Mq_crash \<Rightarrow> Mq_crash)"

fun msg_q_add_user :: "msg_q option \<Rightarrow> int \<Rightarrow> int \<times> msg_q option" where
  "msg_q_add_user None dir = (-1, None)"
| "msg_q_add_user (Some q) dir =
     (0, Some (q\<lparr>q_user := (if dir \<noteq> 0 then q_user q + 1 else q_user q - 1)\<rparr>))"

fun reset_loop :: "(msg_q \<Rightarrow> msg_q) list \<Rightarrow> msg_q \<Rightarrow> unit mq_result" where
  "reset_loop env q =
     (if q_user q \<noteq> 0 then
        (let q1 = mq_notify Cond_broadcast (q\<lparr>q_reset := True\<rparr>)
         in case env of [] \<Rightarrow> Mq_blocked q1 | f # fs \<Rightarrow> reset_loop fs (f q1))
      else Mq_ret () (q\<lparr>q_cur := 0, q_filled := 0\<rparr>))"

declare reset_loop.simps [simp del]

fun msg_q_reset :: "(msg_q \<Rightarrow> msg_q) list \<Rightarrow> msg_q option \<Rightarrow> int \<times> unit mq_result option" where
  "msg_q_reset env None = (0, None)"
| "msg_q_reset env (Some q) = (0, Some (reset_loop env q))"

fun user_loop :: "(msg_q \<Rightarrow> msg_q) list \<Rightarrow> msg_q \<Rightarrow> unit mq_result" where
  "user_loop env q =
     (if q_user q \<noteq> 0 then (case env of [] \<Rightarrow> Mq_blocked q | f # fs \<Rightarrow> user_loop fs (f q))
      else Mq_ret () q)"

declare user_loop.simps [simp del]

fun msg_q_wakeup :: "(msg_q \<Rightarrow> msg_q) list \<Rightarrow> msg_q option \<Rightarrow> int \<times> unit mq_result option" where
  "msg_q_wakeup env None = (0, None)"
| "msg_q_wakeup env (Some q) =
     (0, Some (case user_loop env (mq_notify Cond_signal (q\<lparr>q_reset := True\<rparr>)) of
                 Mq_ret _ q1 \<Rightarrow> Mq_ret () (q1\<lparr>q_reset := False\<rparr>)
               | r \<Rightarrow> r))"

fun msg_q_count :: "msg_q option \<Rightarrow> int" where
  "msg_q_count None = 0"
| "msg_q_count (Some q) = q_filled q"

text \<open>What \<open>msg_q_destroy\<close> hands to \<open>free\<close>: the cells in order, then the table and the structure.\<close>

datatype mq_free = Free_cell nat | Free_table | Free_queue

fun msg_q_destroy :: "(msg_q \<Rightarrow> msg_q) list \<Rightarrow> msg_q option \<Rightarrow> mq_free list mq_result option" where
  "msg_q_destroy env None = None"
| "msg_q_destroy env (Some q) =
     Some (case user_loop env (mq_notify Cond_signal (q\<lparr>q_quit := True\<rparr>)) of
             Mq_ret _ q1 \<Rightarrow> Mq_ret (map Free_cell [0..<nat (q_number q1)] @ [Free_table, Free_queue]) q1
           | Mq_blocked q1 \<Rightarrow> Mq_blocked q1
           | Mq_crash \<Rightarrow> Mq_crash)"

section \<open>The messages in the ring\<close>

text \<open>\<open>mq_rep q xs\<close>: the queue works and holds the messages \<open>xs\<close>, oldest first.\<close>

definition mq_cells_ok :: "msg_q \<Rightarrow> bool" where
  "mq_cells_ok q \<longleftrightarrow> 0 < q_number q \<and> 0 \<le> each_size q \<and> length (q_data q) = nat (q_number q) \<and>
     0 \<le> q_cur q \<and> q_cur q < q_number q \<and>
     (\<forall>c \<in> set (q_data q). \<exists>b. c = Some b \<and> length b = nat (each_size q))"

definition mq_slot :: "msg_q \<Rightarrow> nat \<Rightarrow> nat" where
  "mq_slot q i = nat ((q_cur q + int i) mod q_number q)"

definition mq_rep :: "msg_q \<Rightarrow> u8 list list \<Rightarrow> bool" where
  "mq_rep q xs \<longleftrightarrow> mq_cells_ok q \<and> \<not> q_quit q \<and> \<not> q_reset q \<and>
     q_filled q = int (length xs) \<and> length xs \<le> nat (q_number q) \<and>
     (\<forall>x \<in> set xs. length x = nat (each_size q)) \<and>
     (\<forall>i < length xs. q_data q ! mq_slot q i = Some (xs ! i))"

lemma mq_slot_less: "mq_cells_ok q \<Longrightarrow> mq_slot q i < length (q_data q)"
  by (auto simp: mq_slot_def mq_cells_ok_def nat_less_iff)

lemma mq_slot_neq:
  assumes "mq_cells_ok q" "i < j" "j < nat (q_number q)"
  shows "mq_slot q i \<noteq> mq_slot q j"
proof
  assume "mq_slot q i = mq_slot q j"
  moreover have n: "0 < q_number q" using assms(1) by (simp add: mq_cells_ok_def)
  ultimately have "(q_cur q + int i) mod q_number q = (q_cur q + int j) mod q_number q"
    by (simp add: mq_slot_def nat_eq_iff)
  then have "q_number q dvd (q_cur q + int j) - (q_cur q + int i)"
    by (metis mod_eq_dvd_iff)
  then have "q_number q dvd int j - int i" by simp
  then show False using assms(2,3) n zdvd_not_zless [of "int j - int i" "q_number q"] by simp
qed

lemma mq_slot_start: "mq_cells_ok q \<Longrightarrow> mq_slot q 0 = nat (q_cur q)"
  by (simp add: mq_slot_def mq_cells_ok_def)

lemma mq_slot_next:
  "mq_cells_ok q \<Longrightarrow> mq_slot (q\<lparr>q_cur := (q_cur q + 1) mod q_number q\<rparr>) i = mq_slot q (Suc i)"
  by (simp add: mq_slot_def mod_simps add.assoc)

lemma mq_frame [simp]:
  "mq_slot (q\<lparr>q_filled := n\<rparr>) i = mq_slot q i" "mq_slot (q\<lparr>q_data := d\<rparr>) i = mq_slot q i"
  "mq_slot (mq_notify c q) i = mq_slot q i" "mq_slot (q\<lparr>q_reset := r\<rparr>) i = mq_slot q i"
  "mq_cells_ok (q\<lparr>q_filled := n\<rparr>) = mq_cells_ok q" "mq_cells_ok (mq_notify c q) = mq_cells_ok q"
  "mq_cells_ok (q\<lparr>q_reset := r\<rparr>) = mq_cells_ok q"
  "q_data (mq_notify c q) = q_data q" "q_filled (mq_notify c q) = q_filled q"
  "q_number (mq_notify c q) = q_number q" "each_size (mq_notify c q) = each_size q"
  "q_quit (mq_notify c q) = q_quit q" "q_reset (mq_notify c q) = q_reset q"
  "q_cur (mq_notify c q) = q_cur q" "q_user (mq_notify c q) = q_user q"
  by (simp_all add: mq_slot_def mq_cells_ok_def mq_notify_def)

lemma mq_rep_notify [simp]: "mq_rep (mq_notify c q) xs = mq_rep q xs"
  by (simp add: mq_rep_def)

text \<open>Storing a whole message at slot \<open>k\<close> replaces that cell.\<close>

lemma store_whole:
  assumes "mq_cells_ok q" "int (length m) = each_size q"
  shows "store_msg ((q_cur q + int k) mod q_number q) m (int (length m)) q =
    Some (q\<lparr>q_data := (q_data q)[mq_slot q k := Some m]\<rparr>)"
proof -
  have l: "mq_slot q k < length (q_data q)" by (rule mq_slot_less [OF assms(1)])
  then obtain b where b: "q_data q ! mq_slot q k = Some b" "length b = nat (each_size q)"
    using assms(1) nth_mem [OF l] unfolding mq_cells_ok_def by metis
  have "0 \<le> (q_cur q + int k) mod q_number q" using assms(1) by (simp add: mq_cells_ok_def)
  moreover have "overwrite b 0 m = m" using b(2) assms(2) by (simp add: overwrite_def)
  moreover have "length b = length m" using b(2) assms(2) by (metis nat_int)
  ultimately show ?thesis using l b by (simp add: store_msg_def mq_slot_def)
qed

lemma mq_cells_store:
  "mq_cells_ok q \<Longrightarrow> int (length m) = each_size q \<Longrightarrow> mq_cells_ok (q\<lparr>q_data := (q_data q)[k := Some m]\<rparr>)"
  by (auto simp: mq_cells_ok_def dest!: set_update_subset_insert [THEN subsetD])

lemma send_wait_open: "\<not> q_quit q \<Longrightarrow> \<not> q_reset q \<Longrightarrow> send_wait [] q =
    (if q_filled q \<ge> q_number q then Mq_blocked q else Mq_ret () q)"
  by (simp add: send_wait.simps)

lemma msg_q_send_room:
  assumes "mq_rep q xs" "int (length m) = each_size q" "length xs < nat (q_number q)"
  shows "\<exists>q'. msg_q_send env (Some q) m (int (length m)) = Some (Mq_ret 0 q') \<and> mq_rep q' (xs @ [m]) \<and>
    q_number q' = q_number q \<and> each_size q' = each_size q"
proof -
  let ?k = "mq_slot q (length xs)"
  let ?q = "q\<lparr>q_data := (q_data q)[?k := Some m]\<rparr>"
  from assms(1) have ok: "mq_cells_ok q" and f: "\<not> q_quit q" "\<not> q_reset q" "q_filled q = int (length xs)"
    by (simp_all add: mq_rep_def)
  have ne: "mq_slot q i \<noteq> ?k" if "i < length xs" for i
    using mq_slot_neq [OF ok that assms(3)] .
  have "\<not> q_filled q \<ge> q_number q" using assms(3) f by linarith
  then have "send_wait env q = Mq_ret () q" by (simp add: send_wait.simps [of env])
  then have "msg_q_send env (Some q) m (int (length m)) =
      Some (Mq_ret 0 (mq_notify Cond_signal (?q\<lparr>q_filled := q_filled q + 1\<rparr>)))"
    using store_whole [OF ok assms(2), of "length xs"] f assms(2) by (simp add: send_locked_def)
  moreover have "mq_rep (?q\<lparr>q_filled := q_filled q + 1\<rparr>) (xs @ [m])"
    using assms mq_cells_store [OF ok assms(2), of ?k] mq_slot_less [OF ok, of "length xs"]
      ne ne [symmetric]
    by (auto simp: mq_rep_def nth_append nth_list_update less_Suc_eq)
  ultimately show ?thesis by simp
qed

lemma msg_q_recv_front:
  assumes "mq_rep q (x # xs)"
  shows "\<exists>q'. msg_q_recv env (Some q) (each_size q) no_wait = Some (Mq_ret (0, Some x) q') \<and> mq_rep q' xs \<and>
    q_number q' = q_number q \<and> each_size q' = each_size q"
proof -
  from assms have ok: "mq_cells_ok q" and f: "\<not> q_quit q" "\<not> q_reset q" "q_filled q = int (Suc (length xs))"
    and x: "q_data q ! nat (q_cur q) = Some x" "length x = nat (each_size q)"
    using mq_slot_start [of q] by (force simp: mq_rep_def)+
  let ?q = "q\<lparr>q_filled := q_filled q - 1, q_cur := (q_cur q + 1) mod q_number q\<rparr>"
  have "recv_wait env no_wait q = Mq_ret True q" using f by (simp add: recv_wait.simps [of env])
  moreover have "load_msg (q_cur q) (each_size q) q = Some x"
    using x mq_slot_less [OF ok, of 0] mq_slot_start [OF ok] ok by (simp add: load_msg_def mq_cells_ok_def not_le)
  ultimately have "msg_q_recv env (Some q) (each_size q) no_wait =
      Some (Mq_ret (0, Some x) (mq_notify Cond_signal ?q))"
    using f by (simp add: recv_locked_def)
  moreover have "mq_slot ?q i = mq_slot q (Suc i)" for i
    using mq_slot_next [OF ok] by (simp add: mq_slot_def)
  then have "mq_rep ?q xs" using assms ok by (auto simp: mq_rep_def mq_cells_ok_def)
  ultimately show ?thesis by simp
qed

text \<open>The queue as its users see it: whole messages, no waiting.\<close>

definition mq_put :: "u8 list \<Rightarrow> msg_q \<Rightarrow> msg_q option" where
  "mq_put m q =
     (if int (length m) \<noteq> each_size q then None
      else case msg_q_send [] (Some q) m (int (length m)) of
             Some (Mq_ret r q') \<Rightarrow> if r = 0 then Some q' else None
           | _ \<Rightarrow> None)"

definition mq_take :: "msg_q \<Rightarrow> (u8 list \<times> msg_q) option" where
  "mq_take q =
     (case msg_q_recv [] (Some q) (each_size q) True of
        Some (Mq_ret (r, Some m) q') \<Rightarrow> Some (m, q')
      | _ \<Rightarrow> None)"

definition mq_cap :: "msg_q \<Rightarrow> nat" where
  "mq_cap q = nat (q_number q)"

definition mq_fits :: "msg_q \<Rightarrow> u8 list \<Rightarrow> bool" where
  "mq_fits q m \<longleftrightarrow> int (length m) = each_size q"

lemma mq_rep_limits: "mq_rep q xs \<Longrightarrow> length xs \<le> mq_cap q \<and> 0 < mq_cap q"
  by (auto simp: mq_rep_def mq_cap_def mq_cells_ok_def)

lemma mq_put_full: "mq_rep q xs \<Longrightarrow> length xs \<ge> mq_cap q \<Longrightarrow> mq_put m q = None"
  by (auto simp: mq_put_def mq_cap_def mq_rep_def send_wait_open split: if_splits)

lemma mq_put_room:
  assumes "mq_rep q xs" "mq_fits q m" "length xs < mq_cap q"
  shows "\<exists>q'. mq_put m q = Some q' \<and> mq_rep q' (xs @ [m]) \<and> mq_cap q' = mq_cap q \<and> mq_fits q' = mq_fits q"
  using msg_q_send_room [OF assms(1), of m "[]"] assms(2,3)
  by (auto simp: mq_put_def mq_fits_def mq_cap_def fun_eq_iff)

interpretation mq: bounded_fifo mq_rep mq_put mq_take mq_cap mq_fits
proof unfold_locales
  have put: "mq_rep q' (xs @ [x]) \<and> mq_cap q' = mq_cap q \<and> mq_fits q' = mq_fits q"
    if "mq_rep q xs" "mq_put x q = Some q'" for q xs x q'
  proof -
    have fits: "mq_fits q x" using that(2) by (simp add: mq_fits_def mq_put_def split: if_splits)
    have "\<not> length xs \<ge> mq_cap q" using that mq_put_full [OF that(1), of x] by auto
    then have "length xs < mq_cap q" by simp
    from mq_put_room [OF that(1) fits this] that(2) show ?thesis by auto
  qed
  show "mq_rep q' (xs @ [x])" if "mq_rep q xs" "mq_put x q = Some q'" for q xs x q'
    using put [OF that] by simp
  show "mq_cap q' = mq_cap q \<and> mq_fits q' = mq_fits q" if "mq_rep q xs" "mq_put x q = Some q'" for q xs x q'
    using put [OF that] by simp
  show "\<exists>q'. mq_take q = Some (x, q') \<and> mq_rep q' xs" if "mq_rep q (x # xs)" for q x xs
    using msg_q_recv_front [OF that, of "[]" True] by (auto simp: mq_take_def)
  show "mq_take q = None" if "mq_rep q []" for q
    using that by (auto simp: mq_rep_def mq_take_def recv_wait.simps)
  show "\<exists>q'. mq_put x q = Some q'" if "mq_rep q xs" "mq_fits q x" "length xs < mq_cap q" for q xs x
    using mq_put_room [OF that] by blast
  show "mq_put x q = None" if "mq_rep q xs" "length xs \<ge> mq_cap q" for q xs x
    using that by (rule mq_put_full)
qed

lemma msg_q_create_rep:
  assumes "0 < n" "0 < sz" "\<forall>i. \<exists>b. mem i = Some b \<and> length b = nat sz"
  shows "\<exists>q. msg_q_create True True mem n sz = Some (Some q) \<and> mq_rep q [] \<and> mq_cap q = nat n \<and> each_size q = sz"
  using assms by (auto simp: msg_q_create_def msg_q_new_def mq_rep_def mq_cells_ok_def mq_cap_def)

section \<open>Properties\<close>

text \<open>
  The queue as created holds exactly \<open>msg_number\<close> messages: any burst of up to that many whole
  messages is accepted without waiting and received unchanged in the order it was sent, leaving the
  queue empty; when it is full nothing more is accepted.
\<close>

theorem msg_q_burst:
  assumes "0 < n" and "0 < sz" and "\<forall>i. \<exists>b. mem i = Some b \<and> length b = nat sz"
    and "\<forall>m \<in> set ms. int (length m) = sz" and "int (length ms) \<le> n"
  shows "\<exists>q q1 q2. msg_q_create True True mem n sz = Some (Some q) \<and> enq_all mq_put ms q = Some q1 \<and>
           deq_n mq_take (length ms) q1 = Some (ms, q2) \<and> msg_q_count (Some q2) = 0 \<and>
           (int (length ms) = n \<longrightarrow> (\<forall>m. mq_put m q1 = None))"
proof -
  from msg_q_create_rep [OF assms(1-3)] obtain q where
    q: "msg_q_create True True mem n sz = Some (Some q)" "mq_rep q []" "mq_cap q = nat n" "each_size q = sz"
    by blast
  have "list_all (mq_fits q) ms" "length ms \<le> mq_cap q"
    using assms(4,5) q by (auto simp: list_all_iff mq_fits_def)
  from mq.burst [OF q(2) this] obtain q1 q2 where
    "enq_all mq_put ms q = Some q1" "deq_n mq_take (length ms) q1 = Some (ms, q2)" "mq_rep q2 []"
    "length ms = mq_cap q \<longrightarrow> (\<forall>z. mq_put z q1 = None)" by blast
  with q(1,3) assms(1) show ?thesis by (intro exI conjI) (auto simp: mq_rep_def)
qed

theorem msg_q_burst_witness:
  "\<exists>q q1 q2. msg_q_create True True (\<lambda>_. Some [0, 0]) 2 2 = Some (Some q) \<and>
     enq_all mq_put [[1, 2], [3, 4]] q = Some q1 \<and> deq_n mq_take 2 q1 = Some ([[1, 2], [3, 4]], q2) \<and>
     (\<forall>m. mq_put m q1 = None)"
  using msg_q_burst [of 2 2 "\<lambda>_. Some [0, 0]" "[[1, 2], [3, 4]]"] by (auto simp: numeral_2_eq_2)

text \<open>
  Return codes of \<open>msg_q_recv\<close> and \<open>msg_q_send\<close>: a null handle or a message larger than
  \<open>each_size\<close> gives -1, an empty queue with \<open>no_wait\<close> gives 1, a queue being destroyed -2 (for
  both, without waiting), a receiver that finds the reset flag gives -2 and clears it. In none of these
  cases are the messages touched.
\<close>

theorem msg_q_errors:
  "msg_q_send env None m sz = None \<and> msg_q_recv env None sz nw = None \<and>
   (sz > each_size q \<longrightarrow> msg_q_send env (Some q) m sz = Some (Mq_ret (-1) q) \<and>
      msg_q_recv env (Some q) sz nw = Some (Mq_ret (-1, None) q)) \<and>
   (sz \<le> each_size q \<longrightarrow>
      (q_quit q \<and> \<not> q_reset q \<longrightarrow> msg_q_send env (Some q) m sz = Some (Mq_ret (-2) q) \<and>
         msg_q_recv env (Some q) sz nw = Some (Mq_ret (-2, None) q)) \<and>
      (q_reset q \<longrightarrow> msg_q_recv env (Some q) sz nw = Some (Mq_ret (-2, None) (q\<lparr>q_reset := False\<rparr>))) \<and>
      (\<not> q_quit q \<and> \<not> q_reset q \<and> q_filled q = 0 \<longrightarrow>
         msg_q_recv env (Some q) sz True = Some (Mq_ret (1, None) q)))"
  by (simp add: send_wait.simps [of env q] recv_wait.simps [of env _ q] send_locked_def recv_locked_def)

theorem msg_q_errors_witness:
  "msg_q_recv [] (Some \<lparr>q_data = [Some [7]], q_name = [], q_cur = 0, each_size = 1, q_number = 1, q_filled = 1,
      q_quit = False, q_reset = True, q_user = 0, q_signals = []\<rparr>) 1 True =
   Some (Mq_ret (-2, None) \<lparr>q_data = [Some [7]], q_name = [], q_cur = 0, each_size = 1, q_number = 1,
      q_filled = 1, q_quit = False, q_reset = False, q_user = 0, q_signals = []\<rparr>)"
  using msg_q_errors [of "[]" "[1]" 1 True "\<lparr>q_data = [Some [7]], q_name = [], q_cur = 0, each_size = 1,
      q_number = 1, q_filled = 1, q_quit = False, q_reset = True, q_user = 0, q_signals = []\<rparr>"]
  by simp

text \<open>
  A reset lets a sender overrun a full queue. A sender that waits for room is woken by
  \<open>msg_q_reset\<close> or \<open>msg_q_wakeup\<close> (which set \<open>reset\<close>); it then clears the flag, finds it
  clear, and stores its message although the queue is still full: it reports success, \<open>filled\<close>
  exceeds \<open>number\<close>, the oldest message is overwritten, and the next receiver gets the newest
  message in its place.
\<close>

theorem msg_q_reset_overruns:
  assumes "mq_rep q xs" and "length xs = mq_cap q" and "int (length m) = each_size q"
  shows "\<exists>q1 q2. msg_q_send [\<lambda>s. s\<lparr>q_reset := True\<rparr>] (Some q) m (int (length m)) = Some (Mq_ret 0 q1) \<and>
           q_filled q1 = q_number q1 + 1 \<and>
           msg_q_recv [] (Some q1) (each_size q) False = Some (Mq_ret (0, Some m) q2)"
proof -
  from assms have ok: "mq_cells_ok q" and f: "\<not> q_quit q" "\<not> q_reset q" "q_filled q = q_number q"
    by (auto simp: mq_rep_def mq_cap_def mq_cells_ok_def)
  let ?w = "q\<lparr>q_reset := True\<rparr>"
  let ?q1 = "q\<lparr>q_data := (q_data q)[mq_slot q (length xs) := Some m]\<rparr>"
  let ?q2 = "mq_notify Cond_signal (?q1\<lparr>q_filled := q_filled q + 1\<rparr>)"
  have "mq_wait (\<lambda>s. s\<lparr>q_reset := True\<rparr>) q = ?w" by (simp add: mq_wait_def)
  then have "send_wait [\<lambda>s. s\<lparr>q_reset := True\<rparr>] q = Mq_ret () ?w"
    using f by (simp add: send_wait.simps [of "[_]"] send_wait.simps [of "[]"])
  moreover have "q_filled q = int (length xs)" using assms(1) by (simp add: mq_rep_def)
  moreover have "send_locked m (int (length m)) ?w = send_locked m (int (length m)) q"
    using f(2) by (cases q) (simp add: send_locked_def)
  ultimately have s: "msg_q_send [\<lambda>s. s\<lparr>q_reset := True\<rparr>] (Some q) m (int (length m)) = Some (Mq_ret 0 ?q2)"
    using store_whole [OF ok assms(3), of "length xs"] f assms(3) by (simp add: send_locked_def)
  have slot: "mq_slot q (length xs) = nat (q_cur q)"
    using ok \<open>q_filled q = int (length xs)\<close> f(3) by (simp add: mq_slot_def mq_cells_ok_def)
  have "load_msg (q_cur ?q2) (each_size ?q2) ?q2 = Some m"
    using assms(3) slot ok by (auto simp: load_msg_def mq_cells_ok_def nat_le_iff)
  moreover have "recv_wait [] False ?q2 = Mq_ret True ?q2"
    using f ok by (simp add: recv_wait.simps mq_cells_ok_def)
  ultimately have "\<exists>q2. msg_q_recv [] (Some ?q2) (each_size q) False = Some (Mq_ret (0, Some m) q2)"
    using f by (simp add: recv_locked_def)
  with s f(3) show ?thesis by auto
qed

theorem msg_q_reset_overruns_witness:
  "\<exists>q1 q2 q3. msg_q_create True True (\<lambda>_. Some [0]) 1 1 = Some (Some q1) \<and> mq_put [1] q1 = Some q2 \<and>
     msg_q_send [\<lambda>s. s\<lparr>q_reset := True\<rparr>] (Some q2) [2] 1 = Some (Mq_ret 0 q3) \<and>
     q_filled q3 = q_number q3 + 1"
proof -
  from msg_q_create_rep [of 1 1 "\<lambda>_. Some [0]"] obtain q1 where
    q1: "msg_q_create True True (\<lambda>_. Some [0]) 1 1 = Some (Some q1)" "mq_rep q1 []" "mq_cap q1 = 1" "each_size q1 = 1"
    by auto
  from mq_put_room [OF q1(2), of "[1]"] q1 obtain q2 where
    q2: "mq_put [1] q1 = Some q2" "mq_rep q2 [[1]]" "mq_cap q2 = 1" "mq_fits q2 = mq_fits q1"
    by (auto simp: mq_fits_def)
  have "int (length [2 :: u8]) = each_size q2"
    using fun_cong [OF q2(4), of "[2]"] q1(4) by (simp add: mq_fits_def)
  from msg_q_reset_overruns [OF q2(2) _ this] q1(1) q2(1,3) show ?thesis by auto
qed

end
