(* ===== verification/Rtp_Transform.thy ===== *)
theory Rtp_Transform
  imports Esp_Prelude
begin

text \<open>
  The RTP payload transformer of \<open>IDF_esp32p4_webrtc/main/webrtc.c\<close> (lines 448 to 555): the
  callbacks \<open>esp_peer\<close> calls for every outgoing and incoming audio packet. A frame is the bytes
  behind \<open>orig_data\<close> and \<open>encoded_data\<close> (which may be the same buffer) with its sizes; sizes
  are \<open>uint32_t\<close> and wrap. \<open>None\<close> is an access outside a buffer.
\<close>

section \<open>State\<close>

datatype encoded_buffer = In_place | Encoded "u8 list"

record rtp_frame =
  orig_data :: "u8 list"
  orig_size :: u32
  encoded_data :: encoded_buffer
  encoded_size :: u32
  payload_type :: u8

record rtp_transformer_ctx =
  frame_count :: u32
  error_count :: u32

definition RTP_HEADER_SIZE :: nat where
  "RTP_HEADER_SIZE = 12"

definition ESP_PEER_ERR_NOT_SUPPORT :: int where
  "ESP_PEER_ERR_NOT_SUPPORT = -4"

definition ESP_PEER_ERR_BAD_DATA :: int where
  "ESP_PEER_ERR_BAD_DATA = -8"

text \<open>\<open>memcpy\<close> out of and into a buffer.\<close>

definition read_bytes :: "u8 list \<Rightarrow> nat \<Rightarrow> nat \<Rightarrow> u8 list option" where
  "read_bytes buf off n = (if off + n \<le> length buf then Some (take n (drop off buf)) else None)"

definition write_bytes :: "u8 list \<Rightarrow> nat \<Rightarrow> u8 list \<Rightarrow> u8 list option" where
  "write_bytes buf off src = (if off + length src \<le> length buf then Some (overwrite buf off src) else None)"

definition char_byte :: "char \<Rightarrow> u8" where
  "char_byte c = word_of_nat (of_char c)"

text \<open>\<open>"TAIL_%" PRIu32\<close>.\<close>

definition tail_chars :: "u32 \<Rightarrow> string" where
  "tail_chars n = ''TAIL_'' @ dec_string (unat n)"

text \<open>\<open>strncmp(p, s, strlen(s)) == 0\<close> for memory at \<open>off\<close>: it reads up to the first difference.\<close>

fun prefix_at :: "u8 list \<Rightarrow> nat \<Rightarrow> string \<Rightarrow> bool option" where
  "prefix_at buf off [] = Some True"
| "prefix_at buf off (c # cs) =
     (if off < length buf
      then if buf ! off = char_byte c then prefix_at buf (off + 1) cs else Some False
      else None)"

section \<open>The sender\<close>

text \<open>Result: return code, frame and \<open>in_place\<close> (left alone on the early returns).\<close>

definition rtp_sender_get_encoded_size ::
  "rtp_transformer_ctx \<Rightarrow> rtp_frame \<Rightarrow> bool \<Rightarrow> int \<times> rtp_frame \<times> bool" where
  "rtp_sender_get_encoded_size t_ctx frame in_place =
     (if payload_type frame \<ge> 96 then (ESP_PEER_ERR_NOT_SUPPORT, frame, in_place)
      else (let tail_size = word_of_nat (length (tail_chars (frame_count t_ctx)));
                frame1 = frame\<lparr>encoded_size := orig_size frame + 4 * 2 + tail_size + 1\<rparr>
            in if encoded_size frame1 > 1300 then (ESP_PEER_ERR_NOT_SUPPORT, frame1, in_place)
               else (0, frame1, False)))"

text \<open>
  \<open>encoded_buffer_of\<close> is what \<open>encoded_data\<close> points to; the transform writes there and reads
  \<open>orig_data\<close>, which is the same memory for \<open>In_place\<close>.
\<close>

definition put_encoded :: "nat \<Rightarrow> u8 list \<Rightarrow> rtp_frame \<Rightarrow> rtp_frame option" where
  "put_encoded off src frame =
     (case encoded_data frame of
        In_place \<Rightarrow> map_option (\<lambda>b. frame\<lparr>orig_data := b\<rparr>) (write_bytes (orig_data frame) off src)
      | Encoded b \<Rightarrow> map_option (\<lambda>b'. frame\<lparr>encoded_data := Encoded b'\<rparr>) (write_bytes b off src))"

definition rtp_sender_transform ::
  "rtp_transformer_ctx \<Rightarrow> rtp_frame \<Rightarrow> (int \<times> rtp_transformer_ctx \<times> rtp_frame) option" where
  "rtp_sender_transform t_ctx frame =
     (if payload_type frame \<ge> 96 \<or> orig_size frame < word_of_nat RTP_HEADER_SIZE
      then Some (ESP_PEER_ERR_NOT_SUPPORT, t_ctx, frame)
      else do {
        let tail_string = map char_byte (tail_chars (frame_count t_ctx)) @ [0];
        let tail_len = (word_of_nat (length tail_string) :: u32);
        let new_size = orig_size frame + 4 * 2 + tail_len;
        header \<leftarrow> read_bytes (orig_data frame) 0 RTP_HEADER_SIZE;
        f1 \<leftarrow> put_encoded 0 header frame;
        let payload_size = orig_size f1 - word_of_nat RTP_HEADER_SIZE;
        f2 \<leftarrow> put_encoded RTP_HEADER_SIZE (le32 payload_size) f1;
        payload \<leftarrow> read_bytes (orig_data f2) RTP_HEADER_SIZE (unat payload_size);
        f3 \<leftarrow> put_encoded (RTP_HEADER_SIZE + 4) payload f2;
        f4 \<leftarrow> put_encoded (RTP_HEADER_SIZE + 4 + unat payload_size) (le32 tail_len) f3;
        f5 \<leftarrow> put_encoded (RTP_HEADER_SIZE + 8 + unat payload_size) tail_string f4;
        Some (0, t_ctx\<lparr>frame_count := frame_count t_ctx + 1\<rparr>, f5\<lparr>encoded_size := new_size\<rparr>)
      })"

section \<open>The receiver\<close>

definition rtp_receiver_get_encoded_size ::
  "rtp_transformer_ctx \<Rightarrow> rtp_frame \<Rightarrow> bool \<Rightarrow> (int \<times> rtp_transformer_ctx \<times> rtp_frame \<times> bool) option" where
  "rtp_receiver_get_encoded_size t_ctx frame in_place =
     (if payload_type frame \<ge> 96 then Some (ESP_PEER_ERR_NOT_SUPPORT, t_ctx, frame, in_place)
      else do {
        original_size \<leftarrow> read_le32 (orig_data frame) RTP_HEADER_SIZE;
        (if word_of_nat RTP_HEADER_SIZE + original_size + 4 * 2 > orig_size frame
         then Some (ESP_PEER_ERR_BAD_DATA, t_ctx\<lparr>error_count := error_count t_ctx + 1\<rparr>, frame, in_place)
         else do {
           tail_size \<leftarrow> read_le32 (orig_data frame) (RTP_HEADER_SIZE + unat original_size + 4);
           let encoded_size = word_of_nat RTP_HEADER_SIZE + original_size + 4 * 2 + tail_size;
           (if encoded_size \<noteq> orig_size frame
            then Some (ESP_PEER_ERR_BAD_DATA, t_ctx\<lparr>error_count := error_count t_ctx + 1\<rparr>, frame, in_place)
            else Some (0, t_ctx, frame\<lparr>encoded_size := word_of_nat RTP_HEADER_SIZE + original_size\<rparr>, True))
         })
      })"

text \<open>
  \<open>ofst\<close> is an \<open>int\<close> that is increased by \<open>uint32_t\<close> values. A \<open>memmove\<close> inside
  \<open>orig_data\<close> is a read followed by a write.
\<close>

definition rtp_receiver_transform ::
  "rtp_transformer_ctx \<Rightarrow> rtp_frame \<Rightarrow> (int \<times> rtp_transformer_ctx \<times> rtp_frame) option" where
  "rtp_receiver_transform t_ctx frame = do {
     original_size \<leftarrow> read_le32 (orig_data frame) RTP_HEADER_SIZE;
     let ofst = sint (word_of_nat (RTP_HEADER_SIZE + 4) + original_size);
     (if ofst < 0 then None
      else do {
        tail_size \<leftarrow> read_le32 (orig_data frame) (nat ofst);
        let t_ctx1 = t_ctx\<lparr>frame_count := frame_count t_ctx + 1\<rparr>;
        tail_ok \<leftarrow> prefix_at (orig_data frame) (nat ofst + 4) ''TAIL_'';
        (if \<not> tail_ok then Some (ESP_PEER_ERR_BAD_DATA, t_ctx1\<lparr>error_count := error_count t_ctx1 + 1\<rparr>, frame)
         else do {
           f1 \<leftarrow> (case encoded_data frame of
                   In_place \<Rightarrow> Some frame
                 | Encoded b \<Rightarrow> read_bytes (orig_data frame) 0 RTP_HEADER_SIZE \<bind> (\<lambda>h. put_encoded 0 h frame));
           original_data \<leftarrow> read_bytes (orig_data f1) (RTP_HEADER_SIZE + 4) (unat original_size);
           f2 \<leftarrow> put_encoded RTP_HEADER_SIZE original_data f1;
           Some (0, t_ctx1, f2\<lparr>encoded_size := word_of_nat RTP_HEADER_SIZE + original_size\<rparr>)
         })
      })
   }"

section \<open>What is written\<close>

lemma write_bytes_append:
  "length src \<le> length rest \<Longrightarrow> write_bytes (pre @ rest) (length pre) src = Some ((pre @ src) @ drop (length src) rest)"
  by (simp add: write_bytes_def overwrite_def)

lemma put_encoded_append:
  assumes "off = length pre" "length src \<le> length rest"
  shows "put_encoded off src (f\<lparr>encoded_data := Encoded (pre @ rest)\<rparr>) =
    Some (f\<lparr>encoded_data := Encoded ((pre @ src) @ drop (length src) rest)\<rparr>)"
  using assms write_bytes_append [OF assms(2), of pre] by (simp add: put_encoded_def)

lemma prefix_at_append: "prefix_at (xs @ map char_byte cs @ ys) (length xs) cs = Some True"
proof (induction cs arbitrary: xs)
  case Nil
  then show ?case by simp
next
  case (Cons c cs)
  from Cons [of "xs @ [char_byte c]"] show ?case by (simp add: nth_append)
qed

lemma prefix_at_total: "off + length cs \<le> length buf \<Longrightarrow> \<exists>ok. prefix_at buf off cs = Some ok"
  by (induction cs arbitrary: off) auto

definition tail_bytes :: "rtp_transformer_ctx \<Rightarrow> u8 list" where
  "tail_bytes t = map char_byte (tail_chars (frame_count t)) @ [0]"

text \<open>The packet on the wire: header, payload size, payload, tail size, tail string.\<close>

definition rtp_wire :: "rtp_transformer_ctx \<Rightarrow> u8 list \<Rightarrow> u8 list" where
  "rtp_wire t d = take 12 d @ le32 (word_of_nat (length d - 12)) @ drop 12 d @
     le32 (word_of_nat (length (tail_bytes t))) @ tail_bytes t"

lemma tail_bytes_length: "length (tail_bytes t) = length (tail_chars (frame_count t)) + 1"
  "length (tail_bytes t) \<le> 16" "6 \<le> length (tail_bytes t)"
proof -
  have "unat (frame_count t) < 10 ^ 10" using unsigned_less [of "frame_count t", where 'a = nat] by simp
  then have "length (dec_string (unat (frame_count t))) \<le> 10" by (intro dec_string_length) simp_all
  then show "length (tail_bytes t) \<le> 16" by (simp add: tail_bytes_def tail_chars_def del: dec_string.simps)
qed (simp_all add: tail_bytes_def tail_chars_def del: dec_string.simps)

lemma length_rtp_wire: "12 \<le> length d \<Longrightarrow> length (rtp_wire t d) = length d + 8 + length (tail_bytes t)"
  by (simp add: rtp_wire_def)

lemma sender_transform_writes:
  assumes f: "payload_type f < 96" "12 \<le> unat (orig_size f)" "unat (orig_size f) \<le> length (orig_data f)"
    and b: "encoded_data f = Encoded b" "unat (orig_size f) + 8 + length (tail_bytes t) \<le> length b"
  shows "rtp_sender_transform t f = Some (0, t\<lparr>frame_count := frame_count t + 1\<rparr>,
    f\<lparr>encoded_data := Encoded (rtp_wire t (take (unat (orig_size f)) (orig_data f)) @
        drop (unat (orig_size f) + 8 + length (tail_bytes t)) b),
      encoded_size := orig_size f + 8 + word_of_nat (length (tail_bytes t))\<rparr>)"
proof -
  define n where "n = unat (orig_size f)"
  define d where "d = take n (orig_data f)"
  define h where "h = take 12 d"
  define pay where "pay = drop 12 d"
  define v where "v = le32 (orig_size f - 12)"
  define tb where "tb = tail_bytes t"
  define tl where "tl = le32 (word_of_nat (length tb))"
  have ps: "unat (orig_size f - 12) = n - 12" using f(2) by (simp add: n_def unat_sub word_le_nat_alt)
  have vw: "v = le32 (word_of_nat (length d - 12))"
  proof -
    have "length d = n" using f(3) by (simp add: d_def n_def)
    then have "word_of_nat (length d - 12) = (word_of_nat (unat (orig_size f - 12)) :: u32)" using ps by simp
    then show ?thesis by (simp add: v_def)
  qed
  have lens: "length h = 12" "length v = 4" "length pay = n - 12" "length tl = 4" "12 \<le> n"
    "n + 8 + length tb \<le> length b"
    using f b(2) by (simp_all add: h_def v_def pay_def tl_def d_def n_def tb_def min_def)
  have small: "\<not> orig_size f < word_of_nat 12" "\<not> payload_type f \<ge> 96"
    using f(1,2) by (auto simp: word_le_nat_alt word_less_nat_alt)
  have h: "read_bytes (orig_data f) 0 12 = Some h" using f(2,3) by (simp add: read_bytes_def min_def h_def d_def n_def)
  have p: "read_bytes (orig_data f) 12 (n - 12) = Some pay" using f(2,3) by (simp add: read_bytes_def drop_take pay_def d_def n_def)
  have fb: "f\<lparr>encoded_data := Encoded b\<rparr> = f" using b(1) by (cases f) simp
  have "put_encoded 0 h (f\<lparr>encoded_data := Encoded ([] @ b)\<rparr>) =
      Some (f\<lparr>encoded_data := Encoded (([] @ h) @ drop (length h) b)\<rparr>)"
    using lens by (intro put_encoded_append) simp_all
  then have 1: "put_encoded 0 h f = Some (f\<lparr>encoded_data := Encoded (h @ drop 12 b)\<rparr>)"
    unfolding append_Nil fb using lens by simp
  have o: "16 + (n - 12) = 4 + n" "20 + (n - 12) = 8 + n" using lens by simp_all
  have 2: "put_encoded 12 v (f\<lparr>encoded_data := Encoded (h @ drop 12 b)\<rparr>) =
      Some (f\<lparr>encoded_data := Encoded ((h @ v) @ drop 16 b)\<rparr>)"
    using lens by (subst put_encoded_append) simp_all
  have 3: "put_encoded 16 pay (f\<lparr>encoded_data := Encoded ((h @ v) @ drop 16 b)\<rparr>) =
      Some (f\<lparr>encoded_data := Encoded ((h @ v @ pay) @ drop (n + 4) b)\<rparr>)"
    using lens by (subst put_encoded_append) (simp_all add: add.commute)
  have 4: "put_encoded (4 + n) tl (f\<lparr>encoded_data := Encoded ((h @ v @ pay) @ drop (n + 4) b)\<rparr>) =
      Some (f\<lparr>encoded_data := Encoded ((h @ v @ pay @ tl) @ drop (n + 8) b)\<rparr>)"
    using lens by (subst put_encoded_append) (simp_all add: add.commute)
  have 5: "put_encoded (8 + n) tb (f\<lparr>encoded_data := Encoded ((h @ v @ pay @ tl) @ drop (n + 8) b)\<rparr>) =
      Some (f\<lparr>encoded_data := Encoded ((h @ v @ pay @ tl @ tb) @ drop (n + 8 + length tb) b)\<rparr>)"
    using lens by (subst put_encoded_append) (simp_all add: add.commute)
  have w: "rtp_wire t d = h @ v @ pay @ tl @ tb"
    by (simp add: rtp_wire_def vw h_def pay_def tl_def tb_def)
  show ?thesis
    using small h p 1 2 3 4 5 o ps w
    by (simp add: rtp_sender_transform_def RTP_HEADER_SIZE_def tail_bytes_def [symmetric] Let_def
        v_def [symmetric] tl_def [symmetric] tb_def [symmetric] n_def [symmetric] d_def [symmetric])
qed

section \<open>What is read\<close>

lemma read_le32_at: "k = length xs \<Longrightarrow> read_le32 (xs @ le32 v @ ys) k = Some v"
  by (simp add: read_le32_append)

lemma u32_nat: "n < 2 ^ 32 \<Longrightarrow> unat (word_of_nat n :: u32) = n"
  by (simp add: unsigned_of_nat take_bit_nat_eq_self)

lemma u32_sum:
  fixes a b :: u32
  shows "unat a + unat b < 2 ^ 32 \<Longrightarrow> unat (a + b) = unat a + unat b"
  by (simp add: unat_word_ariths)

lemma sint_small:
  fixes w :: u32
  assumes "unat w < 2 ^ 31"
  shows "sint w = int (unat w)"
proof -
  have "int (unat w) < int (2 ^ 31)" using assms by (simp only: of_nat_less_iff)
  then have "uint w < 2 ^ 31" by simp
  moreover have "0 \<le> uint w" by simp
  ultimately have "signed_take_bit 31 (uint w) = uint w"
    by (intro signed_take_bit_int_eq_self) linarith+
  then show ?thesis by (simp add: sint_uint)
qed

lemma mod_no_wrap:
  fixes a b M r :: nat
  assumes "r = (a + b) mod M" "b < M" "a \<le> r" "r < M"
  shows "r = a + b"
proof (rule ccontr)
  assume "r \<noteq> a + b"
  with assms(1) have "M \<le> a + b" by (metis mod_less not_le)
  moreover from this assms have "r = a + b - M" by (simp add: le_mod_geq)
  ultimately show False using assms(2,3) by linarith
qed

text \<open>A packet of the sender's form, with whatever memory behind it.\<close>

lemma receiver_reads_wire:
  assumes d: "12 \<le> length d" "length d + 4 < 2 ^ 31"
    and g: "payload_type g < 96" "orig_data g = rtp_wire t d @ rest"
      "orig_size g = word_of_nat (length (rtp_wire t d))" "encoded_data g = In_place"
  shows "rtp_receiver_get_encoded_size r g ip = Some (0, r, g\<lparr>encoded_size := word_of_nat (length d)\<rparr>, True)"
    and "\<exists>m. rtp_receiver_transform r g = Some (0, r\<lparr>frame_count := frame_count r + 1\<rparr>,
      g\<lparr>orig_data := d @ m, encoded_size := word_of_nat (length d)\<rparr>)"
proof -
  define h where "h = take 12 d"
  define pay where "pay = drop 12 d"
  define v where "v = (word_of_nat (length d - 12) :: u32)"
  define T where "T = (word_of_nat (length (tail_bytes t)) :: u32)"
  have l: "length h = 12" "length pay = length d - 12" "d = h @ pay" using d by (simp_all add: h_def pay_def)
  have uv: "unat v = length d - 12" using d(2) by (simp add: v_def u32_nat)
  have data: "orig_data g = h @ le32 v @ pay @ le32 T @ tail_bytes t @ rest"
    using g(2) by (simp add: rtp_wire_def h_def pay_def v_def T_def)
  have v12: "12 + v = word_of_nat (length d)"
  proof -
    have "word_of_nat (12 + (length d - 12)) = (12 + v :: u32)" by (simp add: v_def)
    then show ?thesis using d(1) by simp
  qed
  have size: "orig_size g = 12 + v + 8 + T"
    using length_rtp_wire [OF d(1), of t] unfolding g(3) v12 by (simp add: T_def)
  have uT: "unat T = length (tail_bytes t)" using tail_bytes_length(2) [of t] by (simp add: T_def u32_nat)
  have ud: "unat (12 + v) = length d" using d(2) by (simp add: v12 u32_nat)
  have u8: "unat (12 + v + 8) = length d + 8" using u32_sum [of "12 + v" 8] ud d(2) by simp
  have "unat (12 + v + 8 + T) = length d + 8 + length (tail_bytes t)"
    using u32_sum [of "12 + v + 8" T] u8 uT d(2) tail_bytes_length(2) [of t] by simp
  then have ok: "\<not> 12 + v + 8 > orig_size g" using u8 by (simp add: size word_less_nat_alt)
  have r1: "read_le32 (orig_data g) 12 = Some v" unfolding data by (rule read_le32_at) (simp add: l(1))
  have r2: "read_le32 (orig_data g) (length d + 4) = Some T"
    using read_le32_at [of "length d + 4" "h @ le32 v @ pay" T "tail_bytes t @ rest"] l(1,2) d(1) by (simp add: data)
  have o: "16 + unat v = length d + 4" using uv d(1) by simp
  have np: "(96 \<le> payload_type g) = False" "(orig_size g < 20 + v) = False"
    using g(1) ok by (simp_all add: not_le)
  have sz: "20 + v + T = orig_size g" "word_of_nat (length d) + 8 + T = orig_size g"
    using size v12 by simp_all
  show "rtp_receiver_get_encoded_size r g ip = Some (0, r, g\<lparr>encoded_size := word_of_nat (length d)\<rparr>, True)"
    using r1 r2
    by (simp add: rtp_receiver_get_encoded_size_def RTP_HEADER_SIZE_def o np sz v12)
  have "unat (16 + v) = length d + 4" using u32_sum [of 16 v] uv d by simp
  then have ofst: "sint (16 + v) = int (length d + 4)"
    using d(2) sint_small [of "16 + v"] by simp
  have "prefix_at ((h @ le32 v @ pay @ le32 T) @ map char_byte ''TAIL_'' @ (map char_byte (dec_string (unat (frame_count t))) @ [0] @ rest))
      (length (h @ le32 v @ pay @ le32 T)) ''TAIL_'' = Some True"
    by (rule prefix_at_append)
  then have tail: "prefix_at (orig_data g) (length d + 8) ''TAIL_'' = Some True"
    using l(1,2) d(1) by (simp add: data tail_bytes_def tail_chars_def add.commute del: prefix_at.simps dec_string.simps)
  have rb: "read_bytes (orig_data g) 16 (unat v) = Some pay"
    using l(1,2) uv by (simp add: data read_bytes_def)
  have "put_encoded 12 pay g = Some (g\<lparr>orig_data := h @ pay @ drop (length d) (orig_data g)\<rparr>)"
    using l(1,2) d(1) g(4) by (simp add: put_encoded_def write_bytes_def data overwrite_def)
  then have pe: "put_encoded 12 pay g = Some (g\<lparr>orig_data := d @ drop (length d) (orig_data g)\<rparr>)"
    by (simp only: l(3) append_assoc)
  show "\<exists>m. rtp_receiver_transform r g = Some (0, r\<lparr>frame_count := frame_count r + 1\<rparr>,
      g\<lparr>orig_data := d @ m, encoded_size := word_of_nat (length d)\<rparr>)"
    using r1 r2 ofst tail rb pe g(4)
    by (auto simp add: rtp_receiver_transform_def RTP_HEADER_SIZE_def v12 v12 [unfolded add.commute [of 12]]
        Let_def nat_add_distrib add.commute simp del: prefix_at.simps)
qed

section \<open>Properties\<close>

lemma sender_size:
  assumes "payload_type f < 96" "unat (orig_size f) < 2 ^ 31"
  shows "let n = unat (orig_size f) + 8 + length (tail_bytes t) in
    (case rtp_sender_get_encoded_size t f ip of (r, f1, ip1) \<Rightarrow>
       f1 = f\<lparr>encoded_size := word_of_nat n\<rparr> \<and> unat (encoded_size f1) = n \<and>
       (if n \<le> 1300 then r = 0 \<and> \<not> ip1 else r = ESP_PEER_ERR_NOT_SUPPORT \<and> ip1 = ip))"
proof -
  define n where "n = unat (orig_size f) + 8 + length (tail_bytes t)"
  have n: "n < 2 ^ 32" using assms(2) tail_bytes_length(2) [of t] by (simp add: n_def)
  have "orig_size f + 4 * 2 + word_of_nat (length (tail_chars (frame_count t))) + 1 = word_of_nat n"
    by (simp add: n_def tail_bytes_length(1))
  moreover have "(word_of_nat n :: u32) > 1300 \<longleftrightarrow> n > 1300"
    using u32_nat [OF n] by (simp add: word_less_nat_alt)
  moreover have "(96 \<le> payload_type f) = False" using assms(1) by (simp add: not_le)
  ultimately show ?thesis
    using u32_nat [OF n]
    by (simp add: rtp_sender_get_encoded_size_def n_def [symmetric] Let_def not_less)
qed

text \<open>
  C18. Round trip of an audio packet through the RTP transformer. For a packet the sender accepts, with
  a buffer of exactly the announced size, the sender's transform writes exactly that many bytes
  (at most 1300) and nothing outside the buffer; the receiver, given those bytes, announces the
  original size, transforms in place, and hands out the original packet, header and payload, byte for
  byte, without counting an error. Both frame counters advance by one.
\<close>

theorem rtp_roundtrip:
  assumes p: "payload_type f < 96" and n: "12 \<le> unat (orig_size f)" "unat (orig_size f) < 2 ^ 31"
    "unat (orig_size f) \<le> length (orig_data f)"
    and s: "rtp_sender_get_encoded_size t f ip = (0, f1, ip1)" and b: "length b = unat (encoded_size f1)"
    and q: "payload_type g < 96" "encoded_data g = In_place" "orig_size g = encoded_size f1"
  shows "\<exists>out f2 r1 g1 g2.
     rtp_sender_transform t (f1\<lparr>encoded_data := Encoded b\<rparr>) = Some (0, t\<lparr>frame_count := frame_count t + 1\<rparr>, f2) \<and>
     encoded_data f2 = Encoded out \<and> encoded_size f2 = encoded_size f1 \<and>
     length out = unat (encoded_size f1) \<and> length out \<le> 1300 \<and>
     rtp_receiver_get_encoded_size r (g\<lparr>orig_data := out\<rparr>) ip2 = Some (0, r, g1, True) \<and>
     encoded_size g1 = orig_size f \<and>
     rtp_receiver_transform r g1 = Some (0, r1, g2) \<and> r1 = r\<lparr>frame_count := frame_count r + 1\<rparr> \<and>
     encoded_size g2 = orig_size f \<and>
     take (unat (orig_size f)) (orig_data g2) = take (unat (orig_size f)) (orig_data f)"
proof -
  define N where "N = unat (orig_size f)"
  define d where "d = take N (orig_data f)"
  define T where "T = length (tail_bytes t)"
  have f1: "f1 = f\<lparr>encoded_size := word_of_nat (N + 8 + T)\<rparr>" "unat (encoded_size f1) = N + 8 + T"
    and le: "N + 8 + T \<le> 1300"
    using sender_size [OF p n(2), of t ip] s
    by (auto simp: Let_def N_def T_def ESP_PEER_ERR_NOT_SUPPORT_def split: if_splits)
  have d: "length d = N" "12 \<le> length d" "length d + 4 < 2 ^ 31" using n le by (simp_all add: d_def N_def)
  have so: "orig_size f = word_of_nat (length d)" by (simp add: d(1) N_def)
  let ?out = "rtp_wire t d @ drop (N + 8 + T) b"
  let ?f2 = "f1\<lparr>encoded_data := Encoded ?out, encoded_size := orig_size f + 8 + word_of_nat T\<rparr>"
  have out: "?out = rtp_wire t d" "length ?out = N + 8 + T"
    using b f1(2) d length_rtp_wire [of d t] by (simp_all add: T_def)
  have w: "rtp_sender_transform t (f1\<lparr>encoded_data := Encoded b\<rparr>) =
      Some (0, t\<lparr>frame_count := frame_count t + 1\<rparr>, ?f2)"
    using sender_transform_writes [of "f1\<lparr>encoded_data := Encoded b\<rparr>" b t] p n b f1
    by (simp add: N_def T_def d_def)
  have e: "orig_size f + 8 + word_of_nat T = encoded_size f1"
    by (simp add: f1(1) so d(1))
  let ?g = "g\<lparr>orig_data := ?out\<rparr>"
  have "orig_size ?g = word_of_nat (length (rtp_wire t d))"
    using out q(3) f1(1) by simp
  note get = receiver_reads_wire(1) [OF d(2,3) q(1)]
  let ?g1 = "?g\<lparr>encoded_size := word_of_nat (length d)\<rparr>"
  have 1: "rtp_receiver_get_encoded_size r ?g ip2 = Some (0, r, ?g1, True)"
    by (rule receiver_reads_wire(1) [OF d(2,3), of _ t "[]"])
      (use q out \<open>orig_size ?g = _\<close> in simp_all)
  have "\<exists>m. rtp_receiver_transform r ?g1 = Some (0, r\<lparr>frame_count := frame_count r + 1\<rparr>,
      ?g1\<lparr>orig_data := d @ m, encoded_size := word_of_nat (length d)\<rparr>)"
    by (rule receiver_reads_wire(2) [OF d(2,3), of _ t "[]"])
      (use q out \<open>orig_size ?g = _\<close> in simp_all)
  then obtain m where 2: "rtp_receiver_transform r ?g1 = Some (0, r\<lparr>frame_count := frame_count r + 1\<rparr>,
      ?g1\<lparr>orig_data := d @ m, encoded_size := word_of_nat (length d)\<rparr>)" by blast
  have tk: "take (unat (orig_size f)) (d @ m) = take (unat (orig_size f)) (orig_data f)"
    using d(1) by (simp add: N_def [symmetric]) (simp add: d_def)
  show ?thesis
    using w 1 2 e out(2) le f1(2) so tk
    by (intro exI conjI) (assumption | simp)+
qed

text \<open>A packet of 14 bytes and the frames and contexts of the witnesses.\<close>

definition rtp_sample :: rtp_frame where
  "rtp_sample = \<lparr>orig_data = [128, 0, 0, 1, 0, 0, 0, 2, 0, 0, 0, 3, 55, 66], orig_size = 14,
     encoded_data = In_place, encoded_size = 0, payload_type = 8\<rparr>"

definition rtp_ctx :: rtp_transformer_ctx where
  "rtp_ctx = \<lparr>frame_count = 99, error_count = 0\<rparr>"

lemma rtp_sample_accepted:
  "rtp_sender_get_encoded_size rtp_ctx rtp_sample False = (0, rtp_sample\<lparr>encoded_size := 30\<rparr>, False)"
  by code_simp

lemma rtp_receiver_sample:
  "rtp_receiver_get_encoded_size rtp_ctx (rtp_sample\<lparr>orig_data := replicate 12 0 @
      [1, 0, 0, 0, 77, 6, 0, 0, 0, 84, 65, 73, 76, 95, 0], orig_size := 27\<rparr>) False =
   Some (0, rtp_ctx, rtp_sample\<lparr>orig_data := replicate 12 0 @
      [1, 0, 0, 0, 77, 6, 0, 0, 0, 84, 65, 73, 76, 95, 0], orig_size := 27, encoded_size := 13\<rparr>, True)"
  "read_le32 (replicate 12 0 @ [1, 0, 0, 0, 77, 6, 0, 0, 0, 84, 65, 73, 76, 95, 0]) 12 = Some 1"
  by code_simp+

lemma rtp_wrap_sample: "read_le32 (replicate 12 0 @ [240, 255, 255, 255, 0, 0, 0, 0]) 12 = Some 4294967280"
  by code_simp

theorem rtp_roundtrip_witness:
  "\<exists>out f2. rtp_sender_transform rtp_ctx (rtp_sample\<lparr>encoded_size := 30, encoded_data := Encoded (replicate 30 0)\<rparr>) =
       Some (0, rtp_ctx\<lparr>frame_count := 100\<rparr>, f2) \<and> encoded_data f2 = Encoded out \<and> length out = 30 \<and>
     (\<exists>g1 g2 r1. rtp_receiver_transform rtp_ctx g1 = Some (0, r1, g2) \<and> encoded_size g2 = 14 \<and>
        take 14 (orig_data g2) = orig_data rtp_sample)"
  using rtp_roundtrip [of rtp_sample rtp_ctx False "rtp_sample\<lparr>encoded_size := 30\<rparr>" False
      "replicate 30 0" "rtp_sample\<lparr>orig_size := 30\<rparr>" rtp_ctx False] rtp_sample_accepted
  by (fastforce simp: rtp_sample_def rtp_ctx_def)

text \<open>
  What the receiver checks, and what it does not. When \<open>rtp_receiver_get_encoded_size\<close>
  accepts a packet whose size field does not exceed the packet, the two size fields account for
  exactly the bytes received, and the transform stays inside the packet provided the tail is at
  least as long as the tag it is compared with; it then either reports bad data, changing
  nothing but the counters, or delivers the announced number of bytes.
\<close>

theorem rtp_receiver_safe:
  assumes a: "rtp_receiver_get_encoded_size r f ip = Some (0, r', f1, True)" "payload_type f < 96"
    and n: "length (orig_data f) = unat (orig_size f)" "encoded_data f = In_place" "unat (orig_size f) < 2 ^ 31"
    and v: "read_le32 (orig_data f) 12 = Some v" "unat v + 25 \<le> unat (orig_size f)"
  shows "(\<exists>tail. read_le32 (orig_data f) (16 + unat v) = Some tail \<and> unat (orig_size f) = 20 + unat v + unat tail) \<and>
     r' = r \<and> encoded_size f1 = 12 + v \<and>
     (\<exists>code r2 f2. rtp_receiver_transform r f1 = Some (code, r2, f2) \<and>
        (code = ESP_PEER_ERR_BAD_DATA \<and> f2 = f1 \<and> error_count r2 = error_count r + 1 \<or>
         code = 0 \<and> encoded_size f2 = encoded_size f1 \<and> error_count r2 = error_count r \<and>
         take (unat (encoded_size f2)) (orig_data f2) =
           take 12 (orig_data f) @ take (unat v) (drop 16 (orig_data f))))"
proof -
  let ?b = "orig_data f" and ?N = "unat (orig_size f)"
  have f1: "(96 \<le> payload_type f) = False" using a(2) by (simp add: not_le)
  from a(1) v(1) f1 obtain tail where t: "read_le32 ?b (16 + unat v) = Some tail"
    "12 + v + 8 + tail = orig_size f" "r' = r" "f1 = f\<lparr>encoded_size := 12 + v\<rparr>"
    by (auto simp: rtp_receiver_get_encoded_size_def RTP_HEADER_SIZE_def ESP_PEER_ERR_BAD_DATA_def bind_eq_Some_conv
        split: if_splits)
  have u: "unat (12 + v) = 12 + unat v" "unat (12 + v + 8) = 20 + unat v" "unat (16 + v) = 16 + unat v"
    using u32_sum [of 12 v] u32_sum [of "12 + v" 8] u32_sum [of 16 v] v(2) n(3) by simp_all
  have tot: "unat (orig_size f) = 20 + unat v + unat tail"
  proof -
    have "unat (orig_size f) = (unat (12 + v + 8) + unat tail) mod 2 ^ LENGTH(32)"
      unfolding t(2) [symmetric] by (rule unat_word_ariths(1))
    then have "unat (orig_size f) = (20 + unat v + unat tail) mod 2 ^ 32" by (simp only: u(2)) simp
    moreover have "unat tail < 2 ^ 32" using unsigned_less [of tail, where 'a = nat] by simp
    ultimately show ?thesis using v(2) n(3) mod_no_wrap [of "unat (orig_size f)" "20 + unat v" "unat tail" "2 ^ 32"] by simp
  qed
  have ofst: "sint (16 + v) = int (16 + unat v)"
    using sint_small [of "16 + v"] u(3) v(2) n(3) by simp
  have "20 + unat v + length ''TAIL_'' \<le> length ?b" using v(2) n(1) by simp
  from prefix_at_total [OF this] obtain ok where ok: "prefix_at ?b (20 + unat v) ''TAIL_'' = Some ok" by blast
  have rb: "read_bytes ?b 16 (unat v) = Some (take (unat v) (drop 16 ?b))"
    using v(2) n(1) by (simp add: read_bytes_def)
  let ?o = "overwrite ?b 12 (take (unat v) (drop 16 ?b))"
  have pe: "put_encoded 12 (take (unat v) (drop 16 ?b)) f1 = Some (f1\<lparr>orig_data := ?o\<rparr>)"
    using v(2) n(1,2) by (simp add: put_encoded_def write_bytes_def t(4))
  have tk: "take (12 + unat v) ?o = take 12 ?b @ take (unat v) (drop 16 ?b)"
    using v(2) n(1) by (simp add: overwrite_def)
  let ?r = "r\<lparr>frame_count := frame_count r + 1\<rparr>"
  have "rtp_receiver_transform r f1 =
     (if ok then Some (0, ?r, f1\<lparr>orig_data := ?o, encoded_size := 12 + v\<rparr>)
      else Some (ESP_PEER_ERR_BAD_DATA, ?r\<lparr>error_count := error_count r + 1\<rparr>, f1))"
    using v(1) t(1) ofst ok rb pe n(2)
    by (simp add: rtp_receiver_transform_def RTP_HEADER_SIZE_def t(4) nat_add_distrib Let_def not_less add_nonneg_nonneg
        del: prefix_at.simps)
  with tot t u(1) tk show ?thesis by auto
qed

theorem rtp_receiver_safe_witness:
  "\<exists>code r2 f2. rtp_receiver_transform rtp_ctx
     (rtp_sample\<lparr>orig_data := replicate 12 0 @ [1, 0, 0, 0, 77, 6, 0, 0, 0, 84, 65, 73, 76, 95, 0],
        orig_size := 27, encoded_size := 13\<rparr>) = Some (code, r2, f2)"
  using rtp_receiver_safe [of rtp_ctx "rtp_sample\<lparr>orig_data := replicate 12 0 @
      [1, 0, 0, 0, 77, 6, 0, 0, 0, 84, 65, 73, 76, 95, 0], orig_size := 27\<rparr>" False rtp_ctx
      "rtp_sample\<lparr>orig_data := replicate 12 0 @ [1, 0, 0, 0, 77, 6, 0, 0, 0, 84, 65, 73, 76, 95, 0],
        orig_size := 27, encoded_size := 13\<rparr>" 1] rtp_receiver_sample
  by (auto simp: rtp_sample_def)

text \<open>
  Hostile packets. The receiver reads before it checks: a packet shorter than 16 bytes makes
  \<open>rtp_receiver_get_encoded_size\<close> read past its end; a size field close to \<open>2 ^ 32\<close> passes
  the bounds check because the 32-bit sum wraps, and the tail size is then read far outside the packet;
  and a packet that is accepted with an empty tail makes the transform compare a tag behind the end.
\<close>

theorem rtp_receiver_overreads:
  assumes p: "payload_type f < 96" and l: "length (orig_data f) = unat (orig_size f)" "unat (orig_size f) < 2 ^ 31"
  shows "(unat (orig_size f) < 16 \<longrightarrow> rtp_receiver_get_encoded_size r f ip = None) \<and>
     (\<forall>v. read_le32 (orig_data f) 12 = Some v \<and> unat v \<ge> 2 ^ 32 - 20 \<and> unat (orig_size f) \<ge> 20 \<longrightarrow>
        rtp_receiver_get_encoded_size r f ip = None) \<and>
     (\<forall>v. read_le32 (orig_data f) 12 = Some v \<and> unat (orig_size f) = 20 + unat v \<and>
        read_le32 (orig_data f) (16 + unat v) = Some 0 \<longrightarrow>
        (\<exists>f1. rtp_receiver_get_encoded_size r f ip = Some (0, r, f1, True)) \<and>
        (encoded_data f = In_place \<longrightarrow> rtp_receiver_transform r f = None))"
proof (intro conjI allI impI)
  have f1: "(96 \<le> payload_type f) = False" using p by (simp add: not_le)
  show "rtp_receiver_get_encoded_size r f ip = None" if "unat (orig_size f) < 16"
    using that f1 l by (simp add: rtp_receiver_get_encoded_size_def RTP_HEADER_SIZE_def read_le32_def)
  fix v
  show "rtp_receiver_get_encoded_size r f ip = None"
    if "read_le32 (orig_data f) 12 = Some v \<and> unat v \<ge> 2 ^ 32 - 20 \<and> unat (orig_size f) \<ge> 20"
  proof -
    have "unat (12 + v + 8) = (20 + unat v) mod 2 ^ 32" by (simp add: unat_word_ariths mod_simps)
    moreover have "unat v < 2 ^ 32" using unsigned_less [of v, where 'a = nat] by simp
    ultimately have "unat (12 + v + 8) = 20 + unat v - 2 ^ 32"
      using that by (simp add: mod_if)
    then have "unat (12 + v + 8) \<le> unat (orig_size f)"
      using \<open>unat v < 2 ^ 32\<close> that by auto
    then have "(orig_size f < 12 + v + 8) = False" by (simp add: word_less_nat_alt)
    moreover have "read_le32 (orig_data f) (16 + unat v) = None"
      using that l by (simp add: read_le32_def)
    ultimately show ?thesis
      using that f1 by (simp add: rtp_receiver_get_encoded_size_def RTP_HEADER_SIZE_def)
  qed
  assume v: "read_le32 (orig_data f) 12 = Some v \<and> unat (orig_size f) = 20 + unat v \<and>
        read_le32 (orig_data f) (16 + unat v) = Some 0"
  have b: "unat v + 20 < 2 ^ 31" using v l(2) by simp
  have u: "unat (12 + v + 8) = 20 + unat v" "unat (16 + v) = 16 + unat v"
    using u32_sum [of 12 v] u32_sum [of "12 + v" 8] u32_sum [of 16 v] b by simp_all
  then have e: "12 + v + 8 = orig_size f" using v by (metis word_unat_eq_iff)
  then have e2: "20 + v = orig_size f" by simp
  show "\<exists>f1. rtp_receiver_get_encoded_size r f ip = Some (0, r, f1, True)"
    using v f1 e2 by (simp add: rtp_receiver_get_encoded_size_def RTP_HEADER_SIZE_def)
  have ofst: "sint (16 + v) = int (16 + unat v)"
    using sint_small [of "16 + v"] u(2) b by simp
  show "rtp_receiver_transform r f = None" if "encoded_data f = In_place"
    using v ofst l(1) by (simp add: rtp_receiver_transform_def RTP_HEADER_SIZE_def nat_add_distrib Let_def)
qed

theorem rtp_receiver_overreads_witness:
  "rtp_receiver_get_encoded_size rtp_ctx (rtp_sample\<lparr>orig_data := replicate 12 0 @ [240, 255, 255, 255, 0, 0, 0, 0],
     orig_size := 20\<rparr>) False = None"
  using rtp_receiver_overreads [of "rtp_sample\<lparr>orig_data := replicate 12 0 @ [240, 255, 255, 255, 0, 0, 0, 0],
     orig_size := 20\<rparr>" rtp_ctx False] rtp_wrap_sample
  by (auto simp: rtp_sample_def)

end
