(* ===== verification/Webrtc_Session.thy ===== *)
theory Webrtc_Session
  imports Esp_Prelude
begin

text \<open>
  The WebRTC session of \<open>components/esp_webrtc/src/esp_webrtc.c\<close>, with the null-checking
  wrappers of \<open>esp_peer/src/esp_peer.c\<close> and \<open>esp_webrtc/src/esp_peer_signaling.c\<close> it calls.
  A session is the record \<open>rtc\<close>; calls to the peer implementation (a binary library), to capture,
  renderer, signaling implementation, threads and event groups are recorded in \<open>rtc_calls\<close>, and
  their return codes are given by \<open>ret\<close>: the code of the \<open>n\<close>-th recorded call.

  Waiting for an event bit that another thread sets returns. Waiting, in the peer task itself, for a
  bit that only the peer task sets never does: \<open>Deadlock\<close>.
\<close>

section \<open>Types of the interface\<close>

datatype peer_state =
    ESP_PEER_STATE_CLOSED | ESP_PEER_STATE_DISCONNECTED | ESP_PEER_STATE_NEW_CONNECTION
  | ESP_PEER_STATE_CANDIDATE_GATHERING | ESP_PEER_STATE_PAIRING | ESP_PEER_STATE_PAIRED
  | ESP_PEER_STATE_CONNECTING | ESP_PEER_STATE_CONNECTED | ESP_PEER_STATE_CONNECT_FAILED
  | ESP_PEER_STATE_DATA_CHANNEL_CONNECTED | ESP_PEER_STATE_DATA_CHANNEL_OPENED
  | ESP_PEER_STATE_DATA_CHANNEL_CLOSED | ESP_PEER_STATE_DATA_CHANNEL_DISCONNECTED

datatype peer_video_codec = ESP_PEER_VIDEO_CODEC_NONE | ESP_PEER_VIDEO_CODEC_H264 | ESP_PEER_VIDEO_CODEC_MJPEG

datatype peer_audio_codec =
    ESP_PEER_AUDIO_CODEC_NONE | ESP_PEER_AUDIO_CODEC_G711A | ESP_PEER_AUDIO_CODEC_G711U
  | ESP_PEER_AUDIO_CODEC_OPUS

datatype render_codec = RENDER_NONE | RENDER_H264 | RENDER_MJPEG | RENDER_G711A | RENDER_G711U | RENDER_OPUS

datatype capture_codec = CAPTURE_NONE | CAPTURE_H264 | CAPTURE_MJPEG | CAPTURE_G711A | CAPTURE_G711U | CAPTURE_OPUS

datatype media_dir = DIR_NONE | DIR_SEND_ONLY | DIR_RECV_ONLY | DIR_SEND_RECV

datatype peer_role = ESP_PEER_ROLE_CONTROLLING | ESP_PEER_ROLE_CONTROLLED

datatype webrtc_event =
    ESP_WEBRTC_EVENT_CONNECTING | ESP_WEBRTC_EVENT_CONNECTED | ESP_WEBRTC_EVENT_PAIRED
  | ESP_WEBRTC_EVENT_DISCONNECTED | ESP_WEBRTC_EVENT_CONNECT_FAILED
  | ESP_WEBRTC_EVENT_DATA_CHANNEL_CONNECTED | ESP_WEBRTC_EVENT_DATA_CHANNEL_DISCONNECTED
  | ESP_WEBRTC_EVENT_DATA_CHANNEL_OPENED | ESP_WEBRTC_EVENT_DATA_CHANNEL_CLOSED

datatype signal_msg_type = SIG_NONE | SIG_SDP | SIG_CANDIDATE | SIG_BYE | SIG_CUSTOMIZED

datatype custom_via = CUSTOM_VIA_NONE | CUSTOM_VIA_SIGNALING | CUSTOM_VIA_DATA_CHANNEL

datatype stream_type = STREAM_AUDIO | STREAM_VIDEO

datatype pc_bit = PC_EXIT_BIT | PC_PAUSED_BIT | PC_RESUME_BIT | PC_SEND_QUIT_BIT

datatype rtc_thread = Pc_task | Other_thread

record ice_server =
  stun_url :: "string option"
  server_user :: "string option"
  server_psw :: "string option"

record media_frame =
  frame_pts :: u32
  frame_data :: "u8 list"
  frame_size :: u32

record sink_cfg =
  sink_audio :: capture_codec
  sink_rate :: nat
  sink_channel :: nat
  sink_video :: capture_codec
  sink_width :: nat
  sink_height :: nat
  sink_fps :: nat

datatype rtc_call =
    Capture_start | Capture_stop | Capture_sink_setup sink_cfg | Capture_sink_always | Capture_sink_disable
  | Capture_set_bitrate stream_type u32 | Capture_release stream_type
  | Render_reset | Render_add_video render_codec nat nat nat | Render_add_audio render_codec nat nat nat
  | Render_audio_data media_frame | Render_video_data media_frame
  | Peer_open peer_role "ice_server list" bool | Peer_close | Peer_disconnect | Peer_new_connection
  | Peer_update_ice peer_role "ice_server list" | Peer_send_msg signal_msg_type "u8 list" | Peer_send_audio media_frame
  | Peer_send_video media_frame | Peer_send_data bool "u8 list" | Peer_query | Peer_main_loop
  | Signaling_start | Signaling_stop | Signaling_send bool "u8 list"
  | Create_pc_task | Create_send_task | Event_create | Event_destroy | Set_bit pc_bit | Wait_bit pc_bit
  | App_event webrtc_event | App_custom_data custom_via "u8 list" | App_data "u8 list"
  | App_channel_open | App_channel_close | App_video_send media_frame
  | Free_rtc

section \<open>State\<close>

record session_cfg =
  audio_codec :: peer_audio_codec
  audio_rate :: nat
  audio_channel :: nat
  video_codec :: peer_video_codec
  video_width :: nat
  video_height :: nat
  video_fps :: nat
  audio_dir :: media_dir
  video_dir :: media_dir
  enable_data_channel :: bool
  video_over_data_channel :: bool
  no_auto_reconnect :: bool
  has_on_custom_data :: bool
  has_on_data :: bool
  has_on_video_send :: bool
  has_on_channel_open :: bool
  has_on_channel_close :: bool
  server_lists :: "ice_server list option"
  server_num :: nat

record ice_info =
  info_server :: ice_server
  info_initiator :: bool

record rtc =
  rtc_cfg :: session_cfg
  pc :: bool
  signaling :: bool
  peer_state :: peer_state
  running :: bool
  pause :: bool
  wait_event :: bool
  event_handler :: bool
  ice_role :: peer_role
  send_going :: bool
  capture_set :: bool
  player_set :: bool
  capture_path :: bool
  play_handle :: bool
  recv_aud_codec :: peer_audio_codec
  recv_vid_codec :: peer_video_codec
  pending_connect :: bool
  loaded_ice :: ice_info
  ice_info_loaded :: bool
  signaling_connected :: bool
  no_auto_capture :: bool
  pre_audio_bitrate :: u32
  pre_video_bitrate :: u32
  pre_audio_set :: bool
  pre_video_set :: bool
  vid_send_pts :: u32
  aud_send_pts :: u32
  aud_recv_pts :: u32
  vid_send_size :: u32
  aud_send_size :: u32
  aud_recv_size :: u32
  vid_recv_size :: u32
  aud_send_num :: u8
  vid_send_num :: u8
  aud_recv_num :: u8
  vid_recv_num :: u8
  rtc_calls :: "rtc_call list"

datatype 'a rtc_result = Deadlock | Done 'a rtc

type_synonym rtc_ret = "nat \<Rightarrow> rtc_call \<Rightarrow> int"

definition ESP_PEER_ERR_INVALID_ARG :: int where "ESP_PEER_ERR_INVALID_ARG = -1"
definition ESP_PEER_ERR_NO_MEM :: int where "ESP_PEER_ERR_NO_MEM = -2"
definition ESP_PEER_ERR_WRONG_STATE :: int where "ESP_PEER_ERR_WRONG_STATE = -3"

lemmas peer_errors = ESP_PEER_ERR_INVALID_ARG_def ESP_PEER_ERR_NO_MEM_def ESP_PEER_ERR_WRONG_STATE_def

definition note_call :: "rtc_call \<Rightarrow> rtc \<Rightarrow> rtc" where
  "note_call c s = s\<lparr>rtc_calls := rtc_calls s @ [c]\<rparr>"

text \<open>An external call: its code and the state with the call recorded.\<close>

definition call_ext :: "rtc_ret \<Rightarrow> rtc_call \<Rightarrow> rtc \<Rightarrow> int \<times> rtc" where
  "call_ext ret c s = (ret (length (rtc_calls s)) c, note_call c s)"

text \<open>The wrappers of \<open>esp_peer.c\<close> and \<open>esp_peer_signaling.c\<close>: nothing is called on a null handle.\<close>

definition peer_call :: "rtc_ret \<Rightarrow> rtc_call \<Rightarrow> rtc \<Rightarrow> int \<times> rtc" where
  "peer_call ret c s = (if pc s then call_ext ret c s else (ESP_PEER_ERR_INVALID_ARG, s))"

definition esp_peer_new_connection :: "rtc_ret \<Rightarrow> rtc \<Rightarrow> int \<times> rtc" where
  "esp_peer_new_connection ret = peer_call ret Peer_new_connection"

definition esp_peer_update_ice_info :: "rtc_ret \<Rightarrow> peer_role \<Rightarrow> ice_server list \<Rightarrow> rtc \<Rightarrow> int \<times> rtc" where
  "esp_peer_update_ice_info ret role servers = peer_call ret (Peer_update_ice role servers)"

definition esp_peer_send_msg :: "rtc_ret \<Rightarrow> signal_msg_type \<Rightarrow> u8 list \<Rightarrow> rtc \<Rightarrow> int \<times> rtc" where
  "esp_peer_send_msg ret ty d = peer_call ret (Peer_send_msg ty d)"

definition esp_peer_send_video :: "rtc_ret \<Rightarrow> media_frame \<Rightarrow> rtc \<Rightarrow> int \<times> rtc" where
  "esp_peer_send_video ret f = peer_call ret (Peer_send_video f)"

definition esp_peer_send_audio :: "rtc_ret \<Rightarrow> media_frame \<Rightarrow> rtc \<Rightarrow> int \<times> rtc" where
  "esp_peer_send_audio ret f = peer_call ret (Peer_send_audio f)"

definition esp_peer_send_data :: "rtc_ret \<Rightarrow> bool \<Rightarrow> u8 list \<Rightarrow> rtc \<Rightarrow> int \<times> rtc" where
  "esp_peer_send_data ret is_string d = peer_call ret (Peer_send_data is_string d)"

definition esp_peer_disconnect :: "rtc_ret \<Rightarrow> rtc \<Rightarrow> int \<times> rtc" where
  "esp_peer_disconnect ret = peer_call ret Peer_disconnect"

definition esp_peer_query :: "rtc_ret \<Rightarrow> rtc \<Rightarrow> int \<times> rtc" where
  "esp_peer_query ret s = (case peer_call ret Peer_query s of (r, s1) \<Rightarrow> (if pc s then 0 else r, s1))"

definition esp_peer_main_loop :: "rtc_ret \<Rightarrow> rtc \<Rightarrow> int \<times> rtc" where
  "esp_peer_main_loop ret = peer_call ret Peer_main_loop"

definition esp_peer_close :: "rtc_ret \<Rightarrow> rtc \<Rightarrow> int \<times> rtc" where
  "esp_peer_close ret = peer_call ret Peer_close"

definition esp_peer_signaling_send_msg :: "rtc_ret \<Rightarrow> bool \<Rightarrow> u8 list \<Rightarrow> rtc \<Rightarrow> int \<times> rtc" where
  "esp_peer_signaling_send_msg ret custom d s =
     (if signaling s then call_ext ret (Signaling_send custom d) s else (ESP_PEER_ERR_INVALID_ARG, s))"

section \<open>Sending media\<close>

text \<open>
  One pass of \<open>_media_send\<close>: \<open>auds\<close> are the audio frames capture has ready, \<open>vid\<close> the video
  frame, if one is ready; \<open>ret\<close> also gives the code of the application's \<open>on_video_send\<close>.
\<close>

definition send_audio_frame :: "rtc_ret \<Rightarrow> media_frame \<Rightarrow> rtc \<Rightarrow> rtc" where
  "send_audio_frame ret f s =
     (let s1 = snd (esp_peer_send_audio ret f s);
          s2 = note_call (Capture_release STREAM_AUDIO) s1
      in s2\<lparr>aud_send_pts := frame_pts f, aud_send_num := aud_send_num s2 + 1,
            aud_send_size := aud_send_size s2 + frame_size f\<rparr>)"

definition send_video_frame :: "rtc_ret \<Rightarrow> media_frame \<Rightarrow> rtc \<Rightarrow> rtc" where
  "send_video_frame ret f s =
     (let s1 = (if enable_data_channel (rtc_cfg s) \<and> video_over_data_channel (rtc_cfg s)
                then snd (esp_peer_send_data ret False (frame_data f) s)
                else if has_on_video_send (rtc_cfg s) then
                  (case call_ext ret (App_video_send f) s of
                     (r, s') \<Rightarrow> if r \<noteq> 0 then s' else snd (esp_peer_send_video ret f s'))
                else snd (esp_peer_send_video ret f s));
          s2 = note_call (Capture_release STREAM_VIDEO) s1
      in s2\<lparr>vid_send_pts := frame_pts f, vid_send_num := vid_send_num s2 + 1,
            vid_send_size := vid_send_size s2 + frame_size f\<rparr>)"

definition media_send :: "rtc_ret \<Rightarrow> media_frame list \<Rightarrow> media_frame option \<Rightarrow> rtc \<Rightarrow> rtc" where
  "media_send ret auds vid s =
     (let s1 = (if audio_codec (rtc_cfg s) \<noteq> ESP_PEER_AUDIO_CODEC_NONE
                then fold (send_audio_frame ret) auds s else s)
      in if video_codec (rtc_cfg s1) \<noteq> ESP_PEER_VIDEO_CODEC_NONE
         then (case vid of None \<Rightarrow> s1 | Some f \<Rightarrow> send_video_frame ret f s1)
         else s1)"

text \<open>
  One pass of the loop of the send task and of the peer task, and whether the loop goes on. The pass of a
  paused peer task ends when the session sets \<open>PC_RESUME_BIT\<close>.
\<close>

definition media_send_task :: "rtc_ret \<Rightarrow> media_frame list \<Rightarrow> media_frame option \<Rightarrow> rtc \<Rightarrow> bool \<times> rtc" where
  "media_send_task ret auds vid s =
     (if send_going s then (True, media_send ret auds vid s)
      else (False, note_call (Set_bit PC_SEND_QUIT_BIT) s))"

definition pc_task :: "rtc_ret \<Rightarrow> rtc \<Rightarrow> bool \<times> rtc" where
  "pc_task ret s =
     (if running s then
        (True, if pause s then note_call (Wait_bit PC_RESUME_BIT) (note_call (Set_bit PC_PAUSED_BIT) s)
               else snd (esp_peer_main_loop ret s))
      else (False, note_call (Set_bit PC_EXIT_BIT) s))"

definition start_stream :: "rtc_ret \<Rightarrow> rtc \<Rightarrow> int \<times> rtc" where
  "start_stream ret s =
     (case call_ext ret Capture_start s of
        (r, s1) \<Rightarrow>
          if r = 0 then
            (case call_ext ret Create_send_task (s1\<lparr>send_going := True\<rparr>) of
               (r2, s2) \<Rightarrow> (r2, if r2 \<noteq> 0 then s2\<lparr>send_going := False\<rparr> else s2))
          else (r, s1))"

text \<open>\<open>WAIT_FOR_BITS (PC_SEND_QUIT_BIT)\<close> waits for the send task, which sees \<open>send_going\<close> cleared.\<close>

definition stop_stream :: "rtc \<Rightarrow> int \<times> rtc" where
  "stop_stream s =
     (let s1 = (if send_going s then note_call (Wait_bit PC_SEND_QUIT_BIT) (s\<lparr>send_going := False\<rparr>) else s);
          s2 = (if \<not> no_auto_capture s1 then note_call Capture_stop s1 else note_call Capture_sink_disable s1)
      in (0, note_call Render_reset s2))"

section \<open>Callbacks of the peer connection\<close>

text \<open>
  The application's event handler is the argument \<open>app\<close>; it runs in the calling thread and may call
  back into the session.
\<close>

type_synonym app_handler = "rtc_thread \<Rightarrow> webrtc_event \<Rightarrow> rtc \<Rightarrow> int rtc_result"

definition pc_notify_app :: "app_handler \<Rightarrow> rtc_thread \<Rightarrow> webrtc_event \<Rightarrow> rtc \<Rightarrow> int rtc_result" where
  "pc_notify_app app self ev s =
     (if event_handler s then app self ev (note_call (App_event ev) s) else Done 0 s)"

definition data_channel_state :: "peer_state \<Rightarrow> bool" where
  "data_channel_state st \<longleftrightarrow>
     st = ESP_PEER_STATE_DATA_CHANNEL_OPENED \<or> st = ESP_PEER_STATE_DATA_CHANNEL_CLOSED \<or>
     st = ESP_PEER_STATE_DATA_CHANNEL_CONNECTED \<or> st = ESP_PEER_STATE_DATA_CHANNEL_DISCONNECTED"

fun then_ok :: "int rtc_result \<Rightarrow> int rtc_result" where
  "then_ok Deadlock = Deadlock"
| "then_ok (Done r s) = Done 0 s"

definition pc_on_state :: "rtc_ret \<Rightarrow> app_handler \<Rightarrow> rtc_thread \<Rightarrow> peer_state \<Rightarrow> rtc \<Rightarrow> int rtc_result" where
  "pc_on_state ret app self st s =
     (let s1 = (if \<not> data_channel_state st then s\<lparr>peer_state := st\<rparr> else s) in
      then_ok (case st of
        ESP_PEER_STATE_CANDIDATE_GATHERING \<Rightarrow> pc_notify_app app self ESP_WEBRTC_EVENT_CONNECTING s1
      | ESP_PEER_STATE_CONNECTED \<Rightarrow> pc_notify_app app self ESP_WEBRTC_EVENT_CONNECTED (snd (start_stream ret s1))
      | ESP_PEER_STATE_PAIRED \<Rightarrow> pc_notify_app app self ESP_WEBRTC_EVENT_PAIRED s1
      | ESP_PEER_STATE_DISCONNECTED \<Rightarrow> pc_notify_app app self ESP_WEBRTC_EVENT_DISCONNECTED (snd (stop_stream s1))
      | ESP_PEER_STATE_CONNECT_FAILED \<Rightarrow> pc_notify_app app self ESP_WEBRTC_EVENT_CONNECT_FAILED s1
      | ESP_PEER_STATE_DATA_CHANNEL_CONNECTED \<Rightarrow>
          pc_notify_app app self ESP_WEBRTC_EVENT_DATA_CHANNEL_CONNECTED s1
      | ESP_PEER_STATE_DATA_CHANNEL_DISCONNECTED \<Rightarrow>
          pc_notify_app app self ESP_WEBRTC_EVENT_DATA_CHANNEL_DISCONNECTED s1
      | ESP_PEER_STATE_DATA_CHANNEL_OPENED \<Rightarrow> pc_notify_app app self ESP_WEBRTC_EVENT_DATA_CHANNEL_OPENED s1
      | ESP_PEER_STATE_DATA_CHANNEL_CLOSED \<Rightarrow> pc_notify_app app self ESP_WEBRTC_EVENT_DATA_CHANNEL_CLOSED s1
      | _ \<Rightarrow> Done 0 s1))"

definition pc_on_msg :: "rtc_ret \<Rightarrow> u8 list \<Rightarrow> rtc \<Rightarrow> int \<times> rtc" where
  "pc_on_msg ret info s = esp_peer_signaling_send_msg ret False info s"

fun get_video_dec_codec :: "peer_video_codec \<Rightarrow> render_codec" where
  "get_video_dec_codec ESP_PEER_VIDEO_CODEC_H264 = RENDER_H264"
| "get_video_dec_codec ESP_PEER_VIDEO_CODEC_MJPEG = RENDER_MJPEG"
| "get_video_dec_codec ESP_PEER_VIDEO_CODEC_NONE = RENDER_NONE"

text \<open>\<open>convert_dec_vid_info\<close> and the stream it opens; the stream is codec, width, height, fps.\<close>

definition pc_on_video_info :: "peer_video_codec \<Rightarrow> nat \<Rightarrow> nat \<Rightarrow> nat \<Rightarrow> rtc \<Rightarrow> int \<times> rtc" where
  "pc_on_video_info codec w h fps s =
     (0, (note_call (Render_add_video (get_video_dec_codec codec) w h fps) s)\<lparr>recv_vid_codec := codec\<rparr>)"

fun get_dec_codec :: "peer_audio_codec \<Rightarrow> render_codec" where
  "get_dec_codec ESP_PEER_AUDIO_CODEC_G711A = RENDER_G711A"
| "get_dec_codec ESP_PEER_AUDIO_CODEC_G711U = RENDER_G711U"
| "get_dec_codec ESP_PEER_AUDIO_CODEC_OPUS = RENDER_OPUS"
| "get_dec_codec ESP_PEER_AUDIO_CODEC_NONE = RENDER_NONE"

definition convert_dec_aud_info :: "peer_audio_codec \<Rightarrow> nat \<Rightarrow> nat \<Rightarrow> render_codec \<times> nat \<times> nat \<times> nat" where
  "convert_dec_aud_info codec rate channel =
     (if codec = ESP_PEER_AUDIO_CODEC_G711A \<or> codec = ESP_PEER_AUDIO_CODEC_G711U
      then (get_dec_codec codec, 8000, 1, 16)
      else (get_dec_codec codec, rate, channel, 16))"

definition pc_on_audio_info :: "peer_audio_codec \<Rightarrow> nat \<Rightarrow> nat \<Rightarrow> rtc \<Rightarrow> int \<times> rtc" where
  "pc_on_audio_info codec rate channel s =
     (case convert_dec_aud_info codec rate channel of
        (c, r, ch, bits) \<Rightarrow> (0, note_call (Render_add_audio c r ch bits) (s\<lparr>recv_aud_codec := codec\<rparr>)))"

definition pc_on_audio_data :: "media_frame \<Rightarrow> rtc \<Rightarrow> int \<times> rtc" where
  "pc_on_audio_data f s =
     (if \<not> running s \<or> recv_aud_codec s = ESP_PEER_AUDIO_CODEC_NONE then (0, s)
      else (0, note_call (Render_audio_data f)
             (s\<lparr>aud_recv_pts := frame_pts f, aud_recv_num := aud_recv_num s + 1,
                aud_recv_size := aud_recv_size s + frame_size f\<rparr>)))"

definition pc_on_video_data :: "media_frame \<Rightarrow> rtc \<Rightarrow> int \<times> rtc" where
  "pc_on_video_data f s =
     (if \<not> running s then (0, s)
      else (0, note_call (Render_video_data f)
             (s\<lparr>vid_recv_num := vid_recv_num s + 1, vid_recv_size := vid_recv_size s + frame_size f\<rparr>)))"

text \<open>
  A frame from the data channel. Only the codec of the received stream is ever stored, so that the
  stream opened on the fly has size and rate 0.
\<close>

definition pc_on_data :: "media_frame \<Rightarrow> rtc \<Rightarrow> int \<times> rtc" where
  "pc_on_data f s =
     (if \<not> video_over_data_channel (rtc_cfg s) then
        (let s1 = (if has_on_data (rtc_cfg s) then note_call (App_data (frame_data f)) s else s)
         in (0, if has_on_custom_data (rtc_cfg s)
                then note_call (App_custom_data CUSTOM_VIA_DATA_CHANNEL (frame_data f)) s1 else s1))
      else
        (let s1 = s\<lparr>vid_recv_num := vid_recv_num s + 1, vid_recv_size := vid_recv_size s + frame_size f\<rparr>;
             s2 = (if recv_vid_codec s1 = ESP_PEER_VIDEO_CODEC_NONE
                   then note_call (Render_add_video (get_video_dec_codec (video_codec (rtc_cfg s1))) 0 0 0)
                          (s1\<lparr>recv_vid_codec := video_codec (rtc_cfg s1)\<rparr>)
                   else s1)
         in (0, note_call (Render_video_data (f\<lparr>frame_pts := 0\<rparr>)) s2)))"

definition pc_on_channel_open :: "rtc_ret \<Rightarrow> rtc \<Rightarrow> int \<times> rtc" where
  "pc_on_channel_open ret s =
     (if has_on_channel_open (rtc_cfg s) then call_ext ret App_channel_open s else (0, s))"

definition pc_on_channel_close :: "rtc_ret \<Rightarrow> rtc \<Rightarrow> int \<times> rtc" where
  "pc_on_channel_close ret s =
     (if has_on_channel_close (rtc_cfg s) then call_ext ret App_channel_close s else (0, s))"

section \<open>Server lists\<close>

text \<open>\<open>dup k\<close>: whether the \<open>k\<close>-th \<open>strdup\<close> succeeds. A server without URL is refused.\<close>

fun dup_string :: "(nat \<Rightarrow> bool) \<Rightarrow> nat \<Rightarrow> string option \<Rightarrow> (string option \<times> nat) option" where
  "dup_string dup k None = Some (None, k)"
| "dup_string dup k (Some x) = (if dup k then Some (Some x, k + 1) else None)"

fun dup_servers :: "(nat \<Rightarrow> bool) \<Rightarrow> nat \<Rightarrow> ice_server list \<Rightarrow> ice_server list option" where
  "dup_servers dup k [] = Some []"
| "dup_servers dup k (c # cs) =
     (case stun_url c of
        None \<Rightarrow> None
      | Some u \<Rightarrow> do {
          (url, k1) \<leftarrow> dup_string dup k (Some u);
          (usr, k2) \<leftarrow> dup_string dup k1 (server_user c);
          (psw, k3) \<leftarrow> dup_string dup k2 (server_psw c);
          rest \<leftarrow> dup_servers dup k3 cs;
          Some (\<lparr>stun_url = url, server_user = usr, server_psw = psw\<rparr> # rest)
        })"

definition set_servers :: "ice_server list option \<Rightarrow> nat \<Rightarrow> rtc \<Rightarrow> rtc" where
  "set_servers l n s = s\<lparr>rtc_cfg := (rtc_cfg s)\<lparr>server_lists := l, server_num := n\<rparr>\<rparr>"

definition free_server_cfg :: "rtc \<Rightarrow> rtc" where
  "free_server_cfg s = (if server_lists (rtc_cfg s) = None then s else set_servers None 0 s)"

definition malloc_server_cfg :: "bool \<Rightarrow> (nat \<Rightarrow> bool) \<Rightarrow> ice_server list \<Rightarrow> rtc \<Rightarrow> int \<times> rtc" where
  "malloc_server_cfg calloc_ok dup cfg s =
     (if cfg = [] then (0, s)
      else if server_num (rtc_cfg s) \<noteq> 0 then (ESP_PEER_ERR_WRONG_STATE, s)
      else if \<not> calloc_ok then (ESP_PEER_ERR_NO_MEM, set_servers None (server_num (rtc_cfg s)) s)
      else case dup_servers dup 0 cfg of
             Some l \<Rightarrow> (0, set_servers (Some l) (length cfg) s)
           | None \<Rightarrow> (ESP_PEER_ERR_INVALID_ARG,
               free_server_cfg (set_servers (Some (map (\<lambda>c. \<lparr>stun_url = None, server_user = None,
                  server_psw = None\<rparr>) cfg)) (length cfg) s)))"

section \<open>Peer connection\<close>

fun get_capture_audio_codec :: "peer_audio_codec \<Rightarrow> capture_codec" where
  "get_capture_audio_codec ESP_PEER_AUDIO_CODEC_G711A = CAPTURE_G711A"
| "get_capture_audio_codec ESP_PEER_AUDIO_CODEC_G711U = CAPTURE_G711U"
| "get_capture_audio_codec ESP_PEER_AUDIO_CODEC_OPUS = CAPTURE_OPUS"
| "get_capture_audio_codec ESP_PEER_AUDIO_CODEC_NONE = CAPTURE_NONE"

fun get_capture_video_codec :: "peer_video_codec \<Rightarrow> capture_codec" where
  "get_capture_video_codec ESP_PEER_VIDEO_CODEC_H264 = CAPTURE_H264"
| "get_capture_video_codec ESP_PEER_VIDEO_CODEC_MJPEG = CAPTURE_MJPEG"
| "get_capture_video_codec ESP_PEER_VIDEO_CODEC_NONE = CAPTURE_NONE"

definition destroy_wait_event :: "rtc \<Rightarrow> rtc" where
  "destroy_wait_event s = (if wait_event s then note_call Event_destroy (s\<lparr>wait_event := False\<rparr>) else s)"

text \<open>Waiting for \<open>PC_EXIT_BIT\<close> in the peer task waits for itself.\<close>

definition pc_close :: "rtc_ret \<Rightarrow> rtc_thread \<Rightarrow> rtc \<Rightarrow> int rtc_result" where
  "pc_close ret self s =
     (if pc s then
        (let s1 = snd (esp_peer_disconnect ret s);
             still_running = running s1;
             s2 = (if pause s1 then note_call (Set_bit PC_RESUME_BIT) (s1\<lparr>pause := False\<rparr>) else s1);
             s3 = s2\<lparr>running := False\<rparr>
         in if still_running \<and> self = Pc_task then Deadlock
            else (let s4 = (if still_running then note_call (Wait_bit PC_EXIT_BIT) s3 else s3);
                      s5 = (snd (esp_peer_close ret s4))\<lparr>pc := False\<rparr>
                  in Done 0 (destroy_wait_event s5)))
      else Done 0 (destroy_wait_event s))"

definition pc_apply_capture_pre_setting :: "rtc_ret \<Rightarrow> bool \<Rightarrow> bool \<Rightarrow> rtc \<Rightarrow> int \<times> rtc" where
  "pc_apply_capture_pre_setting ret audio video s =
     (if \<not> capture_path s then (0, s)
      else (let (r1, s1) = (if pre_audio_set s \<and> audio
                            then call_ext ret (Capture_set_bitrate STREAM_AUDIO (pre_audio_bitrate s)) s else (0, s));
                (r2, s2) = (if pre_video_set s1 \<and> video
                            then call_ext ret (Capture_set_bitrate STREAM_VIDEO (pre_video_bitrate s1)) s1 else (0, s1))
            in (r1 OR r2, s2)))"

text \<open>
  \<open>event_ok\<close>: whether the event group could be created. The sink that is set up, with the defaults
  for rate and channel and no stream for a receive-only direction:
\<close>

definition sink_of :: "session_cfg \<Rightarrow> sink_cfg" where
  "sink_of c = \<lparr>
     sink_audio = (if audio_dir c = DIR_RECV_ONLY then CAPTURE_NONE else get_capture_audio_codec (audio_codec c)),
     sink_rate = (if audio_rate c \<noteq> 0 then audio_rate c else 8000),
     sink_channel = (if audio_channel c \<noteq> 0 then audio_channel c else 1),
     sink_video = (if video_dir c = DIR_RECV_ONLY then CAPTURE_NONE else get_capture_video_codec (video_codec c)),
     sink_width = video_width c, sink_height = video_height c, sink_fps = video_fps c\<rparr>"

definition pc_start :: "rtc_ret \<Rightarrow> bool \<Rightarrow> ice_server list \<Rightarrow> rtc \<Rightarrow> int \<times> rtc" where
  "pc_start ret event_ok servers s =
     (if pc s then esp_peer_update_ice_info ret (ice_role s) servers s
      else (let c = rtc_cfg s;
                (r, s1) = call_ext ret (Peer_open (ice_role s) servers
                            (\<not> enable_data_channel c \<or> \<not> video_over_data_channel c)) s
            in if r \<noteq> 0 then (r, s1)
               else (let s2 = note_call Event_create (s1\<lparr>pc := True, wait_event := event_ok\<rparr>)
                     in if \<not> event_ok then (ESP_PEER_ERR_NO_MEM, s2)
                        else (let s3 = note_call Create_pc_task (s2\<lparr>running := True\<rparr>);
                                  s4 = s3\<lparr>play_handle := (if audio_dir c = DIR_SEND_ONLY then False
                                                          else player_set s3)\<rparr>;
                                  (r5, s5) = call_ext ret (Capture_sink_setup (sink_of c)) s4;
                                  s6 = (if r5 = 0 then s5\<lparr>capture_path := True\<rparr> else s5);
                                  s7 = snd (pc_apply_capture_pre_setting ret True True s6)
                              in (r, note_call Capture_sink_always s7)))))"

definition start_peer_connection :: "rtc_ret \<Rightarrow> bool \<Rightarrow> ice_info \<Rightarrow> rtc \<Rightarrow> int \<times> rtc" where
  "start_peer_connection ret event_ok info s =
     (let s1 = s\<lparr>ice_role := (if info_initiator info then ESP_PEER_ROLE_CONTROLLING else ESP_PEER_ROLE_CONTROLLED)\<rparr>
      in if stun_url (info_server info) \<noteq> None then pc_start ret event_ok [info_server info] s1
         else pc_start ret event_ok (case server_lists (rtc_cfg s1) of None \<Rightarrow> [] | Some l \<Rightarrow> l) s1)"

section \<open>Callbacks of the signaling\<close>

definition signal_ice_received :: "rtc_ret \<Rightarrow> bool \<Rightarrow> ice_info \<Rightarrow> rtc \<Rightarrow> int \<times> rtc" where
  "signal_ice_received ret event_ok info s =
     (let s1 = s\<lparr>ice_info_loaded := True, loaded_ice := info\<rparr>
      in if pending_connect s1 then (0, s1) else start_peer_connection ret event_ok info s1)"

definition signal_connected :: "rtc_ret \<Rightarrow> rtc \<Rightarrow> int \<times> rtc" where
  "signal_connected ret s =
     (let s1 = s\<lparr>signaling_connected := True\<rparr>
      in if no_auto_reconnect (rtc_cfg s1) \<and> pending_connect s1 then (0, s1)
         else (0, if pc s1 then snd (esp_peer_new_connection ret s1) else s1))"

definition resume_loop :: "rtc \<Rightarrow> rtc" where
  "resume_loop s = (if pause s then note_call (Set_bit PC_RESUME_BIT) (s\<lparr>pause := False\<rparr>) else s)"

text \<open>\<open>STR_SAME (sdp, "candidate:")\<close> on the message bytes.\<close>

definition is_candidate :: "u8 list \<Rightarrow> bool" where
  "is_candidate d = (take 10 d = [99, 97, 110, 100, 105, 100, 97, 116, 101, 58])"

definition signal_new_msg :: "rtc_ret \<Rightarrow> rtc_thread \<Rightarrow> signal_msg_type \<Rightarrow> u8 list \<Rightarrow> rtc \<Rightarrow> int rtc_result" where
  "signal_new_msg ret self ty d s =
     (if ty = SIG_BYE then
        (if \<not> running s then Done 0 s
         else if \<not> pause s \<and> self = Pc_task then Deadlock
         else (let s1 = (if \<not> pause s then note_call (Wait_bit PC_PAUSED_BIT) (s\<lparr>pause := True\<rparr>) else s);
                   s2 = snd (esp_peer_disconnect ret s1);
                   s3 = snd (stop_stream (s2\<lparr>recv_vid_codec := ESP_PEER_VIDEO_CODEC_NONE\<rparr>))
               in if \<not> no_auto_reconnect (rtc_cfg s3)
                  then (case esp_peer_new_connection ret s3 of (r, s4) \<Rightarrow> Done r (resume_loop s4))
                  else Done 0 s3))
      else if ty = SIG_CUSTOMIZED then
        (if has_on_custom_data (rtc_cfg s)
         then (case call_ext ret (App_custom_data CUSTOM_VIA_SIGNALING d) s of (r, s1) \<Rightarrow> Done r s1)
         else Done 0 s)
      else (case esp_peer_send_msg ret (if is_candidate d then SIG_CANDIDATE else ty) d s of (r, s1) \<Rightarrow> Done r s1))"

definition signal_closed :: "rtc_ret \<Rightarrow> rtc \<Rightarrow> int \<times> rtc" where
  "signal_closed ret s = (0, snd (esp_peer_disconnect ret (s\<lparr>signaling_connected := False\<rparr>)))"

section \<open>The interface\<close>

text \<open>The session a zeroing \<open>calloc\<close> yields, with the configuration stored.\<close>

definition fresh_rtc :: "session_cfg \<Rightarrow> rtc" where
  "fresh_rtc c = \<lparr>rtc_cfg = c\<lparr>server_lists := None, server_num := 0\<rparr>, pc = False, signaling = False,
     peer_state = ESP_PEER_STATE_CLOSED, running = False, pause = False, wait_event = False,
     event_handler = False, ice_role = ESP_PEER_ROLE_CONTROLLING, send_going = False, capture_set = False,
     player_set = False, capture_path = False, play_handle = False,
     recv_aud_codec = ESP_PEER_AUDIO_CODEC_NONE, recv_vid_codec = ESP_PEER_VIDEO_CODEC_NONE,
     pending_connect = False,
     loaded_ice = \<lparr>info_server = \<lparr>stun_url = None, server_user = None, server_psw = None\<rparr>, info_initiator = False\<rparr>,
     ice_info_loaded = False, signaling_connected = False, no_auto_capture = False,
     pre_audio_bitrate = 0, pre_video_bitrate = 0, pre_audio_set = False, pre_video_set = False,
     vid_send_pts = 0, aud_send_pts = 0, aud_recv_pts = 0, vid_send_size = 0, aud_send_size = 0,
     aud_recv_size = 0, vid_recv_size = 0, aud_send_num = 0, vid_send_num = 0, aud_recv_num = 0,
     vid_recv_num = 0, rtc_calls = []\<rparr>"

text \<open>\<open>impls_ok\<close>: configuration, signaling and peer implementation are all given.\<close>

definition esp_webrtc_open ::
  "bool \<Rightarrow> bool \<Rightarrow> bool \<Rightarrow> (nat \<Rightarrow> bool) \<Rightarrow> session_cfg \<Rightarrow> int \<times> rtc option" where
  "esp_webrtc_open impls_ok alloc_ok lists_ok dup c =
     (if \<not> impls_ok then (ESP_PEER_ERR_INVALID_ARG, None)
      else if \<not> alloc_ok then (ESP_PEER_ERR_NO_MEM, None)
      else (0, Some (snd (malloc_server_cfg lists_ok dup
                       (case server_lists c of None \<Rightarrow> [] | Some l \<Rightarrow> l) (fresh_rtc c)))))"

definition esp_webrtc_enable_peer_connection ::
  "rtc_ret \<Rightarrow> bool \<Rightarrow> rtc_thread \<Rightarrow> bool \<Rightarrow> rtc \<Rightarrow> int rtc_result" where
  "esp_webrtc_enable_peer_connection ret event_ok self en s =
     (let s1 = s\<lparr>pending_connect := \<not> en\<rparr> in
      if \<not> pending_connect s1 then
        (if \<not> pc s1 \<and> \<not> ice_info_loaded s1 then Done 0 s1
         else (let (r, s2) = (if \<not> pc s1 then start_peer_connection ret event_ok (loaded_ice s1) s1 else (0, s1))
               in if r \<noteq> 0 then Done r s2
                  else if signaling_connected s2
                  then (case esp_peer_new_connection ret s2 of (r3, s3) \<Rightarrow> Done r3 (resume_loop s3))
                  else Done r s2))
      else pc_close ret self (snd (stop_stream (s1\<lparr>recv_vid_codec := ESP_PEER_VIDEO_CODEC_NONE\<rparr>))))"

definition esp_webrtc_set_event_handler :: "bool \<Rightarrow> rtc \<Rightarrow> int \<times> rtc" where
  "esp_webrtc_set_event_handler handler s =
     (if \<not> handler then (ESP_PEER_ERR_INVALID_ARG, s) else (0, s\<lparr>event_handler := True\<rparr>))"

definition esp_webrtc_set_media_provider :: "bool \<Rightarrow> bool \<Rightarrow> rtc \<Rightarrow> int \<times> rtc" where
  "esp_webrtc_set_media_provider capture player s =
     (if \<not> capture then (ESP_PEER_ERR_INVALID_ARG, s)
      else (0, s\<lparr>capture_set := True, player_set := player, play_handle := player\<rparr>))"

definition esp_webrtc_set_no_auto_capture :: "bool \<Rightarrow> rtc \<Rightarrow> int \<times> rtc" where
  "esp_webrtc_set_no_auto_capture b s = (0, s\<lparr>no_auto_capture := b\<rparr>)"

definition esp_webrtc_set_audio_bitrate :: "rtc_ret \<Rightarrow> u32 \<Rightarrow> rtc \<Rightarrow> int \<times> rtc" where
  "esp_webrtc_set_audio_bitrate ret b s =
     pc_apply_capture_pre_setting ret True False (s\<lparr>pre_audio_bitrate := b, pre_audio_set := True\<rparr>)"

definition esp_webrtc_set_video_bitrate :: "rtc_ret \<Rightarrow> u32 \<Rightarrow> rtc \<Rightarrow> int \<times> rtc" where
  "esp_webrtc_set_video_bitrate ret b s =
     pc_apply_capture_pre_setting ret False True (s\<lparr>pre_video_bitrate := b, pre_video_set := True\<rparr>)"

definition esp_webrtc_start :: "rtc_ret \<Rightarrow> rtc \<Rightarrow> int \<times> rtc" where
  "esp_webrtc_start ret s =
     (if signaling s then (ESP_PEER_ERR_WRONG_STATE, s)
      else (case call_ext ret Signaling_start s of
              (r, s1) \<Rightarrow> (r, if r = 0 then s1\<lparr>signaling := True\<rparr> else s1)))"

definition esp_webrtc_send_custom_data :: "rtc_ret \<Rightarrow> custom_via \<Rightarrow> u8 list \<Rightarrow> rtc \<Rightarrow> int \<times> rtc" where
  "esp_webrtc_send_custom_data ret via d s =
     (case via of
        CUSTOM_VIA_SIGNALING \<Rightarrow> esp_peer_signaling_send_msg ret True d s
      | CUSTOM_VIA_DATA_CHANNEL \<Rightarrow> esp_peer_send_data ret True d s
      | CUSTOM_VIA_NONE \<Rightarrow> (ESP_PEER_ERR_INVALID_ARG, s))"

definition esp_webrtc_get_peer_connection :: "rtc \<Rightarrow> int" where
  "esp_webrtc_get_peer_connection s = (if pc s then 0 else ESP_PEER_ERR_WRONG_STATE)"

definition esp_webrtc_restart :: "rtc \<Rightarrow> int \<times> rtc" where
  "esp_webrtc_restart s = (0, s)"

definition esp_webrtc_query :: "rtc_ret \<Rightarrow> rtc \<Rightarrow> int \<times> rtc" where
  "esp_webrtc_query ret s =
     (if peer_state s \<noteq> ESP_PEER_STATE_CONNECTED then (ESP_PEER_ERR_WRONG_STATE, s)
      else (0, (snd (esp_peer_query ret s))\<lparr>vid_send_num := 0, aud_send_num := 0, aud_send_size := 0,
             vid_send_size := 0, aud_recv_num := 0, aud_recv_size := 0, vid_recv_num := 0, vid_recv_size := 0\<rparr>))"

definition esp_webrtc_stop :: "rtc_ret \<Rightarrow> rtc_thread \<Rightarrow> rtc \<Rightarrow> int rtc_result" where
  "esp_webrtc_stop ret self s =
     (case pc_close ret self (snd (stop_stream s)) of
        Deadlock \<Rightarrow> Deadlock
      | Done r s1 \<Rightarrow> Done 0 (if signaling s1
                              then note_call Signaling_stop (s1\<lparr>signaling := False\<rparr>) else s1))"

definition esp_webrtc_close :: "rtc_ret \<Rightarrow> rtc_thread \<Rightarrow> rtc \<Rightarrow> int rtc_result" where
  "esp_webrtc_close ret self s =
     (case esp_webrtc_stop ret self s of
        Deadlock \<Rightarrow> Deadlock
      | Done r s1 \<Rightarrow> Done 0 (note_call Free_rtc (free_server_cfg s1)))"

section \<open>Frames\<close>

text \<open>The part of a session that decides about threads and resources.\<close>

definition core :: "rtc \<Rightarrow> bool \<times> bool \<times> bool \<times> bool \<times> bool \<times> bool" where
  "core s = (pc s, running s, pause s, wait_event s, send_going s, signaling s)"

definition tasks_joined :: "rtc \<Rightarrow> bool" where
  "tasks_joined s \<longleftrightarrow> count_list (rtc_calls s) Create_pc_task =
     count_list (rtc_calls s) (Wait_bit PC_EXIT_BIT) + (if running s then 1 else 0)"

definition rtc_inv :: "rtc \<Rightarrow> bool" where
  "rtc_inv s \<longleftrightarrow> (running s \<longrightarrow> pc s \<and> wait_event s) \<and> (wait_event s \<longrightarrow> pc s) \<and> (pause s \<longrightarrow> running s) \<and>
     tasks_joined s"

text \<open>A call that neither creates nor joins the peer task.\<close>

definition quiet :: "rtc_call \<Rightarrow> bool" where
  "quiet c \<longleftrightarrow> c \<noteq> Create_pc_task \<and> c \<noteq> Wait_bit PC_EXIT_BIT"

lemma note_call_sel [simp]:
  "rtc_cfg (note_call c s) = rtc_cfg s" "pc (note_call c s) = pc s" "signaling (note_call c s) = signaling s"
  "peer_state (note_call c s) = peer_state s" "running (note_call c s) = running s" "pause (note_call c s) = pause s"
  "wait_event (note_call c s) = wait_event s" "event_handler (note_call c s) = event_handler s"
  "send_going (note_call c s) = send_going s" "capture_path (note_call c s) = capture_path s"
  "play_handle (note_call c s) = play_handle s" "player_set (note_call c s) = player_set s"
  "recv_aud_codec (note_call c s) = recv_aud_codec s" "recv_vid_codec (note_call c s) = recv_vid_codec s"
  "pending_connect (note_call c s) = pending_connect s" "loaded_ice (note_call c s) = loaded_ice s"
  "ice_info_loaded (note_call c s) = ice_info_loaded s" "ice_role (note_call c s) = ice_role s"
  "signaling_connected (note_call c s) = signaling_connected s" "no_auto_capture (note_call c s) = no_auto_capture s"
  "pre_audio_bitrate (note_call c s) = pre_audio_bitrate s" "pre_video_bitrate (note_call c s) = pre_video_bitrate s"
  "pre_audio_set (note_call c s) = pre_audio_set s" "pre_video_set (note_call c s) = pre_video_set s"
  "rtc_calls (note_call c s) = rtc_calls s @ [c]" "core (note_call c s) = core s"
  "aud_send_num (note_call c s) = aud_send_num s" "vid_send_num (note_call c s) = vid_send_num s"
  "aud_send_size (note_call c s) = aud_send_size s" "vid_send_size (note_call c s) = vid_send_size s"
  by (simp_all add: note_call_def core_def)

lemma snd_call_ext [simp]: "snd (call_ext ret c s) = note_call c s"
  by (simp add: call_ext_def)

lemma snd_peer_call: "snd (peer_call ret c s) = (if pc s then note_call c s else s)"
  by (simp add: peer_call_def)

lemma count_list_snoc [simp]: "count_list (xs @ [c]) d = count_list xs d + (if c = d then 1 else 0)"
  by simp

lemma inv_note [simp]: "quiet c \<Longrightarrow> rtc_inv (note_call c s) = rtc_inv s"
  by (auto simp: rtc_inv_def tasks_joined_def quiet_def)

lemma inv_peer_call [simp]: "quiet c \<Longrightarrow> rtc_inv (snd (peer_call ret c s)) = rtc_inv s"
  by (simp add: snd_peer_call)

lemma quiet_simps [simp]:
  "quiet Capture_start" "quiet Capture_stop" "quiet (Capture_sink_setup sc)" "quiet Capture_sink_always"
  "quiet Capture_sink_disable" "quiet (Capture_set_bitrate t br)" "quiet (Capture_release t)" "quiet Render_reset"
  "quiet (Render_add_video k w h fps)" "quiet (Render_add_audio k r ch bits)" "quiet (Render_audio_data f)"
  "quiet (Render_video_data f)" "quiet (Peer_open role l v)" "quiet Peer_close" "quiet Peer_disconnect"
  "quiet Peer_new_connection" "quiet (Peer_update_ice role l)" "quiet (Peer_send_msg ty d)"
  "quiet (Peer_send_audio f)" "quiet (Peer_send_video f)" "quiet (Peer_send_data st d)" "quiet Peer_query" "quiet Peer_main_loop" "quiet (Wait_bit PC_RESUME_BIT)"
  "quiet Signaling_start" "quiet Signaling_stop" "quiet (Signaling_send cu d)" "quiet Create_send_task"
  "quiet Event_create" "quiet Event_destroy" "quiet (Set_bit b')" "quiet (Wait_bit PC_PAUSED_BIT)"
  "quiet (Wait_bit PC_SEND_QUIT_BIT)" "quiet (App_event ev)" "quiet (App_custom_data via d)" "quiet (App_data d)"
  "quiet App_channel_open" "quiet App_channel_close" "quiet (App_video_send f)" "quiet Free_rtc"
  by (simp_all add: quiet_def)

lemma inv_fields [simp]:
  "rtc_inv (s\<lparr>peer_state := p\<rparr>) = rtc_inv s" "rtc_inv (s\<lparr>send_going := g\<rparr>) = rtc_inv s"
  "rtc_inv (s\<lparr>recv_aud_codec := ac\<rparr>) = rtc_inv s" "rtc_inv (s\<lparr>recv_vid_codec := vc\<rparr>) = rtc_inv s"
  "rtc_inv (s\<lparr>pending_connect := g\<rparr>) = rtc_inv s" "rtc_inv (s\<lparr>ice_role := r\<rparr>) = rtc_inv s"
  "rtc_inv (s\<lparr>ice_info_loaded := g, loaded_ice := i\<rparr>) = rtc_inv s"
  "rtc_inv (s\<lparr>signaling_connected := g\<rparr>) = rtc_inv s" "rtc_inv (s\<lparr>signaling := g\<rparr>) = rtc_inv s"
  "rtc_inv (s\<lparr>capture_path := g\<rparr>) = rtc_inv s" "rtc_inv (s\<lparr>play_handle := g\<rparr>) = rtc_inv s"
  "rtc_inv (s\<lparr>rtc_cfg := c\<rparr>) = rtc_inv s"
  "rtc_inv (s\<lparr>pre_audio_bitrate := b, pre_audio_set := g\<rparr>) = rtc_inv s"
  "rtc_inv (s\<lparr>pre_video_bitrate := b, pre_video_set := g\<rparr>) = rtc_inv s"
  "rtc_inv (s\<lparr>aud_send_pts := b, aud_send_num := n, aud_send_size := b2\<rparr>) = rtc_inv s"
  "rtc_inv (s\<lparr>vid_send_pts := b, vid_send_num := n, vid_send_size := b2\<rparr>) = rtc_inv s"
  "rtc_inv (s\<lparr>aud_recv_pts := b, aud_recv_num := n, aud_recv_size := b2\<rparr>) = rtc_inv s"
  "rtc_inv (s\<lparr>vid_recv_num := n, vid_recv_size := b2\<rparr>) = rtc_inv s"
  by (simp_all add: rtc_inv_def tasks_joined_def)

lemmas peer_calls = esp_peer_new_connection_def esp_peer_update_ice_info_def esp_peer_send_msg_def
  esp_peer_send_video_def esp_peer_send_audio_def esp_peer_send_data_def esp_peer_disconnect_def esp_peer_close_def
  esp_peer_main_loop_def

lemma signaling_send_inv [simp]: "rtc_inv (snd (esp_peer_signaling_send_msg ret cu d s)) = rtc_inv s"
  by (simp add: esp_peer_signaling_send_msg_def)

lemma query_inv: "rtc_inv s \<Longrightarrow> rtc_inv (snd (esp_webrtc_query ret s))"
proof -
  have "rtc_inv (t\<lparr>vid_send_num := 0, aud_send_num := 0, aud_send_size := 0, vid_send_size := 0, aud_recv_num := 0,
      aud_recv_size := 0, vid_recv_num := 0, vid_recv_size := 0\<rparr>) = rtc_inv t" for t
    by (simp add: rtc_inv_def tasks_joined_def)
  moreover have "rtc_inv (snd (esp_peer_query ret s)) = rtc_inv s"
    by (simp add: esp_peer_query_def split: prod.split) (metis inv_peer_call quiet_simps(22) snd_conv)
  ultimately show "rtc_inv s \<Longrightarrow> rtc_inv (snd (esp_webrtc_query ret s))"
    by (simp add: esp_webrtc_query_def)
qed

lemma send_audio_inv [simp]: "rtc_inv (send_audio_frame ret f s) = rtc_inv s"
  by (simp add: send_audio_frame_def peer_calls Let_def)

lemma send_video_inv [simp]: "rtc_inv (send_video_frame ret f s) = rtc_inv s"
  by (simp add: send_video_frame_def peer_calls call_ext_def Let_def)

lemma fold_send_audio_inv [simp]: "rtc_inv (fold (send_audio_frame ret) fs s) = rtc_inv s"
  by (induction fs arbitrary: s) simp_all

lemma media_send_inv [simp]: "rtc_inv (media_send ret auds vid s) = rtc_inv s"
  by (simp add: media_send_def Let_def split: option.split)

lemma task_inv [simp]:
  "rtc_inv (snd (media_send_task ret auds vid s)) = rtc_inv s" "rtc_inv (snd (pc_task ret s)) = rtc_inv s"
  by (simp_all add: media_send_task_def pc_task_def peer_calls)

lemma start_stream_inv [simp]: "rtc_inv (snd (start_stream ret s)) = rtc_inv s"
  by (simp add: start_stream_def call_ext_def)

lemma stop_stream_inv [simp]: "rtc_inv (snd (stop_stream s)) = rtc_inv s"
  by (simp add: stop_stream_def Let_def)

lemma stop_stream_sel [simp]:
  "pc (snd (stop_stream s)) = pc s" "running (snd (stop_stream s)) = running s" "pause (snd (stop_stream s)) = pause s"
  "wait_event (snd (stop_stream s)) = wait_event s" "send_going (snd (stop_stream s)) = False"
  "rtc_cfg (snd (stop_stream s)) = rtc_cfg s" "signaling (snd (stop_stream s)) = signaling s"
  "event_handler (snd (stop_stream s)) = event_handler s"
  by (simp_all add: stop_stream_def Let_def)

lemma pre_setting_inv [simp]: "rtc_inv (snd (pc_apply_capture_pre_setting ret a v s)) = rtc_inv s"
  by (simp add: pc_apply_capture_pre_setting_def call_ext_def)

section \<open>The session keeps its invariant\<close>

lemma resume_inv [simp]: "rtc_inv s \<Longrightarrow> rtc_inv (resume_loop s)"
  by (auto simp: resume_loop_def rtc_inv_def tasks_joined_def)

lemma peer_open_inv:
  assumes "rtc_inv s" "\<not> pc s"
  shows "rtc_inv (s\<lparr>pc := True, wait_event := e'\<rparr>)"
    and "e \<Longrightarrow> rtc_inv (note_call Create_pc_task
      ((note_call Event_create (s\<lparr>pc := True, wait_event := e\<rparr>))\<lparr>running := True\<rparr>))"
  using assms by (auto simp: rtc_inv_def tasks_joined_def)

lemma pc_start_inv: "rtc_inv s \<Longrightarrow> rtc_inv (snd (pc_start ret e servers s))"
proof -
  assume i: "rtc_inv s"
  show ?thesis
  proof (cases "pc s")
    case True
    with i show ?thesis by (simp add: pc_start_def peer_calls)
  next
    case False
    let ?s1 = "note_call (Peer_open (ice_role s) servers
       (\<not> enable_data_channel (rtc_cfg s) \<or> \<not> video_over_data_channel (rtc_cfg s))) s"
    have 1: "rtc_inv ?s1" "\<not> pc ?s1" using i False by simp_all
    note p = peer_open_inv [OF 1]
    show ?thesis using False 1 p(1) [of False] p(2) [of True]
      by (cases e) (simp_all add: pc_start_def call_ext_def Let_def)
  qed
qed

lemma start_peer_connection_inv: "rtc_inv s \<Longrightarrow> rtc_inv (snd (start_peer_connection ret e info s))"
  by (simp add: start_peer_connection_def pc_start_inv Let_def)

lemma destroy_wait_event_inv: "tasks_joined s \<Longrightarrow> \<not> pc s \<Longrightarrow> \<not> running s \<Longrightarrow> \<not> pause s \<Longrightarrow>
    rtc_inv (destroy_wait_event s) \<and> \<not> wait_event (destroy_wait_event s)"
  by (auto simp: destroy_wait_event_def rtc_inv_def tasks_joined_def)

lemma destroy_wait_event_sel [simp]:
  "pc (destroy_wait_event s) = pc s" "running (destroy_wait_event s) = running s"
  "pause (destroy_wait_event s) = pause s" "send_going (destroy_wait_event s) = send_going s"
  "signaling (destroy_wait_event s) = signaling s" "rtc_cfg (destroy_wait_event s) = rtc_cfg s"
  by (simp_all add: destroy_wait_event_def)

text \<open>Closing from any thread but the peer task.\<close>

lemma pc_close_other:
  assumes "rtc_inv s"
  shows "\<exists>s'. pc_close ret Other_thread s = Done 0 s' \<and> rtc_inv s' \<and> \<not> pc s' \<and> \<not> running s' \<and> \<not> pause s' \<and>
    \<not> wait_event s' \<and> send_going s' = send_going s \<and> signaling s' = signaling s \<and> rtc_cfg s' = rtc_cfg s"
proof (cases "pc s")
  case False
  with assms have r: "\<not> running s" "\<not> pause s" "\<not> wait_event s" "tasks_joined s"
    by (auto simp: rtc_inv_def)
  with False assms show ?thesis by (simp add: pc_close_def destroy_wait_event_def)
next
  case True
  define s1 where "s1 = snd (esp_peer_disconnect ret s)"
  define s2 where "s2 = (if pause s1 then note_call (Set_bit PC_RESUME_BIT) (s1\<lparr>pause := False\<rparr>) else s1)"
  define s3 where "s3 = s2\<lparr>running := False\<rparr>"
  define s4 where "s4 = (if running s1 then note_call (Wait_bit PC_EXIT_BIT) s3 else s3)"
  define s5 where "s5 = (snd (esp_peer_close ret s4))\<lparr>pc := False\<rparr>"
  have 1: "tasks_joined s1" "running s1 = running s" "pc s1" "send_going s1 = send_going s" "signaling s1 = signaling s"
    "rtc_cfg s1 = rtc_cfg s"
    using assms True by (auto simp: s1_def esp_peer_disconnect_def peer_call_def rtc_inv_def tasks_joined_def)
  have 2: "tasks_joined s2" "\<not> pause s2" "running s2 = running s1" "pc s2" "send_going s2 = send_going s"
    "signaling s2 = signaling s" "rtc_cfg s2 = rtc_cfg s"
    using 1 by (auto simp: s2_def tasks_joined_def)
  have 4: "tasks_joined s4" "\<not> pause s4" "\<not> running s4" "pc s4" "send_going s4 = send_going s"
    "signaling s4 = signaling s" "rtc_cfg s4 = rtc_cfg s"
    using 1 2 by (auto simp: s4_def s3_def tasks_joined_def)
  have 5: "tasks_joined s5" "\<not> pause s5" "\<not> running s5" "\<not> pc s5" "send_going s5 = send_going s"
    "signaling s5 = signaling s" "rtc_cfg s5 = rtc_cfg s"
    using 4 by (auto simp: s5_def esp_peer_close_def peer_call_def tasks_joined_def)
  have "pc_close ret Other_thread s = Done 0 (destroy_wait_event s5)"
    using True by (simp add: pc_close_def s5_def s4_def s3_def s2_def s1_def Let_def)
  with destroy_wait_event_inv [OF 5(1,4,3,2)] 5 show ?thesis by simp
qed

text \<open>Closing from the peer task while it runs.\<close>

lemma pc_close_self: "pc s \<Longrightarrow> running s \<Longrightarrow> pc_close ret Pc_task s = Deadlock"
  by (simp add: pc_close_def esp_peer_disconnect_def peer_call_def call_ext_def Let_def)

lemma enable_other:
  assumes "rtc_inv s"
  shows "\<exists>r s'. esp_webrtc_enable_peer_connection ret e Other_thread en s = Done r s' \<and> rtc_inv s'"
proof (cases en)
  case False
  let ?t = "snd (stop_stream (s\<lparr>pending_connect := True, recv_vid_codec := ESP_PEER_VIDEO_CODEC_NONE\<rparr>))"
  have "rtc_inv (s\<lparr>pending_connect := True, recv_vid_codec := ESP_PEER_VIDEO_CODEC_NONE\<rparr>)"
    using assms by (simp add: rtc_inv_def tasks_joined_def)
  then have "rtc_inv ?t" by simp
  from pc_close_other [OF this, of ret] False show ?thesis
    by (auto simp: esp_webrtc_enable_peer_connection_def)
next
  case True
  let ?s1 = "s\<lparr>pending_connect := False\<rparr>"
  let ?p = "if \<not> pc ?s1 then start_peer_connection ret e (loaded_ice ?s1) ?s1 else (0, ?s1)"
  have i: "rtc_inv ?s1" using assms by simp
  have p: "rtc_inv (snd ?p)" using start_peer_connection_inv [OF i] i by simp
  obtain r2 s2 where s2: "?p = (r2, s2)" by (cases ?p) simp
  with p have i2: "rtc_inv s2" by simp
  obtain r3 s3 where s3: "esp_peer_new_connection ret s2 = (r3, s3)" by (cases "esp_peer_new_connection ret s2") simp
  have "rtc_inv (snd (esp_peer_new_connection ret s2))" using i2 by (simp add: peer_calls)
  with s3 have "rtc_inv s3" by simp
  with True i i2 s2 s3 show ?thesis
    by (auto simp add: esp_webrtc_enable_peer_connection_def Let_def)
qed

lemma signal_msg_other:
  assumes "rtc_inv s"
  shows "\<exists>r s'. signal_new_msg ret Other_thread ty d s = Done r s' \<and> rtc_inv s'"
proof (cases "ty = SIG_BYE \<and> running s")
  case True
  let ?s1 = "if \<not> pause s then note_call (Wait_bit PC_PAUSED_BIT) (s\<lparr>pause := True\<rparr>) else s"
  let ?s3 = "snd (stop_stream ((snd (esp_peer_disconnect ret ?s1))\<lparr>recv_vid_codec := ESP_PEER_VIDEO_CODEC_NONE\<rparr>))"
  have "rtc_inv ?s1" using assms True by (auto simp: rtc_inv_def tasks_joined_def)
  then have i3: "rtc_inv ?s3" by (simp add: peer_calls)
  obtain r4 s4 where s4: "esp_peer_new_connection ret ?s3 = (r4, s4)" by (cases "esp_peer_new_connection ret ?s3") simp
  have "rtc_inv (snd (esp_peer_new_connection ret ?s3))" using i3 by (simp add: peer_calls del: stop_stream_inv)
  with s4 have "rtc_inv s4" by simp
  with True i3 s4 show ?thesis
    by (auto simp add: signal_new_msg_def Let_def split: if_splits)
next
  case False
  have s: "\<exists>r s'. (case p of (r, s') \<Rightarrow> Done r s') = Done r s' \<and> rtc_inv s'" if "rtc_inv (snd p)" for p :: "int \<times> rtc"
    using that by (cases p) simp
  show ?thesis
    using False assms s [of "call_ext ret (App_custom_data CUSTOM_VIA_SIGNALING d) s"]
      s [of "esp_peer_send_msg ret (if is_candidate d then SIG_CANDIDATE else ty) d s"]
    by (cases "ty = SIG_BYE"; cases "ty = SIG_CUSTOMIZED") (auto simp: signal_new_msg_def peer_calls)
qed

section \<open>The session as a machine\<close>

datatype session_event =
    Ice_received ice_info bool
  | Signal_connected
  | Signal_message signal_msg_type "u8 list"
  | Signal_closed
  | Peer_state_changed peer_state
  | Peer_message "u8 list"
  | Video_announced peer_video_codec nat nat nat
  | Audio_announced peer_audio_codec nat nat
  | Audio_received media_frame
  | Video_received media_frame
  | Data_received media_frame
  | Send_task "media_frame list" "media_frame option"
  | Peer_task
  | Enable_connection bool bool
  | Audio_bitrate u32
  | Video_bitrate u32
  | Session_start
  | Custom_data custom_via "u8 list"
  | Session_query

text \<open>An application that leaves the session alone in its event handler.\<close>

definition passive_app :: app_handler where
  "passive_app self ev s = Done 0 s"

fun done_state :: "int rtc_result \<Rightarrow> rtc option" where
  "done_state Deadlock = None"
| "done_state (Done r s) = Some s"

fun session_step :: "rtc_ret \<Rightarrow> rtc \<Rightarrow> session_event \<Rightarrow> rtc option" where
  "session_step ret s (Ice_received info e) = Some (snd (signal_ice_received ret e info s))"
| "session_step ret s Signal_connected = Some (snd (signal_connected ret s))"
| "session_step ret s (Signal_message ty d) = done_state (signal_new_msg ret Other_thread ty d s)"
| "session_step ret s Signal_closed = Some (snd (signal_closed ret s))"
| "session_step ret s (Peer_state_changed st) = done_state (pc_on_state ret passive_app Pc_task st s)"
| "session_step ret s (Peer_message d) = Some (snd (pc_on_msg ret d s))"
| "session_step ret s (Video_announced c w h fps) = Some (snd (pc_on_video_info c w h fps s))"
| "session_step ret s (Audio_announced c r ch) = Some (snd (pc_on_audio_info c r ch s))"
| "session_step ret s (Audio_received f) = Some (snd (pc_on_audio_data f s))"
| "session_step ret s (Video_received f) = Some (snd (pc_on_video_data f s))"
| "session_step ret s (Data_received f) = Some (snd (pc_on_data f s))"
| "session_step ret s (Send_task auds vid) = Some (snd (media_send_task ret auds vid s))"
| "session_step ret s Peer_task = Some (snd (pc_task ret s))"
| "session_step ret s (Enable_connection en e) =
     done_state (esp_webrtc_enable_peer_connection ret e Other_thread en s)"
| "session_step ret s (Audio_bitrate b) = Some (snd (esp_webrtc_set_audio_bitrate ret b s))"
| "session_step ret s (Video_bitrate b) = Some (snd (esp_webrtc_set_video_bitrate ret b s))"
| "session_step ret s Session_start = Some (snd (esp_webrtc_start ret s))"
| "session_step ret s (Custom_data via d) = Some (snd (esp_webrtc_send_custom_data ret via d s))"
| "session_step ret s Session_query = Some (snd (esp_webrtc_query ret s))"

lemma notify_passive: "pc_notify_app passive_app self ev t =
    Done 0 (if event_handler t then note_call (App_event ev) t else t)"
  by (simp add: pc_notify_app_def passive_app_def)

lemma pc_on_state_passive:
  assumes "rtc_inv s"
  shows "\<exists>s'. pc_on_state ret passive_app self st s = Done 0 s' \<and> rtc_inv s'"
  using assms by (cases st) (simp_all add: pc_on_state_def notify_passive data_channel_state_def Let_def)

lemma esp_query_inv [simp]: "rtc_inv (snd (esp_webrtc_send_custom_data ret via d s)) = rtc_inv s"
  by (cases via) (simp_all add: esp_webrtc_send_custom_data_def peer_calls)

lemma ice_received_inv: "rtc_inv s \<Longrightarrow> rtc_inv (snd (signal_ice_received ret e info s))"
  by (simp add: signal_ice_received_def start_peer_connection_inv Let_def)

lemma signal_connected_inv: "rtc_inv s \<Longrightarrow> rtc_inv (snd (signal_connected ret s))"
  by (simp add: signal_connected_def peer_calls Let_def)

lemma receive_inv [simp]:
  "rtc_inv (snd (pc_on_video_info vc w h fps s)) = rtc_inv s"
  "rtc_inv (snd (pc_on_audio_info ac r ch s)) = rtc_inv s"
  "rtc_inv (snd (pc_on_audio_data f s)) = rtc_inv s"
  "rtc_inv (snd (pc_on_video_data f s)) = rtc_inv s"
  "rtc_inv (snd (pc_on_data f s)) = rtc_inv s"
  by (simp_all add: pc_on_video_info_def pc_on_audio_info_def convert_dec_aud_info_def pc_on_audio_data_def
      pc_on_video_data_def pc_on_data_def Let_def)

lemma start_inv [simp]: "rtc_inv (snd (esp_webrtc_start ret s)) = rtc_inv s"
  by (simp add: esp_webrtc_start_def call_ext_def)

lemma done_state_ex: "\<exists>r s'. m = Done r s' \<and> P s' \<Longrightarrow> \<exists>s'. done_state m = Some s' \<and> P s'"
  by auto

lemma session_step_total: "rtc_inv s \<Longrightarrow> \<exists>s'. session_step ret s ev = Some s' \<and> rtc_inv s'"
proof (cases ev)
  case (Signal_message ty d)
  moreover assume "rtc_inv s"
  ultimately show ?thesis using done_state_ex [OF signal_msg_other] by simp
next
  case (Peer_state_changed st)
  moreover assume "rtc_inv s"
  ultimately show ?thesis using pc_on_state_passive [of s ret Pc_task st] by auto
next
  case (Enable_connection en e)
  moreover assume "rtc_inv s"
  ultimately show ?thesis using done_state_ex [OF enable_other] by simp
qed (simp_all add: ice_received_inv signal_connected_inv signal_closed_def peer_calls pc_on_msg_def
    esp_webrtc_set_audio_bitrate_def esp_webrtc_set_video_bitrate_def query_inv)

interpretation session: event_machine "session_step ret" rtc_inv "\<lambda>_. True" for ret
proof unfold_locales
  fix s e s' assume "rtc_inv s" "session_step ret s e = Some s'"
  with session_step_total [of s ret e] show "rtc_inv s'" by auto
next
  fix s e assume "rtc_inv s"
  with session_step_total [of s ret e] show "\<exists>s'. session_step ret s e = Some s'" by blast
qed

lemma fresh_inv [simp]: "rtc_inv (fresh_rtc c)"
  by (simp add: fresh_rtc_def rtc_inv_def tasks_joined_def)

lemma set_servers_inv [simp]: "rtc_inv (set_servers l n s) = rtc_inv s"
  by (simp add: set_servers_def)

lemma free_server_inv [simp]: "rtc_inv (free_server_cfg s) = rtc_inv s"
  by (simp add: free_server_cfg_def)

lemma malloc_server_inv [simp]: "rtc_inv (snd (malloc_server_cfg c d l s)) = rtc_inv s"
  by (simp add: malloc_server_cfg_def split: option.split)

lemma open_inv: "esp_webrtc_open i a l dup c = (0, Some s) \<Longrightarrow> rtc_inv s"
  by (auto simp: esp_webrtc_open_def split: if_splits)

text \<open>Stopping from any other thread leaves nothing running, closing frees what is left.\<close>

definition all_released :: "rtc \<Rightarrow> bool" where
  "all_released s \<longleftrightarrow> \<not> pc s \<and> \<not> running s \<and> \<not> wait_event s \<and> \<not> send_going s \<and> \<not> signaling s \<and>
     count_list (rtc_calls s) Create_pc_task = count_list (rtc_calls s) (Wait_bit PC_EXIT_BIT)"

lemma stop_other:
  assumes "rtc_inv s"
  shows "\<exists>s'. esp_webrtc_stop ret Other_thread s = Done 0 s' \<and> all_released s' \<and> rtc_inv s'"
proof -
  from assms have "rtc_inv (snd (stop_stream s))" by simp
  from pc_close_other [OF this, of ret] obtain s1 where s1:
    "pc_close ret Other_thread (snd (stop_stream s)) = Done 0 s1" "rtc_inv s1" "\<not> pc s1" "\<not> running s1"
    "\<not> wait_event s1" "\<not> send_going s1"
    by auto
  let ?s2 = "if signaling s1 then note_call Signaling_stop (s1\<lparr>signaling := False\<rparr>) else s1"
  have "rtc_inv ?s2" using s1 by simp
  moreover from this have "all_released ?s2" using s1
    by (auto simp: all_released_def rtc_inv_def tasks_joined_def)
  ultimately show ?thesis using s1(1) by (simp add: esp_webrtc_stop_def)
qed

lemma all_released_frame [simp]:
  "quiet c \<Longrightarrow> all_released (note_call c s) = all_released s"
  "all_released (free_server_cfg s) = all_released s"
  by (auto simp: all_released_def quiet_def free_server_cfg_def set_servers_def)

lemma free_server_none [simp]: "server_lists (rtc_cfg (free_server_cfg s)) = None"
  by (simp add: free_server_cfg_def set_servers_def)

lemma close_other:
  assumes "rtc_inv s"
  shows "\<exists>s'. esp_webrtc_close ret Other_thread s = Done 0 s' \<and> all_released s' \<and>
    server_lists (rtc_cfg s') = None \<and> last (rtc_calls s') = Free_rtc"
  using stop_other [OF assms, of ret] by (auto simp: esp_webrtc_close_def)

section \<open>Properties\<close>


definition demo_cfg :: session_cfg where
  "demo_cfg = \<lparr>audio_codec = ESP_PEER_AUDIO_CODEC_OPUS, audio_rate = 16000, audio_channel = 2,
     video_codec = ESP_PEER_VIDEO_CODEC_H264, video_width = 1280, video_height = 720, video_fps = 15,
     audio_dir = DIR_SEND_RECV, video_dir = DIR_SEND_ONLY, enable_data_channel = True,
     video_over_data_channel = False, no_auto_reconnect = False, has_on_custom_data = True, has_on_data = True,
     has_on_video_send = False, has_on_channel_open = False, has_on_channel_close = False,
     server_lists = None, server_num = 0\<rparr>"

definition demo_ice :: ice_info where
  "demo_ice = \<lparr>info_server = \<lparr>stun_url = Some ''stun:s'', server_user = None, server_psw = None\<rparr>, info_initiator = True\<rparr>"


text \<open>
  The remote side hangs up (\<open>BYE\<close>) while the peer task runs: the peer task is paused first, the
  connection is dropped, the streams stop, and with automatic reconnection a new connection is
  requested and the peer task resumed. Without it, the session stays paused and connected to nothing
  until the application enables the connection again, which asks for a new connection and resumes the
  same peer task.
\<close>

theorem session_bye:
  assumes "pc s" "running s" "\<not> pause s" "signaling_connected s"
  shows "case signal_new_msg ret Other_thread SIG_BYE d s of
      Deadlock \<Rightarrow> False
    | Done r s1 \<Rightarrow>
        \<not> send_going s1 \<and> recv_vid_codec s1 = ESP_PEER_VIDEO_CODEC_NONE \<and> running s1 \<and>
        (let hang_up = [Wait_bit PC_PAUSED_BIT, Peer_disconnect] @
               (if send_going s then [Wait_bit PC_SEND_QUIT_BIT] else []) @
               [if no_auto_capture s then Capture_sink_disable else Capture_stop, Render_reset];
             reconnect = [Peer_new_connection, Set_bit PC_RESUME_BIT]
         in if no_auto_reconnect (rtc_cfg s)
            then pause s1 \<and> rtc_calls s1 = rtc_calls s @ hang_up \<and>
                 (case esp_webrtc_enable_peer_connection ret e Other_thread True s1 of
                    Deadlock \<Rightarrow> False
                  | Done r2 s2 \<Rightarrow> \<not> pause s2 \<and> running s2 \<and> rtc_calls s2 = rtc_calls s1 @ reconnect)
            else \<not> pause s1 \<and> rtc_calls s1 = rtc_calls s @ hang_up @ reconnect)"
  using assms
  by (simp add: signal_new_msg_def esp_webrtc_enable_peer_connection_def stop_stream_def resume_loop_def
      peer_calls peer_call_def call_ext_def Let_def)

definition demo_session :: rtc where
  "demo_session = (fresh_rtc demo_cfg)\<lparr>pc := True, running := True, wait_event := True,
     signaling_connected := True, send_going := True\<rparr>"

lemma demo_session_sel [simp]:
  "pc demo_session" "running demo_session" "\<not> pause demo_session" "signaling_connected demo_session"
  "send_going demo_session" "\<not> no_auto_capture demo_session" "rtc_calls demo_session = []"
  "rtc_cfg demo_session = demo_cfg" "\<not> no_auto_reconnect demo_cfg"
  by (simp_all add: demo_session_def fresh_rtc_def demo_cfg_def)

lemma session_bye_witness:
  "case signal_new_msg (\<lambda>_ _. 0) Other_thread SIG_BYE [] demo_session of
      Deadlock \<Rightarrow> False
    | Done r s1 \<Rightarrow> \<not> pause s1 \<and> \<not> send_going s1 \<and> rtc_calls s1 =
       [Wait_bit PC_PAUSED_BIT, Peer_disconnect, Wait_bit PC_SEND_QUIT_BIT, Capture_stop, Render_reset,
        Peer_new_connection, Set_bit PC_RESUME_BIT]"
  using session_bye [where s = demo_session and ret = "\<lambda>_ _. 0" and d = "[]" and e = True]
  by (cases "signal_new_msg (\<lambda>_ _. 0) Other_thread SIG_BYE [] demo_session") (simp_all add: Let_def)

text \<open>
  Bit rates set before the connection exists are kept and applied, in the order audio, video, as
  soon as the capture sink of the connection has been set up, before the sink is enabled; each
  exactly once, and only those that were set. Set while the sink exists, a bit rate is applied at
  once.
\<close>

theorem session_pre_set_bitrates:
  assumes "\<not> pc s" "\<not> capture_path s" "\<And>n c. ret n c = 0"
  shows "let s1 = (if set_audio then snd (esp_webrtc_set_audio_bitrate ret a s) else s);
             s2 = (if set_video then snd (esp_webrtc_set_video_bitrate ret v s1) else s1);
             s3 = snd (pc_start ret True servers s2)
         in rtc_calls s2 = rtc_calls s \<and>
            (\<exists>opened. rtc_calls s3 = rtc_calls s @ opened @ [Capture_sink_setup (sink_of (rtc_cfg s))] @
               (if set_audio then [Capture_set_bitrate STREAM_AUDIO a]
                else if pre_audio_set s then [Capture_set_bitrate STREAM_AUDIO (pre_audio_bitrate s)] else []) @
               (if set_video then [Capture_set_bitrate STREAM_VIDEO v]
                else if pre_video_set s then [Capture_set_bitrate STREAM_VIDEO (pre_video_bitrate s)] else []) @
               [Capture_sink_always]) \<and>
            rtc_calls (snd (esp_webrtc_set_audio_bitrate ret a s3)) =
              rtc_calls s3 @ [Capture_set_bitrate STREAM_AUDIO a]"
  using assms
  by (simp add: esp_webrtc_set_audio_bitrate_def esp_webrtc_set_video_bitrate_def pc_apply_capture_pre_setting_def
      pc_start_def call_ext_def Let_def)

lemma session_pre_set_bitrates_witness:
  "rtc_calls (snd (pc_start (\<lambda>_ _. 0) True [] (snd (esp_webrtc_set_video_bitrate (\<lambda>_ _. 0) 500000
     (snd (esp_webrtc_set_audio_bitrate (\<lambda>_ _. 0) 40000 (fresh_rtc demo_cfg))))))) \<noteq> []"
  using session_pre_set_bitrates [of "fresh_rtc demo_cfg" "\<lambda>_ _. 0" True 40000 True 500000 "[]"]
  by (auto simp add: fresh_rtc_def demo_cfg_def Let_def)

lemma fold_audio:
  "pc s \<Longrightarrow> let s' = fold (send_audio_frame ret) fs s in
     rtc_calls s' = rtc_calls s @ concat (map (\<lambda>f. [Peer_send_audio f, Capture_release STREAM_AUDIO]) fs) \<and>
     aud_send_num s' = aud_send_num s + of_nat (length fs) \<and>
     aud_send_size s' = aud_send_size s + sum_list (map frame_size fs) \<and> pc s' \<and> rtc_cfg s' = rtc_cfg s \<and>
     vid_send_num s' = vid_send_num s \<and> vid_send_size s' = vid_send_size s"
proof (induction fs arbitrary: s)
  case Nil
  then show ?case by simp
next
  case (Cons f fs)
  let ?t = "send_audio_frame ret f s"
  have t: "pc ?t" "rtc_calls ?t = rtc_calls s @ [Peer_send_audio f, Capture_release STREAM_AUDIO]"
    "aud_send_num ?t = aud_send_num s + 1" "aud_send_size ?t = aud_send_size s + frame_size f"
    "rtc_cfg ?t = rtc_cfg s" "vid_send_num ?t = vid_send_num s" "vid_send_size ?t = vid_send_size s"
    using Cons.prems by (simp_all add: send_audio_frame_def peer_calls snd_peer_call Let_def)
  from Cons.IH [OF t(1)] t show ?case by (simp add: Let_def algebra_simps)
qed

text \<open>
  One pass of the send task accounts for every frame it takes from capture: the audio frames go
  to the peer in the order capture gave them, each is released right after it was handed over and
  before the next is sent, the video frame follows the audio frames, and the counters shown by a query
  grow by the number of frames, modulo 256, and by the sum of the sizes, modulo 2^32.
\<close>

theorem media_send_accounts:
  assumes "pc s" "audio_codec (rtc_cfg s) \<noteq> ESP_PEER_AUDIO_CODEC_NONE"
    "video_codec (rtc_cfg s) \<noteq> ESP_PEER_VIDEO_CODEC_NONE"
    "\<not> video_over_data_channel (rtc_cfg s)" "\<not> has_on_video_send (rtc_cfg s)"
  shows "let s' = media_send ret auds vid s in
     rtc_calls s' = rtc_calls s @ concat (map (\<lambda>f. [Peer_send_audio f, Capture_release STREAM_AUDIO]) auds) @
       (case vid of None \<Rightarrow> [] | Some f \<Rightarrow> [Peer_send_video f, Capture_release STREAM_VIDEO]) \<and>
     aud_send_num s' = aud_send_num s + of_nat (length auds) \<and>
     aud_send_size s' = aud_send_size s + sum_list (map frame_size auds) \<and>
     vid_send_num s' = vid_send_num s + (if vid = None then 0 else 1) \<and>
     vid_send_size s' = vid_send_size s + (case vid of None \<Rightarrow> 0 | Some f \<Rightarrow> frame_size f)"
  using assms fold_audio [OF assms(1), of ret auds]
  by (cases vid) (simp_all add: media_send_def send_video_frame_def peer_calls snd_peer_call Let_def)

lemma media_send_accounts_witness:
  "aud_send_num (media_send (\<lambda>_ _. 0) (replicate 3 \<lparr>frame_pts = 0, frame_data = [], frame_size = 20\<rparr>) None
     (demo_session\<lparr>aud_send_num := 254\<rparr>)) = 1"
  using media_send_accounts [of "demo_session\<lparr>aud_send_num := 254\<rparr>" "\<lambda>_ _. 0"
      "replicate 3 \<lparr>frame_pts = 0, frame_data = [], frame_size = 20\<rparr>" None]
  by (simp add: demo_session_def fresh_rtc_def demo_cfg_def Let_def)

lemma dup_string_same: "dup_string dup k u = Some (u', k') \<Longrightarrow> u' = u"
  by (cases u) (auto split: if_splits)

lemma dup_servers_same: "dup_servers dup k cs = Some l \<Longrightarrow> l = cs"
proof (induction cs arbitrary: k l)
  case Nil
  then show ?case by simp
next
  case (Cons c cs)
  then show ?case by (cases c) (auto split: Option.bind_splits option.splits if_splits dest!: dup_string_same)
qed

text \<open>
  Copying the server list is all or nothing: either every server of the list is copied, in
  order, or the session holds no list and \<open>ESP_PEER_ERR_INVALID_ARG\<close> is returned (also when it was
  memory that ran out). \<open>esp_webrtc_open\<close> ignores that code: it reports success, and hands out a
  session without its servers.
\<close>

theorem server_list_all_or_nothing:
  assumes "server_lists c = Some l" "l \<noteq> []"
  shows "\<exists>s. esp_webrtc_open True True calloc_ok dup c = (0, Some s) \<and>
     (if calloc_ok \<and> dup_servers dup 0 l \<noteq> None
      then server_lists (rtc_cfg s) = Some l \<and> server_num (rtc_cfg s) = length l
      else server_lists (rtc_cfg s) = None \<and> server_num (rtc_cfg s) = 0 \<and>
           fst (malloc_server_cfg calloc_ok dup l (fresh_rtc c)) \<noteq> 0)"
proof (cases "dup_servers dup 0 l")
  case None
  with assms show ?thesis
    by (simp add: esp_webrtc_open_def malloc_server_cfg_def free_server_cfg_def set_servers_def fresh_rtc_def peer_errors)
next
  case (Some l')
  with dup_servers_same [OF this] assms show ?thesis
    by (simp add: esp_webrtc_open_def malloc_server_cfg_def free_server_cfg_def set_servers_def fresh_rtc_def peer_errors)
qed

lemma server_list_all_or_nothing_witness:
  "\<exists>s. esp_webrtc_open True True True (\<lambda>k. k \<noteq> 1) (demo_cfg\<lparr>server_lists := Some
      [\<lparr>stun_url = Some ''stun:a'', server_user = None, server_psw = None\<rparr>,
       \<lparr>stun_url = Some ''turn:b'', server_user = None, server_psw = None\<rparr>], server_num := 2\<rparr>) = (0, Some s) \<and>
    server_lists (rtc_cfg s) = None"
  using server_list_all_or_nothing [of "demo_cfg\<lparr>server_lists := Some
      [\<lparr>stun_url = Some ''stun:a'', server_user = None, server_psw = None\<rparr>,
       \<lparr>stun_url = Some ''turn:b'', server_user = None, server_psw = None\<rparr>], server_num := 2\<rparr>" _ True "\<lambda>k. k \<noteq> 1"]
  by (auto simp: dup_servers.simps)

end
