(* ===== verification/Data_Channels.thy ===== *)
theory Data_Channels
  imports Esp_Prelude
begin

text \<open>
  The data channels of the P4 application (\<open>main/webrtc.c\<close>): the table \<open>user_ch\<close> of open channels,
  the check of the test data a peer sends (\<open>verify_data\<close>, \<open>webrtc_on_data\<close>) and the sender of such
  data (\<open>data_thread_hdlr\<close>). A frame is the bytes the peer sent; reading behind them is \<open>None\<close>.
\<close>

section \<open>The channel table\<close>

record user_data_ch =
  ch_label :: "string option"
  ch_stream :: u16
  send_count :: int
  recv_count :: int
  ch_used :: bool

definition free_ch :: user_data_ch where
  "free_ch = \<lparr>ch_label = None, ch_stream = 0, send_count = 0, recv_count = 0, ch_used = False\<rparr>"

definition user_ch_initial :: "user_data_ch list" where
  "user_ch_initial = [free_ch, free_ch]"

text \<open>
  \<open>i\<close> is the index of the first entry of the list; a channel without label is called after its index.
  \<open>dup\<close> tells whether \<open>strdup\<close> succeeds.
\<close>

fun add_channel :: "bool \<Rightarrow> string option \<Rightarrow> u16 \<Rightarrow> nat \<Rightarrow> user_data_ch list \<Rightarrow> user_data_ch list" where
  "add_channel dup label stream i [] = []"
| "add_channel dup label stream i (c # cs) =
     (if \<not> ch_used c then
        c\<lparr>ch_used := True,
          ch_label := (if dup then Some (case label of Some l \<Rightarrow> l | None \<Rightarrow> [char_of (48 + i)]) else None),
          ch_stream := stream, send_count := 0, recv_count := 0\<rparr> # cs
      else c # add_channel dup label stream (i + 1) cs)"

fun get_channel :: "u16 \<Rightarrow> user_data_ch list \<Rightarrow> user_data_ch option" where
  "get_channel stream [] = None"
| "get_channel stream (c # cs) = (if ch_used c \<and> ch_stream c = stream then Some c else get_channel stream cs)"

fun remove_channel :: "u16 \<Rightarrow> user_data_ch list \<Rightarrow> user_data_ch list" where
  "remove_channel stream [] = []"
| "remove_channel stream (c # cs) =
     (if ch_used c \<and> ch_stream c = stream then c\<lparr>ch_used := False, ch_label := None\<rparr> # cs
      else c # remove_channel stream cs)"

definition webrtc_data_channel_opened :: "bool \<Rightarrow> string option \<Rightarrow> u16 \<Rightarrow> user_data_ch list \<Rightarrow> int \<times> user_data_ch list" where
  "webrtc_data_channel_opened dup label stream chs = (0, add_channel dup label stream 0 chs)"

definition webrtc_data_channel_closed :: "u16 \<Rightarrow> user_data_ch list \<Rightarrow> int \<times> user_data_ch list" where
  "webrtc_data_channel_closed stream chs = (0, remove_channel stream chs)"

text \<open>
  The label \<open>close_data_channel\<close> hands to the peer; a negative index is a huge one in the comparison
  with the unsigned \<open>ELEMS (user_ch)\<close>.
\<close>

definition close_data_channel :: "int \<Rightarrow> user_data_ch list \<Rightarrow> string option option" where
  "close_data_channel i chs =
     (if 0 \<le> i \<and> i < int (length chs) \<and> ch_used (chs ! nat i) then Some (ch_label (chs ! nat i)) else None)"

section \<open>Checking test data\<close>

text \<open>\<open>strchr\<close> and \<open>strstr\<close>: \<open>Some None\<close> is a null pointer, \<open>None\<close> a read behind the buffer.\<close>

fun c_strchr :: "u8 \<Rightarrow> u8 list \<Rightarrow> nat option option" where
  "c_strchr c [] = None"
| "c_strchr c (b # bs) =
     (if b = c then Some (Some 0) else if b = 0 then Some None
      else case c_strchr c bs of Some (Some n) \<Rightarrow> Some (Some (Suc n)) | r \<Rightarrow> r)"

fun c_strstr :: "u8 list \<Rightarrow> u8 list \<Rightarrow> nat option option" where
  "c_strstr pat [] = None"
| "c_strstr pat (b # bs) =
     (if take (length pat) (b # bs) = pat then Some (Some 0) else if b = 0 then Some None
      else case c_strstr pat bs of Some (Some n) \<Rightarrow> Some (Some (Suc n)) | r \<Rightarrow> r)"

definition byte_of :: "char \<Rightarrow> u8" where
  "byte_of c = of_nat (of_char c)"

definition char_of_byte :: "u8 \<Rightarrow> char" where
  "char_of_byte b = char_of (unat b)"

text \<open>\<open>atoi\<close>: the bytes it reads are the digits and the one behind them.\<close>

definition c_atoi :: "u8 list \<Rightarrow> int option" where
  "c_atoi bs =
     (let t = dropWhile (\<lambda>b. is_space (char_of_byte b)) bs;
          d = (case t of [] \<Rightarrow> []
               | b # r \<Rightarrow> if char_of_byte b = CHR ''-'' \<or> char_of_byte b = CHR ''+'' then r else t)
      in if list_all (\<lambda>b. is_digit (char_of_byte b)) d then None else Some (strtol (map char_of_byte bs)))"

definition CNT_TO_CHAR :: "int \<Rightarrow> u8" where
  "CNT_TO_CHAR c = word_of_int (take_bit 8 c mod 94 + 33)"

definition the_tag :: "u8 list" where
  "the_tag = map byte_of ''the ''"

fun all_expect :: "u8 \<Rightarrow> u8 list \<Rightarrow> bool" where
  "all_expect e [] = True"
| "all_expect e (b # bs) = (if b \<noteq> e then False else all_expect e bs)"

definition verify_data :: "u8 list \<Rightarrow> bool option" where
  "verify_data d = do {
     line_end \<leftarrow> c_strchr 10 d;
     count \<leftarrow> c_strstr the_tag d;
     case line_end of None \<Rightarrow> Some False
     | Some e \<Rightarrow>
         (case count of None \<Rightarrow> Some False
          | Some k \<Rightarrow> do {
              c \<leftarrow> c_atoi (drop (k + 4) d);
              Some (all_expect (CNT_TO_CHAR c) (drop (e + 1) d))
            })
   }"

text \<open>The code of \<open>webrtc_on_data\<close> and the result it logs.\<close>

definition webrtc_on_data :: "u8 list \<Rightarrow> (int \<times> bool) option" where
  "webrtc_on_data d = do {
     line_end \<leftarrow> c_strchr 10 d;
     if line_end = None then Some (-1, False)
     else do {
       v \<leftarrow> verify_data d;
       Some (0, v)
     }
   }"

section \<open>Sending test data\<close>

text \<open>
  One due period of \<open>data_thread_hdlr\<close>: the frames it sends out of its 8192-byte buffer \<open>str\<close>, each the
  head line and then the character of the count. \<open>snprintf\<close> writes at most 8190 characters and the NUL,
  but returns the length of the whole line; a line of more than 8192 characters makes \<open>memset\<close> write
  out of bounds (\<open>None\<close>).
\<close>

definition stress_line :: "user_data_ch \<Rightarrow> string" where
  "stress_line c = ''Send to '' @ (case ch_label c of Some l \<Rightarrow> l | None \<Rightarrow> ''(null)'') @ '' count '' @
     int_string (send_count c) @ [char_of (10 :: nat)]"

definition stress_frame :: "u8 list \<Rightarrow> user_data_ch \<Rightarrow> u8 list option" where
  "stress_frame str c =
     (let line = map byte_of (stress_line c);
          n = length line;
          str1 = overwrite str 0 (take 8190 line @ [0])
      in if n > 8192 then None
         else Some (overwrite str1 n (replicate (8192 - n) (CNT_TO_CHAR (send_count c)))))"

fun data_thread_send ::
  "u8 list \<Rightarrow> user_data_ch list \<Rightarrow> ((u16 \<times> u8 list) list \<times> user_data_ch list \<times> u8 list) option" where
  "data_thread_send str [] = Some ([], [], str)"
| "data_thread_send str (c # cs) =
     (if \<not> ch_used c then do {
        (fs, cs', str') \<leftarrow> data_thread_send str cs;
        Some (fs, c # cs', str')
      }
      else do {
        f \<leftarrow> stress_frame str c;
        (fs, cs', str') \<leftarrow> data_thread_send f cs;
        Some ((ch_stream c, f) # fs, c\<lparr>send_count := send_count c + 1\<rparr> # cs', str')
      })"

section \<open>The table is a map of bounded size\<close>

definition open_streams :: "user_data_ch list \<Rightarrow> u16 list" where
  "open_streams chs = map ch_stream (filter ch_used chs)"

definition has_free_ch :: "user_data_ch list \<Rightarrow> bool" where
  "has_free_ch chs \<longleftrightarrow> list_ex (\<lambda>c. \<not> ch_used c) chs"

definition new_label :: "string option \<Rightarrow> nat \<Rightarrow> string" where
  "new_label label i = (case label of Some l \<Rightarrow> l | None \<Rightarrow> [char_of (48 + i)])"

text \<open>The index of the first free entry.\<close>

fun free_index :: "user_data_ch list \<Rightarrow> nat" where
  "free_index [] = 0"
| "free_index (c # cs) = (if \<not> ch_used c then 0 else Suc (free_index cs))"

lemma get_channel_None: "get_channel s chs = None \<longleftrightarrow> s \<notin> set (open_streams chs)"
  by (induction chs) (auto simp: open_streams_def)

lemma get_channel_Some: "get_channel s chs = Some c \<Longrightarrow> ch_used c \<and> ch_stream c = s \<and> c \<in> set chs"
  by (induction chs) (auto split: if_splits)

lemma length_table [simp]:
  "length (add_channel dup label stream i chs) = length chs" "length (remove_channel stream chs) = length chs"
  by (induction chs arbitrary: i) auto

lemma open_streams_add:
  "has_free_ch chs \<Longrightarrow> \<exists>xs ys. open_streams chs = xs @ ys \<and>
     open_streams (add_channel dup label stream i chs) = xs @ stream # ys"
proof (induction chs arbitrary: i)
  case Nil
  then show ?case by (simp add: has_free_ch_def)
next
  case (Cons c cs)
  show ?case
  proof (cases "ch_used c")
    case True
    with Cons.prems have "has_free_ch cs" by (simp add: has_free_ch_def)
    from Cons.IH [OF this, of "i + 1"] obtain xs ys where "open_streams cs = xs @ ys"
      "open_streams (add_channel dup label stream (i + 1) cs) = xs @ stream # ys" by blast
    with True show ?thesis
      by (intro exI [of _ "ch_stream c # xs"] exI [of _ ys]) (simp add: open_streams_def)
  next
    case False
    then show ?thesis by (intro exI [of _ "[]"] exI [of _ "open_streams cs"]) (simp add: open_streams_def)
  qed
qed

lemma add_channel_full: "\<not> has_free_ch chs \<Longrightarrow> add_channel dup label stream i chs = chs"
  by (induction chs arbitrary: i) (auto simp: has_free_ch_def)

lemma get_add_other: "s \<noteq> stream \<Longrightarrow> get_channel s (add_channel dup label stream i chs) = get_channel s chs"
  by (induction chs arbitrary: i) auto

lemma get_add_same:
  "stream \<notin> set (open_streams chs) \<Longrightarrow> has_free_ch chs \<Longrightarrow>
   \<exists>c. get_channel stream (add_channel dup label stream i chs) = Some c \<and> send_count c = 0 \<and> recv_count c = 0 \<and>
     ch_label c = (if dup then Some (new_label label (i + free_index chs)) else None)"
proof (induction chs arbitrary: i)
  case Nil
  then show ?case by (simp add: has_free_ch_def)
next
  case (Cons c cs)
  show ?case
  proof (cases "ch_used c")
    case True
    with Cons.prems have "stream \<notin> set (open_streams cs)" "has_free_ch cs" "ch_stream c \<noteq> stream"
      by (auto simp: has_free_ch_def open_streams_def)
    with True Cons.IH [of "Suc i"] show ?thesis by (cases dup) simp_all
  next
    case False
    then show ?thesis by (simp add: new_label_def)
  qed
qed

lemma open_streams_remove: "open_streams (remove_channel stream chs) = remove1 stream (open_streams chs)"
  by (induction chs) (auto simp: open_streams_def)

lemma get_remove:
  "distinct (open_streams chs) \<Longrightarrow>
   get_channel s (remove_channel stream chs) = (if s = stream then None else get_channel s chs)"
proof (induction chs)
  case Nil
  then show ?case by simp
next
  case (Cons c cs)
  then have "distinct (open_streams cs)" by (auto simp: open_streams_def split: if_splits)
  moreover have "ch_used c \<and> ch_stream c = stream \<Longrightarrow> get_channel stream cs = None"
    using Cons.prems by (auto simp: get_channel_None open_streams_def)
  ultimately show ?case using Cons.IH by auto
qed

text \<open>
  C30. The channel table is a finite map from stream ids to channels. While the open streams are
  distinct, opening a new one finds the first free entry, if there is one, and makes exactly that
  stream known, with fresh counters and the given label, or the index of the entry as label; when the
  table is full the channel is ignored and nothing changes. Closing a stream forgets exactly that one.
  The open streams stay distinct and the table keeps its size.
\<close>

theorem channel_table_is_map:
  assumes "distinct (open_streams chs)" "new \<notin> set (open_streams chs)"
  shows "let added = snd (webrtc_data_channel_opened True label new chs);
             closed = snd (webrtc_data_channel_closed old chs)
         in length added = length chs \<and> length closed = length chs \<and>
            distinct (open_streams added) \<and> distinct (open_streams closed) \<and>
            get_channel s closed = (if s = old then None else get_channel s chs) \<and>
            (if has_free_ch chs
             then (s \<noteq> new \<longrightarrow> get_channel s added = get_channel s chs) \<and>
                  (case get_channel new added of None \<Rightarrow> False
                   | Some c \<Rightarrow> ch_label c = Some (new_label label (free_index chs)) \<and> send_count c = 0 \<and> recv_count c = 0)
             else added = chs)"
proof -
  have d: "distinct (open_streams (add_channel True label new 0 chs))"
  proof (cases "has_free_ch chs")
    case True
    from open_streams_add [OF this] obtain xs ys where "open_streams chs = xs @ ys"
      "open_streams (add_channel True label new 0 chs) = xs @ new # ys" by blast
    with assms show ?thesis by auto
  next
    case False
    with assms show ?thesis by (simp add: add_channel_full)
  qed
  have g: "case get_channel new (add_channel True label new 0 chs) of None \<Rightarrow> False
     | Some c \<Rightarrow> ch_label c = Some (new_label label (free_index chs)) \<and> send_count c = 0 \<and> recv_count c = 0"
    if "has_free_ch chs"
    using get_add_same [OF assms(2) that, of True label 0] by auto
  show ?thesis
    using assms(1) d g
    by (simp add: webrtc_data_channel_opened_def webrtc_data_channel_closed_def open_streams_remove get_remove
        add_channel_full get_add_other)
qed

theorem channel_table_is_map_witness:
  "(let chs = snd (webrtc_data_channel_opened True (Some ''a'') 4 user_ch_initial)
    in case get_channel 7 (snd (webrtc_data_channel_opened True None 7 chs)) of
         None \<Rightarrow> False | Some c \<Rightarrow> ch_label c = Some ''1'')"
proof -
  let ?chs = "snd (webrtc_data_channel_opened True (Some ''a'') 4 user_ch_initial)"
  have "distinct (open_streams ?chs)" "7 \<notin> set (open_streams ?chs)" "has_free_ch ?chs" "free_index ?chs = 1"
    by (simp_all add: webrtc_data_channel_opened_def user_ch_initial_def free_ch_def open_streams_def has_free_ch_def)
  moreover have "char_of (49 :: nat) = CHR ''1''" by code_simp
  ultimately show ?thesis using channel_table_is_map [of ?chs 7 None 4 4]
    by (auto simp: Let_def new_label_def split: option.splits)
qed
section \<open>The check of the test data\<close>

lemma byte_char [simp]: "char_of_byte (byte_of c) = c"
  by (simp add: char_of_byte_def byte_of_def unat_of_nat)

lemma byte_of_inj: "byte_of c = byte_of c' \<longleftrightarrow> c = c'"
  by (metis byte_char)

lemma the_tag_bytes: "the_tag = [116, 104, 101, 32]"
  by (simp add: the_tag_def byte_of_def)

lemma length_the_tag [simp]: "length the_tag = 4"
  by (simp add: the_tag_bytes)

lemma c_strchr_found:
  "c \<notin> set xs \<Longrightarrow> 0 \<notin> set xs \<Longrightarrow> c_strchr c (xs @ c # ys) = Some (Some (length xs))"
  by (induction xs) auto

lemma c_strstr_found:
  "0 \<notin> set xs \<Longrightarrow> (\<And>j. j < length xs \<Longrightarrow> take (length pat) (drop j (xs @ pat)) \<noteq> pat) \<Longrightarrow> pat \<noteq> [] \<Longrightarrow>
   c_strstr pat (xs @ pat @ ys) = Some (Some (length xs))"
proof (induction xs)
  case Nil
  then show ?case by (cases pat) auto
next
  case (Cons x xs)
  have "take (length pat) (x # xs @ pat @ ys) \<noteq> pat"
    using Cons.prems(2) [of 0] by (simp add: take_Cons' split: if_splits)
  moreover have "c_strstr pat (xs @ pat @ ys) = Some (Some (length xs))"
  proof (rule Cons.IH)
    fix j assume "j < length xs"
    with Cons.prems(2) [of "Suc j"] show "take (length pat) (drop j (xs @ pat)) \<noteq> pat" by simp
  qed (use Cons.prems in auto)
  ultimately show ?case using Cons.prems by simp
qed

lemma c_strstr_missing:
  "0 \<notin> set d \<Longrightarrow> (\<And>j. j < length d \<Longrightarrow> take (length pat) (drop j d) \<noteq> pat) \<Longrightarrow> c_strstr pat d = None"
proof (induction d)
  case Nil
  then show ?case by simp
next
  case (Cons b d)
  have "c_strstr pat d = None"
  proof (rule Cons.IH)
    fix j assume "j < length d"
    with Cons.prems(2) [of "Suc j"] show "take (length pat) (drop j d) \<noteq> pat" by simp
  qed (use Cons.prems in auto)
  with Cons.prems(1) Cons.prems(2) [of 0] show ?case by simp
qed

lemma digits_value_stop:
  "list_all is_digit xs \<Longrightarrow> \<not> is_digit c \<Longrightarrow> digits_value acc (xs @ c # ys) = digits_value acc xs"
  by (induction xs arbitrary: acc) auto

lemma digit_not_space [simp]: "is_digit c \<Longrightarrow> \<not> is_space c \<and> c \<noteq> CHR ''-'' \<and> c \<noteq> CHR ''+''"
  by (auto simp: is_digit_def is_space_def)

lemma strtol_dec_prefix:
  assumes "\<not> is_digit c" "n < 2 ^ 31"
  shows "strtol (dec_string n @ c # cs) = int n"
proof -
  obtain d ds where ds: "dec_string n = d # ds" using dec_string_digits [of n] by (cases "dec_string n") auto
  with dec_string_digits [of n] have "is_digit d" by simp
  then have "strtol (dec_string n @ c # cs) = saturate (- (2 ^ 31)) (2 ^ 31 - 1) (digits_value 0 (dec_string n @ c # cs))"
    unfolding strtol_def Let_def ds by simp
  also have "digits_value 0 (dec_string n @ c # cs) = int n"
    using dec_string_digits [of n] assms(1) by (simp add: digits_value_stop digits_value_dec_string)
  finally show ?thesis using assms(2) by (simp add: saturate_def)
qed

lemma c_atoi_dec:
  assumes "\<not> is_digit (char_of_byte b)" "n < 2 ^ 31"
  shows "c_atoi (map byte_of (dec_string n) @ b # bs) = Some (int n)"
proof -
  obtain d ds where ds: "dec_string n = d # ds" using dec_string_digits [of n] by (cases "dec_string n") auto
  with dec_string_digits [of n] have "is_digit d" by simp
  moreover from this have "\<not> is_space d" "d \<noteq> CHR ''-''" "d \<noteq> CHR ''+''" using digit_not_space by blast+
  moreover have "map char_of_byte (map byte_of (dec_string n) @ b # bs) = dec_string n @ char_of_byte b # map char_of_byte bs"
    by (simp add: comp_def)
  ultimately show ?thesis
    unfolding c_atoi_def Let_def using assms strtol_dec_prefix [OF assms, of "map char_of_byte bs"]
    by (simp add: ds)
qed

lemma all_expect_iff: "all_expect e bs = list_all (\<lambda>b. b = e) bs"
  by (induction bs) auto

lemma verify_data_parts:
  "c_strchr 10 d = Some (Some e) \<Longrightarrow> c_strstr the_tag d = Some (Some k) \<Longrightarrow> c_atoi (drop (k + 4) d) = Some c \<Longrightarrow>
   verify_data d = Some (list_all (\<lambda>b. b = CNT_TO_CHAR c) (drop (e + 1) d))"
  by (simp add: verify_data_def all_expect_iff)

text \<open>
  What the check accepts. For a frame whose head line (no NUL or line end in it) contains
  \<open>"the "\<close> first before the decimal count \<open>n\<close> of the sender, the check reads only the frame, and
  succeeds exactly when every byte behind the head line is the character of that count, of which
  there are 94, from 33 to 126.
\<close>

theorem verify_data_exact:
  assumes pre: "0 \<notin> set pre" "10 \<notin> set pre" "0 \<notin> set post" "10 \<notin> set post"
    and first: "\<forall>j<length pre. take 4 (drop j (pre @ the_tag)) \<noteq> the_tag"
    and post: "post = [] \<or> \<not> is_digit (char_of_byte (hd post))" and n: "n < 2 ^ 31"
  shows "webrtc_on_data (pre @ the_tag @ map byte_of (dec_string n) @ post @ 10 # fill) =
           Some (0, list_all (\<lambda>b. b = CNT_TO_CHAR (int n)) fill) \<and>
         33 \<le> unat (CNT_TO_CHAR (int n)) \<and> unat (CNT_TO_CHAR (int n)) \<le> 126 \<and>
         CNT_TO_CHAR (int n) = of_nat (n mod 256 mod 94 + 33)"
proof -
  let ?num = "map byte_of (dec_string n)" and ?d = "pre @ the_tag @ map byte_of (dec_string n) @ post @ 10 # fill"
  let ?line = "pre @ the_tag @ ?num @ post"
  have num: "b \<notin> set ?num" if "\<not> is_digit (char_of_byte b)" for b
    using dec_string_digits [of n] that by (auto simp: list_all_iff)
  have nd: "\<not> is_digit (char_of_byte 0)" "\<not> is_digit (char_of_byte 10)"
    by (simp_all add: is_digit_def char_of_byte_def)
  have z: "0 \<notin> set ?line" "10 \<notin> set ?line"
    using pre num [OF nd(1)] num [OF nd(2)] by (simp_all add: the_tag_bytes)
  have 1: "c_strchr 10 ?d = Some (Some (length ?line))"
    using c_strchr_found [OF z(2,1), of fill] by simp
  have "c_strstr the_tag (pre @ the_tag @ (?num @ post @ 10 # fill)) = Some (Some (length pre))"
  proof (rule c_strstr_found)
    fix j assume "j < length pre"
    with first show "take (length the_tag) (drop j (pre @ the_tag)) \<noteq> the_tag" by simp
  qed (use pre in \<open>simp_all add: the_tag_bytes\<close>)
  then have 2: "c_strstr the_tag ?d = Some (Some (length pre))" by simp
  have 3: "drop (length pre + 4) ?d = ?num @ post @ 10 # fill" by (simp add: the_tag_bytes)
  have "\<exists>b bs. post @ 10 # fill = b # bs \<and> \<not> is_digit (char_of_byte b)"
    using post nd(2) by (cases post) auto
  then have 4: "c_atoi (drop (length pre + 4) ?d) = Some (int n)"
    unfolding 3 using c_atoi_dec [OF _ n] by auto
  have 5: "drop (length ?line + 1) ?d = fill" by simp
  have c: "CNT_TO_CHAR (int n) = of_nat (n mod 256 mod 94 + 33)"
  proof -
    have "take_bit 8 (int n) mod 94 + 33 = int (n mod 256 mod 94 + 33)"
      by (simp add: take_bit_eq_mod zmod_int)
    then show ?thesis unfolding CNT_TO_CHAR_def by (simp only: of_int_of_nat_eq)
  qed
  have b: "n mod 256 mod 94 < 94" by simp
  then have "unat (of_nat (n mod 256 mod 94 + 33) :: u8) = n mod 256 mod 94 + 33"
    by (subst unat_of_nat) (simp add: take_bit_nat_eq_self)
  then have r: "33 \<le> unat (CNT_TO_CHAR (int n))" "unat (CNT_TO_CHAR (int n)) \<le> 126"
    using b by (simp_all add: c)
  have "verify_data ?d = Some (list_all (\<lambda>b. b = CNT_TO_CHAR (int n)) fill)"
    using verify_data_parts [OF 1 2 4] unfolding 5 .
  with 1 r c show ?thesis by (simp add: webrtc_on_data_def)
qed

theorem verify_data_exact_witness:
  "webrtc_on_data (map byte_of ''Send the 97 th'' @ 10 # replicate 5 36) = Some (0, True) \<and>
   webrtc_on_data (map byte_of ''Send the 97 th'' @ 10 # [36, 36, 37]) = Some (0, False)"
proof -
  have d: "dec_string 97 = ''97''" by (simp add: dec_string.simps) code_simp
  have l: "map byte_of ''Send the 97 th'' = map byte_of ''Send '' @ the_tag @ map byte_of (dec_string 97) @ map byte_of '' th''"
    by (simp add: d the_tag_def)
  have f: "\<forall>j<length (map byte_of ''Send ''). take 4 (drop j (map byte_of ''Send '' @ the_tag)) \<noteq> the_tag"
    by code_simp
  have "webrtc_on_data (map byte_of ''Send the 97 th'' @ 10 # fill) = Some (0, list_all (\<lambda>b. b = CNT_TO_CHAR 97) fill)" for fill
    using verify_data_exact [of "map byte_of ''Send ''" "map byte_of '' th''" 97 fill] f
    unfolding l by (simp add: byte_of_def is_digit_def char_of_byte_def)
  moreover have "CNT_TO_CHAR 97 = 36" by (simp add: CNT_TO_CHAR_def take_bit_eq_mod)
  ultimately show ?thesis by (simp add: list_all_iff)
qed

lemma the_tag_match:
  assumes "take (length the_tag) (drop j d) = the_tag"
  shows "j + 3 < length d \<and> d ! j = 116 \<and> d ! (j + 1) = 104 \<and> d ! (j + 2) = 101 \<and> d ! (j + 3) = 32"
proof -
  have "take 4 (drop j d) = the_tag" using assms by simp
  then have e: "take 4 (drop j d) = [116, 104, 101, 32]" by (simp only: the_tag_bytes)
  then have "length (take 4 (drop j d)) = 4" by simp
  then have l: "j + 3 < length d" by (simp add: min_def split: if_splits)
  have "d ! (j + i) = [116, 104, 101, 32] ! i" if "i < 4" for i
    using l that arg_cong [OF e, of "\<lambda>xs. xs ! i"] by simp
  from this [of 0] this [of 1] this [of 2] this [of 3] l show ?thesis by simp
qed

lemma no_tag_after_line:
  assumes "\<And>j. j < length xs \<Longrightarrow> take (length the_tag) (drop j (xs @ [10])) \<noteq> the_tag"
  shows "take (length the_tag) (drop j (xs @ 10 # replicate m b)) \<noteq> the_tag"
proof
  let ?d = "xs @ 10 # replicate m b"
  assume "take (length the_tag) (drop j ?d) = the_tag"
  note t = the_tag_match [OF this]
  consider "j + 3 \<le> length xs" | "j \<le> length xs" "length xs < j + 3" | "length xs < j" by linarith
  then show False
  proof cases
    case 1
    then have "4 + j - length xs = 0 \<or> 4 + j - length xs = 1" by linarith
    then have "take (length the_tag) (drop j (xs @ [10])) = take (length the_tag) (drop j ?d)"
      using 1 by auto
    with 1 t assms [of j] \<open>take _ (drop j ?d) = the_tag\<close> show ?thesis by auto
  next
    case 2
    then have "length xs = j \<or> length xs = j + 1 \<or> length xs = j + 2" by linarith
    then show ?thesis using t by (auto simp: nth_append)
  next
    case 3
    then have "j - length xs \<noteq> 0" "j - Suc (length xs) < m" "j - length xs < m" using t by auto
    with 3 t have "?d ! j = b" "?d ! (j + 1) = b" by (simp_all add: nth_append nth_Cons')
    with t have "b = 116" "b = 104" by metis+
    then show ?thesis by simp
  qed
qed

lemma stress_frame_short:
  assumes "length str = 8192" "length (stress_line c) \<le> 8190"
  shows "stress_frame str c = Some (map byte_of (stress_line c) @
    replicate (8192 - length (map byte_of (stress_line c))) (CNT_TO_CHAR (send_count c)))"
proof -
  have "overwrite (overwrite str 0 (l @ [0])) (length l) (replicate (8192 - length l) b) =
      l @ replicate (8192 - length l) b" if "length l \<le> 8190" for l and b :: u8
    using that assms(1) by (simp add: overwrite_def)
  from this [of "map byte_of (stress_line c)"] assms show ?thesis by (simp add: stress_frame_def Let_def)
qed

lemma word8_nonzero: "0 < k \<Longrightarrow> k < 256 \<Longrightarrow> (word_of_int k :: u8) \<noteq> 0"
  by (simp add: word_of_int_eq_0_iff zdvd_not_zless)

lemma bytes_nonzero: "CHR 0x00 \<notin> set cs \<Longrightarrow> 0 \<notin> set (map byte_of cs)"
proof
  assume "CHR 0x00 \<notin> set cs" "0 \<in> set (map byte_of cs)"
  then obtain c where "c \<in> set cs" "byte_of c = 0" by auto
  then have "char_of_byte 0 \<in> set cs" using byte_char [of c] by simp
  moreover have "char_of (0 :: nat) = CHR 0x00" by code_simp
  ultimately show False using \<open>CHR 0x00 \<notin> set cs\<close> by (simp add: char_of_byte_def)
qed

lemma dec_string_chars: "c \<in> set (dec_string n) \<Longrightarrow> is_digit c"
  using dec_string_digits [of n] by (simp add: list_all_iff)

text \<open>
  The test data of \<open>data_thread_hdlr\<close> does not fit the check. For a channel whose head line does not
  contain \<open>"the "\<close> by way of its label, the frame it sends makes a peer running the same firmware search
  for \<open>"the "\<close> behind the end of the frame: no byte of the frame is a NUL that would stop the search.
\<close>

theorem stress_data_overreads:
  assumes c: "ch_label c = Some l" "0 \<le> send_count c" "CHR 0x00 \<notin> set l"
    and short: "length (stress_line c) \<le> 8190" "length str = 8192"
    and no_tag: "\<forall>j<length (stress_line c). take 4 (drop j (stress_line c)) \<noteq> ''the ''"
  shows "\<exists>f. stress_frame str c = Some f \<and> length f = 8192 \<and> 0 \<notin> set f \<and> webrtc_on_data f = None"
proof -
  define xs where "xs = map byte_of (butlast (stress_line c))"
  define b where "b = CNT_TO_CHAR (send_count c)"
  let ?line = "map byte_of (stress_line c)"
  have nl: "byte_of (char_of (10 :: nat)) = 10" by (simp add: byte_of_def)
  have line: "?line = xs @ [10]" by (simp add: xs_def stress_line_def butlast_append nl)
  let ?m = "8192 - length ?line"
  let ?f = "xs @ 10 # replicate ?m b"
  have f: "stress_frame str c = Some ?f"
    using stress_frame_short [OF short(2,1)] by (simp only: line b_def append_assoc append_Cons append_Nil)
  have "CHR 0x00 \<notin> set (stress_line c)"
  proof -
    have "CHR 0x00 \<notin> set (dec_string k)" for k
      using dec_string_chars [of "CHR 0x00" k] by (auto simp: is_digit_def)
    moreover have "char_of (10 :: nat) \<noteq> CHR 0x00" by code_simp
    ultimately show ?thesis using c by (auto simp: stress_line_def int_string_def)
  qed
  then have z: "0 \<notin> set (xs @ [10])" using bytes_nonzero line by metis
  have "b \<noteq> 0"
  proof -
    have "take_bit 8 (send_count c) mod 94 + 33 > 0" "take_bit 8 (send_count c) mod 94 + 33 < 256"
      by (simp_all add: pos_mod_bound [THEN less_trans])
    then show ?thesis unfolding b_def CNT_TO_CHAR_def by (rule word8_nonzero)
  qed
  with z have zf: "0 \<notin> set ?f" by (auto simp: set_replicate_conv_if)
  have "take (length the_tag) (drop j ?f) \<noteq> the_tag" for j
  proof (rule no_tag_after_line)
    fix i assume "i < length xs"
    then have "i < length (stress_line c)" using arg_cong [OF line, of length] by simp
    with no_tag have "take 4 (drop i (stress_line c)) \<noteq> ''the ''" by blast
    moreover have "map byte_of cs = map byte_of cs' \<longleftrightarrow> cs = cs'" for cs cs'
      by (rule inj_map_eq_map) (simp add: inj_def byte_of_inj)
    moreover have "take (length the_tag) (drop i (xs @ [10])) = map byte_of (take 4 (drop i (stress_line c)))"
      unfolding line [symmetric] by (simp add: take_map drop_map)
    ultimately show "take (length the_tag) (drop i (xs @ [10])) \<noteq> the_tag"
      unfolding the_tag_def by presburger
  qed
  then have s: "c_strstr the_tag ?f = None" by (intro c_strstr_missing zf)
  have "\<exists>e. c_strchr 10 ?f = Some (Some e)"
  proof -
    have "0 \<notin> set ys \<Longrightarrow> \<exists>e. c_strchr 10 (ys @ 10 # zs) = Some (Some e)" for ys zs :: "u8 list"
      by (induction ys) auto
    with z show ?thesis by simp
  qed
  then have "webrtc_on_data ?f = None" using s by (auto simp: webrtc_on_data_def verify_data_def)
  moreover have "length ?f = 8192" using short(1) arg_cong [OF line, of length] by simp
  ultimately show ?thesis using f zf by blast
qed

theorem stress_data_overreads_witness:
  "\<exists>f. stress_frame (replicate 8192 0) (free_ch\<lparr>ch_used := True, ch_label := Some ''chat''\<rparr>) = Some f \<and>
     length f = 8192 \<and> 0 \<notin> set f \<and> webrtc_on_data f = None"
proof -
  let ?c = "free_ch\<lparr>ch_used := True, ch_label := Some ''chat''\<rparr>"
  have "dec_string 0 = ''0''" by (simp add: dec_string.simps) code_simp
  then have l: "stress_line ?c = ''Send to chat count 0'' @ [char_of (10 :: nat)]"
    by (simp add: stress_line_def free_ch_def int_string_def)
  have "\<forall>j<length (''Send to chat count 0'' @ [char_of (10 :: nat)]).
      take 4 (drop j (''Send to chat count 0'' @ [char_of (10 :: nat)])) \<noteq> ''the ''"
    by (simp add: All_less_Suc2 numeral_eq_Suc)
  moreover have "ch_label ?c = Some ''chat''" "0 \<le> send_count ?c" "CHR 0x00 \<notin> set ''chat''"
    by (simp_all add: free_ch_def)
  moreover have "length (stress_line ?c) \<le> 8190" unfolding l by simp
  moreover have "length (replicate 8192 (0 :: u8)) = 8192" by (rule length_replicate)
  ultimately show ?thesis using stress_data_overreads [of ?c "''chat''" "replicate 8192 0"] unfolding l by blast
qed

end
