(* ===== verification/Webrtc_App.thy ===== *)
theory Webrtc_App
  imports App_Commands Webrtc_Session Rtp_Transform Data_Channels
begin

text \<open>
  The life of the WebRTC session in the P4 application (\<open>main/webrtc.c\<close>): starting and stopping it,
  the event handler, the key monitor and the retry task for the Janus server, in the configuration of
  the repository (\<open>CONFIG_DOORBELL_SIGNALING_JANUS\<close>, no data channel stress test). The global handle
  \<open>webrtc\<close> is \<open>handle\<close>; the state of the command dispatcher is \<open>cmds\<close>, whose \<open>webrtc_open\<close> follows it.

  \<open>ret\<close> gives the codes of external calls as in the session, \<open>net\<close> whether the network is connected,
  \<open>alloc_ok\<close> whether the session could be allocated, \<open>event_ok\<close> whether the event group could be.
\<close>

section \<open>State\<close>

datatype wapp_call = Key_thread | Retry_thread | Signal_url string | Set_rtp_transformer bool bool

record wapp =
  cmds :: app
  handle :: "rtc option"
  monitor_key :: bool
  user_ch :: "user_data_ch list"
  janus_retry_running :: bool
  janus_retry_stop :: bool
  webrtc_connected :: bool
  sender_transformer_ctx :: rtp_transformer_ctx
  receiver_transformer_ctx :: rtp_transformer_ctx
  wapp_calls :: "wapp_call list"
  gone :: "rtc list"

text \<open>\<open>gone\<close> keeps the sessions that have been closed, for the record.\<close>

datatype 'a wapp_result = App_deadlock | App_done 'a wapp

definition zero_ctx :: rtp_transformer_ctx where
  "zero_ctx = \<lparr>frame_count = 0, error_count = 0\<rparr>"

definition wapp_initial :: wapp where
  "wapp_initial = \<lparr>cmds = app_initial, handle = None, monitor_key = False, user_ch = user_ch_initial,
     janus_retry_running = False, janus_retry_stop = False, webrtc_connected = False,
     sender_transformer_ctx = zero_ctx, receiver_transformer_ctx = zero_ctx, wapp_calls = [], gone = []\<rparr>"

definition set_handle :: "rtc option \<Rightarrow> wapp \<Rightarrow> wapp" where
  "set_handle h w = w\<lparr>handle := h, cmds := (cmds w)\<lparr>webrtc_open := (h \<noteq> None)\<rparr>\<rparr>"

definition note_app :: "wapp_call \<Rightarrow> wapp \<Rightarrow> wapp" where
  "note_app c w = w\<lparr>wapp_calls := wapp_calls w @ [c]\<rparr>"

definition WEBRTC_VIDEO_BITRATE_START :: u32 where "WEBRTC_VIDEO_BITRATE_START = 350000"
definition WEBRTC_VIDEO_BITRATE_STABLE :: u32 where "WEBRTC_VIDEO_BITRATE_STABLE = 550000"
definition WEBRTC_AUDIO_BITRATE :: u32 where "WEBRTC_AUDIO_BITRATE = 20000"

lemmas bitrates = WEBRTC_VIDEO_BITRATE_START_def WEBRTC_VIDEO_BITRATE_STABLE_def WEBRTC_AUDIO_BITRATE_def

section \<open>Cleaning up and retrying\<close>

text \<open>\<open>data_running\<close> is never set without the stress test, so that the wait for it is over at once.\<close>

definition cleanup_webrtc_handle :: "rtc_ret \<Rightarrow> rtc_thread \<Rightarrow> wapp \<Rightarrow> unit wapp_result" where
  "cleanup_webrtc_handle ret self w =
     (case handle w of
        None \<Rightarrow> App_done () w
      | Some s \<Rightarrow>
          (case esp_webrtc_close ret self s of
             Deadlock \<Rightarrow> App_deadlock
           | Done r s' \<Rightarrow> App_done () ((set_handle None (w\<lparr>monitor_key := False\<rparr>))\<lparr>gone := gone w @ [s']\<rparr>)))"

definition schedule_janus_retry :: "bool \<Rightarrow> wapp \<Rightarrow> wapp" where
  "schedule_janus_retry net w =
     (if janus_retry_stop w \<or> janus_retry_running w \<or> \<not> net then w else note_app Retry_thread w)"

section \<open>Event handler\<close>

text \<open>
  \<open>setup_rtp_transformers\<close>: both directions are set (first flag: sender) when the peer connection
  exists, with the transformer if it is enabled and without otherwise.
\<close>

definition setup_rtp_transformers :: "bool \<Rightarrow> wapp \<Rightarrow> wapp" where
  "setup_rtp_transformers has_peer w =
     (if has_peer
      then note_app (Set_rtp_transformer False (rtp_transformer_enabled (cmds w)))
             (note_app (Set_rtp_transformer True (rtp_transformer_enabled (cmds w))) w)
      else w)"

definition webrtc_event_handler ::
  "rtc_ret \<Rightarrow> bool \<Rightarrow> rtc_thread \<Rightarrow> webrtc_event \<Rightarrow> wapp \<Rightarrow> int wapp_result" where
  "webrtc_event_handler ret net self ev w =
     (if ev = ESP_WEBRTC_EVENT_CONNECTED then
        (let w1 = w\<lparr>cmds := door_bell_change_state DOOR_BELL_STATE_CONNECTED (cmds w), webrtc_connected := True\<rparr>
         in App_done 0 (case handle w1 of
              None \<Rightarrow> w1
            | Some s \<Rightarrow> set_handle (Some (snd (esp_webrtc_set_audio_bitrate ret WEBRTC_AUDIO_BITRATE
                          (snd (esp_webrtc_set_video_bitrate ret WEBRTC_VIDEO_BITRATE_STABLE s))))) w1))
      else if ev = ESP_WEBRTC_EVENT_CONNECT_FAILED \<or> ev = ESP_WEBRTC_EVENT_DISCONNECTED then
        (let w1 = w\<lparr>cmds := door_bell_change_state DOOR_BELL_STATE_NONE (cmds w), webrtc_connected := False,
                    sender_transformer_ctx := zero_ctx, receiver_transformer_ctx := zero_ctx\<rparr>
         in case cleanup_webrtc_handle ret self w1 of
              App_deadlock \<Rightarrow> App_deadlock
            | App_done _ w2 \<Rightarrow> App_done 0 (schedule_janus_retry net w2))
      else if ev = ESP_WEBRTC_EVENT_PAIRED then
        App_done 0 (setup_rtp_transformers
          (case handle w of None \<Rightarrow> False | Some s \<Rightarrow> esp_webrtc_get_peer_connection s = 0) w)
      else App_done 0 w)"

text \<open>
  The peer connection reports a state in thread \<open>self\<close>: \<open>pc_on_state\<close> of the session, whose last
  action is to call the handler.
\<close>

fun event_of_state :: "peer_state \<Rightarrow> webrtc_event option" where
  "event_of_state ESP_PEER_STATE_CANDIDATE_GATHERING = Some ESP_WEBRTC_EVENT_CONNECTING"
| "event_of_state ESP_PEER_STATE_CONNECTED = Some ESP_WEBRTC_EVENT_CONNECTED"
| "event_of_state ESP_PEER_STATE_PAIRED = Some ESP_WEBRTC_EVENT_PAIRED"
| "event_of_state ESP_PEER_STATE_DISCONNECTED = Some ESP_WEBRTC_EVENT_DISCONNECTED"
| "event_of_state ESP_PEER_STATE_CONNECT_FAILED = Some ESP_WEBRTC_EVENT_CONNECT_FAILED"
| "event_of_state ESP_PEER_STATE_DATA_CHANNEL_CONNECTED = Some ESP_WEBRTC_EVENT_DATA_CHANNEL_CONNECTED"
| "event_of_state ESP_PEER_STATE_DATA_CHANNEL_DISCONNECTED = Some ESP_WEBRTC_EVENT_DATA_CHANNEL_DISCONNECTED"
| "event_of_state ESP_PEER_STATE_DATA_CHANNEL_OPENED = Some ESP_WEBRTC_EVENT_DATA_CHANNEL_OPENED"
| "event_of_state ESP_PEER_STATE_DATA_CHANNEL_CLOSED = Some ESP_WEBRTC_EVENT_DATA_CHANNEL_CLOSED"
| "event_of_state _ = None"

definition on_peer_state :: "rtc_ret \<Rightarrow> bool \<Rightarrow> rtc_thread \<Rightarrow> peer_state \<Rightarrow> wapp \<Rightarrow> int wapp_result" where
  "on_peer_state ret net self st w =
     (case handle w of
        None \<Rightarrow> App_done 0 w
      | Some s \<Rightarrow>
          (case pc_on_state ret passive_app self st s of
             Deadlock \<Rightarrow> App_deadlock
           | Done r s1 \<Rightarrow>
               (let w1 = set_handle (Some s1) w
                in case event_of_state st of
                     None \<Rightarrow> App_done r w1
                   | Some ev \<Rightarrow> if event_handler s then webrtc_event_handler ret net self ev w1 else App_done r w1)))"

section \<open>Starting and stopping\<close>

definition start_cfg :: "nat \<Rightarrow> nat \<Rightarrow> nat \<Rightarrow> bool \<Rightarrow> session_cfg" where
  "start_cfg w h fps opus = \<lparr>
     audio_codec = (if opus then ESP_PEER_AUDIO_CODEC_OPUS else ESP_PEER_AUDIO_CODEC_G711A),
     audio_rate = (if opus then 16000 else 8000), audio_channel = (if opus then 2 else 1),
     video_codec = ESP_PEER_VIDEO_CODEC_H264, video_width = w, video_height = h, video_fps = fps,
     audio_dir = DIR_SEND_ONLY, video_dir = DIR_SEND_ONLY, enable_data_channel = True,
     video_over_data_channel = False, no_auto_reconnect = False, has_on_custom_data = True, has_on_data = True,
     has_on_video_send = False, has_on_channel_open = True, has_on_channel_close = True,
     server_lists = None, server_num = 0\<rparr>"

text \<open>
  \<open>esp_webrtc_start\<close> with a signaling implementation that calls back before it returns: \<open>impl\<close> is what
  it does to the session, while the handle \<open>signaling\<close> is not stored yet. The Janus implementation
  announces itself as the initiator without a STUN server and then reports the connection.
\<close>

definition start_signaling :: "rtc_ret \<Rightarrow> (rtc \<Rightarrow> rtc) \<Rightarrow> rtc \<Rightarrow> int \<times> rtc" where
  "start_signaling ret impl s =
     (case esp_webrtc_start ret s of
        (r, s1) \<Rightarrow> (r, if r = 0 then (impl (s1\<lparr>signaling := False\<rparr>))\<lparr>signaling := True\<rparr> else s1))"

definition janus_ice :: ice_info where
  "janus_ice = \<lparr>info_server = \<lparr>stun_url = None, server_user = None, server_psw = None\<rparr>, info_initiator = True\<rparr>"

definition janus_connects :: "rtc_ret \<Rightarrow> bool \<Rightarrow> rtc \<Rightarrow> rtc" where
  "janus_connects ret event_ok s = snd (signal_connected ret (snd (signal_ice_received ret event_ok janus_ice s)))"

definition wapp_play_tone :: "door_bell_tone \<Rightarrow> wapp \<Rightarrow> wapp" where
  "wapp_play_tone t w = w\<lparr>cmds := play_tone t (cmds w)\<rparr>"

definition start_opened ::
  "rtc_ret \<Rightarrow> bool \<Rightarrow> bool \<Rightarrow> rtc_thread \<Rightarrow> rtc \<Rightarrow> wapp \<Rightarrow> int wapp_result" where
  "start_opened ret net event_ok self s w =
     (let s1 = snd (esp_webrtc_set_media_provider True True s);
          s2 = snd (esp_webrtc_set_video_bitrate ret WEBRTC_VIDEO_BITRATE_START s1);
          s3 = snd (esp_webrtc_set_audio_bitrate ret WEBRTC_AUDIO_BITRATE s2);
          s4 = snd (esp_webrtc_set_event_handler True s3)
      in case esp_webrtc_enable_peer_connection ret event_ok self True s4 of
           Deadlock \<Rightarrow> App_deadlock
         | Done r5 s5 \<Rightarrow>
             (case start_signaling ret (janus_connects ret event_ok) s5 of
                (r, s6) \<Rightarrow>
                  if r \<noteq> 0 then
                    (case cleanup_webrtc_handle ret self (set_handle (Some s6) w) of
                       App_deadlock \<Rightarrow> App_deadlock
                     | App_done _ w1 \<Rightarrow> App_done r (schedule_janus_retry net w1))
                  else
                    (case esp_webrtc_enable_peer_connection ret event_ok self True s6 of
                       Deadlock \<Rightarrow> App_deadlock
                     | Done r7 s7 \<Rightarrow>
                         App_done r (wapp_play_tone DOOR_BELL_TONE_JOIN_SUCCESS (set_handle (Some s7) w)))))"

definition start_webrtc ::
  "rtc_ret \<Rightarrow> bool \<Rightarrow> bool \<Rightarrow> bool \<Rightarrow> session_cfg \<Rightarrow> string \<Rightarrow> rtc_thread \<Rightarrow> string option \<Rightarrow> wapp \<Rightarrow> int wapp_result" where
  "start_webrtc ret net alloc_ok event_ok cfg default_url self url w =
     (if \<not> net then App_done (-1) w
      else let w1 = w\<lparr>janus_retry_stop := False\<rparr> in
        case (if handle w1 \<noteq> None then cleanup_webrtc_handle ret self (w1\<lparr>webrtc_connected := False\<rparr>)
              else App_done () w1) of
          App_deadlock \<Rightarrow> App_deadlock
        | App_done _ w2 \<Rightarrow>
            (let w3 = note_app Key_thread (w2\<lparr>monitor_key := True\<rparr>);
                 signal_url = (case url of None \<Rightarrow> default_url | Some u \<Rightarrow> if u = [] then default_url else u);
                 w4 = note_app (Signal_url signal_url) w3
             in case esp_webrtc_open True alloc_ok True (\<lambda>_. True) cfg of
                  (r, None) \<Rightarrow>
                    (case cleanup_webrtc_handle ret self w4 of
                       App_deadlock \<Rightarrow> App_deadlock
                     | App_done _ w5 \<Rightarrow> App_done r (schedule_janus_retry net w5))
                | (r, Some s) \<Rightarrow> start_opened ret net event_ok self s (set_handle (Some s) w4)))"

definition stop_webrtc :: "rtc_ret \<Rightarrow> rtc_thread \<Rightarrow> wapp \<Rightarrow> int wapp_result" where
  "stop_webrtc ret self w =
     (case cleanup_webrtc_handle ret self (w\<lparr>janus_retry_stop := True, webrtc_connected := False\<rparr>) of
        App_deadlock \<Rightarrow> App_deadlock
      | App_done _ w1 \<Rightarrow> App_done 0 w1)"

definition query_webrtc :: "rtc_ret \<Rightarrow> wapp \<Rightarrow> wapp" where
  "query_webrtc ret w =
     (case handle w of None \<Rightarrow> w | Some s \<Rightarrow> set_handle (Some (snd (esp_webrtc_query ret s))) w)"

definition webrtc_is_running :: "wapp \<Rightarrow> bool" where
  "webrtc_is_running w \<longleftrightarrow> handle w \<noteq> None"

definition webrtc_is_connected :: "wapp \<Rightarrow> bool" where
  "webrtc_is_connected w = webrtc_connected w"

section \<open>Commands and the session\<close>

text \<open>
  The dispatcher records what it asks of the session; here its calls reach the session, in order.
\<close>

definition run_app_call :: "rtc_ret \<Rightarrow> bool \<Rightarrow> rtc_thread \<Rightarrow> app_call \<Rightarrow> rtc \<Rightarrow> int rtc_result" where
  "run_app_call ret event_ok self c s =
     (case c of
        Enable_peer_connection b \<Rightarrow> esp_webrtc_enable_peer_connection ret event_ok self b s
      | Send_custom_data d \<Rightarrow>
          (case esp_webrtc_send_custom_data ret CUSTOM_VIA_SIGNALING (map byte_of d) s of (r, s1) \<Rightarrow> Done r s1)
      | _ \<Rightarrow> Done 0 s)"

fun run_app_calls :: "rtc_ret \<Rightarrow> bool \<Rightarrow> rtc_thread \<Rightarrow> app_call list \<Rightarrow> rtc \<Rightarrow> int rtc_result" where
  "run_app_calls ret event_ok self [] s = Done 0 s"
| "run_app_calls ret event_ok self (c # cs) s =
     (case run_app_call ret event_ok self c s of
        Deadlock \<Rightarrow> Deadlock
      | Done r s1 \<Rightarrow> run_app_calls ret event_ok self cs s1)"

definition with_commands :: "rtc_ret \<Rightarrow> bool \<Rightarrow> rtc_thread \<Rightarrow> (app \<Rightarrow> app) \<Rightarrow> wapp \<Rightarrow> unit wapp_result" where
  "with_commands ret event_ok self f w =
     (let a = f (cmds w);
          new = drop (length (app_calls (cmds w))) (app_calls a);
          w1 = w\<lparr>cmds := a\<rparr>
      in case handle w1 of
           None \<Rightarrow> App_done () w1
         | Some s \<Rightarrow>
             (case run_app_calls ret event_ok self new s of
                Deadlock \<Rightarrow> App_deadlock
              | Done r s1 \<Rightarrow> App_done () (set_handle (Some s1) w1)))"

definition wapp_command ::
  "rtc_ret \<Rightarrow> bool \<Rightarrow> rtc_thread \<Rightarrow> custom_data_via \<Rightarrow> string \<Rightarrow> int \<Rightarrow> wapp \<Rightarrow> unit wapp_result" where
  "wapp_command ret event_ok self via cmd len = with_commands ret event_ok self (door_bell_on_cmd via cmd len)"

definition wapp_send_cmd :: "rtc_ret \<Rightarrow> bool \<Rightarrow> rtc_thread \<Rightarrow> string option \<Rightarrow> wapp \<Rightarrow> unit wapp_result" where
  "wapp_send_cmd ret event_ok self c = with_commands ret event_ok self (send_cmd c)"

section \<open>Tasks\<close>

text \<open>
  One pass of the loop of \<open>janus_retry_task\<close>, in its own thread; the flag tells whether the loop goes on.
  Leaving it clears \<open>janus_retry_running\<close>, which the task sets when it starts.
\<close>

definition janus_retry_begin :: "wapp \<Rightarrow> wapp" where
  "janus_retry_begin w = w\<lparr>janus_retry_running := True\<rparr>"

definition janus_retry_task ::
  "rtc_ret \<Rightarrow> bool \<Rightarrow> bool \<Rightarrow> bool \<Rightarrow> session_cfg \<Rightarrow> string \<Rightarrow> wapp \<Rightarrow> bool wapp_result" where
  "janus_retry_task ret net alloc_ok event_ok cfg default_url w =
     (if janus_retry_stop w \<or> \<not> net then App_done False (w\<lparr>janus_retry_running := False\<rparr>)
      else if handle w = None then
        (case start_webrtc ret net alloc_ok event_ok cfg default_url Other_thread None w of
           App_deadlock \<Rightarrow> App_deadlock
         | App_done r w1 \<Rightarrow>
             if r = 0 then App_done False (w1\<lparr>janus_retry_running := False\<rparr>) else App_done True w1)
      else App_done True w)"

text \<open>
  The key monitor keeps the last and the initial level of the button; one pass reads a level. Pressing
  it sends \<open>"ring"\<close>.
\<close>

record key_state =
  last_level :: int
  init_level :: int

definition key_monitor_begin :: "int \<Rightarrow> key_state" where
  "key_monitor_begin level = \<lparr>last_level = level, init_level = level\<rparr>"

definition key_monitor_thread ::
  "rtc_ret \<Rightarrow> bool \<Rightarrow> int \<Rightarrow> key_state \<Rightarrow> wapp \<Rightarrow> (bool \<times> key_state) wapp_result" where
  "key_monitor_thread ret event_ok level k w =
     (if \<not> monitor_key w then App_done (False, k) w
      else if level \<noteq> last_level k then
        (if level \<noteq> init_level k then
           (case wapp_send_cmd ret event_ok Other_thread (Some ''ring'') w of
              App_deadlock \<Rightarrow> App_deadlock
            | App_done _ w1 \<Rightarrow> App_done (True, k\<lparr>last_level := level\<rparr>) w1)
         else App_done (True, k\<lparr>last_level := level\<rparr>) w)
      else App_done (True, k) w)"

section \<open>The application keeps its invariant\<close>

definition wapp_inv :: "wapp \<Rightarrow> bool" where
  "wapp_inv w \<longleftrightarrow> (webrtc_open (cmds w) \<longleftrightarrow> handle w \<noteq> None) \<and>
     (case handle w of None \<Rightarrow> True | Some s \<Rightarrow> rtc_inv s) \<and>
     list_all (\<lambda>s. all_released s \<and> server_lists (rtc_cfg s) = None \<and> last (rtc_calls s) = Free_rtc) (gone w)"

text \<open>A total step that keeps the invariant.\<close>

definition keeps :: "'a wapp_result \<Rightarrow> bool" where
  "keeps m \<longleftrightarrow> (\<exists>r w. m = App_done r w \<and> wapp_inv w)"

lemma keepsI [intro]: "wapp_inv w \<Longrightarrow> keeps (App_done r w)"
  by (simp add: keeps_def)

lemma keepsE: assumes "keeps m" obtains r w where "m = App_done r w" "wapp_inv w"
  using assms by (auto simp: keeps_def)

lemma wapp_inv_initial: "wapp_inv wapp_initial"
  by (simp add: wapp_inv_def wapp_initial_def app_initial_def)

lemma set_handle_inv [simp]: "wapp_inv w \<Longrightarrow> rtc_inv s \<Longrightarrow> wapp_inv (set_handle (Some s) w)"
  by (simp add: wapp_inv_def set_handle_def)

lemma note_app_inv [simp]: "wapp_inv (note_app c w) = wapp_inv w"
  by (simp add: wapp_inv_def note_app_def)

lemma wapp_fields_inv [simp]:
  "wapp_inv (w\<lparr>monitor_key := b\<rparr>) = wapp_inv w" "wapp_inv (w\<lparr>webrtc_connected := b\<rparr>) = wapp_inv w"
  "wapp_inv (w\<lparr>janus_retry_stop := b\<rparr>) = wapp_inv w" "wapp_inv (w\<lparr>janus_retry_running := b\<rparr>) = wapp_inv w"
  "wapp_inv (w\<lparr>user_ch := chs\<rparr>) = wapp_inv w"
  "wapp_inv (w\<lparr>sender_transformer_ctx := c1, receiver_transformer_ctx := c2\<rparr>) = wapp_inv w"
  by (simp_all add: wapp_inv_def)

lemma door_bell_open [simp]: "webrtc_open (door_bell_change_state st a) = webrtc_open a"
  by (simp add: door_bell_change_state_def app_emit_def Let_def)

lemma cmds_inv: "webrtc_open a = webrtc_open (cmds w) \<Longrightarrow> wapp_inv (w\<lparr>cmds := a\<rparr>) = wapp_inv w"
  by (simp add: wapp_inv_def)

lemma handle_inv: "wapp_inv w \<Longrightarrow> handle w = Some s \<Longrightarrow> rtc_inv s"
  by (simp add: wapp_inv_def)

lemma cleanup_other:
  assumes "wapp_inv w"
  shows "\<exists>w'. cleanup_webrtc_handle ret Other_thread w = App_done () w' \<and> wapp_inv w' \<and> handle w' = None \<and>
    janus_retry_stop w' = janus_retry_stop w \<and> wapp_calls w' = wapp_calls w \<and>
    webrtc_connected w' = webrtc_connected w \<and> monitor_key w' = (monitor_key w \<and> handle w = None)"
proof (cases "handle w")
  case None
  with assms show ?thesis by (simp add: cleanup_webrtc_handle_def)
next
  case (Some s)
  with assms obtain s' where "esp_webrtc_close ret Other_thread s = Done 0 s'" "all_released s'"
    "server_lists (rtc_cfg s') = None" "last (rtc_calls s') = Free_rtc"
    using close_other [of s ret] handle_inv by blast
  with Some assms show ?thesis
    by (simp add: cleanup_webrtc_handle_def wapp_inv_def set_handle_def)
qed

lemma cleanup_keeps: "wapp_inv w \<Longrightarrow> keeps (cleanup_webrtc_handle ret Other_thread w)"
  using cleanup_other [of w ret] by (auto simp: keeps_def)

lemma schedule_inv [simp]: "wapp_inv (schedule_janus_retry net w) = wapp_inv w"
  by (simp add: schedule_janus_retry_def)

lemma set_bitrate_inv [simp]:
  "rtc_inv (snd (esp_webrtc_set_audio_bitrate ret b s)) = rtc_inv s"
  "rtc_inv (snd (esp_webrtc_set_video_bitrate ret b s)) = rtc_inv s"
  by (simp_all add: esp_webrtc_set_audio_bitrate_def esp_webrtc_set_video_bitrate_def)

lemma provider_inv [simp]:
  "rtc_inv (snd (esp_webrtc_set_media_provider c p s)) = rtc_inv s"
  "rtc_inv (snd (esp_webrtc_set_event_handler h s)) = rtc_inv s"
  by (simp_all add: esp_webrtc_set_media_provider_def esp_webrtc_set_event_handler_def rtc_inv_def tasks_joined_def)

text \<open>The handler never blocks outside the peer task, nor in it for events that are not failures.\<close>

definition failure :: "webrtc_event \<Rightarrow> bool" where
  "failure ev \<longleftrightarrow> ev = ESP_WEBRTC_EVENT_CONNECT_FAILED \<or> ev = ESP_WEBRTC_EVENT_DISCONNECTED"

lemma event_handler_keeps:
  assumes "wapp_inv w" "self = Other_thread \<or> \<not> failure ev"
  shows "keeps (webrtc_event_handler ret net self ev w)"
proof (cases "failure ev")
  case True
  let ?w1 = "w\<lparr>cmds := door_bell_change_state DOOR_BELL_STATE_NONE (cmds w), webrtc_connected := False,
     sender_transformer_ctx := zero_ctx, receiver_transformer_ctx := zero_ctx\<rparr>"
  have "wapp_inv ?w1" using assms(1) by (simp add: wapp_inv_def)
  from cleanup_keeps [OF this, of ret] True assms(2) show ?thesis
    by (auto simp: webrtc_event_handler_def failure_def keeps_def Let_def)
next
  case False
  show ?thesis
  proof (cases "ev = ESP_WEBRTC_EVENT_CONNECTED")
    case True
    have "wapp_inv (w\<lparr>cmds := door_bell_change_state DOOR_BELL_STATE_CONNECTED (cmds w), webrtc_connected := True\<rparr>)"
      using assms(1) by (simp add: wapp_inv_def)
    with True handle_inv [OF assms(1)] show ?thesis
      by (auto simp: webrtc_event_handler_def Let_def split: option.split)
  next
    case no: False
    with False assms(1) show ?thesis
      by (auto simp: webrtc_event_handler_def failure_def setup_rtp_transformers_def)
  qed
qed

lemma on_peer_state_keeps:
  assumes "wapp_inv w" "self = Other_thread \<or> (\<forall>ev. event_of_state st = Some ev \<longrightarrow> \<not> failure ev)"
  shows "keeps (on_peer_state ret net self st w)"
proof (cases "handle w")
  case None
  with assms(1) show ?thesis by (auto simp: on_peer_state_def)
next
  case (Some s)
  from pc_on_state_passive [OF handle_inv [OF assms(1) Some], of ret self st] obtain s1 where
    s1: "pc_on_state ret passive_app self st s = Done 0 s1" "rtc_inv s1" by blast
  then have "wapp_inv (set_handle (Some s1) w)" using assms(1) by simp
  with Some s1(1) assms(2) show ?thesis
    by (auto simp: on_peer_state_def Let_def intro: event_handler_keeps split: option.split)
qed
lemma start_signaling_inv: "rtc_inv s \<Longrightarrow> rtc_inv (snd (start_signaling ret (janus_connects ret e) s))"
proof -
  assume i: "rtc_inv s"
  obtain r s1 where s1: "esp_webrtc_start ret s = (r, s1)" by (cases "esp_webrtc_start ret s") simp
  with i have "rtc_inv s1" using start_inv [of ret s] by simp
  then have "rtc_inv (janus_connects ret e (s1\<lparr>signaling := False\<rparr>))"
    by (simp add: janus_connects_def signal_connected_inv ice_received_inv)
  with \<open>rtc_inv s1\<close> s1 show ?thesis by (simp add: start_signaling_def)
qed

lemma start_opened_keeps:
  assumes "wapp_inv w" "rtc_inv s"
  shows "keeps (start_opened ret net e Other_thread s w)"
proof -
  let ?s4 = "snd (esp_webrtc_set_event_handler True (snd (esp_webrtc_set_audio_bitrate ret WEBRTC_AUDIO_BITRATE
    (snd (esp_webrtc_set_video_bitrate ret WEBRTC_VIDEO_BITRATE_START (snd (esp_webrtc_set_media_provider True True s)))))))"
  have "rtc_inv ?s4" using assms(2) by simp
  from enable_other [OF this, of ret e True] obtain r5 s5 where
    s5: "esp_webrtc_enable_peer_connection ret e Other_thread True ?s4 = Done r5 s5" "rtc_inv s5" by blast
  obtain r6 s6 where s6: "start_signaling ret (janus_connects ret e) s5 = (r6, s6)"
    by (cases "start_signaling ret (janus_connects ret e) s5") simp
  with start_signaling_inv [OF s5(2), of ret e] have i6: "rtc_inv s6" by simp
  from enable_other [OF i6, of ret e True] obtain r7 s7 where
    s7: "esp_webrtc_enable_peer_connection ret e Other_thread True s6 = Done r7 s7" "rtc_inv s7" by blast
  have w7: "wapp_inv (wapp_play_tone t (set_handle (Some s7) w))" for t
    using set_handle_inv [OF assms(1) s7(2)] by (simp add: wapp_play_tone_def cmds_inv play_tone_def app_emit_def)
  from cleanup_keeps [OF set_handle_inv [OF assms(1) i6], of ret] s5(1) s6 s7(1) w7 show ?thesis
    by (auto simp: start_opened_def keeps_def Let_def)
qed

lemma start_webrtc_keeps:
  assumes "wapp_inv w"
  shows "keeps (start_webrtc ret net a e cfg d Other_thread url w)"
proof (cases net)
  case False
  with assms show ?thesis by (auto simp: start_webrtc_def)
next
  case True
  let ?w1 = "w\<lparr>janus_retry_stop := False\<rparr>"
  let ?m = "if handle ?w1 \<noteq> None then cleanup_webrtc_handle ret Other_thread (?w1\<lparr>webrtc_connected := False\<rparr>)
     else App_done () ?w1"
  have "wapp_inv (?w1\<lparr>webrtc_connected := False\<rparr>)" "wapp_inv ?w1" using assms by simp_all
  with cleanup_keeps [of "?w1\<lparr>webrtc_connected := False\<rparr>" ret] have "keeps ?m" by auto
  then obtain u w2 where w2: "?m = App_done u w2" "wapp_inv w2" by (rule keepsE)
  let ?url = "case url of None \<Rightarrow> d | Some u \<Rightarrow> if u = [] then d else u"
  let ?w4 = "note_app (Signal_url ?url) (note_app Key_thread (w2\<lparr>monitor_key := True\<rparr>))"
  have w4: "wapp_inv ?w4" using w2(2) by simp
  obtain r so where so: "esp_webrtc_open True a True (\<lambda>_. True) cfg = (r, so)"
    by (cases "esp_webrtc_open True a True (\<lambda>_. True) cfg") simp
  show ?thesis
  proof (cases so)
    case None
    with cleanup_keeps [OF w4, of ret] True w2(1) so show ?thesis
      by (auto simp: start_webrtc_def keeps_def Let_def)
  next
    case (Some s)
    then have "r = 0" using so by (auto simp: esp_webrtc_open_def split: if_splits)
    with so Some have "rtc_inv s" using open_inv by blast
    then have "keeps (start_opened ret net e Other_thread s (set_handle (Some s) ?w4))"
      using w4 by (intro start_opened_keeps set_handle_inv) simp_all
    with Some True w2(1) so show ?thesis by (simp add: start_webrtc_def Let_def)
  qed
qed

lemma stop_webrtc_keeps: "wapp_inv w \<Longrightarrow> keeps (stop_webrtc ret Other_thread w)"
  using cleanup_keeps [of "w\<lparr>janus_retry_stop := True, webrtc_connected := False\<rparr>" ret]
  by (auto simp: stop_webrtc_def keeps_def wapp_inv_def)

lemma run_app_calls_other:
  "rtc_inv s \<Longrightarrow> \<exists>r s'. run_app_calls ret e Other_thread cs s = Done r s' \<and> rtc_inv s'"
proof (induction cs arbitrary: s)
  case Nil
  then show ?case by simp
next
  case (Cons c cs)
  have "\<exists>r s1. run_app_call ret e Other_thread c s = Done r s1 \<and> rtc_inv s1"
  proof (cases c)
    case (Send_custom_data d)
    then show ?thesis
      using Cons.prems esp_query_inv [of ret CUSTOM_VIA_SIGNALING "map byte_of d" s]
      by (cases "esp_webrtc_send_custom_data ret CUSTOM_VIA_SIGNALING (map byte_of d) s") (simp add: run_app_call_def)
  qed (use Cons.prems enable_other [OF Cons.prems] in \<open>auto simp: run_app_call_def\<close>)
  then obtain r s1 where "run_app_call ret e Other_thread c s = Done r s1" "rtc_inv s1" by blast
  with Cons.IH show ?case by simp
qed

lemma with_commands_keeps:
  assumes "wapp_inv w" "webrtc_open (f (cmds w)) = webrtc_open (cmds w)"
  shows "keeps (with_commands ret e Other_thread f w)"
proof (cases "handle w")
  case None
  with assms show ?thesis by (auto simp: with_commands_def cmds_inv Let_def)
next
  case (Some s)
  let ?new = "drop (length (app_calls (cmds w))) (app_calls (f (cmds w)))"
  obtain r s1 where "run_app_calls ret e Other_thread ?new s = Done r s1" "rtc_inv s1"
    using run_app_calls_other [OF handle_inv [OF assms(1) Some]] by blast
  with Some assms show ?thesis by (auto simp: with_commands_def cmds_inv Let_def)
qed

lemma process_open [simp]:
  "webrtc_open (snd (ProcessServoCommand c a)) = webrtc_open a" "webrtc_open (snd (ProcessMoveCommand c a)) = webrtc_open a"
  "webrtc_open (snd (ProcessServoConfigCommand c a)) = webrtc_open a"
  "webrtc_open (snd (ProcessMoveConfigCommand c a)) = webrtc_open a"
  "webrtc_open (door_bell_command c a) = webrtc_open a"
  by (simp_all add: ProcessServoCommand_def ProcessMoveCommand_def ProcessServoConfigCommand_def
      ProcessMoveConfigCommand_def door_bell_command_def play_tone_def send_can_def app_emit_def Let_def)

lemma handled_open:
  "\<lbrakk>webrtc_open (snd p) = b; webrtc_open f = b\<rbrakk> \<Longrightarrow>
   webrtc_open (case p of (True, a1) \<Rightarrow> a1 | (False, _) \<Rightarrow> f) = b"
  by (auto split: prod.split bool.split)

lemma commands_open [simp]:
  "webrtc_open (door_bell_on_cmd via c len a) = webrtc_open a" "webrtc_open (send_cmd co a) = webrtc_open a"
proof -
  show "webrtc_open (door_bell_on_cmd via c len a) = webrtc_open a"
    unfolding door_bell_on_cmd_def by (auto intro!: handled_open)
  have "webrtc_open (if SAME_STR c ''ring'' then (let a1 = app_emit (Send_custom_data ''RING'') a
       in if door_bell a1 < DOOR_BELL_STATE_CONNECTING
          then play_tone DOOR_BELL_TONE_RING (a1\<lparr>door_bell := DOOR_BELL_STATE_RINGING\<rparr>) else a1) else a) = webrtc_open a" for c
    by (simp add: play_tone_def app_emit_def Let_def)
  then show "webrtc_open (send_cmd co a) = webrtc_open a"
    unfolding send_cmd_def by (cases co) (auto intro!: handled_open)
qed

section \<open>The application as a machine\<close>

text \<open>\<open>net\<close> and the success of the allocations are chosen by the environment for each event.\<close>

datatype wapp_event =
    Start_webrtc bool bool bool "string option"
  | Stop_webrtc
  | Query_webrtc
  | Peer_state_event rtc_thread peer_state bool
  | Session_event session_event
  | Command custom_data_via string int
  | Console_command "string option"
  | Retry_begin
  | Retry_pass bool bool bool
  | Key_pass key_state int
  | Channel_opened "string option" u16
  | Channel_closed u16

fun app_state :: "'a wapp_result \<Rightarrow> wapp option" where
  "app_state App_deadlock = None"
| "app_state (App_done r w) = Some w"

fun wapp_step :: "rtc_ret \<Rightarrow> session_cfg \<Rightarrow> string \<Rightarrow> wapp \<Rightarrow> wapp_event \<Rightarrow> wapp option" where
  "wapp_step ret cfg d w (Start_webrtc net a e url) = app_state (start_webrtc ret net a e cfg d Other_thread url w)"
| "wapp_step ret cfg d w Stop_webrtc = app_state (stop_webrtc ret Other_thread w)"
| "wapp_step ret cfg d w Query_webrtc = Some (query_webrtc ret w)"
| "wapp_step ret cfg d w (Peer_state_event self st net) = app_state (on_peer_state ret net self st w)"
| "wapp_step ret cfg d w (Session_event ev) =
     (case handle w of None \<Rightarrow> Some w
      | Some s \<Rightarrow> session_step ret s ev \<bind> (\<lambda>s'. Some (set_handle (Some s') w)))"
| "wapp_step ret cfg d w (Command via c len) = app_state (wapp_command ret True Other_thread via c len w)"
| "wapp_step ret cfg d w (Console_command c) = app_state (wapp_send_cmd ret True Other_thread c w)"
| "wapp_step ret cfg d w Retry_begin = Some (janus_retry_begin w)"
| "wapp_step ret cfg d w (Retry_pass net a e) = app_state (janus_retry_task ret net a e cfg d w)"
| "wapp_step ret cfg d w (Key_pass k level) = app_state (key_monitor_thread ret True level k w)"
| "wapp_step ret cfg d w (Channel_opened label stream) =
     Some (w\<lparr>user_ch := snd (webrtc_data_channel_opened True label stream (user_ch w))\<rparr>)"
| "wapp_step ret cfg d w (Channel_closed stream) =
     Some (w\<lparr>user_ch := snd (webrtc_data_channel_closed stream (user_ch w))\<rparr>)"

text \<open>The peer task does not report a failure.\<close>

fun no_failure_in_peer_task :: "wapp_event \<Rightarrow> bool" where
  "no_failure_in_peer_task (Peer_state_event self st net) =
     (self = Other_thread \<or> st \<noteq> ESP_PEER_STATE_DISCONNECTED \<and> st \<noteq> ESP_PEER_STATE_CONNECT_FAILED)"
| "no_failure_in_peer_task (Session_event ev) = (case ev of Peer_state_changed st \<Rightarrow> False | _ \<Rightarrow> True)"
| "no_failure_in_peer_task _ = True"

lemma app_state_keeps: "keeps m \<Longrightarrow> \<exists>w. app_state m = Some w \<and> wapp_inv w"
  by (auto simp: keeps_def)

lemma janus_retry_keeps: "wapp_inv w \<Longrightarrow> keeps (janus_retry_task ret net a e cfg d w)"
  using start_webrtc_keeps [of w ret net a e cfg d None]
  by (auto simp: janus_retry_task_def keeps_def)

lemma key_monitor_keeps: "wapp_inv w \<Longrightarrow> keeps (key_monitor_thread ret e level k w)"
  using with_commands_keeps [of w "send_cmd (Some ''ring'')" ret e]
  by (auto simp: key_monitor_thread_def wapp_send_cmd_def keeps_def)

lemma event_of_state_failure:
  "st \<noteq> ESP_PEER_STATE_DISCONNECTED \<and> st \<noteq> ESP_PEER_STATE_CONNECT_FAILED \<Longrightarrow> event_of_state st = Some ev \<Longrightarrow> \<not> failure ev"
  by (cases st) (auto simp: failure_def)

lemma wapp_step_total:
  assumes i: "wapp_inv w" and ok: "no_failure_in_peer_task ev"
  shows "\<exists>w'. wapp_step ret cfg d w ev = Some w' \<and> wapp_inv w'"
proof (cases ev)
  case (Query_webrtc)
  with i handle_inv [OF i] show ?thesis
    by (auto simp: query_webrtc_def query_inv split: option.split)
next
  case (Peer_state_event self st net)
  with ok have "self = Other_thread \<or> (\<forall>ev. event_of_state st = Some ev \<longrightarrow> \<not> failure ev)"
    using event_of_state_failure by auto
  with Peer_state_event app_state_keeps [OF on_peer_state_keeps [OF i]] show ?thesis by simp
next
  case (Session_event e)
  show ?thesis
  proof (cases "handle w")
    case None
    with Session_event i show ?thesis by simp
  next
    case (Some s)
    with session_step_total [OF handle_inv [OF i Some], of ret e] Session_event i show ?thesis by auto
  qed
qed (use i in \<open>simp_all add: app_state_keeps start_webrtc_keeps stop_webrtc_keeps janus_retry_keeps key_monitor_keeps
      wapp_command_def wapp_send_cmd_def with_commands_keeps janus_retry_begin_def\<close>)

text \<open>In the peer task the same happens as elsewhere, or the task waits for itself.\<close>

lemma pc_close_self_or_other: "pc_close ret self s = Deadlock \<or> pc_close ret self s = pc_close ret Other_thread s"
  by (cases self) (auto simp: pc_close_def Let_def)

lemma cleanup_self_or_other:
  "cleanup_webrtc_handle ret self w = App_deadlock \<or>
   cleanup_webrtc_handle ret self w = cleanup_webrtc_handle ret Other_thread w"
proof (cases "handle w")
  case None
  then show ?thesis by (simp add: cleanup_webrtc_handle_def)
next
  case (Some s)
  with pc_close_self_or_other [of ret self "snd (stop_stream s)"] show ?thesis
    by (auto simp: cleanup_webrtc_handle_def esp_webrtc_close_def esp_webrtc_stop_def)
qed

lemma event_handler_self_or_other:
  "webrtc_event_handler ret net self ev w = App_deadlock \<or>
   webrtc_event_handler ret net self ev w = webrtc_event_handler ret net Other_thread ev w"
proof -
  let ?w1 = "w\<lparr>cmds := door_bell_change_state DOOR_BELL_STATE_NONE (cmds w), webrtc_connected := False,
     sender_transformer_ctx := zero_ctx, receiver_transformer_ctx := zero_ctx\<rparr>"
  from cleanup_self_or_other [of ret self ?w1] show ?thesis
    by (auto simp: webrtc_event_handler_def Let_def)
qed

lemma pc_on_state_any_thread: "pc_on_state ret passive_app self st s = pc_on_state ret passive_app Other_thread st s"
  by (cases st) (simp_all add: pc_on_state_def notify_passive Let_def)

lemma on_peer_state_self_or_other:
  "on_peer_state ret net self st w = App_deadlock \<or> on_peer_state ret net self st w = on_peer_state ret net Other_thread st w"
proof (cases "handle w")
  case None
  then show ?thesis by (simp add: on_peer_state_def)
next
  case (Some s)
  show ?thesis
  proof (cases "pc_on_state ret passive_app Other_thread st s")
    case Deadlock
    with Some pc_on_state_any_thread [of ret self st s] show ?thesis by (simp add: on_peer_state_def)
  next
    case (Done r s1)
    with Some pc_on_state_any_thread [of ret self st s] show ?thesis
      using event_handler_self_or_other [of ret net self _ "set_handle (Some s1) w"]
      by (auto simp: on_peer_state_def Let_def split: option.split)
  qed
qed

lemma wapp_step_inv: "wapp_inv w \<Longrightarrow> wapp_step ret cfg d w ev = Some w' \<Longrightarrow> wapp_inv w'"
proof (cases "no_failure_in_peer_task ev")
  case True
  assume "wapp_inv w" "wapp_step ret cfg d w ev = Some w'"
  with wapp_step_total [OF _ True, of w ret cfg d] show ?thesis by auto
next
  case False
  assume i: "wapp_inv w" and w': "wapp_step ret cfg d w ev = Some w'"
  show ?thesis
  proof (cases ev)
    case (Peer_state_event self st net)
    from on_peer_state_keeps [OF i, of Other_thread st ret net] obtain r w2 where
      "on_peer_state ret net Other_thread st w = App_done r w2" "wapp_inv w2" by (auto simp: keeps_def)
    with Peer_state_event w' on_peer_state_self_or_other [of ret net self st w] show ?thesis by auto
  next
    case (Session_event e)
    show ?thesis
    proof (cases "handle w")
      case (Some s)
      with session_step_total [OF handle_inv [OF i Some], of ret e] Session_event w' i show ?thesis by auto
    qed (use Session_event w' i in simp)
  qed (use False in simp_all)
qed

interpretation web_app: event_machine "wapp_step ret cfg d" wapp_inv no_failure_in_peer_task for ret cfg d
proof unfold_locales
  show "wapp_inv w'" if "wapp_inv w" "wapp_step ret cfg d w e = Some w'" for w e w'
    using wapp_step_inv that by blast
  show "\<exists>w'. wapp_step ret cfg d w e = Some w'" if "wapp_inv w" "no_failure_in_peer_task e" for w e
    using wapp_step_total that by blast
qed
section \<open>Properties\<close>


definition all_ok :: rtc_ret where
  "all_ok = (\<lambda>_ _. 0)"

definition demo_start :: session_cfg where
  "demo_start = start_cfg 1280 720 25 True"


text \<open>
  C39. When the peer task itself reports that the connection failed or was lost, as the comment
  ``Run in mainloop task'' in \<open>pc_on_state\<close> says it does, the application hangs: the event handler closes the
  session, and closing waits for the very task it runs in. The retry it was to schedule is never
  created. From any other thread the same report releases the session, resets the door bell and
  schedules the retry.
\<close>

theorem failure_in_peer_task_deadlocks:
  assumes "handle w = Some s" "pc s" "running s" "event_handler s"
    and "st = ESP_PEER_STATE_DISCONNECTED \<or> st = ESP_PEER_STATE_CONNECT_FAILED"
    and "wapp_inv w" "\<not> janus_retry_stop w" "\<not> janus_retry_running w"
  shows "on_peer_state ret net Pc_task st w = App_deadlock \<and>
    (\<exists>w'. on_peer_state ret True Other_thread st w = App_done 0 w' \<and> handle w' = None \<and>
       door_bell (cmds w') = DOOR_BELL_STATE_NONE \<and> \<not> webrtc_connected w' \<and> \<not> monitor_key w' \<and>
       wapp_calls w' = wapp_calls w @ [Retry_thread])"
proof -
  obtain ev where ev: "event_of_state st = Some ev" "failure ev"
    using assms(5) by (auto simp: failure_def)
  obtain s1 where s1: "pc_on_state ret passive_app self st s = Done 0 s1" "rtc_inv s1" "pc s1" "running s1" for self
  proof -
    from pc_on_state_passive [OF handle_inv [OF assms(6,1)], of ret Pc_task st] obtain s1 where
      s1: "pc_on_state ret passive_app Pc_task st s = Done 0 s1" "rtc_inv s1" by blast
    moreover from s1(1) assms(2,3,5) have "pc s1" "running s1"
      by (auto simp: pc_on_state_def notify_passive data_channel_state_def Let_def)
    ultimately show thesis using that pc_on_state_any_thread [of ret Pc_task] pc_on_state_any_thread [of ret Other_thread]
      by (metis pc_on_state_any_thread)
  qed
  let ?w1 = "set_handle (Some s1) w"
  let ?w2 = "?w1\<lparr>cmds := door_bell_change_state DOOR_BELL_STATE_NONE (cmds ?w1), webrtc_connected := False,
     sender_transformer_ctx := zero_ctx, receiver_transformer_ctx := zero_ctx\<rparr>"
  have "wapp_inv ?w1" using assms(6) s1(2) by simp
  then have i2: "wapp_inv ?w2" by (simp add: wapp_inv_def)
  have "pc_close ret Pc_task (snd (stop_stream s1)) = Deadlock"
    using s1(3,4) by (intro pc_close_self) simp_all
  then have "cleanup_webrtc_handle ret Pc_task ?w2 = App_deadlock"
    by (simp add: cleanup_webrtc_handle_def set_handle_def esp_webrtc_close_def esp_webrtc_stop_def)
  then have 1: "on_peer_state ret net Pc_task st w = App_deadlock"
    using assms(1,4) s1(1) ev by (auto simp: on_peer_state_def webrtc_event_handler_def failure_def Let_def)
  from cleanup_other [OF i2, of ret] obtain w3 where
    w3: "cleanup_webrtc_handle ret Other_thread ?w2 = App_done () w3" "handle w3 = None"
    "janus_retry_stop w3 = janus_retry_stop w" "wapp_calls w3 = wapp_calls w" "\<not> webrtc_connected w3" "\<not> monitor_key w3"
    by (auto simp: set_handle_def)
  have "door_bell (cmds w3) = DOOR_BELL_STATE_NONE" "janus_retry_running w3 = janus_retry_running w"
    using w3(1) by (auto simp: cleanup_webrtc_handle_def set_handle_def door_bell_change_state_def app_emit_def
        split: option.splits rtc_result.splits)
  moreover have "on_peer_state ret True Other_thread st w = App_done 0 (schedule_janus_retry True w3)"
    using assms(1,4) s1(1) ev w3(1) by (auto simp: on_peer_state_def webrtc_event_handler_def failure_def Let_def)
  ultimately show ?thesis
    using 1 w3 assms(7,8) by (simp add: schedule_janus_retry_def note_app_def)
qed

definition demo_running :: rtc where
  "demo_running = (fresh_rtc demo_start)\<lparr>pc := True, running := True, wait_event := True, event_handler := True,
     send_going := True, signaling := True, rtc_calls := [Create_pc_task]\<rparr>"

theorem failure_in_peer_task_deadlocks_witness:
  "on_peer_state all_ok True Pc_task ESP_PEER_STATE_DISCONNECTED (set_handle (Some demo_running) wapp_initial) =
     App_deadlock"
proof -
  let ?w = "set_handle (Some demo_running) wapp_initial"
  have r: "pc demo_running" "running demo_running" "event_handler demo_running" "rtc_inv demo_running"
    by (simp_all add: demo_running_def fresh_rtc_def rtc_inv_def tasks_joined_def)
  have "handle ?w = Some demo_running" "wapp_inv ?w" "\<not> janus_retry_stop ?w" "\<not> janus_retry_running ?w"
    using wapp_inv_initial r(4) by (simp_all add: set_handle_def wapp_inv_def wapp_initial_def)
  with failure_in_peer_task_deadlocks [of ?w demo_running ESP_PEER_STATE_DISCONNECTED all_ok True] r(1-3)
  show ?thesis by simp
qed

text \<open>
  C36. A start that meets no error brings the application up: the exact calls, in order, are to start
  the signaling, which announces the device as the initiator and opens the peer connection with
  automatic reconnection, to create the peer task, to set up the capture sink with the start bit rates
  before it is enabled, and to request the connection. It is requested twice, once by the signaling's
  report and once by the second \<open>esp_webrtc_enable_peer_connection\<close>. The key monitor is created, the
  given URL is used, or the configured one if none is given, and the join tone is played.
\<close>

theorem start_webrtc_connects:
  assumes "handle w = None" "\<And>n c. ret n c = 0"
  shows "\<exists>s. start_webrtc ret True True True (start_cfg width height fps opus) d Other_thread url w =
      App_done 0 (w\<lparr>handle := Some s, janus_retry_stop := False, monitor_key := True,
         cmds := play_tone DOOR_BELL_TONE_JOIN_SUCCESS ((cmds w)\<lparr>webrtc_open := True\<rparr>),
         wapp_calls := wapp_calls w @ [Key_thread,
           Signal_url (case url of None \<Rightarrow> d | Some u \<Rightarrow> if u = [] then d else u)]\<rparr>) \<and>
     rtc_calls s = [Signaling_start, Peer_open ESP_PEER_ROLE_CONTROLLING [] True, Event_create, Create_pc_task,
       Capture_sink_setup (sink_of (start_cfg width height fps opus)),
       Capture_set_bitrate STREAM_AUDIO WEBRTC_AUDIO_BITRATE,
       Capture_set_bitrate STREAM_VIDEO WEBRTC_VIDEO_BITRATE_START, Capture_sink_always,
       Peer_new_connection, Peer_new_connection] \<and>
     pc s \<and> running s \<and> \<not> pause s \<and> signaling s \<and> signaling_connected s \<and> event_handler s \<and> \<not> play_handle s"
  using assms
  by (cases w; cases "cmds w") (auto simp: start_webrtc_def esp_webrtc_open_def malloc_server_cfg_def start_cfg_def start_opened_def
      esp_webrtc_set_media_provider_def esp_webrtc_set_video_bitrate_def esp_webrtc_set_audio_bitrate_def
      pc_apply_capture_pre_setting_def esp_webrtc_set_event_handler_def esp_webrtc_enable_peer_connection_def
      start_signaling_def esp_webrtc_start_def janus_connects_def janus_ice_def signal_ice_received_def
      start_peer_connection_def pc_start_def signal_connected_def peer_calls peer_call_def call_ext_def
      resume_loop_def fresh_rtc_def sink_of_def Let_def note_call_def set_handle_def note_app_def
      wapp_play_tone_def play_tone_def app_emit_def)

theorem start_webrtc_connects_witness:
  "\<exists>s w'. start_webrtc all_ok True True True (start_cfg 1280 720 25 True) ''http://j'' Other_thread (Some ''u'') wapp_initial =
     App_done 0 w' \<and> handle w' = Some s \<and> pc s \<and> running s \<and> wapp_calls w' = [Key_thread, Signal_url ''u'']"
  using start_webrtc_connects [of wapp_initial all_ok 1280 720 25 True "''http://j''" "Some ''u''"]
  by (auto simp: wapp_initial_def all_ok_def)

definition restarts :: "wapp_event \<Rightarrow> bool" where
  "restarts ev \<longleftrightarrow> (case ev of Start_webrtc _ _ _ _ \<Rightarrow> True | _ \<Rightarrow> False)"

definition stopped :: "wapp \<Rightarrow> bool" where
  "stopped w \<longleftrightarrow> handle w = None \<and> janus_retry_stop w"

lemma stopped_step:
  assumes "stopped w" "\<not> restarts ev" "wapp_step ret cfg d w ev = Some w'"
  shows "stopped w' \<and> wapp_calls w' = wapp_calls w \<and> gone w' = gone w"
  using assms
  by (cases ev) (auto simp: stopped_def restarts_def stop_webrtc_def cleanup_webrtc_handle_def query_webrtc_def
      on_peer_state_def wapp_command_def wapp_send_cmd_def with_commands_def janus_retry_begin_def
      janus_retry_task_def key_monitor_thread_def Let_def split: if_splits)

lemma stopped_run:
  "stopped w \<Longrightarrow> list_all (\<lambda>ev. \<not> restarts ev) evs \<Longrightarrow> run_events (wapp_step ret cfg d) w evs = Some w' \<Longrightarrow>
   stopped w' \<and> wapp_calls w' = wapp_calls w \<and> gone w' = gone w"
proof (induction evs arbitrary: w)
  case Nil
  then show ?case by simp
next
  case (Cons ev evs)
  then obtain w1 where w1: "wapp_step ret cfg d w ev = Some w1" "run_events (wapp_step ret cfg d) w1 evs = Some w'"
    by (auto split: Option.bind_splits)
  from Cons.prems have n: "\<not> restarts ev" "list_all (\<lambda>ev. \<not> restarts ev) evs" by simp_all
  note s = stopped_step [OF Cons.prems(1) n(1) w1(1)]
  from Cons.IH [OF conjunct1 [OF s] n(2) w1(2)] s show ?case by simp
qed

text \<open>
  Stopping is final. After \<open>stop_webrtc\<close>, and until \<open>start_webrtc\<close> is called again, no event of any
  kind, a pass of a retry task that is still alive included, brings a session or a retry task back.
\<close>

theorem stop_webrtc_is_final:
  assumes "wapp_inv w" "list_all (\<lambda>ev. \<not> restarts ev \<and> no_failure_in_peer_task ev) evs"
  shows "\<exists>w1 w2. stop_webrtc ret Other_thread w = App_done 0 w1 \<and>
    run_events (wapp_step ret cfg d) w1 evs = Some w2 \<and>
    \<not> webrtc_is_running w2 \<and> wapp_calls w2 = wapp_calls w1 \<and> gone w2 = gone w1"
proof -
  let ?w = "w\<lparr>janus_retry_stop := True, webrtc_connected := False\<rparr>"
  have "wapp_inv ?w" using assms(1) by (simp add: wapp_inv_def)
  from cleanup_other [OF this, of ret] obtain w1 where w1:
    "cleanup_webrtc_handle ret Other_thread ?w = App_done () w1" "wapp_inv w1" "handle w1 = None" "janus_retry_stop w1"
    by auto
  have l: "list_all no_failure_in_peer_task evs" "list_all (\<lambda>ev. \<not> restarts ev) evs"
    using assms(2) by (auto simp: list_all_iff)
  from web_app.run_total [OF w1(2) l(1), of ret cfg d] obtain w2 where
    w2: "run_events (wapp_step ret cfg d) w1 evs = Some w2" by blast
  have "stopped w1" using w1(3,4) by (simp add: stopped_def)
  from stopped_run [OF this l(2) w2] w1(1) w2 show ?thesis
    by (auto simp: stop_webrtc_def stopped_def webrtc_is_running_def)
qed

theorem stop_webrtc_is_final_witness:
  "\<exists>w1 w2. stop_webrtc all_ok Other_thread (set_handle (Some demo_running) wapp_initial) = App_done 0 w1 \<and>
    run_events (wapp_step all_ok demo_start ''j'') w1 [Retry_begin, Retry_pass True True True,
      Peer_state_event Other_thread ESP_PEER_STATE_DISCONNECTED True, Console_command (Some ''ring'')] = Some w2 \<and>
    \<not> webrtc_is_running w2"
proof -
  have "wapp_inv (set_handle (Some demo_running) wapp_initial)"
    using wapp_inv_initial by (simp add: demo_running_def fresh_rtc_def rtc_inv_def tasks_joined_def)
  from stop_webrtc_is_final [OF this, of "[Retry_begin, Retry_pass True True True,
      Peer_state_event Other_thread ESP_PEER_STATE_DISCONNECTED True, Console_command (Some ''ring'')]" all_ok demo_start "''j''"]
  show ?thesis by (fastforce simp: restarts_def)
qed

text \<open>
  A failed start leaks the key monitor. When \<open>esp_webrtc_open\<close> fails, the monitor has been created
  already and \<open>monitor_key\<close> stays set, because cleaning up without a handle does nothing; stopping does
  not end it either: although nothing runs any more, the next press of the button rings.
\<close>

theorem failed_start_leaks_key_monitor:
  assumes "handle w = None"
  shows "\<exists>w1 w2. start_webrtc ret True False e cfg d self url w = App_done ESP_PEER_ERR_NO_MEM w1 \<and>
    stop_webrtc ret self w1 = App_done 0 w2 \<and> monitor_key w2 \<and> Key_thread \<in> set (wapp_calls w2) \<and>
    (\<exists>w3. key_monitor_thread ret e 1 (key_monitor_begin 0) w2 = App_done (True, \<lparr>last_level = 1, init_level = 0\<rparr>) w3 \<and>
       Send_custom_data ''RING'' \<in> set (app_calls (cmds w3)))"
proof -
  have r: "SAME_STR ''ring'' ''ring''" "ProcessServoConfigCommand ''ring'' a = (False, a)"
    "ProcessServoCommand ''ring'' a = (False, a)" "ProcessMoveCommand ''ring'' a = (False, a)" for a
    by (simp_all add: SAME_STR_def ProcessServoConfigCommand_def ProcessServoCommand_def ProcessMoveCommand_def
        is_cmd_def strncmp_eq_def)
  let ?u = "case url of None \<Rightarrow> d | Some u \<Rightarrow> if u = [] then d else u"
  let ?w0 = "note_app (Signal_url ?u) (note_app Key_thread (w\<lparr>janus_retry_stop := False, monitor_key := True\<rparr>))"
  let ?w1 = "schedule_janus_retry True ?w0"
  let ?w2 = "?w1\<lparr>janus_retry_stop := True, webrtc_connected := False\<rparr>"
  have h: "handle ?w1 = None" "monitor_key ?w1" "Key_thread \<in> set (wapp_calls ?w1)"
    using assms by (simp_all add: schedule_janus_retry_def note_app_def)
  have 1: "start_webrtc ret True False e cfg d self url w = App_done ESP_PEER_ERR_NO_MEM ?w1"
    using assms by (simp add: start_webrtc_def esp_webrtc_open_def cleanup_webrtc_handle_def note_app_def Let_def)
  have 2: "stop_webrtc ret self ?w1 = App_done 0 ?w2"
    using h(1) by (simp add: stop_webrtc_def cleanup_webrtc_handle_def)
  have "\<exists>w3. key_monitor_thread ret e 1 (key_monitor_begin 0) ?w2 = App_done (True, \<lparr>last_level = 1, init_level = 0\<rparr>) w3 \<and>
       Send_custom_data ''RING'' \<in> set (app_calls (cmds w3))"
    using h by (simp add: key_monitor_thread_def key_monitor_begin_def wapp_send_cmd_def with_commands_def send_cmd_def r
        app_emit_def play_tone_def Let_def)
  with 1 2 h show ?thesis by (auto simp: app_emit_def)
qed

theorem failed_start_leaks_key_monitor_witness:
  "\<exists>w1 w2. start_webrtc all_ok True False True demo_start ''j'' Other_thread None wapp_initial =
      App_done ESP_PEER_ERR_NO_MEM w1 \<and>
    stop_webrtc all_ok Other_thread w1 = App_done 0 w2 \<and> monitor_key w2"
proof -
  have "handle wapp_initial = None" by (simp add: wapp_initial_def)
  from failed_start_leaks_key_monitor [OF this, of all_ok True demo_start "''j''" Other_thread None] show ?thesis by blast
qed

end
