(* ===== verification/Mqtt_Bridge.thy ===== *)
theory Mqtt_Bridge
  imports Esp_Prelude
begin

text \<open>
  The MQTT bridge of the P4 firmware (\<open>main/mqtt_bridge.c\<close>). Calls to the MQTT client library are
  recorded in \<open>mqtt_calls\<close>; \<open>pub_tasks\<close> counts the publishing tasks that have been created and not
  yet ended. The topics are those of the repository's configuration (room 1234).
\<close>

section \<open>State\<close>

datatype mqtt_call =
    Client_init | Client_register | Client_start | Client_stop | Client_destroy
  | Subscribe string | Publish string string

record mqtt =
  mqtt_client :: bool
  mqtt_connected :: bool
  mqtt_started :: bool
  cmd_handler :: bool
  pub_tasks :: nat
  mqtt_calls :: "mqtt_call list"

definition mqtt_initial :: mqtt where
  "mqtt_initial = \<lparr>mqtt_client = False, mqtt_connected = False, mqtt_started = False, cmd_handler = False,
     pub_tasks = 0, mqtt_calls = []\<rparr>"

definition MQTT_USERNAME :: string where "MQTT_USERNAME = ''1234''"
definition MQTT_MEM_TOPIC :: string where "MQTT_MEM_TOPIC = MQTT_USERNAME @ ''/memory''"
definition MQTT_CMD_TOPIC :: string where "MQTT_CMD_TOPIC = MQTT_USERNAME @ ''/command''"

definition note_mqtt :: "mqtt_call \<Rightarrow> mqtt \<Rightarrow> mqtt" where
  "note_mqtt c m = m\<lparr>mqtt_calls := mqtt_calls m @ [c]\<rparr>"

section \<open>Publishing\<close>

text \<open>\<open>code\<close> is the code of the client library.\<close>

definition publish_raw :: "int \<Rightarrow> string \<Rightarrow> string \<Rightarrow> mqtt \<Rightarrow> int \<times> mqtt" where
  "publish_raw code topic payload m =
     (if \<not> mqtt_connected m \<or> \<not> mqtt_client m then (-1, m) else (code, note_mqtt (Publish topic payload) m))"

definition mqtt_bridge_publish_json :: "int \<Rightarrow> string option \<Rightarrow> string option \<Rightarrow> mqtt \<Rightarrow> int \<times> mqtt" where
  "mqtt_bridge_publish_json code suffix json m =
     (case (suffix, json) of
        (Some sf, Some js) \<Rightarrow> publish_raw code (c_snprintf 128 (MQTT_USERNAME @ ''/'' @ sf)) js m
      | _ \<Rightarrow> (-1, m))"

definition memory_payload :: "int \<Rightarrow> int \<Rightarrow> int \<Rightarrow> string" where
  "memory_payload uptime heap psram =
     ''{\"uptime_ms\":'' @ int_string uptime @ '',\"free_heap\":'' @ int_string heap @
     '',\"free_psram\":'' @ int_string psram @ ''}''"

text \<open>One pass of the loop of \<open>mqtt_pub_task\<close>, and whether the task goes on.\<close>

definition mqtt_pub_task :: "int \<Rightarrow> int \<Rightarrow> int \<Rightarrow> mqtt \<Rightarrow> bool \<times> mqtt" where
  "mqtt_pub_task uptime heap psram m =
     (if mqtt_started m then
        (True, if mqtt_connected m \<and> mqtt_client m
               then note_mqtt (Publish MQTT_MEM_TOPIC (c_snprintf 192 (memory_payload uptime heap psram))) m else m)
      else (False, m\<lparr>pub_tasks := pub_tasks m - 1\<rparr>))"

section \<open>Events\<close>

datatype mqtt_event =
    MQTT_EVENT_CONNECTED | MQTT_EVENT_DISCONNECTED | MQTT_EVENT_SUBSCRIBED
  | MQTT_EVENT_DATA string string | MQTT_EVENT_ERROR

text \<open>The new state and the command handed to the registered handler, if there is one.\<close>

definition is_nul :: "char \<Rightarrow> bool" where
  "is_nul c \<longleftrightarrow> c = CHR 0x00"

definition mqtt_event_handler :: "mqtt_event \<Rightarrow> mqtt \<Rightarrow> string option \<times> mqtt" where
  "mqtt_event_handler ev m =
     (case ev of
        MQTT_EVENT_CONNECTED \<Rightarrow>
          (None, note_mqtt (Publish MQTT_MEM_TOPIC ''{\"status\":\"online\"}'')
                   (note_mqtt (Subscribe MQTT_CMD_TOPIC) (m\<lparr>mqtt_connected := True\<rparr>)))
      | MQTT_EVENT_DISCONNECTED \<Rightarrow> (None, m\<lparr>mqtt_connected := False\<rparr>)
      | MQTT_EVENT_SUBSCRIBED \<Rightarrow> (None, m)
      | MQTT_EVENT_DATA topic payload \<Rightarrow>
          if length topic = length MQTT_CMD_TOPIC \<and> strncmp_eq topic MQTT_CMD_TOPIC (length topic)
          then (if cmd_handler m then Some (takeWhile (\<lambda>c. \<not> is_nul c) (take 200 payload)) else None, m)
          else (None, m)
      | MQTT_EVENT_ERROR \<Rightarrow> (None, m))"

section \<open>Life cycle\<close>

definition mqtt_bridge_start :: "bool \<Rightarrow> mqtt \<Rightarrow> int \<times> mqtt" where
  "mqtt_bridge_start init_ok m =
     (if mqtt_started m then (0, m)
      else let m1 = note_mqtt Client_init (m\<lparr>mqtt_client := init_ok\<rparr>) in
        if \<not> init_ok then (-1, m1)
        else (0, note_mqtt Client_start (note_mqtt Client_register (m1\<lparr>mqtt_started := True, mqtt_connected := False\<rparr>))
                 \<lparr>pub_tasks := pub_tasks m1 + 1\<rparr>))"

definition mqtt_bridge_stop :: "mqtt \<Rightarrow> mqtt" where
  "mqtt_bridge_stop m =
     (if \<not> mqtt_started m then m
      else let m1 = m\<lparr>mqtt_started := False, mqtt_connected := False\<rparr> in
        if mqtt_client m1 then note_mqtt Client_destroy (note_mqtt Client_stop m1)\<lparr>mqtt_client := False\<rparr> else m1)"

definition mqtt_bridge_set_cmd_handler :: "bool \<Rightarrow> mqtt \<Rightarrow> mqtt" where
  "mqtt_bridge_set_cmd_handler h m = m\<lparr>cmd_handler := h\<rparr>"

definition mqtt_bridge_is_connected :: "mqtt \<Rightarrow> bool" where
  "mqtt_bridge_is_connected m = mqtt_connected m"

section \<open>Invariant\<close>

definition mqtt_inv :: "mqtt \<Rightarrow> bool" where
  "mqtt_inv m \<longleftrightarrow> (mqtt_client m \<longrightarrow> mqtt_started m) \<and> (mqtt_started m \<longrightarrow> mqtt_client m)"

lemma note_mqtt_sel [simp]:
  "mqtt_client (note_mqtt c m) = mqtt_client m" "mqtt_connected (note_mqtt c m) = mqtt_connected m"
  "mqtt_started (note_mqtt c m) = mqtt_started m" "cmd_handler (note_mqtt c m) = cmd_handler m"
  "pub_tasks (note_mqtt c m) = pub_tasks m" "mqtt_calls (note_mqtt c m) = mqtt_calls m @ [c]"
  by (simp_all add: note_mqtt_def)

datatype mqtt_input =
    Mqtt_start bool | Mqtt_stop | Mqtt_lib mqtt_event | Mqtt_pub int int int | Mqtt_json "string option" "string option"

fun mqtt_step :: "mqtt \<Rightarrow> mqtt_input \<Rightarrow> mqtt option" where
  "mqtt_step m (Mqtt_start ok) = Some (snd (mqtt_bridge_start ok m))"
| "mqtt_step m Mqtt_stop = Some (mqtt_bridge_stop m)"
| "mqtt_step m (Mqtt_lib ev) = Some (snd (mqtt_event_handler ev m))"
| "mqtt_step m (Mqtt_pub u h p) = Some (snd (mqtt_pub_task u h p m))"
| "mqtt_step m (Mqtt_json t j) = Some (snd (mqtt_bridge_publish_json 0 t j m))"

lemma mqtt_step_inv: "mqtt_inv m \<Longrightarrow> mqtt_step m e = Some m' \<Longrightarrow> mqtt_inv m'"
  by (cases e) (auto simp: mqtt_inv_def mqtt_bridge_start_def mqtt_bridge_stop_def mqtt_event_handler_def
      mqtt_pub_task_def mqtt_bridge_publish_json_def publish_raw_def Let_def split: mqtt_event.splits option.splits if_splits)

interpretation bridge: event_machine mqtt_step mqtt_inv "\<lambda>_. True"
proof unfold_locales
  show "mqtt_inv m'" if "mqtt_inv m" "mqtt_step m e = Some m'" for m e m'
    using mqtt_step_inv that by blast
  show "\<exists>m'. mqtt_step m e = Some m'" for m e by (cases e) simp_all
qed

section \<open>Properties\<close>

text \<open>
  Commands from the broker. A message on the command topic reaches the registered handler with its
  text, cut after 200 characters; a message on any other topic, or without a handler, reaches nobody;
  and no message changes the state of the bridge.
\<close>

theorem mqtt_commands_delivered:
  assumes "CHR 0x00 \<notin> set payload"
  shows "mqtt_event_handler (MQTT_EVENT_DATA topic payload) m =
    (if topic = ''1234/command'' \<and> cmd_handler m then Some (take 200 payload) else None, m)"
proof -
  have "takeWhile (\<lambda>c. \<not> is_nul c) (take 200 payload) = take 200 payload"
    using assms by (auto simp: takeWhile_eq_all_conv is_nul_def dest: in_set_takeD)
  moreover have "length topic = length MQTT_CMD_TOPIC \<and> strncmp_eq topic MQTT_CMD_TOPIC (length topic) \<longleftrightarrow>
      topic = ''1234/command''"
    by (auto simp: strncmp_eq_def MQTT_CMD_TOPIC_def MQTT_USERNAME_def)
  ultimately show ?thesis by (simp add: mqtt_event_handler_def)
qed

theorem mqtt_commands_delivered_witness:
  "fst (mqtt_event_handler (MQTT_EVENT_DATA ''1234/command'' ''ROBOT_UP'') (mqtt_initial\<lparr>cmd_handler := True\<rparr>)) =
     Some ''ROBOT_UP''"
  using mqtt_commands_delivered [of "''ROBOT_UP''" "''1234/command''" "mqtt_initial\<lparr>cmd_handler := True\<rparr>"] by simp

text \<open>
  Nothing published about memory is ever cut: for every 64-bit uptime and 32-bit heap size the text
  fits the buffer of 192 bytes.
\<close>

theorem memory_payload_fits:
  assumes "\<bar>uptime\<bar> \<le> 2 ^ 63" "\<bar>heap\<bar> \<le> 2 ^ 31" "\<bar>psram\<bar> \<le> 2 ^ 31"
  shows "c_snprintf 192 (memory_payload uptime heap psram) = memory_payload uptime heap psram"
proof -
  have "length (int_string uptime) \<le> 20" "length (int_string heap) \<le> 11" "length (int_string psram) \<le> 11"
    using assms int_string_length [of 19 uptime] int_string_length [of 10 heap] int_string_length [of 10 psram] by simp_all
  then have "length (memory_payload uptime heap psram) \<le> 191" by (simp add: memory_payload_def)
  then show ?thesis by (simp add: c_snprintf_def)
qed

theorem memory_payload_fits_witness:
  "c_snprintf 192 (memory_payload (2 ^ 63 - 1) (- (2 ^ 31)) 77) = memory_payload (2 ^ 63 - 1) (- (2 ^ 31)) 77"
  by (rule memory_payload_fits) simp_all

text \<open>
  A network that drops and returns within the two seconds the publishing task sleeps leaves a
  second one: \<open>mqtt_bridge_stop\<close> neither ends nor awaits the task, which finds \<open>s_started\<close> set again
  when it wakes and goes on beside the new one. If the task wakes in between, it ends, and there is
  only the new one.
\<close>

theorem mqtt_quick_restart_doubles_task:
  assumes "mqtt_inv m" "mqtt_started m" "pub_tasks m = 1"
  shows "(let quick = snd (mqtt_bridge_start True (mqtt_bridge_stop m));
              slept = snd (mqtt_pub_task u h p (mqtt_bridge_stop m));
              slow = snd (mqtt_bridge_start True slept)
          in pub_tasks quick = 2 \<and> fst (mqtt_pub_task u h p quick) \<and> pub_tasks (snd (mqtt_pub_task u h p quick)) = 2 \<and>
             \<not> fst (mqtt_pub_task u h p (mqtt_bridge_stop m)) \<and> pub_tasks slow = 1 \<and> mqtt_inv quick \<and> mqtt_inv slow)"
  using assms
  by (simp add: mqtt_inv_def mqtt_bridge_stop_def mqtt_bridge_start_def mqtt_pub_task_def Let_def)

theorem mqtt_quick_restart_doubles_task_witness:
  "pub_tasks (snd (mqtt_bridge_start True (mqtt_bridge_stop (snd (mqtt_bridge_start True mqtt_initial))))) = 2"
proof -
  have "mqtt_inv (snd (mqtt_bridge_start True mqtt_initial))" "mqtt_started (snd (mqtt_bridge_start True mqtt_initial))"
    "pub_tasks (snd (mqtt_bridge_start True mqtt_initial)) = 1"
    by (simp_all add: mqtt_inv_def mqtt_bridge_start_def mqtt_initial_def Let_def)
  from mqtt_quick_restart_doubles_task [OF this] show ?thesis by (simp add: Let_def)
qed

end
