(* ===== verification/Control_Loop.thy ===== *)
theory Control_Loop
  imports Webrtc_App Mqtt_Bridge
begin

text \<open>
  The main program of the P4 firmware (\<open>main/main.c\<close>): MQTT commands open, keep alive and close the
  WebRTC session; the main loop, every two seconds, publishes its status, restarts it when it is stuck
  and closes it when the heartbeat is missing; the network handler starts and stops everything. The
  codes of external calls are in \<open>env\<close>, the time in milliseconds is an argument. Everything here runs
  outside the peer task. \<open>None\<close> would be a blocked thread.
\<close>

section \<open>State\<close>

record control =
  web :: wapp
  mqtt :: mqtt
  last_heartbeat_ms :: int
  webrtc_state_last :: bool
  last_status_pub_ms :: int
  last_open_request_ms :: int
  last_recover_ms :: int

definition control_initial :: control where
  "control_initial = \<lparr>web = wapp_initial, mqtt = mqtt_initial, last_heartbeat_ms = 0, webrtc_state_last = False,
     last_status_pub_ms = 0, last_open_request_ms = 0, last_recover_ms = 0\<rparr>"

record env =
  env_ret :: rtc_ret
  env_net :: bool
  env_alloc :: bool
  env_event :: bool
  env_cfg :: session_cfg
  env_url :: string
  env_rssi :: "int option"

definition WEBRTC_HEARTBEAT_TIMEOUT_MS :: int where "WEBRTC_HEARTBEAT_TIMEOUT_MS = 45000"
definition WEBRTC_STATUS_PUB_PERIOD_MS :: int where "WEBRTC_STATUS_PUB_PERIOD_MS = 5000"
definition WEBRTC_CONNECT_RECOVER_TIMEOUT_MS :: int where "WEBRTC_CONNECT_RECOVER_TIMEOUT_MS = 20000"
definition WEBRTC_CONNECT_RECOVER_COOLDOWN_MS :: int where "WEBRTC_CONNECT_RECOVER_COOLDOWN_MS = 15000"

lemmas control_times = WEBRTC_HEARTBEAT_TIMEOUT_MS_def WEBRTC_STATUS_PUB_PERIOD_MS_def
  WEBRTC_CONNECT_RECOVER_TIMEOUT_MS_def WEBRTC_CONNECT_RECOVER_COOLDOWN_MS_def

section \<open>The session from the main program\<close>

definition on_web :: "(wapp \<Rightarrow> 'a wapp_result) \<Rightarrow> control \<Rightarrow> control option" where
  "on_web f c = app_state (f (web c)) \<bind> (\<lambda>w. Some (c\<lparr>web := w\<rparr>))"

definition start_cli :: "env \<Rightarrow> control \<Rightarrow> control option" where
  "start_cli e = on_web (start_webrtc (env_ret e) (env_net e) (env_alloc e) (env_event e) (env_cfg e) (env_url e)
     Other_thread None)"

definition stop_cli :: "env \<Rightarrow> control \<Rightarrow> control option" where
  "stop_cli e = on_web (stop_webrtc (env_ret e) Other_thread)"

definition control_send_cmd :: "env \<Rightarrow> string \<Rightarrow> control \<Rightarrow> control option" where
  "control_send_cmd e cmd = on_web (wapp_send_cmd (env_ret e) (env_event e) Other_thread (Some cmd))"

text \<open>The console command \<open>cmd\<close> with its optional argument.\<close>

definition cmd_cli :: "env \<Rightarrow> string option \<Rightarrow> control \<Rightarrow> control option" where
  "cmd_cli e arg = control_send_cmd e (case arg of Some a \<Rightarrow> a | None \<Rightarrow> ''ring'')"

definition mqtt_control_cmd_handler :: "env \<Rightarrow> int \<Rightarrow> string option \<Rightarrow> control \<Rightarrow> control option" where
  "mqtt_control_cmd_handler e now_ms cmd c =
     (case cmd of None \<Rightarrow> Some c
      | Some s \<Rightarrow>
          if s = ''OPEN_WEBRTC'' then
            (let c1 = c\<lparr>last_heartbeat_ms := now_ms, last_open_request_ms := now_ms\<rparr>
             in if \<not> webrtc_is_running (web c1) then start_cli e c1 else Some c1)
          else if s = ''CLOSE_WEBRTC'' then stop_cli e (c\<lparr>last_open_request_ms := 0\<rparr>)
          else if s = ''HEARTBEAT'' then
            (let c1 = c\<lparr>last_heartbeat_ms := now_ms, last_open_request_ms := now_ms\<rparr>
             in if \<not> webrtc_is_running (web c1) then start_cli e c1 else Some c1)
          else control_send_cmd e s c)"

section \<open>Status\<close>

definition get_wifi_rssi_dbm :: "env \<Rightarrow> int" where
  "get_wifi_rssi_dbm e = (case env_rssi e of Some r \<Rightarrow> r | None \<Rightarrow> -127)"

definition bool_text :: "bool \<Rightarrow> string" where
  "bool_text b = (if b then ''true'' else ''false'')"

definition status_text :: "string \<Rightarrow> bool \<Rightarrow> bool \<Rightarrow> int \<Rightarrow> string option \<Rightarrow> string" where
  "status_text st is_running is_connected rssi reason =
     ''{\"webrtc\":\"'' @ st @ ''\",\"running\":'' @ bool_text is_running @ '',\"connected\":'' @ bool_text is_connected @
     '',\"wifi_rssi\":'' @ int_string rssi @
     (case reason of
        Some r \<Rightarrow> if r \<noteq> [] then '',\"reason\":\"'' @ r @ ''\"}'' else ''}''
      | None \<Rightarrow> ''}'')"

definition publish_webrtc_status :: "env \<Rightarrow> string \<Rightarrow> string option \<Rightarrow> control \<Rightarrow> control" where
  "publish_webrtc_status e st reason c =
     (let payload = c_snprintf 220 (status_text st (webrtc_is_running (web c)) (webrtc_is_connected (web c))
                      (get_wifi_rssi_dbm e) reason)
      in c\<lparr>mqtt := snd (mqtt_bridge_publish_json 0 (Some ''status'') (Some payload) (mqtt c))\<rparr>)"

section \<open>The loop\<close>

definition publish_change :: "env \<Rightarrow> control \<Rightarrow> control" where
  "publish_change e c =
     (let connected = webrtc_is_connected (web c)
      in if connected \<noteq> webrtc_state_last c
         then publish_webrtc_status e (if connected then ''ready'' else ''stopped'') None
                (c\<lparr>webrtc_state_last := connected\<rparr>)
         else c)"

definition publish_period :: "env \<Rightarrow> int \<Rightarrow> control \<Rightarrow> control" where
  "publish_period e now_ms c =
     (if mqtt_bridge_is_connected (mqtt c) \<and> now_ms > last_status_pub_ms c + WEBRTC_STATUS_PUB_PERIOD_MS
      then publish_webrtc_status e
             (if webrtc_is_connected (web c) then ''ready'' else if webrtc_is_running (web c) then ''connecting'' else ''idle'')
             None (c\<lparr>last_status_pub_ms := now_ms\<rparr>)
      else c)"

definition needs_recovery :: "int \<Rightarrow> control \<Rightarrow> bool" where
  "needs_recovery now_ms c \<longleftrightarrow>
     webrtc_is_running (web c) \<and> \<not> webrtc_is_connected (web c) \<and>
     (last_open_request_ms c > 0 \<and> now_ms - last_open_request_ms c \<le> WEBRTC_HEARTBEAT_TIMEOUT_MS) \<and>
     (last_open_request_ms c > 0 \<and> now_ms - last_open_request_ms c > WEBRTC_CONNECT_RECOVER_TIMEOUT_MS) \<and>
     now_ms - last_recover_ms c > WEBRTC_CONNECT_RECOVER_COOLDOWN_MS"

definition heartbeat_missing :: "int \<Rightarrow> control \<Rightarrow> bool" where
  "heartbeat_missing now_ms c \<longleftrightarrow>
     webrtc_is_running (web c) \<and> last_heartbeat_ms c > 0 \<and>
     now_ms - last_heartbeat_ms c > WEBRTC_HEARTBEAT_TIMEOUT_MS"

definition mqtt_control_loop :: "env \<Rightarrow> int \<Rightarrow> control \<Rightarrow> control option" where
  "mqtt_control_loop e now_ms c =
     (let c1 = publish_period e now_ms (publish_change e c) in
      if needs_recovery now_ms c1 then do {
        c2 \<leftarrow> stop_cli e (c1\<lparr>last_recover_ms := now_ms\<rparr>);
        start_cli e (publish_webrtc_status e ''connecting'' (Some ''auto_recover_restart'') c2)
      }
      else if heartbeat_missing now_ms c1 then do {
        c2 \<leftarrow> stop_cli e c1;
        Some ((publish_webrtc_status e ''stopped'' (Some ''heartbeat_timeout'') c2)
                \<lparr>last_heartbeat_ms := 0, last_open_request_ms := 0\<rparr>)
      }
      else Some c1)"

text \<open>One pass of the loop of \<open>app_main\<close> after its sleep.\<close>

definition app_main_pass :: "env \<Rightarrow> int \<Rightarrow> control \<Rightarrow> control option" where
  "app_main_pass e now_ms c = mqtt_control_loop e now_ms (c\<lparr>web := query_webrtc (env_ret e) (web c)\<rparr>)"

definition network_event_handler :: "env \<Rightarrow> bool \<Rightarrow> bool \<Rightarrow> control \<Rightarrow> control option" where
  "network_event_handler e init_ok connected c =
     (if connected then
        (let m = snd (mqtt_bridge_start init_ok (mqtt_bridge_set_cmd_handler True (mqtt c)))
         in Some (publish_webrtc_status e ''idle'' None (c\<lparr>mqtt := m\<rparr>)))
      else do {
        c1 \<leftarrow> stop_cli e (c\<lparr>mqtt := mqtt_bridge_stop (mqtt c)\<rparr>);
        Some (c1\<lparr>last_heartbeat_ms := 0, last_open_request_ms := 0, last_recover_ms := 0, last_status_pub_ms := 0\<rparr>)
      })"

section \<open>Thread parameters\<close>

record thread_cfg =
  stack_size :: nat
  priority :: nat
  core_id :: nat

definition thread_scheduler :: "bool \<Rightarrow> string \<Rightarrow> thread_cfg \<Rightarrow> thread_cfg" where
  "thread_scheduler opus name cfg =
     (let cfg1 =
        (if name = ''venc_0'' then cfg\<lparr>priority := 10\<rparr>
         else if opus \<and> name = ''aenc_0'' then cfg\<lparr>stack_size := 40 * 1024, priority := 10, core_id := 1\<rparr>
         else if name = ''AUD_SRC'' then cfg\<lparr>priority := 15\<rparr>
         else if name = ''pc_task'' then cfg\<lparr>stack_size := 25 * 1024, priority := 18, core_id := 1\<rparr>
         else cfg)
      in if name = ''start'' then cfg1\<lparr>stack_size := 6 * 1024\<rparr> else cfg1)"

record capture_cfg = thread_cfg +
  stack_in_ext :: bool

definition capture_scheduler :: "bool \<Rightarrow> string \<Rightarrow> capture_cfg \<Rightarrow> capture_cfg" where
  "capture_scheduler opus name sc =
     (let cfg = thread_scheduler opus name \<lparr>stack_size = stack_size sc, priority = priority sc, core_id = core_id sc\<rparr>
      in sc\<lparr>stack_in_ext := True, stack_size := stack_size cfg, priority := priority cfg, core_id := core_id cfg\<rparr>)"

section \<open>Invariant\<close>

definition control_inv :: "control \<Rightarrow> bool" where
  "control_inv c \<longleftrightarrow> wapp_inv (web c) \<and> mqtt_inv (mqtt c) \<and>
     (last_open_request_ms c = 0 \<or> last_open_request_ms c = last_heartbeat_ms c)"

lemma publish_sel [simp]:
  "web (publish_webrtc_status e st r c) = web c" "last_heartbeat_ms (publish_webrtc_status e st r c) = last_heartbeat_ms c"
  "last_open_request_ms (publish_webrtc_status e st r c) = last_open_request_ms c"
  "last_recover_ms (publish_webrtc_status e st r c) = last_recover_ms c"
  "mqtt_inv (mqtt (publish_webrtc_status e st r c)) = mqtt_inv (mqtt c)"
  "mqtt_connected (mqtt (publish_webrtc_status e st r c)) = mqtt_connected (mqtt c)"
  "webrtc_state_last (publish_webrtc_status e st r c) = webrtc_state_last c"
  "last_status_pub_ms (publish_webrtc_status e st r c) = last_status_pub_ms c"
  by (simp_all add: publish_webrtc_status_def mqtt_bridge_publish_json_def publish_raw_def mqtt_inv_def Let_def)

lemma publish_inv [simp]: "control_inv (publish_webrtc_status e st r c) = control_inv c"
  by (simp add: control_inv_def)

lemma on_web_keeps:
  assumes "control_inv c" "keeps (f (web c))"
  shows "\<exists>w. on_web f c = Some (c\<lparr>web := w\<rparr>) \<and> wapp_inv w"
  using assms(2) by (auto simp: on_web_def keeps_def)

lemma web_update_inv [simp]: "wapp_inv w \<Longrightarrow> control_inv c \<Longrightarrow> control_inv (c\<lparr>web := w\<rparr>)"
  by (simp add: control_inv_def)

lemma start_cli_total: "control_inv c \<Longrightarrow> \<exists>w. start_cli e c = Some (c\<lparr>web := w\<rparr>) \<and> wapp_inv w"
  unfolding start_cli_def by (intro on_web_keeps) (auto simp: control_inv_def intro: start_webrtc_keeps)

lemma stop_cli_total:
  assumes "control_inv c"
  shows "\<exists>w. stop_cli e c = Some (c\<lparr>web := w\<rparr>) \<and> wapp_inv w \<and> handle w = None \<and> \<not> webrtc_connected w"
proof -
  let ?w = "(web c)\<lparr>janus_retry_stop := True, webrtc_connected := False\<rparr>"
  have "wapp_inv ?w" using assms by (simp add: control_inv_def wapp_inv_def)
  from cleanup_other [OF this, of "env_ret e"] obtain w where
    "cleanup_webrtc_handle (env_ret e) Other_thread ?w = App_done () w" "wapp_inv w" "handle w = None" "\<not> webrtc_connected w"
    by auto
  then show ?thesis
    by (intro exI [of _ w]) (simp add: stop_cli_def on_web_def stop_webrtc_def Let_def)
qed

lemma control_send_cmd_total: "control_inv c \<Longrightarrow> \<exists>w. control_send_cmd e s c = Some (c\<lparr>web := w\<rparr>) \<and> wapp_inv w"
  unfolding control_send_cmd_def
  by (intro on_web_keeps) (auto simp: control_inv_def wapp_send_cmd_def intro: with_commands_keeps)

lemma heartbeat_inv [simp]:
  "control_inv (c\<lparr>last_heartbeat_ms := t, last_open_request_ms := t\<rparr>) \<longleftrightarrow> wapp_inv (web c) \<and> mqtt_inv (mqtt c)"
  "control_inv c \<Longrightarrow> control_inv (c\<lparr>last_open_request_ms := 0\<rparr>)"
  "control_inv (c\<lparr>webrtc_state_last := b\<rparr>) = control_inv c" "control_inv (c\<lparr>last_status_pub_ms := t\<rparr>) = control_inv c"
  "control_inv (c\<lparr>last_recover_ms := t\<rparr>) = control_inv c"
  by (auto simp: control_inv_def)

lemma cmd_handler_inv:
  assumes "control_inv c"
  shows "\<exists>c'. mqtt_control_cmd_handler e t cmd c = Some c' \<and> control_inv c'"
proof (cases cmd)
  case None
  with assms show ?thesis by (simp add: mqtt_control_cmd_handler_def)
next
  case (Some s)
  let ?c1 = "c\<lparr>last_heartbeat_ms := t, last_open_request_ms := t\<rparr>"
  have c1: "control_inv ?c1" using assms by (simp add: control_inv_def)
  have c0: "control_inv (c\<lparr>last_open_request_ms := 0\<rparr>)" using assms by simp
  from start_cli_total [OF c1, of e] obtain w1 where w1: "start_cli e ?c1 = Some (?c1\<lparr>web := w1\<rparr>)" "wapp_inv w1" by blast
  from stop_cli_total [OF c0, of e] obtain w2 where
    w2: "stop_cli e (c\<lparr>last_open_request_ms := 0\<rparr>) = Some (c\<lparr>last_open_request_ms := 0, web := w2\<rparr>)" "wapp_inv w2"
    by auto
  from control_send_cmd_total [OF assms, of e s] obtain w3 where w3:
    "control_send_cmd e s c = Some (c\<lparr>web := w3\<rparr>)" "wapp_inv w3" by blast
  have "control_inv (?c1\<lparr>web := w1\<rparr>)" "control_inv (c\<lparr>last_open_request_ms := 0, web := w2\<rparr>)" "control_inv (c\<lparr>web := w3\<rparr>)"
    using web_update_inv [OF w1(2) c1] web_update_inv [OF w2(2) c0] web_update_inv [OF w3(2) assms] by simp_all
  with Some w1(1) w2(1) w3(1) c1 show ?thesis
    by (simp add: mqtt_control_cmd_handler_def Let_def)
qed

lemma publish_status_inv [simp]:
  "control_inv (publish_change e c) = control_inv c" "control_inv (publish_period e t c) = control_inv c"
  "web (publish_change e c) = web c" "web (publish_period e t c) = web c"
  "last_heartbeat_ms (publish_change e c) = last_heartbeat_ms c" "last_heartbeat_ms (publish_period e t c) = last_heartbeat_ms c"
  "last_open_request_ms (publish_change e c) = last_open_request_ms c"
  "last_open_request_ms (publish_period e t c) = last_open_request_ms c"
  "last_recover_ms (publish_change e c) = last_recover_ms c" "last_recover_ms (publish_period e t c) = last_recover_ms c"
  by (simp_all add: publish_change_def publish_period_def Let_def)

text \<open>What one pass of the loop does.\<close>

lemma reset_inv:
  "wapp_inv (web c) \<Longrightarrow> mqtt_inv (mqtt c) \<Longrightarrow> control_inv (c\<lparr>last_heartbeat_ms := h, last_open_request_ms := 0\<rparr>)"
  by (simp add: control_inv_def)

lemma running_handle [simp]: "webrtc_is_running w \<longleftrightarrow> handle w \<noteq> None"
  by (simp add: webrtc_is_running_def)

lemma publish_needs [simp]:
  "needs_recovery t (publish_period e t (publish_change e c)) = needs_recovery t c"
  "heartbeat_missing t (publish_period e t (publish_change e c)) = heartbeat_missing t c"
  by (simp_all add: needs_recovery_def heartbeat_missing_def)

lemma loop_quiet:
  assumes "\<not> needs_recovery t c" "\<not> heartbeat_missing t c"
  shows "mqtt_control_loop e t c = Some (publish_period e t (publish_change e c))"
  using assms by (simp add: mqtt_control_loop_def Let_def)

lemma loop_timeout:
  assumes inv: "control_inv c" and r: "\<not> needs_recovery t c" and h: "heartbeat_missing t c"
  shows "\<exists>c'. mqtt_control_loop e t c = Some c' \<and> control_inv c' \<and> handle (web c') = None \<and> last_heartbeat_ms c' = 0"
proof -
  let ?c = "publish_period e t (publish_change e c)"
  have "control_inv ?c" using inv by simp
  from stop_cli_total [OF this, of e] obtain w where
    w: "stop_cli e ?c = Some (?c\<lparr>web := w\<rparr>)" "wapp_inv w" "handle w = None" by blast
  let ?d = "publish_webrtc_status e ''stopped'' (Some ''heartbeat_timeout'') (?c\<lparr>web := w\<rparr>)"
  have "control_inv ?d" using web_update_inv [OF w(2) \<open>control_inv ?c\<close>] by simp
  then have "control_inv (?d\<lparr>last_heartbeat_ms := 0, last_open_request_ms := 0\<rparr>)" by (simp add: control_inv_def)
  moreover have "mqtt_control_loop e t c = Some (?d\<lparr>last_heartbeat_ms := 0, last_open_request_ms := 0\<rparr>)"
    unfolding mqtt_control_loop_def Let_def using r h w(1) by simp
  ultimately show ?thesis using w(3) by simp
qed

lemma loop_recover:
  assumes inv: "control_inv c" and r: "needs_recovery t c"
  shows "\<exists>c'. mqtt_control_loop e t c = Some c' \<and> control_inv c' \<and> last_heartbeat_ms c' = last_heartbeat_ms c"
proof -
  let ?c = "(publish_period e t (publish_change e c))\<lparr>last_recover_ms := t\<rparr>"
  have c: "control_inv ?c" using inv by simp
  from stop_cli_total [OF this, of e] obtain w where
    w: "stop_cli e ?c = Some (?c\<lparr>web := w\<rparr>)" "wapp_inv w" "handle w = None" by blast
  let ?d = "publish_webrtc_status e ''connecting'' (Some ''auto_recover_restart'') (?c\<lparr>web := w\<rparr>)"
  have d: "control_inv ?d" using web_update_inv [OF w(2) c] by simp
  from start_cli_total [OF this, of e] obtain v where v: "start_cli e ?d = Some (?d\<lparr>web := v\<rparr>)" "wapp_inv v" by blast
  have "mqtt_control_loop e t c = Some (?d\<lparr>web := v\<rparr>)"
    unfolding mqtt_control_loop_def Let_def publish_needs using r w(1) v(1) by simp
  moreover have "control_inv (?d\<lparr>web := v\<rparr>)" using v(2) d by simp
  ultimately show ?thesis by simp
qed
lemma loop_total: "control_inv c \<Longrightarrow> \<exists>c'. mqtt_control_loop e t c = Some c' \<and> control_inv c'"
proof (cases "needs_recovery t c")
  case False
  assume i: "control_inv c"
  show ?thesis
  proof (cases "heartbeat_missing t c")
    case h: True
    from loop_timeout [OF i False h, of e] show ?thesis by blast
  next
    case h: False
    from loop_quiet [OF False h, of e] i show ?thesis by simp
  qed
qed (use loop_recover in blast)

lemma query_handle [simp]: "handle (query_webrtc ret w) = None \<longleftrightarrow> handle w = None"
  by (simp add: query_webrtc_def set_handle_def split: option.split)

lemma query_inv_control: "control_inv c \<Longrightarrow> control_inv (c\<lparr>web := query_webrtc ret (web c)\<rparr>)"
  using wapp_step_inv [of "web c" ret _ _ Query_webrtc] by (simp add: control_inv_def)

lemma app_main_pass_total: "control_inv c \<Longrightarrow> \<exists>c'. app_main_pass e t c = Some c' \<and> control_inv c'"
  unfolding app_main_pass_def by (intro loop_total query_inv_control)

lemma network_lost:
  assumes "control_inv c"
  shows "\<exists>c'. network_event_handler e ok False c = Some c' \<and> control_inv c' \<and> handle (web c') = None \<and>
    \<not> webrtc_connected (web c') \<and> mqtt c' = mqtt_bridge_stop (mqtt c) \<and> last_heartbeat_ms c' = 0"
proof -
  let ?c = "c\<lparr>mqtt := mqtt_bridge_stop (mqtt c)\<rparr>"
  have "mqtt_inv (mqtt_bridge_stop (mqtt c))"
    using mqtt_step_inv [of "mqtt c" Mqtt_stop] assms by (simp add: control_inv_def)
  then have c: "control_inv ?c" using assms by (simp add: control_inv_def)
  from stop_cli_total [OF c, of e] obtain w where
    w: "stop_cli e ?c = Some (?c\<lparr>web := w\<rparr>)" "wapp_inv w" "handle w = None" "\<not> webrtc_connected w" by blast
  with c show ?thesis by (simp add: network_event_handler_def control_inv_def)
qed

lemma network_up:
  "control_inv c \<Longrightarrow> \<exists>c'. network_event_handler e ok True c = Some c' \<and> control_inv c'"
proof -
  assume c: "control_inv c"
  let ?m = "mqtt_bridge_set_cmd_handler True (mqtt c)"
  have "mqtt_inv ?m" using c by (simp add: control_inv_def mqtt_inv_def mqtt_bridge_set_cmd_handler_def)
  then have "mqtt_inv (snd (mqtt_bridge_start ok ?m))" using mqtt_step_inv [of ?m "Mqtt_start ok"] by simp
  with c show ?thesis by (simp add: network_event_handler_def control_inv_def)
qed

section \<open>The machine\<close>

text \<open>Everything that happens to the program. \<open>Mqtt_event\<close>: the broker's message reaches its handler.\<close>

datatype control_event =
    Mqtt_event env int mqtt_event
  | Main_pass env int
  | Network_changed env bool bool
  | Console_start env
  | Console_stop env
  | Console_cmd env "string option"
  | Memory_pass int int int
  | Web_event rtc_ret session_cfg string wapp_event

definition on_mqtt_event :: "env \<Rightarrow> int \<Rightarrow> mqtt_event \<Rightarrow> control \<Rightarrow> control option" where
  "on_mqtt_event e t ev c =
     (case mqtt_event_handler ev (mqtt c) of
        (None, m) \<Rightarrow> Some (c\<lparr>mqtt := m\<rparr>)
      | (Some cmd, m) \<Rightarrow> mqtt_control_cmd_handler e t (Some cmd) (c\<lparr>mqtt := m\<rparr>))"

fun control_step :: "control \<Rightarrow> control_event \<Rightarrow> control option" where
  "control_step c (Mqtt_event e t ev) = on_mqtt_event e t ev c"
| "control_step c (Main_pass e t) = app_main_pass e t c"
| "control_step c (Network_changed e ok up) = network_event_handler e ok up c"
| "control_step c (Console_start e) = start_cli e c"
| "control_step c (Console_stop e) = stop_cli e c"
| "control_step c (Console_cmd e arg) = cmd_cli e arg c"
| "control_step c (Memory_pass u h p) = Some (c\<lparr>mqtt := snd (mqtt_pub_task u h p (mqtt c))\<rparr>)"
| "control_step c (Web_event ret cfg d ev) = wapp_step ret cfg d (web c) ev \<bind> (\<lambda>w. Some (c\<lparr>web := w\<rparr>))"

fun no_failure_in_peer :: "control_event \<Rightarrow> bool" where
  "no_failure_in_peer (Web_event ret cfg d ev) = no_failure_in_peer_task ev"
| "no_failure_in_peer _ = True"

lemma control_step_total:
  assumes c: "control_inv c" and ok: "no_failure_in_peer ev"
  shows "\<exists>c'. control_step c ev = Some c' \<and> control_inv c'"
proof (cases ev)
  case (Mqtt_event e t m)
  obtain r m' where m': "mqtt_event_handler m (mqtt c) = (r, m')" by force
  then have "mqtt_inv m'" using mqtt_step_inv [of "mqtt c" "Mqtt_lib m"] c by (simp add: control_inv_def)
  then have i: "control_inv (c\<lparr>mqtt := m'\<rparr>)" using c by (simp add: control_inv_def)
  show ?thesis
    using Mqtt_event m' i cmd_handler_inv [OF i, of e t] by (cases r) (simp_all add: on_mqtt_event_def)
next
  case (Main_pass e t)
  with app_main_pass_total [OF c] show ?thesis by simp
next
  case (Network_changed e ok up)
  with network_up [OF c, of e ok] network_lost [OF c, of e ok] show ?thesis by (cases up) auto
next
  case (Console_start e)
  with start_cli_total [OF c, of e] c show ?thesis by auto
next
  case (Console_stop e)
  with stop_cli_total [OF c, of e] c show ?thesis by auto
next
  case (Console_cmd e arg)
  with control_send_cmd_total [OF c, of e] c show ?thesis by (fastforce simp: cmd_cli_def)
next
  case (Memory_pass u h p)
  with mqtt_step_inv [of "mqtt c" "Mqtt_pub u h p"] c show ?thesis by (simp add: control_inv_def)
next
  case (Web_event ret cfg d w)
  with wapp_step_total [of "web c" w ret cfg d] c ok show ?thesis by (auto simp: control_inv_def)
qed

lemma control_step_inv: "control_inv c \<Longrightarrow> control_step c ev = Some c' \<Longrightarrow> control_inv c'"
proof (cases "no_failure_in_peer ev")
  case False
  assume "control_inv c" "control_step c ev = Some c'"
  with False wapp_step_inv [of "web c"] show "control_inv c'"
    by (cases ev) (auto simp: control_inv_def split: bind_splits)
qed (use control_step_total in fastforce)

interpretation control_app: event_machine control_step control_inv no_failure_in_peer
proof unfold_locales
  show "control_inv c'" if "control_inv c" "control_step c e = Some c'" for c e c'
    using control_step_inv that by blast
  show "\<exists>c'. control_step c e = Some c'" if "control_inv c" "no_failure_in_peer e" for c e
    using control_step_total that by blast
qed

lemma control_inv_initial: "control_inv control_initial"
  using wapp_inv_initial by (simp add: control_inv_def control_initial_def mqtt_inv_def mqtt_initial_def)
lemma loop_supervises:
  assumes "control_inv c" "mqtt_control_loop e t c = Some c1" "handle (web c1) \<noteq> None"
  shows "last_heartbeat_ms c1 \<le> 0 \<or> t - last_heartbeat_ms c1 \<le> 45000"
proof (cases "needs_recovery t c")
  case True
  with loop_recover [OF assms(1) True, of e] assms show ?thesis
    by (auto simp: needs_recovery_def control_inv_def control_times)
next
  case r: False
  show ?thesis
  proof (cases "heartbeat_missing t c")
    case True
    with loop_timeout [OF assms(1) r True, of e] assms show ?thesis by auto
  next
    case False
    with loop_quiet [OF r False, of e] assms(2,3) show ?thesis
      by (auto simp: heartbeat_missing_def control_times)
  qed
qed

section \<open>Properties\<close>

definition calm_env :: env where
  "calm_env = \<lparr>env_ret = all_ok, env_net = True, env_alloc = True, env_event = True, env_cfg = demo_start,
     env_url = ''http://j'', env_rssi = Some (-60)\<rparr>"


text \<open>
  Heartbeats keep the session, and also keep it from being repaired: while the last one (or the
  last open request) is at most 20 seconds old, a pass of the main loop neither restarts nor closes the
  session, connected or not. The automatic recovery of a session that is stuck connecting, which
  measures from the last open request, is reached only when heartbeats have been missing for more than
  20 and at most 45 seconds, since every heartbeat renews the open request too.
\<close>

theorem heartbeats_hold_off_recovery:
  assumes "run_events control_step control_initial evs = Some c" "0 \<le> last_heartbeat_ms c"
  shows "(t - last_heartbeat_ms c \<le> 20000 \<longrightarrow>
      (\<exists>c'. app_main_pass e t c = Some c' \<and> web c' = query_webrtc (env_ret e) (web c) \<and>
        last_heartbeat_ms c' = last_heartbeat_ms c)) \<and>
    (needs_recovery t c \<longrightarrow> 20000 < t - last_heartbeat_ms c \<and> t - last_heartbeat_ms c \<le> 45000)"
proof -
  have inv: "control_inv c" by (rule control_app.run_inv [OF control_inv_initial assms(1)])
  let ?q = "c\<lparr>web := query_webrtc (env_ret e) (web c)\<rparr>"
  have "mqtt_control_loop e t ?q = Some (publish_period e t (publish_change e ?q))" if "t - last_heartbeat_ms c \<le> 20000"
    using that inv query_inv_control [OF inv, of "env_ret e"]
    by (intro loop_quiet) (auto simp: needs_recovery_def heartbeat_missing_def control_inv_def control_times)
  then show ?thesis
    using inv by (auto simp: app_main_pass_def needs_recovery_def control_inv_def control_times)
qed

theorem heartbeats_hold_off_recovery_witness:
  "\<exists>c'. app_main_pass calm_env 20000 control_initial = Some c' \<and> \<not> needs_recovery 20000 control_initial"
  using heartbeats_hold_off_recovery [of "[]" control_initial 20000 calm_env]
  by (auto simp: control_initial_def)

text \<open>
  A closed session leaves its heartbeat behind. \<open>CLOSE_WEBRTC\<close> clears the open request but not the
  time of the last heartbeat; a session started from the console more than 45 seconds after that
  heartbeat is closed again by the very next pass of the main loop, as \<open>heartbeat_timeout\<close>.
\<close>

theorem stale_heartbeat_closes_console_session:
  assumes "run_events control_step control_initial evs = Some c" "last_heartbeat_ms c > 0"
    "mqtt_control_cmd_handler e t0 (Some ''CLOSE_WEBRTC'') c = Some c1"
    "start_cli e c1 = Some c2" "t > last_heartbeat_ms c + 45000"
  shows "\<exists>c3. app_main_pass e t c2 = Some c3 \<and> \<not> webrtc_is_running (web c3) \<and> last_heartbeat_ms c1 = last_heartbeat_ms c"
proof -
  have inv: "control_inv c" by (rule control_app.run_inv [OF control_inv_initial assms(1)])
  then have c0: "control_inv (c\<lparr>last_open_request_ms := 0\<rparr>)" by simp
  from stop_cli_total [OF c0, of e] obtain w where
    "stop_cli e (c\<lparr>last_open_request_ms := 0\<rparr>) = Some (c\<lparr>last_open_request_ms := 0, web := w\<rparr>)" "wapp_inv w" by auto
  with assms(3) have c1: "c1 = c\<lparr>last_open_request_ms := 0, web := w\<rparr>" "wapp_inv w"
    by (simp_all add: mqtt_control_cmd_handler_def)
  have i1: "control_inv c1" unfolding c1(1) using web_update_inv [OF c1(2) c0] by simp
  from start_cli_total [OF i1, of e] assms(4) obtain v where v: "c2 = c1\<lparr>web := v\<rparr>" "wapp_inv v" by auto
  then have i2: "control_inv c2" using i1 by simp
  let ?q = "c2\<lparr>web := query_webrtc (env_ret e) (web c2)\<rparr>"
  have r: "\<not> needs_recovery t ?q" by (simp add: needs_recovery_def v(1) c1(1))
  show ?thesis
  proof (cases "handle (web c2) = None")
    case True
    then have h: "\<not> heartbeat_missing t ?q" by (simp add: heartbeat_missing_def)
    show ?thesis using loop_quiet [OF r h, of e] True by (simp add: app_main_pass_def c1(1))
  next
    case False
    then have h: "heartbeat_missing t ?q" using assms(2,5) by (simp add: heartbeat_missing_def control_times v(1) c1(1))
    show ?thesis using loop_timeout [OF query_inv_control [OF i2] r h, of e] by (auto simp: app_main_pass_def c1(1))
  qed
qed

lemma heartbeat_sets_time:
  assumes "control_inv c" "mqtt_control_cmd_handler e t (Some ''HEARTBEAT'') c = Some c'"
  shows "last_heartbeat_ms c' = t"
proof -
  have "control_inv (c\<lparr>last_heartbeat_ms := t, last_open_request_ms := t\<rparr>)"
    using assms(1) by (simp add: control_inv_def)
  from start_cli_total [OF this, of e] assms(2) show ?thesis
    by (auto simp: mqtt_control_cmd_handler_def Let_def split: if_splits)
qed

definition heartbeat_run :: "control_event list" where
  "heartbeat_run = [Network_changed calm_env True True,
     Mqtt_event calm_env 1000 (MQTT_EVENT_DATA ''1234/command'' ''HEARTBEAT'')]"

theorem stale_heartbeat_closes_console_session_witness:
  "\<exists>c c1 c2 c3. run_events control_step control_initial heartbeat_run = Some c \<and>
     mqtt_control_cmd_handler calm_env 3000 (Some ''CLOSE_WEBRTC'') c = Some c1 \<and>
     start_cli calm_env c1 = Some c2 \<and> app_main_pass calm_env 46001 c2 = Some c3 \<and> \<not> webrtc_is_running (web c3)"
proof -
  have "\<exists>c. run_events control_step control_initial heartbeat_run = Some c"
    using control_app.run_total [OF control_inv_initial, of heartbeat_run] by (auto simp: heartbeat_run_def)
  then obtain c where c: "run_events control_step control_initial heartbeat_run = Some c" by blast
  obtain d where d: "network_event_handler calm_env True True control_initial = Some d" "control_inv d" "cmd_handler (mqtt d)"
    using network_up [OF control_inv_initial, of calm_env True]
    by (auto simp: network_event_handler_def publish_webrtc_status_def mqtt_bridge_publish_json_def publish_raw_def
        mqtt_bridge_start_def mqtt_bridge_set_cmd_handler_def Let_def)
  have "mqtt_event_handler (MQTT_EVENT_DATA ''1234/command'' ''HEARTBEAT'') (mqtt d) = (Some ''HEARTBEAT'', mqtt d)"
    using d(3) by (simp add: mqtt_event_handler_def MQTT_CMD_TOPIC_def MQTT_USERNAME_def strncmp_eq_def is_nul_def)
  with c d(1) have "mqtt_control_cmd_handler calm_env 1000 (Some ''HEARTBEAT'') d = Some c"
    by (simp add: heartbeat_run_def on_mqtt_event_def split: bind_splits)
  then have hb: "last_heartbeat_ms c = 1000" by (rule heartbeat_sets_time [OF d(2)])
  have i: "control_inv c" by (rule control_app.run_inv [OF control_inv_initial c])
  from cmd_handler_inv [OF i, of calm_env 3000 "Some ''CLOSE_WEBRTC''"] obtain c1 where
    c1: "mqtt_control_cmd_handler calm_env 3000 (Some ''CLOSE_WEBRTC'') c = Some c1" "control_inv c1" by blast
  from start_cli_total [OF c1(2), of calm_env] obtain c2 where c2: "start_cli calm_env c1 = Some c2" by blast
  show ?thesis
    using stale_heartbeat_closes_console_session [OF c _ c1(1) c2, of 46001] hb c c1 c2 by auto
qed

end
