(* ===== verification/Janus_Signal.thy ===== *)
theory Janus_Signal
  imports Webrtc_Session
begin

text \<open>
  The signaling client for a Janus server
  (\<open>components/esp_webrtc/impl/janus_signal/janus_signaling.c\<close>). The JSON library is the parameter
  \<open>lib\<close>, requests are recorded with the fields of their payload, \<open>env\<close> gives the answers of the HTTP
  client (a code and the chunks of the body) and the outcome of allocations.
\<close>

section \<open>Interfaces\<close>

text \<open>
  What the code uses of cJSON on parsed values \<open>'j\<close>: \<open>cJSON_Parse\<close>, \<open>cJSON_GetObjectItem\<close>, the text
  of a string, the number of a number as \<open>uint64_t\<close>, the items of an array, \<open>cJSON_PrintUnformatted\<close>.
\<close>

record 'j json_lib =
  js_parse :: "string \<Rightarrow> 'j option"
  js_item :: "'j \<Rightarrow> string \<Rightarrow> 'j option"
  js_string :: "'j \<Rightarrow> string option"
  js_number :: "'j \<Rightarrow> nat option"
  js_array :: "'j \<Rightarrow> 'j list option"
  js_print :: "'j \<Rightarrow> string option"

text \<open>The payload of a request, as it is built.\<close>

datatype 'j jval = JStr string | JNum nat | JBool bool | JObj "(string \<times> 'j jval) list" | JParsed 'j

record 'j janus_req =
  req_method :: string
  req_url :: string
  req_body :: "(string \<times> 'j jval) list"

datatype janus_out = On_ice_info bool | On_connected | On_msg signal_msg_type string | On_close

text \<open>
  \<open>http n\<close> answers the request that follows \<open>n\<close> others; \<open>realloc_ok n k\<close> tells whether the buffer for
  its chunk \<open>k\<close> could be had.
\<close>

record janus_env =
  time_us :: nat
  txn_ok :: bool
  obj_ok :: "nat \<Rightarrow> bool"
  print_ok :: "nat \<Rightarrow> bool"
  realloc_ok :: "nat \<Rightarrow> nat \<Rightarrow> bool"
  http :: "nat \<Rightarrow> int \<times> string list"

section \<open>State\<close>

record janus_cfg =
  room_id :: nat
  token :: "string option"
  pin :: "string option"
  display :: "string option"
  api_secret :: "string option"

record 'j janus =
  signal_url :: string
  janus_cfg :: janus_cfg
  session_id :: nat
  handle_id :: nat
  local_sdp_sent :: bool
  janus_running :: bool
  poll_started :: bool
  exit_sema :: bool
  alive :: bool
  txn_seq :: u32
  reqs :: "'j janus_req list"
  outs :: "janus_out list"

definition ESP_PEER_ERR_FAIL :: int where "ESP_PEER_ERR_FAIL = -6"

definition emit_out :: "janus_out \<Rightarrow> 'j janus \<Rightarrow> 'j janus" where
  "emit_out x j = j\<lparr>outs := outs j @ [x]\<rparr>"

section \<open>Answers\<close>

record janus_resp =
  resp_data :: "string option"
  resp_size :: nat
  malloc_size :: nat

definition no_resp :: janus_resp where
  "no_resp = \<lparr>resp_data = None, resp_size = 0, malloc_size = 0\<rparr>"

definition janus_save_response :: "bool \<Rightarrow> string \<Rightarrow> janus_resp \<Rightarrow> janus_resp" where
  "janus_save_response ok chunk r =
     (if chunk = [] then r
      else let required = resp_size r + length chunk + 1 in
        if required > malloc_size r \<and> \<not> ok then no_resp
        else r\<lparr>malloc_size := max required (malloc_size r),
               resp_data := Some ((case resp_data r of Some d \<Rightarrow> take (resp_size r) d | None \<Rightarrow> []) @ chunk),
               resp_size := resp_size r + length chunk\<rparr>)"

fun save_chunks :: "(nat \<Rightarrow> bool) \<Rightarrow> nat \<Rightarrow> string list \<Rightarrow> janus_resp \<Rightarrow> janus_resp" where
  "save_chunks ok k [] r = r"
| "save_chunks ok k (c # cs) r = save_chunks ok (Suc k) cs (janus_save_response (ok k) c r)"

section \<open>Requests\<close>

definition hex_digit :: "nat \<Rightarrow> char" where
  "hex_digit d = (if d < 10 then char_of (48 + d) else char_of (87 + d))"

definition hex8 :: "u32 \<Rightarrow> string" where
  "hex8 v = map (\<lambda>i. hex_digit (unat v div 16 ^ i mod 16)) [7, 6, 5, 4, 3, 2, 1, 0]"

definition janus_create_txn :: "janus_env \<Rightarrow> 'j janus \<Rightarrow> string option \<times> 'j janus" where
  "janus_create_txn env j =
     (let j1 = j\<lparr>txn_seq := txn_seq j + 1\<rparr>
      in (if txn_ok env then Some (c_snprintf 32 (hex8 (word_of_nat (time_us env)) @ hex8 (txn_seq j1))) else None, j1))"

definition janus_parse_error :: "'j json_lib \<Rightarrow> 'j \<Rightarrow> int" where
  "janus_parse_error lib root = (case js_item lib root ''error'' of None \<Rightarrow> 0 | Some e \<Rightarrow> -1)"

definition auth_fields :: "'j janus \<Rightarrow> (string \<times> 'j jval) list" where
  "auth_fields j =
     (case token (janus_cfg j) of Some t \<Rightarrow> [(''token'', JStr t)] | None \<Rightarrow> []) @
     (case api_secret (janus_cfg j) of Some t \<Rightarrow> [(''apisecret'', JStr t)] | None \<Rightarrow> [])"

definition janus_send_api ::
  "janus_env \<Rightarrow> string \<Rightarrow> string \<Rightarrow> (string \<times> 'j jval) list \<Rightarrow> 'j janus \<Rightarrow> (int \<times> string option) \<times> 'j janus" where
  "janus_send_api env meth url payload j =
     (let n = length (reqs j) in
      if \<not> print_ok env n then ((ESP_PEER_ERR_NO_MEM, None), j)
      else ((fst (http env n), resp_data (save_chunks (realloc_ok env n) 0 (snd (http env n)) no_resp)),
            j\<lparr>reqs := reqs j @ [\<lparr>req_method = meth, req_url = url, req_body = payload\<rparr>]\<rparr>))"

definition session_url :: "'j janus \<Rightarrow> string" where
  "session_url j = c_snprintf 320 (signal_url j @ ''/'' @ dec_string (session_id j))"

definition handle_url :: "'j janus \<Rightarrow> string" where
  "handle_url j = c_snprintf 320 (signal_url j @ ''/'' @ dec_string (session_id j) @ ''/'' @ dec_string (handle_id j))"

text \<open>The parsed answer, unless there is none or it reports an error; and the id it carries.\<close>

definition good_answer :: "'j json_lib \<Rightarrow> string option \<Rightarrow> 'j option" where
  "good_answer lib data =
     (case data of None \<Rightarrow> None
      | Some d \<Rightarrow> (case js_parse lib d of None \<Rightarrow> None
          | Some js \<Rightarrow> if janus_parse_error lib js \<noteq> 0 then None else Some js))"

definition answer_id :: "'j json_lib \<Rightarrow> 'j \<Rightarrow> nat option" where
  "answer_id lib root =
     (case js_item lib root ''data'' of None \<Rightarrow> None
      | Some d \<Rightarrow> (case js_item lib d ''id'' of None \<Rightarrow> None | Some i \<Rightarrow> js_number lib i))"

section \<open>Joining the room\<close>

text \<open>One exchange of \<open>janus_get_ids\<close>: object \<open>k\<close>, request, answer; \<open>next\<close> goes on with the answer.\<close>

definition janus_exchange ::
  "'j json_lib \<Rightarrow> janus_env \<Rightarrow> nat \<Rightarrow> string \<Rightarrow> (string \<times> 'j jval) list \<Rightarrow> ('j \<Rightarrow> 'j janus \<Rightarrow> int \<times> 'j janus) \<Rightarrow>
     'j janus \<Rightarrow> int \<times> 'j janus" where
  "janus_exchange lib env k url payload next j =
     (if \<not> obj_ok env k then (ESP_PEER_ERR_NO_MEM, j)
      else case janus_send_api env ''POST'' url payload j of
        ((r, answer), j1) \<Rightarrow>
          if r \<noteq> 0 then (ESP_PEER_ERR_FAIL, j1)
          else (case good_answer lib answer of None \<Rightarrow> (ESP_PEER_ERR_FAIL, j1) | Some js \<Rightarrow> next js j1))"

definition create_payload :: "string \<Rightarrow> 'j janus \<Rightarrow> (string \<times> 'j jval) list" where
  "create_payload txn j = [(''janus'', JStr ''create''), (''transaction'', JStr txn)] @ auth_fields j"

definition attach_payload :: "string \<Rightarrow> 'j janus \<Rightarrow> (string \<times> 'j jval) list" where
  "attach_payload txn j =
     [(''janus'', JStr ''attach''), (''plugin'', JStr ''janus.plugin.videoroom''), (''transaction'', JStr txn)] @ auth_fields j"

definition join_payload :: "string \<Rightarrow> 'j janus \<Rightarrow> (string \<times> 'j jval) list" where
  "join_payload txn j =
     [(''janus'', JStr ''message''), (''transaction'', JStr txn)] @ auth_fields j @
     [(''body'', JObj ([(''request'', JStr ''join''), (''ptype'', JStr ''publisher''), (''room'', JNum (room_id (janus_cfg j)))] @
        (case pin (janus_cfg j) of Some p \<Rightarrow> [(''pin'', JStr p)] | None \<Rightarrow> []) @
        (case display (janus_cfg j) of Some p \<Rightarrow> [(''display'', JStr p)] | None \<Rightarrow> [])))]"

definition set_session :: "nat option \<Rightarrow> 'j janus \<Rightarrow> 'j janus" where
  "set_session i j = (case i of Some n \<Rightarrow> j\<lparr>session_id := n\<rparr> | None \<Rightarrow> j)"

definition set_plugin_handle :: "nat option \<Rightarrow> 'j janus \<Rightarrow> 'j janus" where
  "set_plugin_handle i j = (case i of Some n \<Rightarrow> j\<lparr>handle_id := n\<rparr> | None \<Rightarrow> j)"

definition janus_join :: "'j json_lib \<Rightarrow> janus_env \<Rightarrow> string \<Rightarrow> 'j janus \<Rightarrow> int \<times> 'j janus" where
  "janus_join lib env txn j = janus_exchange lib env 2 (handle_url j) (join_payload txn j) (\<lambda>js j3. (0, j3)) j"

definition janus_attach :: "'j json_lib \<Rightarrow> janus_env \<Rightarrow> string \<Rightarrow> 'j janus \<Rightarrow> int \<times> 'j janus" where
  "janus_attach lib env txn j =
     janus_exchange lib env 1 (session_url j) (attach_payload txn j)
       (\<lambda>js jb. let j2 = set_plugin_handle (answer_id lib js) jb
                in if handle_id j2 = 0 then (ESP_PEER_ERR_FAIL, j2) else janus_join lib env txn j2) j"

definition janus_get_ids :: "'j json_lib \<Rightarrow> janus_env \<Rightarrow> 'j janus \<Rightarrow> int \<times> 'j janus" where
  "janus_get_ids lib env j =
     (case janus_create_txn env j of
        (None, j0) \<Rightarrow> (ESP_PEER_ERR_NO_MEM, j0)
      | (Some txn, j0) \<Rightarrow>
          janus_exchange lib env 0 (signal_url j0) (create_payload txn j0)
            (\<lambda>js ja. let j1 = set_session (answer_id lib js) ja
                     in if session_id j1 = 0 then (ESP_PEER_ERR_FAIL, j1) else janus_attach lib env txn j1) j0)"

section \<open>Events\<close>

definition janus_handle_event :: "'j json_lib \<Rightarrow> 'j \<Rightarrow> 'j janus \<Rightarrow> 'j janus" where
  "janus_handle_event lib ev j =
     (case js_item lib ev ''janus'' \<bind> js_string lib of
        None \<Rightarrow> j
      | Some kind \<Rightarrow>
          if kind = ''event'' \<or> kind = ''success'' then
            (case js_item lib ev ''jsep'' of
               None \<Rightarrow> j
             | Some jsep \<Rightarrow>
                 (case (js_item lib jsep ''type'' \<bind> js_string lib, js_item lib jsep ''sdp'' \<bind> js_string lib) of
                    (Some ty, Some sdp) \<Rightarrow> if ty = ''answer'' then emit_out (On_msg SIG_SDP sdp) j else j
                  | _ \<Rightarrow> j))
          else if kind = ''trickle'' then
            (case js_item lib ev ''candidate'' of
               None \<Rightarrow> j
             | Some c \<Rightarrow> (case js_print lib c of None \<Rightarrow> j | Some s \<Rightarrow> emit_out (On_msg SIG_CANDIDATE s) j))
          else j)"

text \<open>One pass of the loop of \<open>janus_poll_thread\<close>, and whether the loop goes on.\<close>

definition poll_url :: "janus_env \<Rightarrow> 'j janus \<Rightarrow> string" where
  "poll_url env j =
     c_snprintf 384 (signal_url j @ ''/'' @ dec_string (session_id j) @ ''?maxev=1&rid='' @ dec_string (time_us env))"

definition janus_poll_pass :: "'j json_lib \<Rightarrow> janus_env \<Rightarrow> 'j janus \<Rightarrow> bool \<times> 'j janus" where
  "janus_poll_pass lib env j =
     (if \<not> janus_running j then (False, j)
      else let n = length (reqs j);
               j1 = j\<lparr>reqs := reqs j @ [\<lparr>req_method = ''GET'', req_url = poll_url env j, req_body = []\<rparr>]\<rparr>;
               answer = resp_data (save_chunks (realloc_ok env n) 0 (snd (http env n)) no_resp)
           in (True,
               (case (if fst (http env n) = 0 then answer \<bind> js_parse lib else None) of
                  None \<Rightarrow> j1
                | Some root \<Rightarrow>
                    (case js_array lib root of
                       Some items \<Rightarrow> fold (janus_handle_event lib) items j1
                     | None \<Rightarrow> janus_handle_event lib root j1))))"

section \<open>The signaling interface\<close>

definition janus_new :: "string \<Rightarrow> janus_cfg option \<Rightarrow> 'j janus" where
  "janus_new url extra = \<lparr>signal_url = url,
     janus_cfg = (case extra of Some c \<Rightarrow> c
       | None \<Rightarrow> \<lparr>room_id = 0, token = None, pin = None, display = None, api_secret = None\<rparr>),
     session_id = 0, handle_id = 0, local_sdp_sent = False, janus_running = False, poll_started = False,
     exit_sema = False, alive = True, txn_seq = 0, reqs = [], outs = []\<rparr>"

text \<open>
  \<open>alive\<close> is cleared when the client is freed. \<open>seq\<close> is the static counter of transactions; \<open>extra\<close>
  the configuration, given when its size is right.
\<close>

definition janus_signaling_start ::
  "'j json_lib \<Rightarrow> janus_env \<Rightarrow> bool \<Rightarrow> bool \<Rightarrow> bool \<Rightarrow> u32 \<Rightarrow> string option \<Rightarrow> janus_cfg option \<Rightarrow> int \<times> 'j janus option" where
  "janus_signaling_start lib env alloc_ok sema_ok thread_ok seq url extra =
     (case url of
        None \<Rightarrow> (ESP_PEER_ERR_INVALID_ARG, None)
      | Some u \<Rightarrow>
          if \<not> alloc_ok then (ESP_PEER_ERR_NO_MEM, None)
          else let j = janus_new u extra\<lparr>txn_seq := seq\<rparr> in
            if room_id (janus_cfg j) = 0 then (ESP_PEER_ERR_INVALID_ARG, Some (j\<lparr>alive := False\<rparr>))
            else (case janus_get_ids lib env j of
              (r, j1) \<Rightarrow>
                if r \<noteq> 0 then (r, Some (j1\<lparr>alive := False\<rparr>))
                else let j2 = j1\<lparr>janus_running := True\<rparr> in
                  if \<not> sema_ok then (ESP_PEER_ERR_FAIL, Some (j2\<lparr>alive := False\<rparr>))
                  else if \<not> thread_ok
                  then (ESP_PEER_ERR_FAIL, Some (j2\<lparr>janus_running := False, exit_sema := False, alive := False\<rparr>))
                  else (0, Some (emit_out On_connected (emit_out (On_ice_info True)
                          (j2\<lparr>exit_sema := True, poll_started := True\<rparr>))))))"

definition janus_signaling_send_msg ::
  "'j json_lib \<Rightarrow> janus_env \<Rightarrow> signal_msg_type \<Rightarrow> string \<Rightarrow> 'j janus \<Rightarrow> int \<times> 'j janus" where
  "janus_signaling_send_msg lib env ty text j =
     (case janus_create_txn env j of
        (None, j0) \<Rightarrow> (ESP_PEER_ERR_NO_MEM, j0)
      | (Some txn, j0) \<Rightarrow>
          if \<not> obj_ok env 0 then (ESP_PEER_ERR_NO_MEM, j0)
          else let head = (''transaction'', JStr txn) # auth_fields j0 in
            if ty = SIG_SDP \<and> \<not> local_sdp_sent j0 then
              (case janus_send_api env ''POST'' (handle_url j0)
                 (head @ [(''janus'', JStr ''message''),
                    (''body'', JObj [(''request'', JStr ''publish''), (''audio'', JBool True), (''video'', JBool True)]),
                    (''jsep'', JObj [(''type'', JStr ''offer''), (''sdp'', JStr text)])]) j0 of
                 ((r, _), j1) \<Rightarrow> if r \<noteq> 0 then (ESP_PEER_ERR_FAIL, j1) else (0, j1\<lparr>local_sdp_sent := True\<rparr>))
            else if ty = SIG_CANDIDATE then
              (case js_parse lib text of
                 None \<Rightarrow> (ESP_PEER_ERR_INVALID_ARG, j0)
               | Some cand \<Rightarrow>
                   (case janus_send_api env ''POST'' (handle_url j0)
                      (head @ [(''janus'', JStr ''trickle''), (''candidate'', JParsed cand)]) j0 of
                      ((r, _), j1) \<Rightarrow> (if r \<noteq> 0 then ESP_PEER_ERR_FAIL else 0, j1)))
            else if ty = SIG_BYE then
              (0, snd (janus_send_api env ''POST'' (handle_url j0)
                 (head @ [(''janus'', JStr ''message''), (''body'', JObj [(''request'', JStr ''unpublish'')])]) j0))
            else (0, j0))"

text \<open>
  Stopping, with the poll thread ending by itself when it is awaited (its two last statements are in
  \<open>poll_exit\<close>).
\<close>

definition poll_exit :: "'j janus \<Rightarrow> 'j janus" where
  "poll_exit j = j\<lparr>poll_started := False\<rparr>"

definition janus_wait_for_pool_thread :: "'j janus \<Rightarrow> 'j janus" where
  "janus_wait_for_pool_thread j = (if poll_started j \<and> exit_sema j then poll_exit j else j)"

definition leave_payload :: "string \<Rightarrow> string \<Rightarrow> 'j janus \<Rightarrow> (string \<times> 'j jval) list" where
  "leave_payload what txn j = [(''janus'', JStr what), (''transaction'', JStr txn)] @ auth_fields j"

definition janus_signaling_stop :: "janus_env \<Rightarrow> 'j janus \<Rightarrow> int \<times> 'j janus" where
  "janus_signaling_stop env j =
     (let j0 = j\<lparr>janus_running := False\<rparr>;
          j5 = (case janus_create_txn env j0 of
                  (None, j1) \<Rightarrow> janus_wait_for_pool_thread j1
                | (Some txn, j1) \<Rightarrow>
                    if handle_id j1 = 0 then janus_wait_for_pool_thread j1
                    else let j2 = (if obj_ok env 0
                                   then snd (janus_send_api env ''POST'' (handle_url j1) (leave_payload ''detach'' txn j1) j1) else j1);
                             j3 = janus_wait_for_pool_thread j2
                         in if obj_ok env 1
                            then snd (janus_send_api env ''POST'' (session_url j3) (leave_payload ''destroy'' txn j3) j3) else j3)
      in (0, (emit_out On_close j5)\<lparr>exit_sema := False, alive := False\<rparr>))"

section \<open>Starting\<close>

lemma janus_cfg_sel [simp]:
  "janus_cfg (set_session i j) = janus_cfg j" "signal_url (set_session i j) = signal_url j" "outs (set_session i j) = outs j"
  "reqs (set_session i j) = reqs j" "handle_id (set_session i j) = handle_id j" "alive (set_session i j) = alive j"
  "janus_cfg (set_plugin_handle i j) = janus_cfg j" "signal_url (set_plugin_handle i j) = signal_url j"
  "outs (set_plugin_handle i j) = outs j" "reqs (set_plugin_handle i j) = reqs j" "alive (set_plugin_handle i j) = alive j"
  "session_id (set_plugin_handle i j) = session_id j"
  by (simp_all add: set_session_def set_plugin_handle_def split: option.split)

text \<open>The state with a request recorded.\<close>

definition posted :: "string \<Rightarrow> (string \<times> 'j jval) list \<Rightarrow> 'j janus \<Rightarrow> 'j janus" where
  "posted url payload j = j\<lparr>reqs := reqs j @ [\<lparr>req_method = ''POST'', req_url = url, req_body = payload\<rparr>]\<rparr>"

lemma posted_sel [simp]:
  "signal_url (posted u p j) = signal_url j" "janus_cfg (posted u p j) = janus_cfg j" "outs (posted u p j) = outs j"
  "session_id (posted u p j) = session_id j" "handle_id (posted u p j) = handle_id j" "alive (posted u p j) = alive j"
  "reqs (posted u p j) = reqs j @ [\<lparr>req_method = ''POST'', req_url = u, req_body = p\<rparr>]"
  by (simp_all add: posted_def)

lemma janus_exchange_cases:
  assumes "janus_exchange lib env k url payload next j = (r, j')"
  obtains (failed) "r \<noteq> 0" "outs j' = outs j" | (answered) js where "next js (posted url payload j) = (r, j')"
  using assms
  by (auto simp: janus_exchange_def janus_send_api_def posted_def Let_def ESP_PEER_ERR_FAIL_def ESP_PEER_ERR_NO_MEM_def
      split: if_splits option.splits)

lemma janus_join_cases:
  assumes "janus_join lib env txn j = (r, j')"
  shows "outs j' = outs j \<and> (r = 0 \<longrightarrow> j' = posted (handle_url j) (join_payload txn j) j)"
  using assms [unfolded janus_join_def] by (cases rule: janus_exchange_cases) auto

lemma payload_cong:
  "janus_cfg j1 = janus_cfg j \<Longrightarrow> attach_payload txn j1 = attach_payload txn j \<and> join_payload txn j1 = join_payload txn j \<and>
     create_payload txn j1 = create_payload txn j"
  by (simp add: attach_payload_def join_payload_def create_payload_def auth_fields_def)

lemma url_cong:
  "signal_url j1 = signal_url j \<Longrightarrow> session_id j1 = session_id j \<Longrightarrow> session_url j1 = session_url j"
  "signal_url j1 = signal_url j \<Longrightarrow> session_id j1 = session_id j \<Longrightarrow> handle_id j1 = handle_id j \<Longrightarrow> handle_url j1 = handle_url j"
  by (simp_all add: session_url_def handle_url_def)

lemma janus_attach_cases:
  assumes "janus_attach lib env txn j = (r, j')"
  shows "outs j' = outs j \<and> (r = 0 \<longrightarrow> handle_id j' \<noteq> 0 \<and> session_id j' = session_id j \<and> signal_url j' = signal_url j \<and>
     janus_cfg j' = janus_cfg j \<and> alive j' = alive j \<and>
     reqs j' = reqs j @ [\<lparr>req_method = ''POST'', req_url = session_url j, req_body = attach_payload txn j\<rparr>,
       \<lparr>req_method = ''POST'', req_url = handle_url j', req_body = join_payload txn j\<rparr>])"
  using assms [unfolded janus_attach_def]
proof (cases rule: janus_exchange_cases)
  case (answered js)
  let ?j = "set_plugin_handle (answer_id lib js) (posted (session_url j) (attach_payload txn j) j)"
  show ?thesis
  proof (cases "handle_id ?j = 0")
    case True
    with answered show ?thesis by (auto simp: Let_def ESP_PEER_ERR_FAIL_def)
  next
    case False
    with answered have "janus_join lib env txn ?j = (r, j')" by (simp add: Let_def)
    from janus_join_cases [OF this] False show ?thesis
      using payload_cong [of ?j j txn] url_cong(2) [of j' ?j] by auto
  qed
qed auto

lemma janus_get_ids_cases:
  assumes "janus_get_ids lib env j = (r, j')"
  shows "outs j' = outs j \<and> (r = 0 \<longrightarrow> handle_id j' \<noteq> 0 \<and> session_id j' \<noteq> 0 \<and> signal_url j' = signal_url j \<and>
     janus_cfg j' = janus_cfg j \<and> alive j' = alive j \<and>
     (\<exists>txn. reqs j' = reqs j @ [\<lparr>req_method = ''POST'', req_url = signal_url j, req_body = create_payload txn j\<rparr>,
       \<lparr>req_method = ''POST'', req_url = session_url j', req_body = attach_payload txn j\<rparr>,
       \<lparr>req_method = ''POST'', req_url = handle_url j', req_body = join_payload txn j\<rparr>]))"
proof (cases "janus_create_txn env j")
  case (Pair t j0)
  then have j0: "outs j0 = outs j" "signal_url j0 = signal_url j" "janus_cfg j0 = janus_cfg j" "reqs j0 = reqs j" "alive j0 = alive j"
    by (auto simp: janus_create_txn_def Let_def)
  show ?thesis
  proof (cases t)
    case None
    with Pair assms j0 show ?thesis by (auto simp: janus_get_ids_def ESP_PEER_ERR_NO_MEM_def)
  next
    case (Some txn)
    from assms [unfolded janus_get_ids_def Pair Some, simplified] show ?thesis
    proof (cases rule: janus_exchange_cases)
      case (answered js)
      let ?j = "set_session (answer_id lib js) (posted (signal_url j0) (create_payload txn j0) j0)"
      show ?thesis
      proof (cases "session_id ?j = 0")
        case True
        with answered j0 show ?thesis by (auto simp: Let_def ESP_PEER_ERR_FAIL_def)
      next
        case False
        with answered have "janus_attach lib env txn ?j = (r, j')" by (simp add: Let_def)
        from janus_attach_cases [OF this] False j0 show ?thesis
          using payload_cong [of ?j j txn] payload_cong [of j0 j txn] url_cong(1) [of j' ?j] by auto
      qed
    qed (use j0 in auto)
  qed
qed

text \<open>
  C37. A start is complete or leaves nothing behind. When it returns 0, exactly the requests
  \<open>create\<close>, \<open>attach\<close> and \<open>join\<close> were sent, each under the identifiers the one before it was answered,
  which are not 0; the poll thread runs, and the session was told first that it is the initiator and
  then that signaling is connected. With any other code the client has been freed and no callback was
  made.
\<close>

theorem janus_start_complete:
  assumes "janus_signaling_start lib env alloc_ok sema_ok thread_ok seq (Some u) (Some cfg) = (r, Some j)"
  shows "if r = 0 then
      alive j \<and> janus_running j \<and> poll_started j \<and> outs j = [On_ice_info True, On_connected] \<and>
      session_id j \<noteq> 0 \<and> handle_id j \<noteq> 0 \<and> room_id cfg \<noteq> 0 \<and>
      (\<exists>txn. reqs j = [\<lparr>req_method = ''POST'', req_url = u, req_body = create_payload txn j\<rparr>,
         \<lparr>req_method = ''POST'', req_url = c_snprintf 320 (u @ ''/'' @ dec_string (session_id j)), req_body = attach_payload txn j\<rparr>,
         \<lparr>req_method = ''POST'', req_url = c_snprintf 320 (u @ ''/'' @ dec_string (session_id j) @ ''/'' @ dec_string (handle_id j)),
          req_body = join_payload txn j\<rparr>])
    else \<not> alive j \<and> outs j = []"
proof (cases "alloc_ok \<and> room_id cfg \<noteq> 0")
  case True
  let ?j = "janus_new u (Some cfg)\<lparr>txn_seq := seq\<rparr> :: 'a janus"
  obtain r1 j1 where ids: "janus_get_ids lib env ?j = (r1, j1)" by (cases "janus_get_ids lib env ?j")
  have z: "room_id (janus_cfg ?j) \<noteq> 0" using True by (simp add: janus_new_def)
  note c = janus_get_ids_cases [OF ids]
  have n: "outs ?j = []" "alive ?j" "reqs ?j = []" "signal_url ?j = u" "janus_cfg ?j = cfg" by (simp_all add: janus_new_def)
  show ?thesis
  proof (cases "r1 = 0 \<and> sema_ok \<and> thread_ok")
    case t: True
    with assms True z ids have r: "r = 0" and j: "j = emit_out On_connected (emit_out (On_ice_info True)
        (j1\<lparr>janus_running := True, exit_sema := True, poll_started := True\<rparr>))"
      by (simp_all add: janus_signaling_start_def Let_def)
    with c t n True payload_cong [of j ?j] show ?thesis
      by (auto simp: emit_out_def session_url_def handle_url_def)
  next
    case False
    with assms True z ids c n show ?thesis
      by (auto simp: janus_signaling_start_def Let_def ESP_PEER_ERR_FAIL_def split: if_splits)
  qed
next
  case False
  with assms show ?thesis
    by (auto simp: janus_signaling_start_def janus_new_def Let_def ESP_PEER_ERR_INVALID_ARG_def split: if_splits)
qed
definition demo_json :: "string json_lib" where
  "demo_json = \<lparr>js_parse = Some,
     js_item = (\<lambda>j k. if k = ''data'' \<or> k = ''id'' \<or> k = ''janus'' \<or> k = ''jsep'' \<or> k = ''type'' \<or> k = ''sdp'' then Some k else None),
     js_string = (\<lambda>j. if j = ''janus'' then Some ''event'' else if j = ''type'' then Some ''answer'' else Some j),
     js_number = (\<lambda>j. Some 7), js_array = (\<lambda>j. None), js_print = Some\<rparr>"

definition demo_env :: janus_env where
  "demo_env = \<lparr>time_us = 255, txn_ok = True, obj_ok = (\<lambda>_. True), print_ok = (\<lambda>_. True), realloc_ok = (\<lambda>_ _. True),
     http = (\<lambda>_. (0, [''{'', ''}'']))\<rparr>"

definition demo_room :: janus_cfg where
  "demo_room = \<lparr>room_id = 1234, token = None, pin = None, display = Some ''esp'', api_secret = None\<rparr>"

lemma demo_start_ok: "fst (janus_signaling_start demo_json demo_env True True True 0 (Some ''u'') (Some demo_room)) = 0"
  by (simp add: janus_signaling_start_def janus_new_def demo_json_def demo_env_def demo_room_def janus_get_ids_def
      janus_create_txn_def janus_exchange_def janus_attach_def janus_join_def janus_send_api_def janus_save_response_def
      good_answer_def answer_id_def janus_parse_error_def set_session_def set_plugin_handle_def no_resp_def Let_def)

theorem janus_start_complete_witness:
  "\<exists>j. janus_signaling_start demo_json demo_env True True True 0 (Some ''u'') (Some demo_room) = (0, Some j) \<and>
     outs j = [On_ice_info True, On_connected] \<and> session_id j \<noteq> 0"
proof -
  obtain r p where p: "janus_signaling_start demo_json demo_env True True True 0 (Some ''u'') (Some demo_room) = (r, p)"
    by (cases "janus_signaling_start demo_json demo_env True True True 0 (Some ''u'') (Some demo_room)")
  with demo_start_ok have "r = 0" by simp
  with p obtain j where j: "janus_signaling_start demo_json demo_env True True True 0 (Some ''u'') (Some demo_room) = (0, Some j)"
    by (auto simp: janus_signaling_start_def ESP_PEER_ERR_FAIL_def ESP_PEER_ERR_INVALID_ARG_def ESP_PEER_ERR_NO_MEM_def
        Let_def split: if_splits prod.splits)
  with janus_start_complete [OF j] show ?thesis by simp
qed

section \<open>Messages\<close>

text \<open>A list of messages sent one after the other, each in its own environment, with their codes.\<close>

fun send_msgs ::
  "'j json_lib \<Rightarrow> (janus_env \<times> signal_msg_type \<times> string) list \<Rightarrow> 'j janus \<Rightarrow> int list \<times> 'j janus" where
  "send_msgs lib [] j = ([], j)"
| "send_msgs lib ((env, ty, text) # ms) j =
     (case janus_signaling_send_msg lib env ty text j of
        (r, j1) \<Rightarrow> case send_msgs lib ms j1 of (rs, j2) \<Rightarrow> (r # rs, j2))"

definition is_offer :: "'j janus_req \<Rightarrow> bool" where
  "is_offer q \<longleftrightarrow> (\<exists>v. (''jsep'', v) \<in> set (req_body q))"

lemma auth_fields_keys: "(k, v) \<in> set (auth_fields j) \<Longrightarrow> k = ''token'' \<or> k = ''apisecret''"
  by (auto simp: auth_fields_def split: option.splits)

lemma no_jsep_auth [simp]: "(''jsep'', v) \<notin> set (auth_fields j)"
  using auth_fields_keys by fastforce

lemma send_api_reqs:
  "janus_send_api env meth url p j = ((r, a), j') \<Longrightarrow>
     j' = j \<or> j' = j\<lparr>reqs := reqs j @ [\<lparr>req_method = meth, req_url = url, req_body = p\<rparr>]\<rparr>"
  by (auto simp: janus_send_api_def Let_def split: if_splits)

lemma txn_state: "janus_create_txn env j = (t, j0) \<Longrightarrow> j0 = j\<lparr>txn_seq := txn_seq j + 1\<rparr>"
  by (simp add: janus_create_txn_def Let_def)

lemma send_msg_sent:
  assumes "local_sdp_sent j" "janus_signaling_send_msg lib env ty text j = (r, j')"
  shows "local_sdp_sent j' \<and> filter is_offer (reqs j') = filter is_offer (reqs j) \<and>
    (ty = SIG_SDP \<and> txn_ok env \<and> obj_ok env 0 \<longrightarrow> r = 0 \<and> reqs j' = reqs j)"
  using assms
  by (auto simp: janus_signaling_send_msg_def Let_def is_offer_def janus_send_api_def janus_create_txn_def
      split: prod.splits option.splits if_splits)
lemma send_msgs_sent:
  "local_sdp_sent j \<Longrightarrow> send_msgs lib ms j = (rs, j') \<Longrightarrow>
     local_sdp_sent j' \<and> filter is_offer (reqs j') = filter is_offer (reqs j)"
proof (induction ms arbitrary: j rs j')
  case (Cons m ms)
  obtain env ty body where m: "m = (env, ty, body)" by (cases m)
  obtain r j1 where 1: "janus_signaling_send_msg lib env ty body j = (r, j1)"
    by (cases "janus_signaling_send_msg lib env ty body j")
  obtain rs2 j2 where 2: "send_msgs lib ms j1 = (rs2, j2)" by (cases "send_msgs lib ms j1")
  from Cons.prems m 1 2 have "j' = j2" by simp
  with Cons.IH [of j1 rs2 j2] 2 send_msg_sent [OF Cons.prems(1) 1] show ?case by simp
qed simp

text \<open>
  Only one offer per client. Once an offer has been published, no sequence of messages publishes
  another: every later offer is dropped without a request and reported as sent, also after a BYE has
  taken the first one back. A session that reconnects over the same signaling therefore stays
  unpublished.
\<close>

theorem janus_publishes_once:
  assumes "janus_signaling_send_msg lib env SIG_SDP offer j = (0, j1)" "\<not> local_sdp_sent j"
    and "send_msgs lib ms j1 = (rs, j2)"
    and "janus_signaling_send_msg lib env2 SIG_SDP offer2 j2 = (r, j3)" "txn_ok env2" "obj_ok env2 0"
  shows "length (filter is_offer (reqs j1)) = length (filter is_offer (reqs j)) + 1 \<and>
    filter is_offer (reqs j3) = filter is_offer (reqs j1) \<and> r = 0 \<and> reqs j3 = reqs j2"
proof -
  have 1: "local_sdp_sent j1" "length (filter is_offer (reqs j1)) = length (filter is_offer (reqs j)) + 1"
    using assms(1,2)
    by (auto simp: janus_signaling_send_msg_def Let_def is_offer_def janus_send_api_def janus_create_txn_def
        ESP_PEER_ERR_NO_MEM_def ESP_PEER_ERR_FAIL_def split: prod.splits option.splits if_splits)
  from send_msgs_sent [OF 1(1) assms(3)] have 2: "local_sdp_sent j2" "filter is_offer (reqs j2) = filter is_offer (reqs j1)" by auto
  from send_msg_sent [OF 2(1) assms(4)] 1 2 assms(5,6) show ?thesis by simp
qed

theorem janus_publishes_once_witness:
  "\<exists>j1 j2 j3 rs. janus_signaling_send_msg demo_json demo_env SIG_SDP ''v=0'' (janus_new ''u'' (Some demo_room)) = (0, j1) \<and>
     send_msgs demo_json [(demo_env, SIG_BYE, [])] j1 = (rs, j2) \<and>
     janus_signaling_send_msg demo_json demo_env SIG_SDP ''v=1'' j2 = (0, j3) \<and> reqs j3 = reqs j2"
proof -
  let ?j = "janus_new ''u'' (Some demo_room) :: string janus"
  have t: "txn_ok demo_env" "obj_ok demo_env 0" by (simp_all add: demo_env_def)
  have "fst (janus_signaling_send_msg demo_json demo_env SIG_SDP ''v=0'' ?j) = 0"
    by (simp add: janus_signaling_send_msg_def demo_env_def janus_create_txn_def janus_send_api_def Let_def)
  then obtain j1 where j1: "janus_signaling_send_msg demo_json demo_env SIG_SDP ''v=0'' ?j = (0, j1)"
    by (metis prod.collapse)
  obtain rs j2 where j2: "send_msgs demo_json [(demo_env, SIG_BYE, [])] j1 = (rs, j2)"
    by (cases "send_msgs demo_json [(demo_env, SIG_BYE, [])] j1")
  obtain r j3 where j3: "janus_signaling_send_msg demo_json demo_env SIG_SDP ''v=1'' j2 = (r, j3)"
    by (cases "janus_signaling_send_msg demo_json demo_env SIG_SDP ''v=1'' j2")
  from janus_publishes_once [OF j1 _ j2 j3 t] j1 j2 j3 show ?thesis by (auto simp: janus_new_def)
qed

section \<open>Answers and transactions\<close>

text \<open>Without a failed allocation the buffer holds the chunks in order.\<close>

lemma save_chunks_concat:
  assumes "\<forall>k. ok k" "case resp_data r of None \<Rightarrow> resp_size r = 0 | Some d \<Rightarrow> length d = resp_size r \<and> d \<noteq> []"
  shows "resp_data (save_chunks ok k cs r) =
    (case resp_data r of None \<Rightarrow> if concat cs = [] then None else Some (concat cs) | Some d \<Rightarrow> Some (d @ concat cs))"
  using assms(2)
proof (induction cs arbitrary: k r)
  case (Cons c cs)
  show ?case
  proof (cases "c = []")
    case True
    then have "janus_save_response (ok k) c r = r" by (simp add: janus_save_response_def)
    then show ?thesis using Cons.IH [of r "Suc k"] Cons.prems True by (auto split: option.splits)
  next
    case False
    let ?r = "janus_save_response (ok k) c r"
    have d: "resp_data ?r = Some ((case resp_data r of Some d \<Rightarrow> d | None \<Rightarrow> []) @ c)"
      "resp_size ?r = resp_size r + length c"
      using False assms(1) Cons.prems by (auto simp: janus_save_response_def Let_def split: option.splits)
    have "case resp_data ?r of None \<Rightarrow> resp_size ?r = 0 | Some d \<Rightarrow> length d = resp_size ?r \<and> d \<noteq> []"
      using d Cons.prems False by (auto split: option.splits)
    from Cons.IH [OF this, of "Suc k"] d False show ?thesis by (auto split: option.splits)
  qed
qed (auto split: option.split)
text \<open>What an event means for the session.\<close>

definition event_outs :: "'j json_lib \<Rightarrow> 'j \<Rightarrow> janus_out list" where
  "event_outs lib ev =
     (let kind = js_item lib ev ''janus'' \<bind> js_string lib;
          jsep = js_item lib ev ''jsep'';
          ty = jsep \<bind> (\<lambda>s. js_item lib s ''type'') \<bind> js_string lib;
          sdp = jsep \<bind> (\<lambda>s. js_item lib s ''sdp'') \<bind> js_string lib;
          cand = js_item lib ev ''candidate'' \<bind> js_print lib
      in if kind \<in> {Some ''event'', Some ''success''} \<and> ty = Some ''answer'' \<and> sdp \<noteq> None then [On_msg SIG_SDP (the sdp)]
         else if kind = Some ''trickle'' \<and> cand \<noteq> None then [On_msg SIG_CANDIDATE (the cand)]
         else [])"

lemma handle_event_outs: "outs (janus_handle_event lib ev j) = outs j @ event_outs lib ev"
  by (auto simp: janus_handle_event_def event_outs_def emit_out_def Let_def split: option.splits)

lemma fold_event_outs: "outs (fold (janus_handle_event lib) items j) = outs j @ concat (map (event_outs lib) items)"
  by (induction items arbitrary: j) (simp_all add: handle_event_outs)


definition demo_events :: "string json_lib" where
  "demo_events = demo_json\<lparr>js_array := (\<lambda>j. Some [j, j])\<rparr>"


section \<open>The end of the poll thread\<close>

text \<open>
  Where the poll thread and the stopping thread are: the poll thread leaves its loop, clears
  \<open>poll_started\<close>, posts the semaphore; the stopping thread clears \<open>running\<close>, tests \<open>poll_started\<close>, waits
  if it was set, and frees the client. \<open>Fault\<close>: the freed client was used.
\<close>

datatype poll_pc = Polling | Left_loop | Cleared | Posted
datatype stop_pc = Not_stopping | Asked | Waiting | Passed | Freed

record exit_state =
  poll_at :: poll_pc
  stop_at :: stop_pc
  xrunning :: bool
  xpoll_started :: bool
  sema_count :: nat
  fault :: bool

definition exit_initial :: exit_state where
  "exit_initial = \<lparr>poll_at = Polling, stop_at = Not_stopping, xrunning = True, xpoll_started = True,
     sema_count = 0, fault = False\<rparr>"

definition touch :: "exit_state \<Rightarrow> exit_state" where
  "touch s = s\<lparr>fault := fault s \<or> stop_at s = Freed\<rparr>"

inductive exit_step :: "exit_state \<Rightarrow> exit_state \<Rightarrow> bool" where
  poll_again: "poll_at s = Polling \<Longrightarrow> xrunning s \<Longrightarrow> exit_step s (touch s)"
| poll_leave: "poll_at s = Polling \<Longrightarrow> \<not> xrunning s \<Longrightarrow> exit_step s (touch s\<lparr>poll_at := Left_loop\<rparr>)"
| poll_clear: "poll_at s = Left_loop \<Longrightarrow> exit_step s (touch s\<lparr>poll_at := Cleared, xpoll_started := False\<rparr>)"
| poll_post: "poll_at s = Cleared \<Longrightarrow> exit_step s (touch s\<lparr>poll_at := Posted, sema_count := sema_count s + 1\<rparr>)"
| stop_ask: "stop_at s = Not_stopping \<Longrightarrow> exit_step s (s\<lparr>stop_at := Asked, xrunning := False\<rparr>)"
| stop_wait: "stop_at s = Asked \<Longrightarrow> xpoll_started s \<Longrightarrow> exit_step s (s\<lparr>stop_at := Waiting\<rparr>)"
| stop_skip: "stop_at s = Asked \<Longrightarrow> \<not> xpoll_started s \<Longrightarrow> exit_step s (s\<lparr>stop_at := Passed\<rparr>)"
| stop_pass: "stop_at s = Waiting \<Longrightarrow> 0 < sema_count s \<Longrightarrow> exit_step s (s\<lparr>stop_at := Passed, sema_count := sema_count s - 1\<rparr>)"
| stop_free: "stop_at s = Passed \<Longrightarrow> exit_step s (s\<lparr>stop_at := Freed\<rparr>)"

inductive exit_reach :: "exit_state \<Rightarrow> bool" where
  exit_start: "exit_reach exit_initial"
| exit_next: "exit_reach s \<Longrightarrow> exit_step s s' \<Longrightarrow> exit_reach s'"

definition exit_inv :: "exit_state \<Rightarrow> bool" where
  "exit_inv s \<longleftrightarrow>
     (xrunning s \<longleftrightarrow> stop_at s = Not_stopping) \<and>
     (xpoll_started s \<longleftrightarrow> poll_at s = Polling \<or> poll_at s = Left_loop) \<and>
     (poll_at s \<noteq> Polling \<longrightarrow> \<not> xrunning s) \<and>
     (0 < sema_count s \<longrightarrow> poll_at s = Posted) \<and>
     (stop_at s = Passed \<or> stop_at s = Freed \<longrightarrow> poll_at s = Cleared \<or> poll_at s = Posted) \<and>
     (stop_at s = Waiting \<and> poll_at s = Posted \<longrightarrow> 0 < sema_count s) \<and>
     (fault s \<longrightarrow> stop_at s = Freed \<and> poll_at s = Posted)"

lemma exit_reach_inv: "exit_reach s \<Longrightarrow> exit_inv s"
proof (induction rule: exit_reach.induct)
  case exit_start
  then show ?case by (simp add: exit_inv_def exit_initial_def)
next
  case (exit_next s s')
  from exit_next.hyps(2) exit_next.IH show ?case
    by (cases rule: exit_step.cases; cases "poll_at s") (auto simp: exit_inv_def touch_def)
qed

lemma faulting_step:
  assumes "exit_inv s" "exit_step s s'" "fault s'" "\<not> fault s"
  shows "poll_at s = Cleared \<and> stop_at s = Freed"
proof -
  from assms(2,3,4) have "stop_at s = Freed \<and> poll_at s \<noteq> Posted"
    by (induction rule: exit_step.induct) (simp_all add: touch_def)
  with assms(1) show ?thesis by (cases "poll_at s") (simp_all add: exit_inv_def)
qed

lemma waiting_goes_on:
  assumes i: "exit_inv s" and s: "stop_at s = Waiting"
  shows "\<exists>s'. exit_step s s' \<and> (poll_at s' \<noteq> poll_at s \<or> stop_at s' = Passed)"
proof (cases "poll_at s")
  case Polling
  with i s poll_leave [of s] show ?thesis by (fastforce simp: exit_inv_def)
next
  case Left_loop
  with poll_clear [of s] show ?thesis by fastforce
next
  case Cleared
  with poll_post [of s] show ?thesis by fastforce
next
  case Posted
  with i s stop_pass [of s] show ?thesis by (fastforce simp: exit_inv_def)
qed

lemma exit_race:
  "exit_reach \<lparr>poll_at = Posted, stop_at = Freed, xrunning = False, xpoll_started = False, sema_count = 1, fault = True\<rparr>"
proof -
  let ?s = "\<lambda>p q. \<lparr>poll_at = p, stop_at = q, xrunning = False, xpoll_started = p = Left_loop \<or> p = Polling,
     sema_count = 0, fault = False\<rparr> :: exit_state"
  have "exit_reach (?s Polling Asked)"
    using exit_next [OF exit_start stop_ask] by (simp add: exit_initial_def)
  from exit_next [OF this poll_leave] have "exit_reach (?s Left_loop Asked)" by (simp add: touch_def)
  from exit_next [OF this poll_clear] have "exit_reach (?s Cleared Asked)" by (simp add: touch_def)
  from exit_next [OF this stop_skip] have "exit_reach (?s Cleared Passed)" by simp
  from exit_next [OF this stop_free] have "exit_reach (?s Cleared Freed)" by simp
  from exit_next [OF this poll_post] show ?thesis by (simp add: touch_def)
qed

text \<open>
  Stopping can pull the client away from under its own poll thread. The thread clears
  \<open>poll_started\<close> before it posts the semaphore; a stop that tests the flag between the two does not wait,
  frees the client, and the post then uses freed memory. This is the only such access, and a stop that
  does wait never waits in vain: until it can go on, the poll thread can.
\<close>

theorem janus_stop_races:
  "(\<exists>s. exit_reach s \<and> fault s) \<and>
   (\<forall>s s'. exit_reach s \<and> exit_step s s' \<and> fault s' \<and> \<not> fault s \<longrightarrow> poll_at s = Cleared \<and> stop_at s = Freed) \<and>
   (\<forall>s. exit_reach s \<and> stop_at s = Waiting \<longrightarrow>
      (\<exists>s'. exit_step s s' \<and> (poll_at s' \<noteq> poll_at s \<or> stop_at s' = Passed)))"
proof -
  have f: "poll_at s = Cleared \<and> stop_at s = Freed"
    if "exit_reach s" "exit_step s s'" "fault s'" "\<not> fault s" for s s'
    using faulting_step [OF exit_reach_inv] that by blast
  have w: "\<exists>s'. exit_step s s' \<and> (poll_at s' \<noteq> poll_at s \<or> stop_at s' = Passed)"
    if r: "exit_reach s" and s: "stop_at s = Waiting" for s
    using waiting_goes_on [OF exit_reach_inv [OF r] s] .
  have "\<exists>s. exit_reach s \<and> fault s" using exit_race by (intro exI conjI) (assumption, simp)
  with f w show ?thesis by blast
qed

theorem janus_stop_races_witness:
  "\<exists>s. exit_reach s \<and> fault s"
  using janus_stop_races by blast

end
