(* ===== verification/Color_Convert.thy ===== *)
theory Color_Convert
  imports Esp_Prelude
begin

unbundle bit_operations_syntax

text \<open>
  The colour conversion of the renderer (\<open>components/av_render/src/color_convert.c\<close>): planar YUV 4:2:0 to
  RGB565, through a table indexed by 6 bits of luminance and 5 bits of each chrominance. On the ESP32-P4
  (\<open>p4\<close>) the little-endian format is converted by a library routine, the parameter \<open>native\<close>. Buffers of
  pixels are lists of 16-bit words; an access outside a buffer, and the deliberate write to address 0,
  are \<open>None\<close>.
\<close>

section \<open>Formats\<close>

datatype frame_type =
    RAW_TYPE_NONE | RAW_TYPE_YUV422 | RAW_TYPE_YUV420 | RAW_TYPE_RGB565 | RAW_TYPE_RGB565_BE | RAW_TYPE_MAX

record color_convert =
  table :: "u16 list option"
  from_fmt :: frame_type
  to_fmt :: frame_type
  width :: nat
  height :: nat

definition get_table_size :: "frame_type \<Rightarrow> frame_type \<Rightarrow> nat" where
  "get_table_size f t =
     (if f = RAW_TYPE_YUV420 \<and> t = RAW_TYPE_RGB565_BE then 256 * 256 * 2
      else if f = RAW_TYPE_YUV420 \<and> t = RAW_TYPE_RGB565 then 256 * 256 * 2
      else 0)"

definition convert_table_get_image_size :: "frame_type \<Rightarrow> nat \<Rightarrow> nat \<Rightarrow> nat" where
  "convert_table_get_image_size fmt w h =
     (case fmt of
        RAW_TYPE_YUV420 \<Rightarrow> w * h * 3 div 2
      | RAW_TYPE_RGB565 \<Rightarrow> w * h * 2
      | RAW_TYPE_RGB565_BE \<Rightarrow> w * h * 2
      | _ \<Rightarrow> 0)"

section \<open>The colour formula\<close>

text \<open>\<open>>> 8\<close> of a negative \<open>int\<close> is an arithmetic shift, \<open>div\<close> rounds the same way.\<close>

definition YUV2RO :: "int \<Rightarrow> int \<Rightarrow> int \<Rightarrow> int" where
  "YUV2RO C D E = saturate 0 255 ((298 * C + 409 * E + 128) div 256)"

definition YUV2GO :: "int \<Rightarrow> int \<Rightarrow> int \<Rightarrow> int" where
  "YUV2GO C D E = saturate 0 255 ((298 * C - 100 * D - 208 * E + 128) div 256)"

definition YUV2BO :: "int \<Rightarrow> int \<Rightarrow> int \<Rightarrow> int" where
  "YUV2BO C D E = saturate 0 255 ((298 * C + 516 * D + 128) div 256)"

definition RGB565 :: "u16 \<Rightarrow> u16 \<Rightarrow> u16 \<Rightarrow> u16" where
  "RGB565 r g b = push_bit 5 (push_bit 6 r OR g) OR b"

definition pixel :: "int \<Rightarrow> int \<Rightarrow> int \<Rightarrow> u16" where
  "pixel y u v =
     RGB565 (word_of_int (YUV2RO y u v div 8) AND 0x1f) (word_of_int (YUV2GO y u v div 4) AND 0x3f)
       (word_of_int (YUV2BO y u v div 8) AND 0x1f)"

definition swap16 :: "u16 \<Rightarrow> u16" where
  "swap16 x = drop_bit 8 x OR push_bit 8 x"

section \<open>The table\<close>

definition table_entry :: "bool \<Rightarrow> nat \<Rightarrow> nat \<Rightarrow> nat \<Rightarrow> u16" where
  "table_entry be y0 u0 v0 =
     (let y = int (y0 * 4 + y0 mod 4) - 16;
          u = int (u0 * 8 + y0 mod 8) - 128;
          v = int (v0 * 8 + v0 mod 8) - 128;
          x = pixel y u v
      in if be then swap16 x else x)"

definition fill_table :: "bool \<Rightarrow> u16 list \<Rightarrow> u16 list" where
  "fill_table be t =
     fold (\<lambda>u0. fold (\<lambda>v0. fold (\<lambda>y0 t. t[y0 * 1024 + u0 * 32 + v0 := table_entry be y0 u0 v0]) [0..<64]) [0..<32])
       [0..<32] t"

definition init_table :: "color_convert \<Rightarrow> color_convert" where
  "init_table c =
     (let c1 = (if from_fmt c = RAW_TYPE_YUV420 \<and> to_fmt c = RAW_TYPE_RGB565_BE
                then c\<lparr>table := map_option (fill_table True) (table c)\<rparr> else c)
      in if from_fmt c1 = RAW_TYPE_YUV420 \<and> to_fmt c1 = RAW_TYPE_RGB565
         then c1\<lparr>table := map_option (fill_table False) (table c1)\<rparr> else c1)"

text \<open>\<open>mem\<close> is the uninitialised memory of the table, \<open>None\<close> when it cannot be had.\<close>

definition init_convert_table ::
  "bool \<Rightarrow> bool \<Rightarrow> u16 list option \<Rightarrow> frame_type \<Rightarrow> frame_type \<Rightarrow> nat \<Rightarrow> nat \<Rightarrow> color_convert option" where
  "init_convert_table p4 calloc_ok mem f t w h =
     (if \<not> calloc_ok then None
      else let c = \<lparr>table = None, from_fmt = f, to_fmt = t, width = w, height = h\<rparr> in
        if p4 \<and> f = RAW_TYPE_YUV420 \<and> t = RAW_TYPE_RGB565 then Some c
        else if get_table_size f t \<noteq> 0
        then (case mem of None \<Rightarrow> None | Some m \<Rightarrow> Some (init_table (c\<lparr>table := Some m\<rparr>)))
        else Some (init_table c))"

section \<open>Conversion\<close>

definition table_index :: "u8 \<Rightarrow> u8 \<Rightarrow> u8 \<Rightarrow> nat" where
  "table_index y u v = unat (drop_bit 2 y) * 1024 + (unat (drop_bit 3 u) * 32 + unat (drop_bit 3 v))"

definition get :: "'a list \<Rightarrow> nat \<Rightarrow> 'a option" where
  "get xs i = (if i < length xs then Some (xs ! i) else None)"

definition put :: "'a list \<Rightarrow> nat \<Rightarrow> 'a \<Rightarrow> 'a list option" where
  "put xs i x = (if i < length xs then Some (xs[i := x]) else None)"

text \<open>The positions of the loops: \<open>y_pos\<close>, \<open>u_pos\<close>, \<open>rgb_idx\<close> and the destination.\<close>

type_synonym scan = "nat \<times> nat \<times> nat \<times> u16 list"

definition convert_pair :: "u16 list \<Rightarrow> nat \<Rightarrow> nat \<Rightarrow> u8 list \<Rightarrow> scan \<Rightarrow> scan option" where
  "convert_pair tbl w h src = (\<lambda>(y_pos, u_pos, k, dst). do {
     y \<leftarrow> get src y_pos;
     u \<leftarrow> get src (w * h + u_pos);
     v \<leftarrow> get src (w * h * 5 div 4 + u_pos);
     p \<leftarrow> get tbl (table_index y u v);
     dst1 \<leftarrow> put dst k p;
     y' \<leftarrow> get src (y_pos + 1);
     p' \<leftarrow> get tbl (table_index y' u v);
     dst2 \<leftarrow> put dst1 (k + 1) p';
     Some (y_pos + 2, u_pos + 1, k + 2, dst2)
   })"

fun row_loop :: "u16 list \<Rightarrow> nat \<Rightarrow> nat \<Rightarrow> u8 list \<Rightarrow> nat \<Rightarrow> scan \<Rightarrow> scan option" where
  "row_loop tbl w h src 0 s = Some s"
| "row_loop tbl w h src (Suc n) s = convert_pair tbl w h src s \<bind> row_loop tbl w h src n"

fun image_loop :: "u16 list \<Rightarrow> nat \<Rightarrow> nat \<Rightarrow> u8 list \<Rightarrow> nat list \<Rightarrow> scan \<Rightarrow> scan option" where
  "image_loop tbl w h src [] s = Some s"
| "image_loop tbl w h src (i # is) s =
     (case row_loop tbl w h src ((w + 1) div 2) s of
        None \<Rightarrow> None
      | Some (y_pos, u_pos, k, dst) \<Rightarrow>
          image_loop tbl w h src is (y_pos, if even i then u_pos - w div 2 else u_pos, k, dst))"

definition yuv420_to_rgb565 :: "color_convert \<Rightarrow> u8 list \<Rightarrow> u16 list \<Rightarrow> u16 list option" where
  "yuv420_to_rgb565 c src dst =
     (case table c of None \<Rightarrow> None
      | Some t \<Rightarrow> map_option (\<lambda>(_, _, _, d). d)
          (image_loop t (width c) (height c) src [0..<height c] (0, 0, 0, dst)))"

text \<open>Sizes are in bytes, as the caller gives them.\<close>

definition convert_color ::
  "bool \<Rightarrow> (u8 list \<Rightarrow> u16 list \<Rightarrow> nat \<Rightarrow> nat \<Rightarrow> u16 list) \<Rightarrow> color_convert \<Rightarrow> u8 list \<Rightarrow> nat \<Rightarrow> u16 list \<Rightarrow> nat \<Rightarrow>
     (int \<times> u16 list) option" where
  "convert_color p4 native c src src_size dst dst_size =
     (if from_fmt c = RAW_TYPE_YUV420 \<and> to_fmt c = RAW_TYPE_RGB565 \<and> p4
      then Some (0, native src dst (width c) (height c))
      else if from_fmt c = RAW_TYPE_YUV420 then
        (if src_size \<noteq> width c * height c * 3 div 2 \<or> dst_size < width c * height c * 2 then Some (-1, dst)
         else if to_fmt c = RAW_TYPE_RGB565 \<or> to_fmt c = RAW_TYPE_RGB565_BE
         then map_option (\<lambda>d. (0, d)) (yuv420_to_rgb565 c src dst)
         else Some (-1, dst))
      else None)"

section \<open>The table holds every entry\<close>

lemma length_y_loop: "length (fold (\<lambda>y0 t. t[y0 * 1024 + c := e y0]) ys t) = length t"
  by (induction ys arbitrary: t) simp_all

lemma y_loop_nth:
  "c < 1024 \<Longrightarrow> k < length t \<Longrightarrow>
     fold (\<lambda>y0 t. t[y0 * 1024 + c := e y0]) [0..<n] t ! k = (if k mod 1024 = c \<and> k div 1024 < n then e (k div 1024) else t ! k)"
proof (induction n)
  case (Suc n)
  have "n * 1024 + c = k \<longleftrightarrow> k mod 1024 = c \<and> k div 1024 = n"
    using Suc.prems(1) by auto
  with Suc show ?case by (auto simp: nth_list_update length_y_loop less_Suc_eq)
qed simp

definition v_loop :: "(nat \<Rightarrow> nat \<Rightarrow> u16) \<Rightarrow> nat \<Rightarrow> nat \<Rightarrow> u16 list \<Rightarrow> u16 list" where
  "v_loop e u0 n t = fold (\<lambda>v0. fold (\<lambda>y0 t. t[y0 * 1024 + u0 * 32 + v0 := e v0 y0]) [0..<64]) [0..<n] t"

lemma v_loop_Suc: "v_loop e u0 (Suc n) t = fold (\<lambda>y0 t. t[y0 * 1024 + (u0 * 32 + n) := e n y0]) [0..<64] (v_loop e u0 n t)"
  by (simp add: v_loop_def add.assoc)

lemma length_v_loop [simp]: "length (v_loop e u0 n t) = length t"
  by (induction n) (simp_all only: v_loop_Suc length_y_loop, simp add: v_loop_def)

lemma split_index: "(k mod 1024 = u0 * 32 + v0) \<longleftrightarrow> k div 32 mod 32 = u0 \<and> k mod 32 = v0" if "u0 < 32" "v0 < 32" for k :: nat
proof -
  have "k mod 1024 = k div 32 mod 32 * 32 + k mod 32"
    using mod_mult2_eq [of k 32 32] by simp
  moreover have "a = u0 \<and> b = v0" if "a * 32 + b = u0 * 32 + v0" "b < 32" for a b :: nat
  proof -
    have "(a * 32 + b) div 32 = a" "(a * 32 + b) mod 32 = b" "(u0 * 32 + v0) div 32 = u0" "(u0 * 32 + v0) mod 32 = v0"
      using that(2) \<open>v0 < 32\<close> by simp_all
    then show ?thesis using that(1) by metis
  qed
  ultimately show ?thesis by (metis mod_less_divisor zero_less_numeral)
qed

lemma v_loop_nth:
  "u0 < 32 \<Longrightarrow> n \<le> 32 \<Longrightarrow> k < length t \<Longrightarrow>
     v_loop e u0 n t ! k =
       (if k div 1024 < 64 \<and> k div 32 mod 32 = u0 \<and> k mod 32 < n then e (k mod 32) (k div 1024) else t ! k)"
proof (induction n)
  case 0
  then show ?case by (simp add: v_loop_def)
next
  case (Suc n)
  then have n: "u0 * 32 + n < 1024" by simp
  have "v_loop e u0 (Suc n) t ! k =
      (if k mod 1024 = u0 * 32 + n \<and> k div 1024 < 64 then e n (k div 1024) else v_loop e u0 n t ! k)"
    unfolding v_loop_Suc using y_loop_nth [OF n, of k "v_loop e u0 n t" "e n" 64] Suc.prems by simp
  then show ?case
    using Suc split_index [of u0 n k] by (auto simp: less_Suc_eq)
qed

lemma u_loop_nth:
  "n \<le> 32 \<Longrightarrow> k < length t \<Longrightarrow>
     length (fold (\<lambda>u0. v_loop (e u0) u0 32) [0..<n] t) = length t \<and>
     fold (\<lambda>u0. v_loop (e u0) u0 32) [0..<n] t ! k =
       (if k div 1024 < 64 \<and> k div 32 mod 32 < n then e (k div 32 mod 32) (k mod 32) (k div 1024) else t ! k)"
proof (induction n)
  case (Suc n)
  then show ?case by (auto simp: v_loop_nth less_Suc_eq)
qed simp

lemma fill_table_nth:
  assumes "length t = 65536" "y0 < 64" "u0 < 32" "v0 < 32"
  shows "fill_table be t ! (y0 * 1024 + (u0 * 32 + v0)) = table_entry be y0 u0 v0" and "length (fill_table be t) = 65536"
proof -
  let ?k = "y0 * 1024 + (u0 * 32 + v0)"
  have f: "fill_table be t = fold (\<lambda>u0. v_loop (\<lambda>v0 y0. table_entry be y0 u0 v0) u0 32) [0..<32] t"
    by (simp add: fill_table_def v_loop_def [abs_def])
  have k: "?k < length t" using assms by simp
  have "?k div 1024 = y0" "?k mod 1024 = u0 * 32 + v0" using assms by auto
  with split_index [of u0 v0 ?k] assms have i: "?k div 1024 = y0" "?k div 32 mod 32 = u0" "?k mod 32 = v0" by auto
  note u = u_loop_nth [OF order_refl k, of "\<lambda>u0 v0 y0. table_entry be y0 u0 v0"]
  from u i assms(2,3) show "fill_table be t ! ?k = table_entry be y0 u0 v0" unfolding f by simp
  from u assms(1) show "length (fill_table be t) = 65536" unfolding f by simp
qed

lemma table_index_parts:
  "unat (drop_bit 2 y :: u8) < 64" "unat (drop_bit 3 u :: u8) < 32"
proof -
  have "unat y < 256" "unat u < 256" using unsigned_less [of y, where 'a = nat] unsigned_less [of u, where 'a = nat] by simp_all
  then show "unat (drop_bit 2 y) < 64" "unat (drop_bit 3 u) < 32"
    unfolding unat_drop_bit_eq by (simp_all add: drop_bit_eq_div less_mult_imp_div_less)
qed

lemma fill_table_index:
  "length t = 65536 \<Longrightarrow> fill_table be t ! table_index y u v =
     table_entry be (unat (drop_bit 2 y)) (unat (drop_bit 3 u)) (unat (drop_bit 3 v))"
  "length t = 65536 \<Longrightarrow> table_index y u v < length (fill_table be t)"
proof -
  assume t: "length t = 65536"
  have b: "unat (drop_bit 2 y) < 64" "unat (drop_bit 3 u) < 32" "unat (drop_bit 3 v) < 32" by (rule table_index_parts)+
  show "fill_table be t ! table_index y u v = table_entry be (unat (drop_bit 2 y)) (unat (drop_bit 3 u)) (unat (drop_bit 3 v))"
    unfolding table_index_def by (rule fill_table_nth(1) [OF t b])
  show "table_index y u v < length (fill_table be t)"
    using b fill_table_nth(2) [OF t b, of be] by (simp add: table_index_def)
qed
section \<open>The loops visit every pixel\<close>

text \<open>The pixel at position \<open>q\<close> of an image \<open>w\<close> wide, and a destination converted up to \<open>k\<close>.\<close>

definition pixel_at :: "u16 list \<Rightarrow> nat \<Rightarrow> nat \<Rightarrow> u8 list \<Rightarrow> nat \<Rightarrow> u16" where
  "pixel_at tbl w h src q =
     (let c = q div w div 2 * (w div 2) + q mod w div 2
      in tbl ! table_index (src ! q) (src ! (w * h + c)) (src ! (w * h * 5 div 4 + c)))"

definition converted :: "u16 list \<Rightarrow> nat \<Rightarrow> nat \<Rightarrow> u8 list \<Rightarrow> u16 list \<Rightarrow> nat \<Rightarrow> u16 list \<Rightarrow> bool" where
  "converted tbl w h src dst0 k dst \<longleftrightarrow>
     length dst = length dst0 \<and>
     (\<forall>q < length dst. dst ! q = (if q < k then pixel_at tbl w h src q else dst0 ! q))"

lemma convert_pair_step:
  fixes m g :: nat
  assumes i: "i < 2 * g" "j < m" and src: "length src = 6 * (m * g)" and dst: "4 * (m * g) \<le> length dst"
    and tbl: "\<forall>y u v. table_index y u v < length tbl"
    and c: "converted tbl (2 * m) (2 * g) src dst0 (i * (2 * m) + 2 * j) dst"
  shows "\<exists>dst'. convert_pair tbl (2 * m) (2 * g) src (i * (2 * m) + 2 * j, i div 2 * m + j, i * (2 * m) + 2 * j, dst) =
      Some (i * (2 * m) + 2 * (j + 1), i div 2 * m + (j + 1), i * (2 * m) + 2 * (j + 1), dst') \<and>
    converted tbl (2 * m) (2 * g) src dst0 (i * (2 * m) + 2 * (j + 1)) dst'"
proof -
  let ?k = "i * (2 * m) + 2 * j" and ?u = "i div 2 * m + j"
  have "(i + 1) * (2 * m) \<le> 2 * g * (2 * m)" using i(1) by (intro mult_le_mono1) simp
  then have k: "?k + 1 < 4 * (m * g)" using i(2) by (simp add: algebra_simps)
  have "(i div 2 + 1) * m \<le> g * m" using i(1) by (intro mult_le_mono1) linarith
  then have u: "?u < m * g" using i(2) by (simp add: algebra_simps)
  have off: "2 * m * (2 * g) = 4 * (m * g)" "2 * m * (2 * g) * 5 div 4 = 5 * (m * g)" by simp_all
  have m0: "0 < m" using i(2) by simp
  have q: "?k div (2 * m) = i" "?k mod (2 * m) = 2 * j" "(?k + 1) div (2 * m) = i" "(?k + 1) mod (2 * m) = 2 * j + 1"
    using i(2) m0 div_mult_self3 [of "2 * m" i "2 * j + 1"] mod_mult_self3 [of i "2 * m" "2 * j + 1"] by simp_all
  let ?p = "\<lambda>y. tbl ! table_index y (src ! (4 * (m * g) + ?u)) (src ! (5 * (m * g) + ?u))"
  have px: "pixel_at tbl (2 * m) (2 * g) src ?k = ?p (src ! ?k)"
    "pixel_at tbl (2 * m) (2 * g) src (?k + 1) = ?p (src ! (?k + 1))"
    unfolding pixel_at_def Let_def q off by (simp_all add: mult.commute [of g m])
  let ?d = "dst[?k := ?p (src ! ?k), ?k + 1 := ?p (src ! (?k + 1))]"
  have "convert_pair tbl (2 * m) (2 * g) src (?k, ?u, ?k, dst) = Some (?k + 2, ?u + 1, ?k + 2, ?d)"
    using k u src dst tbl unfolding convert_pair_def off get_def put_def by (simp add: mult.commute [of g m])
  moreover have "converted tbl (2 * m) (2 * g) src dst0 (?k + 2) ?d"
    using c k dst px unfolding converted_def by (auto simp: nth_list_update less_Suc_eq)
  ultimately show ?thesis by (intro exI [of _ ?d]) simp
qed

lemma row_loop_converts:
  fixes m g :: nat
  assumes i: "i < 2 * g" and src: "length src = 6 * (m * g)" and len: "4 * (m * g) \<le> length dst0"
    and tbl: "\<forall>y u v. table_index y u v < length tbl"
  shows "j + n \<le> m \<Longrightarrow> converted tbl (2 * m) (2 * g) src dst0 (i * (2 * m) + 2 * j) dst \<Longrightarrow>
    \<exists>dst'. row_loop tbl (2 * m) (2 * g) src n (i * (2 * m) + 2 * j, i div 2 * m + j, i * (2 * m) + 2 * j, dst) =
      Some (i * (2 * m) + 2 * (j + n), i div 2 * m + (j + n), i * (2 * m) + 2 * (j + n), dst') \<and>
    converted tbl (2 * m) (2 * g) src dst0 (i * (2 * m) + 2 * (j + n)) dst'"
proof (induction n arbitrary: j dst)
  case (Suc n)
  have "4 * (m * g) \<le> length dst" using len Suc.prems(2) by (simp add: converted_def)
  from convert_pair_step [OF i _ src this tbl Suc.prems(2)] Suc.prems(1) obtain d where
    d: "convert_pair tbl (2 * m) (2 * g) src (i * (2 * m) + 2 * j, i div 2 * m + j, i * (2 * m) + 2 * j, dst) =
      Some (i * (2 * m) + 2 * (j + 1), i div 2 * m + (j + 1), i * (2 * m) + 2 * (j + 1), d)"
    "converted tbl (2 * m) (2 * g) src dst0 (i * (2 * m) + 2 * (j + 1)) d" by auto
  from Suc.IH [OF _ d(2)] Suc.prems(1) obtain d' where
    "row_loop tbl (2 * m) (2 * g) src n (i * (2 * m) + 2 * (j + 1), i div 2 * m + (j + 1), i * (2 * m) + 2 * (j + 1), d) =
      Some (i * (2 * m) + 2 * (j + 1 + n), i div 2 * m + (j + 1 + n), i * (2 * m) + 2 * (j + 1 + n), d')"
    "converted tbl (2 * m) (2 * g) src dst0 (i * (2 * m) + 2 * (j + 1 + n)) d'" by auto
  with d(1) show ?case by (intro exI [of _ d']) (simp add: add.commute add.left_commute)
qed (auto)

lemma image_loop_converts:
  fixes m g :: nat
  assumes src: "length src = 6 * (m * g)" and len: "4 * (m * g) \<le> length dst0"
    and tbl: "\<forall>y u v. table_index y u v < length tbl"
  shows "i + n = 2 * g \<Longrightarrow> converted tbl (2 * m) (2 * g) src dst0 (i * (2 * m)) dst \<Longrightarrow>
    \<exists>p q r dst'. image_loop tbl (2 * m) (2 * g) src [i..<i + n] (i * (2 * m), i div 2 * m, i * (2 * m), dst) =
      Some (p, q, r, dst') \<and> converted tbl (2 * m) (2 * g) src dst0 (2 * g * (2 * m)) dst'"
proof (induction n arbitrary: i dst)
  case (Suc n)
  have i: "i < 2 * g" using Suc.prems(1) by simp
  from row_loop_converts [OF i src len tbl, of 0 m dst] Suc.prems(2) obtain d where
    d: "row_loop tbl (2 * m) (2 * g) src m (i * (2 * m), i div 2 * m, i * (2 * m), dst) =
      Some (i * (2 * m) + 2 * m, i div 2 * m + m, i * (2 * m) + 2 * m, d)"
    "converted tbl (2 * m) (2 * g) src dst0 (i * (2 * m) + 2 * m) d" by auto
  have pos: "i * (2 * m) + 2 * m = (i + 1) * (2 * m)"
    "(if even i then i div 2 * m + m - 2 * m div 2 else i div 2 * m + m) = (i + 1) div 2 * m" by auto
  have half: "(2 * m + 1) div 2 = m" by simp
  from Suc.IH [of "i + 1" d] Suc.prems(1) d(2) obtain p q r d' where
    "image_loop tbl (2 * m) (2 * g) src [i + 1..<i + 1 + n] ((i + 1) * (2 * m), (i + 1) div 2 * m, (i + 1) * (2 * m), d) =
      Some (p, q, r, d')" "converted tbl (2 * m) (2 * g) src dst0 (2 * g * (2 * m)) d'"
    unfolding pos by auto
  moreover have "[i..<i + Suc n] = i # [i + 1..<i + 1 + n]" by (simp add: upt_rec)
  ultimately show ?case using d(1) unfolding half pos
    by (auto simp only: image_loop.simps half option.case prod.case pos)
qed simp
section \<open>Properties\<close>

text \<open>The colour of one sample, computed without the table.\<close>

definition direct_pixel :: "bool \<Rightarrow> u8 \<Rightarrow> u8 \<Rightarrow> u8 \<Rightarrow> u16" where
  "direct_pixel be y u v = table_entry be (unat (drop_bit 2 y)) (unat (drop_bit 3 u)) (unat (drop_bit 3 v))"

text \<open>
  C34. The table-driven loops compute the same image as converting pixel by pixel: for every even width
  and height, a converter whose table could be had turns a complete source image into one in which the
  pixel in column \<open>j\<close> of row \<open>i\<close> has the colour of the luminance sample there and of the chrominance
  sample shared by its block of four; it leaves everything behind the image alone.
\<close>

theorem convert_color_pixels:
  assumes conv: "init_convert_table p4 True (Some mem) RAW_TYPE_YUV420 t (2 * m) (2 * g) = Some c"
    and t: "t = RAW_TYPE_RGB565_BE \<or> t = RAW_TYPE_RGB565 \<and> \<not> p4" and mem: "length mem = 65536"
    and src: "length src = 6 * (m * g)" and dst: "4 * (m * g) \<le> length dst"
  shows "\<exists>out. convert_color p4 native c src (length src) dst (2 * length dst) = Some (0, out) \<and>
    length out = length dst \<and>
    (\<forall>i < 2 * g. \<forall>j < 2 * m. out ! (i * (2 * m) + j) =
       direct_pixel (t = RAW_TYPE_RGB565_BE) (src ! (i * (2 * m) + j))
         (src ! (4 * (m * g) + (i div 2 * m + j div 2))) (src ! (5 * (m * g) + (i div 2 * m + j div 2)))) \<and>
    (\<forall>q. 4 * (m * g) \<le> q \<and> q < length dst \<longrightarrow> out ! q = dst ! q)"
proof -
  let ?be = "t = RAW_TYPE_RGB565_BE"
  let ?tbl = "fill_table ?be mem"
  have c: "table c = Some ?tbl" "width c = 2 * m" "height c = 2 * g" "from_fmt c = RAW_TYPE_YUV420" "to_fmt c = t"
    using conv t by (auto simp: init_convert_table_def init_table_def get_table_size_def Let_def)
  have tbl: "\<forall>y u v. table_index y u v < length ?tbl" using fill_table_index(2) [OF mem] by blast
  have "converted ?tbl (2 * m) (2 * g) src dst (0 * (2 * m)) dst" by (simp add: converted_def)
  from image_loop_converts [OF src dst tbl _ this, of "2 * g"] obtain p q r out where
    out: "image_loop ?tbl (2 * m) (2 * g) src [0..<2 * g] (0, 0, 0, dst) = Some (p, q, r, out)"
    "converted ?tbl (2 * m) (2 * g) src dst (2 * g * (2 * m)) out" by auto
  have "convert_color p4 native c src (length src) dst (2 * length dst) = Some (0, out)"
    using t src dst out(1) by (auto simp: convert_color_def c yuv420_to_rgb565_def mult.commute [of g m])
  moreover have "out ! (i * (2 * m) + j) = direct_pixel ?be (src ! (i * (2 * m) + j))
         (src ! (4 * (m * g) + (i div 2 * m + j div 2))) (src ! (5 * (m * g) + (i div 2 * m + j div 2)))"
    if i: "i < 2 * g" and j: "j < 2 * m" for i j
  proof -
    let ?q = "i * (2 * m) + j"
    have "(i + 1) * (2 * m) \<le> 2 * g * (2 * m)" using i by (intro mult_le_mono1) simp
    then have q: "?q < 2 * g * (2 * m)" using j by (simp add: algebra_simps)
    have d: "?q div (2 * m) = i" "?q mod (2 * m) = j"
      using j div_mult_self3 [of "2 * m" i j] mod_mult_self3 [of i "2 * m" j] by simp_all
    have off: "2 * m * (2 * g) = 4 * (m * g)" "2 * m * (2 * g) * 5 div 4 = 5 * (m * g)" by simp_all
    have "?q < length out" using out(2) q dst by (simp add: converted_def algebra_simps)
    then have "out ! ?q = pixel_at ?tbl (2 * m) (2 * g) src ?q" using out(2) q by (simp add: converted_def)
    then show ?thesis
      unfolding pixel_at_def Let_def d off direct_pixel_def
      by (simp add: fill_table_index(1) [OF mem] mult.commute [of g m])
  qed
  moreover have "length out = length dst" "out ! q = dst ! q" if "4 * (m * g) \<le> q" "q < length dst" for q
    using out(2) that by (auto simp: converted_def algebra_simps)
  moreover have "length out = length dst" using out(2) by (simp add: converted_def)
  ultimately show ?thesis by blast
qed

theorem convert_color_pixels_witness:
  "\<exists>c out. init_convert_table True True (Some (replicate 65536 0)) RAW_TYPE_YUV420 RAW_TYPE_RGB565_BE 2 2 = Some c \<and>
     convert_color True (\<lambda>s d w h. d) c [10, 20, 30, 40, 128, 128] 6 [0, 0, 0, 0, 7] 10 = Some (0, out) \<and>
     out ! 4 = 7 \<and> out ! 3 = direct_pixel True 40 128 128"
proof -
  let ?m = "replicate 65536 (0 :: u16)"
  obtain c where c: "init_convert_table True True (Some ?m) RAW_TYPE_YUV420 RAW_TYPE_RGB565_BE (2 * 1) (2 * 1) = Some c"
    by (simp add: init_convert_table_def get_table_size_def Let_def)
  have "length ?m = 65536" "length [10, 20, 30, 40, 128, 128 :: u8] = 6 * (1 * 1)" "4 * (1 * 1) \<le> length [0, 0, 0, 0, 7 :: u16]"
    by simp_all
  from convert_color_pixels [OF c _ this, of "\<lambda>s d w h. d"] obtain out where
    out: "convert_color True (\<lambda>s d w h. d) c [10, 20, 30, 40, 128, 128] 6 [0, 0, 0, 0, 7] 10 = Some (0, out)"
    "\<forall>i<2. \<forall>j<2. out ! (i * 2 + j) = direct_pixel True ([10, 20, 30, 40, 128, 128] ! (i * 2 + j))
         ([10, 20, 30, 40, 128, 128] ! (4 + (i div 2 + j div 2))) ([10, 20, 30, 40, 128, 128] ! (5 + (i div 2 + j div 2)))"
    "\<forall>q. 4 \<le> q \<and> q < 5 \<longrightarrow> out ! q = [0, 0, 0, 0, 7] ! q" by (auto simp: eval_nat_numeral)
  from out(2) [rule_format, of 1 1] out(3) [rule_format, of 4] c out(1) show ?thesis by auto
qed

text \<open>The entry with the low bits of the chrominance taken from the chrominance, as for the others.\<close>

definition intended_entry :: "nat \<Rightarrow> nat \<Rightarrow> nat \<Rightarrow> u16" where
  "intended_entry y0 u0 v0 =
     pixel (int (y0 * 4 + y0 mod 4) - 16) (int (u0 * 8 + u0 mod 8) - 128) (int (v0 * 8 + v0 mod 8) - 128)"

definition blue :: "u16 \<Rightarrow> u16" where
  "blue x = x AND 0x1f"

text \<open>
  The table takes the low bits of the first chrominance from the luminance. A neutral sample
  (\<open>u = v = 128\<close>) thereby gets a blue that depends on how bright it is: correct where the luminance ends in
  000, and one step too blue at mid grey, so that a grey image is tinted in bands.
\<close>

theorem color_table_mixes_luminance:
  "table_entry False 24 16 16 = intended_entry 24 16 16 \<and>
   table_entry False 31 16 16 \<noteq> intended_entry 31 16 16 \<and>
   blue (table_entry False 31 16 16) = blue (intended_entry 31 16 16) + 1 \<and>
   direct_pixel False 124 128 128 = table_entry False 31 16 16"
  by code_simp

text \<open>A conversion that succeeds has written every pair of every row.\<close>

lemma convert_pair_room:
  "convert_pair tbl w h src (y, u, k, d) = Some (y', u', k', d') \<Longrightarrow> k' = k + 2 \<and> k' \<le> length d \<and> length d' = length d"
  by (auto simp: convert_pair_def get_def put_def split: bind_splits if_splits)

lemma row_loop_room:
  "row_loop tbl w h src n (y, u, k, d) = Some (y', u', k', d') \<Longrightarrow>
     k' = k + 2 * n \<and> length d' = length d \<and> (0 < n \<longrightarrow> k' \<le> length d)"
proof (induction n arbitrary: y u k d)
  case (Suc n)
  then obtain y1 u1 k1 d1 where
    1: "convert_pair tbl w h src (y, u, k, d) = Some (y1, u1, k1, d1)" "row_loop tbl w h src n (y1, u1, k1, d1) = Some (y', u', k', d')"
    by (auto split: bind_splits)
  from convert_pair_room [OF 1(1)] Suc.IH [OF 1(2)] show ?case by (cases n) auto
qed simp

lemma image_loop_room:
  "image_loop tbl w h src is (y, u, k, d) = Some (y', u', k', d') \<Longrightarrow> 0 < w \<Longrightarrow>
     k' = k + length is * (2 * ((w + 1) div 2)) \<and> length d' = length d \<and> (is \<noteq> [] \<longrightarrow> k' \<le> length d)"
proof (induction "is" arbitrary: y u k d)
  case (Cons i "is")
  then obtain y1 u1 k1 d1 where
    1: "row_loop tbl w h src ((w + 1) div 2) (y, u, k, d) = Some (y1, u1, k1, d1)"
    and 2: "image_loop tbl w h src is (y1, if even i then u1 - w div 2 else u1, k1, d1) = Some (y', u', k', d')"
    by (auto split: option.splits prod.splits)
  from row_loop_room [OF 1] Cons.IH [OF 2 Cons.prems(2)] Cons.prems(2) show ?case by (cases "is") auto
qed simp

text \<open>
  An image of odd width does not fit. The loop converts pairs, one pixel more per row than the
  width, while the size check asks for exactly the pixels of the image: the conversion of an odd image
  into a buffer of the size checked for leaves the buffer.
\<close>

theorem odd_width_overruns:
  assumes "odd w" "0 < h" "table c = Some t" "width c = w" "height c = h" "from_fmt c = RAW_TYPE_YUV420"
    "to_fmt c = RAW_TYPE_RGB565_BE" "length dst = w * h"
  shows "convert_color p4 native c src (convert_table_get_image_size RAW_TYPE_YUV420 w h) dst
    (convert_table_get_image_size RAW_TYPE_RGB565_BE w h) = None"
proof -
  have w: "0 < w" "2 * ((w + 1) div 2) = w + 1" using assms(1) by (auto elim: oddE)
  have "image_loop t w h src [0..<h] (0, 0, 0, dst) = None"
  proof (rule ccontr)
    assume "image_loop t w h src [0..<h] (0, 0, 0, dst) \<noteq> None"
    then obtain y u k d where r: "image_loop t w h src [0..<h] (0, 0, 0, dst) = Some (y, u, k, d)" by auto
    from image_loop_room [OF r w(1)] w(2) assms(2,8) show False by (simp add: mult.commute [of w h])
  qed
  then show ?thesis using assms by (simp add: convert_color_def convert_table_get_image_size_def yuv420_to_rgb565_def)
qed

theorem odd_width_overruns_witness:
  "convert_color True (\<lambda>s d w h. d)
     \<lparr>table = Some [], from_fmt = RAW_TYPE_YUV420, to_fmt = RAW_TYPE_RGB565_BE, width = 3, height = 2\<rparr> [] 9 [0, 0, 0, 0, 0, 0] 12 = None"
  using odd_width_overruns [of 3 2 "\<lparr>table = Some [], from_fmt = RAW_TYPE_YUV420, to_fmt = RAW_TYPE_RGB565_BE, width = 3, height = 2\<rparr>"
      "[]" "[0, 0, 0, 0, 0, 0]" True "\<lambda>s d w h. d" "[]"]
  by (simp add: convert_table_get_image_size_def)

end
