(* ===== verification/Audio_Resample.thy ===== *)
theory Audio_Resample
  imports Esp_Prelude
begin

text \<open>
  The audio resampler of the renderer (\<open>components/av_render/src/audio_resample.c\<close>): up to three
  conversions (channels, bits, rate) in a fixed order over two work buffers. The converters of the
  audio library are recorded in \<open>ae_calls\<close>; \<open>max_out\<close> and \<open>rate_out\<close> are the sample counts its rate
  converter announces and delivers. A division by zero is \<open>None\<close>.
\<close>

section \<open>State\<close>

record audio_info =
  channel :: nat
  bits_per_sample :: nat
  sample_rate :: nat

datatype resample_op = OPS_NONE | OPS_CH_CVT | OPS_BIT_CVT | OPS_RATE_CVT

record work_buf =
  buf_size :: int
  used :: bool

text \<open>
  \<open>Ae_open\<close>: format in and format out; \<open>Ae_process\<close>: format of the samples fed, their number, the work
  buffer they are in (\<open>None\<close>: the frame itself), the buffer written, the bytes written and its size.
\<close>

datatype ae_call =
    Ae_open resample_op audio_info audio_info
  | Ae_close resample_op
  | Ae_process resample_op audio_info nat "nat option" nat nat int
  | Ae_free nat

record resample =
  input_info :: audio_info
  output_info :: audio_info
  ops :: "resample_op list"
  opened :: "resample_op list"
  work_bufs :: "work_buf list"
  ae_calls :: "ae_call list"

definition SAMPLE_SIZE :: "audio_info \<Rightarrow> nat" where
  "SAMPLE_SIZE i = channel i * (bits_per_sample i div 8)"

text \<open>An unsigned 32-bit product stored into an \<open>int\<close>.\<close>

definition c_int :: "nat \<Rightarrow> int" where
  "c_int n = sint (word_of_nat n :: u32)"

definition note_ae :: "ae_call \<Rightarrow> resample \<Rightarrow> resample" where
  "note_ae c r = r\<lparr>ae_calls := ae_calls r @ [c]\<rparr>"

section \<open>The order of the conversions\<close>

definition add_bits_resample :: "audio_info \<Rightarrow> audio_info \<Rightarrow> resample_op list" where
  "add_bits_resample i out =
     (if bits_per_sample i > bits_per_sample out then [OPS_BIT_CVT] else []) @
     (if sample_rate i \<noteq> sample_rate out then [OPS_RATE_CVT] else []) @
     (if bits_per_sample i < bits_per_sample out then [OPS_BIT_CVT] else [])"

text \<open>The array of three entries, the unused ones \<open>OPS_NONE\<close>.\<close>

definition sort_resample_ops :: "audio_info \<Rightarrow> audio_info \<Rightarrow> resample_op list" where
  "sort_resample_ops i out =
     (let xs = (if channel i > channel out then [OPS_CH_CVT] else []) @ add_bits_resample i out @
               (if channel i < channel out then [OPS_CH_CVT] else [])
      in xs @ replicate (3 - length xs) OPS_NONE)"

text \<open>What a conversion makes of a format.\<close>

fun apply_op :: "audio_info \<Rightarrow> resample_op \<Rightarrow> audio_info \<Rightarrow> audio_info" where
  "apply_op out OPS_CH_CVT cur = cur\<lparr>channel := channel out\<rparr>"
| "apply_op out OPS_RATE_CVT cur = cur\<lparr>sample_rate := sample_rate out\<rparr>"
| "apply_op out OPS_BIT_CVT cur = cur\<lparr>bits_per_sample := bits_per_sample out\<rparr>"
| "apply_op out OPS_NONE cur = cur"

section \<open>Work buffers\<close>

definition alloc_work_buf :: "bool \<Rightarrow> int \<Rightarrow> resample \<Rightarrow> nat option \<times> resample" where
  "alloc_work_buf realloc_ok need r =
     (case find (\<lambda>i. \<not> used (work_bufs r ! i)) [0..<length (work_bufs r)] of
        None \<Rightarrow> (None, r)
      | Some i \<Rightarrow>
          let b = work_bufs r ! i in
          if need > buf_size b \<and> \<not> realloc_ok then (None, r)
          else (Some i, r\<lparr>work_bufs := (work_bufs r)[i := \<lparr>buf_size = max need (buf_size b), used = True\<rparr>]\<rparr>))"

definition release_work_buf :: "nat option \<Rightarrow> resample \<Rightarrow> resample" where
  "release_work_buf i r =
     (case i of None \<Rightarrow> r | Some k \<Rightarrow> r\<lparr>work_bufs := (work_bufs r)[k := (work_bufs r ! k)\<lparr>used := False\<rparr>]\<rparr>)"

text \<open>The size a conversion of \<open>n\<close> samples needs, and the number of samples it may give.\<close>

definition get_need_size :: "(nat \<Rightarrow> nat) \<Rightarrow> resample \<Rightarrow> resample_op \<Rightarrow> nat \<Rightarrow> audio_info \<Rightarrow> int \<times> nat" where
  "get_need_size max_out r op n info =
     (case op of
        OPS_CH_CVT \<Rightarrow> (c_int (n * channel (output_info r) * (bits_per_sample info div 8)), n)
      | OPS_RATE_CVT \<Rightarrow> (c_int (max_out n * channel info * (bits_per_sample info div 8)), max_out n)
      | OPS_BIT_CVT \<Rightarrow> (c_int (n * channel info * (bits_per_sample (output_info r) div 8)), n)
      | OPS_NONE \<Rightarrow> (0, n))"

section \<open>Closing and opening\<close>

definition audio_resample_close :: "resample \<Rightarrow> resample" where
  "audio_resample_close r =
     (let close = (\<lambda>op r. if op \<in> set (opened r)
                          then note_ae (Ae_close op) (r\<lparr>opened := removeAll op (opened r)\<rparr>) else r);
          r1 = close OPS_RATE_CVT (close OPS_CH_CVT (close OPS_BIT_CVT r))
      in fold (\<lambda>i r. if buf_size (work_bufs r ! i) > 0 then note_ae (Ae_free i) r else r) [0..<length (work_bufs r1)] r1)"

fun open_loop :: "(resample_op \<Rightarrow> bool) \<Rightarrow> audio_info \<Rightarrow> resample_op list \<Rightarrow> audio_info \<Rightarrow> resample \<Rightarrow> bool \<times> resample" where
  "open_loop open_ok out [] cur r = (True, r)"
| "open_loop open_ok out (op # os) cur r =
     (if op = OPS_NONE then (True, r)
      else let r1 = note_ae (Ae_open op cur (apply_op out op cur)) r in
        if \<not> open_ok op then (False, r1)
        else open_loop open_ok out os (apply_op out op cur) (r1\<lparr>opened := op # opened r1\<rparr>))"

text \<open>The second component is what is left to be freed when opening fails, closed completely.\<close>

definition audio_resample_open ::
  "bool \<Rightarrow> (resample_op \<Rightarrow> bool) \<Rightarrow> audio_info \<Rightarrow> audio_info \<Rightarrow> bool \<times> resample option" where
  "audio_resample_open alloc_ok open_ok i out =
     (if \<not> alloc_ok then (False, None)
      else let r = \<lparr>input_info = i, output_info = out, ops = sort_resample_ops i out, opened = [],
                    work_bufs = replicate 2 \<lparr>buf_size = 0, used = False\<rparr>, ae_calls = []\<rparr>
           in case open_loop open_ok out (ops r) i r of
                (True, r1) \<Rightarrow> (True, Some r1)
              | (False, r1) \<Rightarrow> (False, Some (audio_resample_close r1)))"

section \<open>Converting a frame\<close>

text \<open>What one conversion writes into its buffer, in bytes, given the samples it puts out.\<close>

definition bytes_written :: "audio_info \<Rightarrow> resample_op \<Rightarrow> nat \<Rightarrow> audio_info \<Rightarrow> nat" where
  "bytes_written out op n cur = n * SAMPLE_SIZE (apply_op out op cur)"

record frame_state =
  cur_info :: audio_info
  last_buf :: "nat option"
  sample_num :: nat
  need_size :: int

text \<open>One turn of the loop; \<open>Inl\<close> is the failed allocation.\<close>

definition convert_step ::
  "(nat \<Rightarrow> nat) \<Rightarrow> (nat \<Rightarrow> nat) \<Rightarrow> bool \<Rightarrow> resample_op \<Rightarrow> frame_state \<times> resample \<Rightarrow> resample + frame_state \<times> resample" where
  "convert_step max_out rate_out realloc_ok op = (\<lambda>(f, r).
     (let (need, outs) = get_need_size max_out r op (sample_num f) (cur_info f) in
      case alloc_work_buf realloc_ok need r of
        (None, r1) \<Rightarrow> Inl (release_work_buf (last_buf f) r1)
      | (Some k, r1) \<Rightarrow>
          let n = (if op = OPS_RATE_CVT then rate_out (sample_num f) else sample_num f);
              cur = apply_op (output_info r) op (cur_info f);
              r2 = note_ae (Ae_process op (cur_info f) (sample_num f) (last_buf f) k
                     (bytes_written (output_info r) op n (cur_info f)) (buf_size (work_bufs r1 ! k))) r1;
              out_size = (if op = OPS_RATE_CVT then c_int (n * SAMPLE_SIZE (cur_info f)) else need)
          in Inr (\<lparr>cur_info = cur, last_buf = Some k, sample_num = n, need_size = out_size\<rparr>, release_work_buf (last_buf f) r2)))"

fun convert_loop ::
  "(nat \<Rightarrow> nat) \<Rightarrow> (nat \<Rightarrow> nat) \<Rightarrow> (nat \<Rightarrow> bool) \<Rightarrow> nat \<Rightarrow> resample_op list \<Rightarrow> frame_state \<times> resample \<Rightarrow>
     resample + frame_state \<times> resample" where
  "convert_loop max_out rate_out realloc_ok i [] s = Inr s"
| "convert_loop max_out rate_out realloc_ok i (op # os) s =
     (if op = OPS_NONE then Inr s
      else case convert_step max_out rate_out (realloc_ok i) op s of
        Inl r \<Rightarrow> Inl r
      | Inr s1 \<Rightarrow> convert_loop max_out rate_out realloc_ok (Suc i) os s1)"

text \<open>
  The code and what the callback is given: the frame itself (\<open>None\<close>), or the buffer, each with the size.
\<close>

definition ESP_MEDIA_ERR_NO_MEM :: int where "ESP_MEDIA_ERR_NO_MEM = 0x101"

definition audio_resample_write ::
  "(nat \<Rightarrow> nat) \<Rightarrow> (nat \<Rightarrow> nat) \<Rightarrow> (nat \<Rightarrow> bool) \<Rightarrow> nat \<Rightarrow> resample \<Rightarrow> (int \<times> (nat option \<times> int) option \<times> resample) option" where
  "audio_resample_write max_out rate_out realloc_ok frame_size r =
     (if frame_size = 0 \<or> ops r ! 0 = OPS_NONE then Some (0, Some (None, int frame_size), r)
      else if SAMPLE_SIZE (input_info r) = 0 then None
      else case convert_loop max_out rate_out realloc_ok 0 (ops r)
                  (\<lparr>cur_info = input_info r, last_buf = None, sample_num = frame_size div SAMPLE_SIZE (input_info r), need_size = 0\<rparr>, r) of
        Inl r1 \<Rightarrow> Some (ESP_MEDIA_ERR_NO_MEM, None, r1)
      | Inr (f, r1) \<Rightarrow> Some (0, Some (last_buf f, need_size f), release_work_buf (last_buf f) r1))"

section \<open>Formats along the chain\<close>

lemma c_int_small: "n < 2 ^ 31 \<Longrightarrow> c_int n = int n"
  by (simp add: c_int_def signed_of_nat signed_take_bit_int_eq_self)

text \<open>The conversions with the formats they start from, and the format at the end.\<close>

fun chain :: "audio_info \<Rightarrow> resample_op list \<Rightarrow> audio_info \<Rightarrow> (resample_op \<times> audio_info) list" where
  "chain out [] cur = []"
| "chain out (op # os) cur = (if op = OPS_NONE then [] else (op, cur) # chain out os (apply_op out op cur))"

fun final :: "audio_info \<Rightarrow> resample_op list \<Rightarrow> audio_info \<Rightarrow> audio_info" where
  "final out [] cur = cur"
| "final out (op # os) cur = (if op = OPS_NONE then cur else final out os (apply_op out op cur))"

lemma final_sorted: "final out (sort_resample_ops i out) i = out"
  by (cases i; cases out) (auto simp: sort_resample_ops_def add_bits_resample_def Let_def numeral_eq_Suc)

lemma sorted_distinct: "distinct (filter (\<lambda>op. op \<noteq> OPS_NONE) (sort_resample_ops i out)) \<and> length (sort_resample_ops i out) = 3"
  by (auto simp: sort_resample_ops_def add_bits_resample_def Let_def numeral_eq_Suc)

lemma open_loop_calls:
  "open_loop ok out os cur r = (True, r') \<Longrightarrow>
     ae_calls r' = ae_calls r @ map (\<lambda>(op, c). Ae_open op c (apply_op out op c)) (chain out os cur) \<and>
     input_info r' = input_info r \<and> output_info r' = output_info r \<and> ops r' = ops r \<and> work_bufs r' = work_bufs r"
proof (induction os arbitrary: cur r)
  case (Cons op os)
  show ?case
  proof (cases "op = OPS_NONE")
    case False
    with Cons.prems have ok: "ok op" by (auto simp: Let_def split: if_splits)
    with False Cons.prems Cons.IH show ?thesis by (fastforce simp: Let_def note_ae_def)
  qed (use Cons.prems in simp)
qed simp

section \<open>The two buffers suffice\<close>

text \<open>Exactly the buffer of the last result is in use.\<close>

definition bufs_ok :: "nat option \<Rightarrow> resample \<Rightarrow> bool" where
  "bufs_ok lb r \<longleftrightarrow> length (work_bufs r) = 2 \<and> (\<forall>k<2. used (work_bufs r ! k) = (lb = Some k)) \<and>
     (\<forall>k. lb = Some k \<longrightarrow> k < 2)"

text \<open>A conversion reads one buffer, writes another and stays inside it.\<close>

fun safe_call :: "ae_call \<Rightarrow> bool" where
  "safe_call (Ae_process op fmt n src k bytes cap) = (src \<noteq> Some k \<and> k < 2 \<and> int bytes \<le> cap)"
| "safe_call _ = False"

fun fed :: "ae_call \<Rightarrow> resample_op \<times> audio_info" where
  "fed (Ae_process op fmt n src k bytes cap) = (op, fmt)"
| "fed (Ae_open op fmt fmt2) = (op, fmt)"
| "fed (Ae_close op) = (op, \<lparr>channel = 0, bits_per_sample = 0, sample_rate = 0\<rparr>)"
| "fed (Ae_free k) = (OPS_NONE, \<lparr>channel = 0, bits_per_sample = 0, sample_rate = 0\<rparr>)"

lemma two_upt: "[0..<2] = [0, 1::nat]"
  by (simp add: upt_rec)

lemma alloc_ok:
  assumes "bufs_ok lb r"
  obtains k where "k < 2" "lb \<noteq> Some k" "alloc_work_buf True need r =
    (Some k, r\<lparr>work_bufs := (work_bufs r)[k := \<lparr>buf_size = max need (buf_size (work_bufs r ! k)), used = True\<rparr>]\<rparr>)"
proof (cases "lb = Some 0")
  case True
  with assms that [of 1] show ?thesis
    by (auto simp: alloc_work_buf_def bufs_ok_def two_upt Let_def less_2_cases_iff)
next
  case False
  with assms that [of 0] show ?thesis
    by (auto simp: alloc_work_buf_def bufs_ok_def two_upt Let_def less_2_cases_iff)
qed

lemma swap_ok:
  assumes "bufs_ok lb r" "k < 2" "lb \<noteq> Some k"
  shows "bufs_ok (Some k) (release_work_buf lb (note_ae c (r\<lparr>work_bufs := (work_bufs r)[k := \<lparr>buf_size = s, used = True\<rparr>]\<rparr>)))"
  using assms by (cases lb) (auto simp: bufs_ok_def release_work_buf_def note_ae_def nth_list_update)

definition limits :: "audio_info \<Rightarrow> nat \<Rightarrow> nat \<Rightarrow> bool" where
  "limits i C B \<longleftrightarrow> channel i \<le> C \<and> bits_per_sample i div 8 \<le> B"

lemma limits_apply: "limits cur C B \<Longrightarrow> limits out C B \<Longrightarrow> limits (apply_op out op cur) C B"
  by (cases op) (auto simp: limits_def)

lemma limits_size: "limits i C B \<Longrightarrow> n \<le> N \<Longrightarrow> N * C * B < 2 ^ 31 \<Longrightarrow> n * SAMPLE_SIZE i < 2 ^ 31"
  unfolding SAMPLE_SIZE_def limits_def
  by (metis (no_types, lifting) le_less_trans mult.assoc mult_le_mono)

text \<open>What a conversion needs is what the format after it takes.\<close>

lemma need_size_op:
  assumes "op \<noteq> OPS_NONE" "limits cur C B" "limits (output_info r) C B" "n \<le> N" "N * C * B < 2 ^ 31"
    "op = OPS_RATE_CVT \<longrightarrow> max_out n \<le> N"
  shows "get_need_size max_out r op n cur =
    (let x = (if op = OPS_RATE_CVT then max_out n else n) in (int (x * SAMPLE_SIZE (apply_op (output_info r) op cur)), x))"
proof -
  have "limits (apply_op (output_info r) op cur) C B" by (rule limits_apply [OF assms(2,3)])
  note s = limits_size [OF this _ assms(5)]
  show ?thesis
    using assms(1,4,6) s [of n] s [of "max_out n"]
    by (cases op) (simp_all add: get_need_size_def SAMPLE_SIZE_def c_int_small mult.assoc Let_def)
qed

lemma convert_step_ok:
  assumes op: "op \<noteq> OPS_NONE" and b: "bufs_ok (last_buf f) r"
    and l: "limits (cur_info f) C B" "limits (output_info r) C B" "sample_num f \<le> N" "N * C * B < 2 ^ 31"
    and rate: "op = OPS_RATE_CVT \<longrightarrow> rate_out (sample_num f) \<le> max_out (sample_num f) \<and> max_out (sample_num f) \<le> N"
  shows "\<exists>f' r' c. convert_step max_out rate_out True op (f, r) = Inr (f', r') \<and> ae_calls r' = ae_calls r @ [c] \<and>
    safe_call c \<and> fed c = (op, cur_info f) \<and> bufs_ok (last_buf f') r' \<and> last_buf f' \<noteq> None \<and>
    output_info r' = output_info r \<and> cur_info f' = apply_op (output_info r) op (cur_info f) \<and>
    sample_num f' = (if op = OPS_RATE_CVT then rate_out (sample_num f) else sample_num f) \<and>
    need_size f' = int (sample_num f' * SAMPLE_SIZE (cur_info f')) \<and> sample_num f' \<le> N"
proof -
  let ?n = "sample_num f" and ?out = "output_info r"
  let ?cur = "apply_op ?out op (cur_info f)" and ?x = "if op = OPS_RATE_CVT then max_out ?n else ?n"
  let ?m = "if op = OPS_RATE_CVT then rate_out ?n else ?n"
  have need: "get_need_size max_out r op ?n (cur_info f) = (int (?x * SAMPLE_SIZE ?cur), ?x)"
    using need_size_op [OF op l(1,2,3,4), of max_out] rate by (simp add: Let_def)
  have m: "?m \<le> ?x" "?m \<le> N" using rate l(3) by auto
  from alloc_ok [OF b, of "int (?x * SAMPLE_SIZE ?cur)"] obtain k where k: "k < 2" "last_buf f \<noteq> Some k"
    "alloc_work_buf True (int (?x * SAMPLE_SIZE ?cur)) r =
      (Some k, r\<lparr>work_bufs := (work_bufs r)[k := \<lparr>buf_size = max (int (?x * SAMPLE_SIZE ?cur)) (buf_size (work_bufs r ! k)), used = True\<rparr>]\<rparr>)"
    by blast
  let ?s = "max (int (?x * SAMPLE_SIZE ?cur)) (buf_size (work_bufs r ! k))"
  let ?r1 = "r\<lparr>work_bufs := (work_bufs r)[k := \<lparr>buf_size = ?s, used = True\<rparr>]\<rparr>"
  let ?c = "Ae_process op (cur_info f) ?n (last_buf f) k (bytes_written ?out op ?m (cur_info f)) ?s"
  have cap: "buf_size (work_bufs ?r1 ! k) = ?s" using k(1) b by (simp add: bufs_ok_def)
  have size: "(if op = OPS_RATE_CVT then c_int (?m * SAMPLE_SIZE (cur_info f)) else int (?x * SAMPLE_SIZE ?cur)) = int (?m * SAMPLE_SIZE ?cur)"
    using limits_size [OF l(1) m(2) l(4)] by (auto simp: c_int_small SAMPLE_SIZE_def)
  have step: "convert_step max_out rate_out True op (f, r) =
      Inr (\<lparr>cur_info = ?cur, last_buf = Some k, sample_num = ?m, need_size = int (?m * SAMPLE_SIZE ?cur)\<rparr>,
           release_work_buf (last_buf f) (note_ae ?c ?r1))"
    unfolding convert_step_def prod.case need Let_def k(3) option.case cap
    using size by simp
  have "int (?m * SAMPLE_SIZE ?cur) \<le> ?s" using mult_le_mono1 [OF m(1), of "SAMPLE_SIZE ?cur"] by linarith
  then have safe: "safe_call ?c" using k by (simp add: bytes_written_def)
  have rest: "ae_calls (release_work_buf (last_buf f) (note_ae ?c ?r1)) = ae_calls r @ [?c]"
    "output_info (release_work_buf (last_buf f) (note_ae ?c ?r1)) = ?out"
    by (simp_all add: release_work_buf_def note_ae_def split: option.split)
  show ?thesis
    by (rule exI, rule exI, rule exI [of _ ?c], intro conjI, rule step)
      (use safe rest swap_ok [OF b k(1,2), of ?c ?s] m(2) in simp_all)
qed
lemma convert_loop_ok:
  "distinct (filter (\<lambda>op. op \<noteq> OPS_NONE) os) \<Longrightarrow> bufs_ok (last_buf f) r \<Longrightarrow> limits (cur_info f) C B \<Longrightarrow>
   limits (output_info r) C B \<Longrightarrow> sample_num f \<le> N \<Longrightarrow> N * C * B < 2 ^ 31 \<Longrightarrow>
   (OPS_RATE_CVT \<in> set os \<longrightarrow> rate_out (sample_num f) \<le> max_out (sample_num f) \<and> max_out (sample_num f) \<le> N) \<Longrightarrow>
   \<forall>k. realloc_ok k \<Longrightarrow>
   \<exists>f' r' cs. convert_loop max_out rate_out realloc_ok i os (f, r) = Inr (f', r') \<and> ae_calls r' = ae_calls r @ cs \<and>
     list_all safe_call cs \<and> map fed cs = chain (output_info r) os (cur_info f) \<and> bufs_ok (last_buf f') r' \<and>
     cur_info f' = final (output_info r) os (cur_info f) \<and>
     (last_buf f \<noteq> None \<and> need_size f = int (sample_num f * SAMPLE_SIZE (cur_info f)) \<or> os \<noteq> [] \<and> hd os \<noteq> OPS_NONE \<longrightarrow>
        last_buf f' \<noteq> None \<and> need_size f' = int (sample_num f' * SAMPLE_SIZE (cur_info f')))"
proof (induction os arbitrary: f r i)
  case (Cons op os)
  show ?case
  proof (cases "op = OPS_NONE")
    case True
    with Cons.prems show ?thesis by auto
  next
    case False
    have rate: "op = OPS_RATE_CVT \<longrightarrow> rate_out (sample_num f) \<le> max_out (sample_num f) \<and> max_out (sample_num f) \<le> N"
      using Cons.prems(7) by auto
    from convert_step_ok [where f = f and rate_out = rate_out and max_out = max_out and N = N,
        OF False Cons.prems(2,3,4,5,6) rate] obtain f1 r1 c where
      s: "convert_step max_out rate_out True op (f, r) = Inr (f1, r1)" "ae_calls r1 = ae_calls r @ [c]" "safe_call c"
      "fed c = (op, cur_info f)" "bufs_ok (last_buf f1) r1" "last_buf f1 \<noteq> None" "output_info r1 = output_info r"
      "cur_info f1 = apply_op (output_info r) op (cur_info f)"
      "sample_num f1 = (if op = OPS_RATE_CVT then rate_out (sample_num f) else sample_num f)"
      "need_size f1 = int (sample_num f1 * SAMPLE_SIZE (cur_info f1))" "sample_num f1 \<le> N" by blast
    have d: "distinct (filter (\<lambda>op. op \<noteq> OPS_NONE) os)" "op \<notin> set os" using Cons.prems(1) False by auto
    have l: "limits (cur_info f1) C B" "limits (output_info r1) C B"
      using limits_apply [OF Cons.prems(3,4), of op] Cons.prems(4) s(7,8) by simp_all
    have "OPS_RATE_CVT \<in> set os \<longrightarrow> rate_out (sample_num f1) \<le> max_out (sample_num f1) \<and> max_out (sample_num f1) \<le> N"
      using Cons.prems(7) d(2) s(9) by auto
    from Cons.IH [where f = f1, OF d(1) s(5) l s(11) Cons.prems(6) this Cons.prems(8), of "Suc i"] obtain f' r' cs where
      ih: "convert_loop max_out rate_out realloc_ok (Suc i) os (f1, r1) = Inr (f', r')" "ae_calls r' = ae_calls r1 @ cs"
      "list_all safe_call cs" "map fed cs = chain (output_info r1) os (cur_info f1)" "bufs_ok (last_buf f') r'"
      "cur_info f' = final (output_info r1) os (cur_info f1)"
      "last_buf f' \<noteq> None \<and> need_size f' = int (sample_num f' * SAMPLE_SIZE (cur_info f'))"
      using s(6,10) by blast
    have r: "realloc_ok i = True" using Cons.prems(8) by simp
    have "convert_loop max_out rate_out realloc_ok i (op # os) (f, r) = Inr (f', r')"
      using False r s(1) ih(1) by simp
    moreover have "ae_calls r' = ae_calls r @ (c # cs)" using s(2) ih(2) by simp
    moreover have "list_all safe_call (c # cs)" using s(3) ih(3) by simp
    moreover have "map fed (c # cs) = chain (output_info r) (op # os) (cur_info f)" using False s(4,7,8) ih(4) by simp
    moreover have "cur_info f' = final (output_info r) (op # os) (cur_info f)" using False s(7,8) ih(6) by simp
    ultimately show ?thesis using ih(5,7) by blast
  qed
qed auto

section \<open>Properties\<close>

text \<open>
  C35. A frame is converted safely and to the right format. For a resampler that could be opened and
  while memory lasts: every converter is fed exactly the format it was opened for, the first one that
  of the input, and the result has the format of the output; every converter reads one buffer and
  writes the other, inside its size, so that two buffers are enough; the callback gets as many bytes
  as samples of the output format were produced, and afterwards both buffers are free again. \<open>N\<close> bounds
  the samples of a frame, before and after, such that no size leaves 31 bits.
\<close>

theorem resample_chain_typed:
  assumes o: "audio_resample_open True open_ok inp out = (True, Some r)"
    and n: "n = frame_size div SAMPLE_SIZE inp" "SAMPLE_SIZE inp \<noteq> 0" "n \<le> N" "max_out n \<le> N" "rate_out n \<le> max_out n"
    and b: "N * max (channel inp) (channel out) * max (bits_per_sample inp div 8) (bits_per_sample out div 8) < 2 ^ 31"
    and f: "frame_size \<noteq> 0" "inp \<noteq> out" and mem: "\<forall>k. realloc_ok k"
  shows "\<exists>k m r' cs. audio_resample_write max_out rate_out realloc_ok frame_size r =
      Some (0, Some (Some k, int (m * SAMPLE_SIZE out)), r') \<and>
    ae_calls r' = ae_calls r @ cs \<and> list_all safe_call cs \<and> map fed cs = map fed (ae_calls r) \<and>
    snd (hd (map fed cs)) = inp \<and> final out (map fst (map fed cs)) inp = out \<and>
    (\<forall>b \<in> set (work_bufs r'). \<not> used b)"
proof -
  let ?os = "sort_resample_ops inp out" and ?C = "max (channel inp) (channel out)"
    and ?B = "max (bits_per_sample inp div 8) (bits_per_sample out div 8)"
  let ?r0 = "\<lparr>input_info = inp, output_info = out, ops = ?os, opened = [],
     work_bufs = replicate 2 \<lparr>buf_size = 0, used = False\<rparr>, ae_calls = []\<rparr>"
  have "open_loop open_ok out ?os inp ?r0 = (True, r)"
    using o by (auto simp: audio_resample_open_def Let_def split: prod.splits if_splits bool.splits)
  from open_loop_calls [OF this] have r: "input_info r = inp" "output_info r = out" "ops r = ?os"
    "work_bufs r = replicate 2 \<lparr>buf_size = 0, used = False\<rparr>"
    "ae_calls r = map (\<lambda>(op, c). Ae_open op c (apply_op out op c)) (chain out ?os inp)" by auto
  have hd: "?os ! 0 \<noteq> OPS_NONE" "?os \<noteq> []" "hd ?os \<noteq> OPS_NONE"
    using f(2) by (cases inp; cases out; auto simp: sort_resample_ops_def add_bits_resample_def Let_def numeral_eq_Suc)+
  let ?f = "\<lparr>cur_info = inp, last_buf = None, sample_num = n, need_size = 0\<rparr>"
  have "bufs_ok (last_buf ?f) r" using r(4) by (auto simp: bufs_ok_def)
  moreover have "limits (cur_info ?f) ?C ?B" "limits (output_info r) ?C ?B" using r(2) by (simp_all add: limits_def)
  moreover have "distinct (filter (\<lambda>op. op \<noteq> OPS_NONE) ?os)" using sorted_distinct by blast
  ultimately obtain f' r' cs where
    l: "convert_loop max_out rate_out realloc_ok 0 ?os (?f, r) = Inr (f', r')" "ae_calls r' = ae_calls r @ cs"
    "list_all safe_call cs" "map fed cs = chain out ?os inp" "bufs_ok (last_buf f') r'" "cur_info f' = final out ?os inp"
    "last_buf f' \<noteq> None" "need_size f' = int (sample_num f' * SAMPLE_SIZE (cur_info f'))"
    using convert_loop_ok [of ?os ?f r ?C ?B N rate_out max_out realloc_ok 0] n b mem hd r(2) by auto
  from l(7) obtain k where k: "last_buf f' = Some k" by blast
  let ?r = "release_work_buf (Some k) r'"
  have "audio_resample_write max_out rate_out realloc_ok frame_size r = Some (0, Some (Some k, int (sample_num f' * SAMPLE_SIZE out)), ?r)"
    using f(1) hd n(1,2) r l(1,6,8) k by (simp add: audio_resample_write_def final_sorted)
  moreover have "ae_calls ?r = ae_calls r @ cs" using l(2) by (simp add: release_work_buf_def)
  moreover have "map fed (ae_calls r) = chain out ?os inp" unfolding r(5) by (simp add: o_def case_prod_beta)
  moreover have "snd (hd (chain out ?os inp)) = inp" using hd by (cases ?os) auto
  moreover have "final out (map fst (chain out os c)) c = final out os c" for os c
    by (induction os arbitrary: c) auto
  moreover have "\<not> used b" if "b \<in> set (work_bufs ?r)" for b
  proof -
    have two: "length (work_bufs r') = 2" "k < 2" "\<forall>i<2. used (work_bufs r' ! i) = (k = i)"
      using l(5) k by (auto simp: bufs_ok_def)
    from that obtain i where i: "i < 2" "b = (work_bufs r')[k := (work_bufs r' ! k)\<lparr>used := False\<rparr>] ! i"
      using two(1) by (auto simp: release_work_buf_def in_set_conv_nth)
    show ?thesis using i two by (cases "i = k") simp_all
  qed
  ultimately show ?thesis using l(3,4) final_sorted [of out inp]
    by (intro exI [of _ k] exI [of _ "sample_num f'"] exI [of _ ?r] exI [of _ cs] conjI ballI) (simp_all del: map_map)
qed
theorem resample_chain_typed_witness:
  "\<exists>r k m r'. audio_resample_open True (\<lambda>_. True) \<lparr>channel = 2, bits_per_sample = 16, sample_rate = 16000\<rparr>
       \<lparr>channel = 1, bits_per_sample = 32, sample_rate = 8000\<rparr> = (True, Some r) \<and>
     audio_resample_write (\<lambda>n. n) (\<lambda>n. n div 2) (\<lambda>_. True) 640 r = Some (0, Some (Some k, int (m * 4)), r') \<and>
     (\<forall>b \<in> set (work_bufs r'). \<not> used b)"
proof -
  let ?i = "\<lparr>channel = 2, bits_per_sample = 16, sample_rate = 16000\<rparr>"
    and ?o = "\<lparr>channel = 1, bits_per_sample = 32, sample_rate = 8000\<rparr>"
  obtain r where o: "audio_resample_open True (\<lambda>_. True) ?i ?o = (True, Some r)"
    by (simp add: audio_resample_open_def sort_resample_ops_def add_bits_resample_def Let_def note_ae_def)
  have "(160::nat) = 640 div SAMPLE_SIZE ?i" "SAMPLE_SIZE ?i \<noteq> 0" "SAMPLE_SIZE ?o = 4" by (simp_all add: SAMPLE_SIZE_def)
  with resample_chain_typed [OF o, of 160 640 160 "\<lambda>n. n" "\<lambda>n. n div 2" "\<lambda>_. True"] o show ?thesis
    by fastforce
qed

end
