(* ===== verification/Board_Config.thy ===== *)
theory Board_Config
  imports Esp_Prelude
begin

text \<open>
  The board description (\<open>components/codec_board/cfg_parse.c\<close>, \<open>codec_board.c\<close>): a text of boards, each
  with lines \<open>type: {attribute: value, ...}\<close>, parsed into a section of pins and codecs. A pointer into the
  text is the rest of the text from there, its terminating NUL included; reading past the end is
  \<open>None\<close>. \<open>mem k\<close> tells whether the \<open>k\<close>-th allocation of a line succeeds.
\<close>

section \<open>The section\<close>

record i2c_pin =
  sda :: int
  scl :: int

record i2s_pin =
  mclk :: int
  bclk :: int
  ws :: int
  dout :: int
  din :: int

datatype codec_type =
    CODEC_TYPE_NONE | CODEC_TYPE_ES8311 | CODEC_TYPE_ES7210 | CODEC_TYPE_ES7243 | CODEC_TYPE_ES8388 | CODEC_TYPE_DUMMY

datatype camera_type = CAMERA_TYPE_NONE | CAMERA_TYPE_DVP | CAMERA_TYPE_USB | CAMERA_TYPE_MIPI
datatype extend_io_type = EXTENT_IO_TYPE_NONE | EXTENT_IO_TYPE_TCA9554
datatype lcd_controller = LCD_CONTROLLER_TYPE_NONE | LCD_CONTROLLER_TYPE_ST7789
datatype lcd_bus = LCD_BUS_TYPE_NONE | LCD_BUS_TYPE_SPI | LCD_BUS_TYPE_RGB | LCD_BUS_TYPE_I80 | LCD_BUS_TYPE_MIPI

text \<open>\<open>pa_gain\<close> keeps the text that \<open>atof\<close> is given.\<close>

record codec_cfg =
  codec_type :: codec_type
  pa_pin :: int
  pa_gain :: string
  i2c_addr :: int
  i2c_port :: int
  i2s_port :: int
  use_mclk :: bool
  codec_dir :: nat

record sdcard_cfg =
  sd_clk :: int
  sd_cmd :: int
  sd_d0 :: int
  sd_d1 :: int
  sd_d2 :: int
  sd_d3 :: int
  sd_power :: int

record camera_cfg =
  camera_type :: camera_type
  pwr :: int
  cam_reset :: int
  xclk :: int
  pclk :: int
  vsync :: int
  href :: int
  de :: int
  cam_data :: "int list"

text \<open>
  The two members of the union of bus settings are kept apart: they would overlap only for a line
  that names two buses.
\<close>

record lcd_cfg =
  bus_type :: lcd_bus
  io_type :: extend_io_type
  controller :: lcd_controller
  lcd_width :: int
  lcd_height :: int
  mirror_x :: bool
  mirror_y :: bool
  swap_xy :: bool
  color_inv :: bool
  ctrl_pin :: int
  reset_pin :: int
  spi_pins :: "string \<Rightarrow> int"
  spi_d :: "int list"
  mipi_values :: "string \<Rightarrow> int"

record board_section =
  i2c_pins :: "i2c_pin list"
  i2s_pins :: "i2s_pin list"
  codecs :: "codec_cfg list"
  lcd :: lcd_cfg
  sdcard :: sdcard_cfg
  camera :: camera_cfg
  i2c_num :: nat
  i2s_num :: nat
  codec_num :: nat
  sdcard_num :: nat
  lcd_num :: nat
  camera_num :: nat

definition MAX_I2C_NUM :: nat where "MAX_I2C_NUM = 2"
definition MAX_I2S_NUM :: nat where "MAX_I2S_NUM = 2"
definition MAX_CODEC_NUM :: nat where "MAX_CODEC_NUM = 2"

text \<open>The section as \<open>calloc\<close> gives it.\<close>

definition no_codec :: codec_cfg where
  "no_codec = \<lparr>codec_type = CODEC_TYPE_NONE, pa_pin = 0, pa_gain = [], i2c_addr = 0, i2c_port = 0, i2s_port = 0,
     use_mclk = False, codec_dir = 0\<rparr>"

definition empty_section :: board_section where
  "empty_section = \<lparr>
     i2c_pins = replicate MAX_I2C_NUM \<lparr>sda = 0, scl = 0\<rparr>,
     i2s_pins = replicate MAX_I2S_NUM \<lparr>mclk = 0, bclk = 0, ws = 0, dout = 0, din = 0\<rparr>,
     codecs = replicate MAX_CODEC_NUM no_codec,
     lcd = \<lparr>bus_type = LCD_BUS_TYPE_NONE, io_type = EXTENT_IO_TYPE_NONE, controller = LCD_CONTROLLER_TYPE_NONE,
       lcd_width = 0, lcd_height = 0, mirror_x = False, mirror_y = False, swap_xy = False, color_inv = False,
       ctrl_pin = 0, reset_pin = 0, spi_pins = (\<lambda>_. 0), spi_d = replicate 7 0, mipi_values = (\<lambda>_. 0)\<rparr>,
     sdcard = \<lparr>sd_clk = 0, sd_cmd = 0, sd_d0 = 0, sd_d1 = 0, sd_d2 = 0, sd_d3 = 0, sd_power = 0\<rparr>,
     camera = \<lparr>camera_type = CAMERA_TYPE_NONE, pwr = 0, cam_reset = 0, xclk = 0, pclk = 0, vsync = 0, href = 0,
       de = 0, cam_data = replicate 16 0\<rparr>,
     i2c_num = 0, i2s_num = 0, codec_num = 0, sdcard_num = 0, lcd_num = 0, camera_num = 0\<rparr>"

section \<open>Words\<close>

definition in_range :: "char \<Rightarrow> char \<Rightarrow> char \<Rightarrow> bool" where
  "in_range lo hi c \<longleftrightarrow> (of_char lo :: nat) \<le> of_char c \<and> (of_char c :: nat) \<le> of_char hi"

definition is_word :: "char \<Rightarrow> bool" where
  "is_word c \<longleftrightarrow> in_range CHR ''A'' CHR ''Z'' c \<or> in_range CHR ''a'' CHR ''z'' c \<or> in_range CHR ''0'' CHR ''9'' c \<or>
     c = CHR ''_'' \<or> c = CHR ''-'' \<or> c = CHR ''.''"

text \<open>\<open>b\<close> is a literal; behind the text, which ends in NUL, nothing is ever read.\<close>

fun str_same :: "string \<Rightarrow> string \<Rightarrow> bool" where
  "str_same a [] = (case a of [] \<Rightarrow> True | c # _ \<Rightarrow> \<not> is_word c)"
| "str_same [] (b # bs) = False"
| "str_same (a # as) (b # bs) = (a = b \<and> str_same as bs)"

fun in_str :: "string \<Rightarrow> string \<Rightarrow> nat \<Rightarrow> string option" where
  "in_str org [] len = None"
| "in_str org (c # cs) len =
     (if len \<le> length org then None
      else if length org < length (c # cs) \<and> take (length org) (c # cs) = org \<and> \<not> is_word ((c # cs) ! length org) then Some (c # cs)
      else in_str org cs (len - 1))"

definition BOARD_SECTION :: string where "BOARD_SECTION = ''Board:''"

fun skip_to_word :: "string \<Rightarrow> string option" where
  "skip_to_word [] = None"
| "skip_to_word (c # cs) = (if is_word c then Some (c # cs) else skip_to_word cs)"

fun after_char :: "char \<Rightarrow> string \<Rightarrow> string option" where
  "after_char x [] = None"
| "after_char x (c # cs) = (if c = x then Some cs else after_char x cs)"

text \<open>
  \<open>get_section_data\<close>: \<open>Some None\<close> when the board is not there, \<open>None\<close> when the search leaves the text;
  \<open>n\<close> bounds the boards looked at.
\<close>

fun get_section_data :: "nat \<Rightarrow> string \<Rightarrow> nat \<Rightarrow> string \<Rightarrow> string option option" where
  "get_section_data 0 s left name = None"
| "get_section_data (Suc n) s left name =
     (case in_str BOARD_SECTION s left of
        None \<Rightarrow> Some None
      | Some t \<Rightarrow> (case skip_to_word (drop (length BOARD_SECTION) t) of
          None \<Rightarrow> None
        | Some w \<Rightarrow>
            if str_same w name
            then (case after_char (CHR 0x0A) w of None \<Rightarrow> None | Some r \<Rightarrow> Some (Some r))
            else get_section_data n w (left - (length s - length w)) name))"

section \<open>Lines\<close>

type_synonym cfg_line = "string \<times> (string \<times> string) list"

text \<open>
  \<open>size\<close> is an \<open>int\<close> that the loop only compares with 0. The result of the scan is the rest at the word
  and the size left; of the attributes, the list and the rest behind the brace, if there is one.
\<close>

fun scan_word :: "bool \<Rightarrow> string \<Rightarrow> int \<Rightarrow> (string \<times> int) option" where
  "scan_word comment [] sz = (if sz = 0 then Some ([], 0) else None)"
| "scan_word comment (c # cs) sz =
     (if sz = 0 then Some (c # cs, 0)
      else if comment \<or> c = CHR ''#'' then scan_word (c \<noteq> CHR 0x0A) cs (sz - 1)
      else if is_word c then Some (c # cs, sz)
      else scan_word False cs (sz - 1))"

fun scan_attrs ::
  "(nat \<Rightarrow> bool) \<Rightarrow> nat \<Rightarrow> string \<Rightarrow> int \<Rightarrow> bool \<Rightarrow> string option \<Rightarrow> (string \<times> string) list \<Rightarrow>
     ((string \<times> string) list \<times> string option) option" where
  "scan_attrs mem k [] left inw at acc = (if left \<le> 0 then Some (acc, None) else None)"
| "scan_attrs mem k (c # cs) left inw at acc =
     (if left \<le> 0 then Some (acc, None)
      else if c = CHR ''}'' then Some (acc, Some cs)
      else if \<not> is_word c then scan_attrs mem k cs (left - 1) False at acc
      else if inw then scan_attrs mem k cs (left - 1) True at acc
      else case at of
        None \<Rightarrow> scan_attrs mem k cs (left - 1) True (Some (c # cs)) acc
      | Some a \<Rightarrow> scan_attrs mem (Suc k) cs (left - 1) True None (if mem k then acc @ [(a, c # cs)] else acc))"

text \<open>\<open>consume\<close> keeps its value when the line is not closed.\<close>

definition parse_section :: "(nat \<Rightarrow> bool) \<Rightarrow> string \<Rightarrow> int \<Rightarrow> int \<Rightarrow> (cfg_line option \<times> int) option" where
  "parse_section mem s sz consume =
     (case scan_word False s sz of
        None \<Rightarrow> None
      | Some (name, left) \<Rightarrow>
          if left = 0 \<or> str_same name BOARD_SECTION \<or> \<not> mem 0 then Some (None, consume)
          else case after_char (CHR ''{'') name of
            None \<Rightarrow> None
          | Some t \<Rightarrow>
              (case scan_attrs mem 1 t (sz - int (length s - length t)) False None [] of
                 None \<Rightarrow> None
               | Some (attrs, None) \<Rightarrow> Some (Some (name, attrs), consume)
               | Some (attrs, Some r) \<Rightarrow> Some (Some (name, attrs), int (length s - length r))))"

section \<open>Filling the section\<close>

text \<open>\<open>atoi\<close>, and the narrowing of its value to the type of a member.\<close>

definition atoi :: "string \<Rightarrow> int" where
  "atoi s = strtol s"

definition int16 :: "int \<Rightarrow> int" where
  "int16 x = sint (word_of_int x :: 16 word)"

definition int8 :: "int \<Rightarrow> int" where
  "int8 x = sint (word_of_int x :: 8 word)"

definition uint8 :: "int \<Rightarrow> int" where
  "uint8 x = uint (word_of_int x :: 8 word)"

definition uint16 :: "int \<Rightarrow> int" where
  "uint16 x = uint (word_of_int x :: 16 word)"

definition uint32 :: "int \<Rightarrow> int" where
  "uint32 x = uint (word_of_int x :: 32 word)"

text \<open>A chain of \<open>else if (str_same(attr->attr, key))\<close>, and such a chain for every attribute of a line.\<close>

fun assign :: "(string \<times> (string \<Rightarrow> 'a \<Rightarrow> 'a)) list \<Rightarrow> string \<times> string \<Rightarrow> 'a \<Rightarrow> 'a" where
  "assign [] av x = x"
| "assign ((key, f) # ks) av x = (if str_same (fst av) key then f (snd av) x else assign ks av x)"

definition assign_all :: "(string \<times> (string \<Rightarrow> 'a \<Rightarrow> 'a)) list \<Rightarrow> (string \<times> string) list \<Rightarrow> 'a \<Rightarrow> 'a" where
  "assign_all ks avs x = fold (assign ks) avs x"

fun lookup_word :: "(string \<times> 'b) list \<Rightarrow> 'b \<Rightarrow> string \<Rightarrow> 'b" where
  "lookup_word [] d s = d"
| "lookup_word ((key, v) # ks) d s = (if str_same s key then v else lookup_word ks d s)"

definition fill_i2c_cfg :: "(string \<times> string) list \<Rightarrow> board_section \<Rightarrow> int \<times> board_section" where
  "fill_i2c_cfg avs b =
     (if i2c_num b \<ge> MAX_I2C_NUM then (-1, b)
      else (0, b\<lparr>i2c_pins := (i2c_pins b)[i2c_num b := assign_all
             [(''sda'', \<lambda>v c. c\<lparr>sda := int16 (atoi v)\<rparr>), (''scl'', \<lambda>v c. c\<lparr>scl := int16 (atoi v)\<rparr>)]
             avs (i2c_pins b ! i2c_num b)], i2c_num := i2c_num b + 1\<rparr>))"

text \<open>The bound is the one for I2C, as in the source.\<close>

definition fill_i2s_cfg :: "(string \<times> string) list \<Rightarrow> board_section \<Rightarrow> int \<times> board_section" where
  "fill_i2s_cfg avs b =
     (if i2s_num b \<ge> MAX_I2C_NUM then (-1, b)
      else (0, b\<lparr>i2s_pins := (i2s_pins b)[i2s_num b := assign_all
             [(''bclk'', \<lambda>v c. c\<lparr>bclk := int16 (atoi v)\<rparr>), (''din'', \<lambda>v c. c\<lparr>din := int16 (atoi v)\<rparr>),
              (''dout'', \<lambda>v c. c\<lparr>dout := int16 (atoi v)\<rparr>), (''ws'', \<lambda>v c. c\<lparr>ws := int16 (atoi v)\<rparr>),
              (''mclk'', \<lambda>v c. c\<lparr>mclk := int16 (atoi v)\<rparr>)]
             avs ((i2s_pins b ! i2s_num b)\<lparr>din := -1, dout := -1\<rparr>)], i2s_num := i2s_num b + 1\<rparr>))"

definition lcd_get_io_type :: "string \<Rightarrow> extend_io_type" where
  "lcd_get_io_type = lookup_word [(''tca9554'', EXTENT_IO_TYPE_TCA9554)] EXTENT_IO_TYPE_NONE"

definition lcd_get_controller :: "string \<Rightarrow> lcd_controller" where
  "lcd_get_controller = lookup_word [(''st7789'', LCD_CONTROLLER_TYPE_ST7789)] LCD_CONTROLLER_TYPE_NONE"

definition lcd_get_bus :: "string \<Rightarrow> lcd_bus" where
  "lcd_get_bus = lookup_word [(''spi'', LCD_BUS_TYPE_SPI), (''rgb'', LCD_BUS_TYPE_RGB), (''i80'', LCD_BUS_TYPE_I80),
     (''mipi'', LCD_BUS_TYPE_MIPI)] LCD_BUS_TYPE_NONE"

definition get_pin :: "string \<Rightarrow> int" where
  "get_pin s = (if strncmp_eq s ''ext'' 3 then int16 (0x1000 + atoi (drop 3 s)) else int16 (atoi s))"

definition set_spi :: "string \<Rightarrow> int \<Rightarrow> lcd_cfg \<Rightarrow> lcd_cfg" where
  "set_spi k v c = c\<lparr>spi_pins := (spi_pins c)(k := v)\<rparr>"

definition set_mipi :: "string \<Rightarrow> int \<Rightarrow> lcd_cfg \<Rightarrow> lcd_cfg" where
  "set_mipi k v c = c\<lparr>mipi_values := (mipi_values c)(k := v)\<rparr>"

definition lcd_common :: "(string \<times> (string \<Rightarrow> lcd_cfg \<Rightarrow> lcd_cfg)) list" where
  "lcd_common =
     [(''bus'', \<lambda>v c. let c1 = c\<lparr>bus_type := lcd_get_bus v\<rparr>
                 in if bus_type c1 = LCD_BUS_TYPE_SPI then c1\<lparr>spi_d := replicate 7 (-1)\<rparr> else c1),
      (''controller'', \<lambda>v c. c\<lparr>controller := lcd_get_controller v\<rparr>),
      (''extend_io'', \<lambda>v c. c\<lparr>io_type := lcd_get_io_type v\<rparr>),
      (''width'', \<lambda>v c. c\<lparr>lcd_width := atoi v\<rparr>), (''height'', \<lambda>v c. c\<lparr>lcd_height := atoi v\<rparr>),
      (''mirror_x'', \<lambda>v c. c\<lparr>mirror_x := (atoi v \<noteq> 0)\<rparr>), (''mirror_y'', \<lambda>v c. c\<lparr>mirror_y := (atoi v \<noteq> 0)\<rparr>),
      (''swap_xy'', \<lambda>v c. c\<lparr>swap_xy := (atoi v \<noteq> 0)\<rparr>), (''color_inv'', \<lambda>v c. c\<lparr>color_inv := (atoi v \<noteq> 0)\<rparr>),
      (''ctrl'', \<lambda>v c. c\<lparr>ctrl_pin := get_pin v\<rparr>), (''rst'', \<lambda>v c. c\<lparr>reset_pin := get_pin v\<rparr>)]"

definition lcd_spi :: "(string \<times> (string \<Rightarrow> lcd_cfg \<Rightarrow> lcd_cfg)) list" where
  "lcd_spi = [(''spi_bus'', \<lambda>v. set_spi ''spi_bus'' (uint8 (atoi v)))] @
     map (\<lambda>k. (k, \<lambda>v. set_spi k (get_pin v))) [''cs'', ''dc'', ''clk'', ''mosi''] @
     map (\<lambda>k. (k, \<lambda>v. set_spi k (uint8 (atoi v)))) [''cmd_bits'', ''param_bits'']"

definition lcd_mipi :: "(string \<times> (string \<Rightarrow> lcd_cfg \<Rightarrow> lcd_cfg)) list" where
  "lcd_mipi =
     [(''ldo_chan'', \<lambda>v. set_mipi ''ldo_chan'' (uint8 (atoi v))),
      (''ldo_voltage'', \<lambda>v. set_mipi ''ldo_voltage'' (uint16 (atoi v))),
      (''lane_num'', \<lambda>v. set_mipi ''lane_num'' (uint8 (atoi v))),
      (''fb_num'', \<lambda>v. set_mipi ''fb_num'' (uint8 (atoi v))),
      (''bit_depth'', \<lambda>v. set_mipi ''bit_depth'' (uint8 (uint16 (atoi v)))),
      (''lane_bitrate'', \<lambda>v. set_mipi ''lane_bitrate'' (uint32 (atoi v))),
      (''dpi_clk'', \<lambda>v. set_mipi ''dpi_clk'' (uint32 (atoi v)))] @
     map (\<lambda>k. (k, \<lambda>v. set_mipi k (uint8 (atoi v))))
       [''dsi_hsync'', ''dsi_vsync'', ''dsi_hbp'', ''dsi_hfp'', ''dsi_vbp'', ''dsi_vfp'']"

definition lcd_attr :: "string \<times> string \<Rightarrow> lcd_cfg \<Rightarrow> lcd_cfg" where
  "lcd_attr av c =
     (if list_ex (\<lambda>(k, _). str_same (fst av) k) lcd_common then assign lcd_common av c
      else if bus_type c = LCD_BUS_TYPE_SPI then assign lcd_spi av c
      else if bus_type c = LCD_BUS_TYPE_MIPI then assign lcd_mipi av c
      else c)"

definition fill_lcd_cfg :: "(string \<times> string) list \<Rightarrow> board_section \<Rightarrow> int \<times> board_section" where
  "fill_lcd_cfg avs b =
     (if lcd_num b \<ge> 1 then (-1, b)
      else (0, b\<lparr>lcd := fold lcd_attr avs ((lcd b)\<lparr>reset_pin := -1, ctrl_pin := -1\<rparr>), lcd_num := lcd_num b + 1\<rparr>))"

definition get_codec_type :: "string \<Rightarrow> codec_type" where
  "get_codec_type = lookup_word [(''ES8311'', CODEC_TYPE_ES8311), (''ES8388'', CODEC_TYPE_ES8388),
     (''ES7243'', CODEC_TYPE_ES7243), (''ES7210'', CODEC_TYPE_ES7210), (''DUMMY'', CODEC_TYPE_DUMMY)] CODEC_TYPE_NONE"

text \<open>The attributes of a codec, with the flag that no port or codec was refused.\<close>

fun codec_attrs :: "nat \<Rightarrow> nat \<Rightarrow> (string \<times> string) list \<Rightarrow> codec_cfg \<Rightarrow> bool \<times> codec_cfg" where
  "codec_attrs i2c i2s [] c = (True, c)"
| "codec_attrs i2c i2s ((a, v) # avs) c =
     (if str_same a ''i2c_port'' then
        (let c1 = c\<lparr>i2c_port := int8 (atoi v)\<rparr>
         in if i2c_port c1 \<ge> int i2c then (False, c1) else codec_attrs i2c i2s avs c1)
      else if str_same a ''i2s_port'' then
        (let c1 = c\<lparr>i2s_port := int8 (atoi v)\<rparr>
         in if i2s_port c1 \<ge> int i2s then (False, c1) else codec_attrs i2c i2s avs c1)
      else if str_same a ''pa'' then codec_attrs i2c i2s avs (c\<lparr>pa_pin := int16 (atoi v)\<rparr>)
      else if str_same a ''pa_gain'' then codec_attrs i2c i2s avs (c\<lparr>pa_gain := v\<rparr>)
      else if str_same a ''use_mclk'' then codec_attrs i2c i2s avs (c\<lparr>use_mclk := (atoi v \<noteq> 0)\<rparr>)
      else if str_same a ''codec'' then
        (let c1 = c\<lparr>codec_type := get_codec_type v\<rparr>
         in if codec_type c1 = CODEC_TYPE_NONE then (False, c1) else codec_attrs i2c i2s avs c1)
      else if str_same a ''i2c_addr'' then codec_attrs i2c i2s avs (c\<lparr>i2c_addr := uint8 (atoi v)\<rparr>)
      else codec_attrs i2c i2s avs c)"

definition fill_codec_cfg :: "(string \<times> string) list \<Rightarrow> nat \<Rightarrow> board_section \<Rightarrow> int \<times> board_section" where
  "fill_codec_cfg avs dir b =
     (if codec_num b \<ge> MAX_CODEC_NUM then (-1, b)
      else case codec_attrs (i2c_num b) (i2s_num b) avs ((codecs b ! codec_num b)\<lparr>codec_dir := dir\<rparr>) of
        (ok, c) \<Rightarrow>
          let b1 = b\<lparr>codecs := (codecs b)[codec_num b := c]\<rparr>
          in if ok then (0, b1\<lparr>codec_num := codec_num b + 1\<rparr>) else (-1, b1))"

definition fill_sdcard_cfg :: "(string \<times> string) list \<Rightarrow> board_section \<Rightarrow> int \<times> board_section" where
  "fill_sdcard_cfg avs b =
     (if sdcard_num b \<ge> 1 then (-1, b)
      else (0, b\<lparr>sdcard := assign_all
             [(''clk'', \<lambda>v c. c\<lparr>sd_clk := int16 (atoi v)\<rparr>), (''cmd'', \<lambda>v c. c\<lparr>sd_cmd := int16 (atoi v)\<rparr>),
              (''d0'', \<lambda>v c. c\<lparr>sd_d0 := int16 (atoi v)\<rparr>), (''d1'', \<lambda>v c. c\<lparr>sd_d1 := int16 (atoi v)\<rparr>),
              (''d2'', \<lambda>v c. c\<lparr>sd_d2 := int16 (atoi v)\<rparr>), (''d3'', \<lambda>v c. c\<lparr>sd_d3 := int16 (atoi v)\<rparr>),
              (''power'', \<lambda>v c. c\<lparr>sd_power := int16 (atoi v)\<rparr>)]
             avs ((sdcard b)\<lparr>sd_power := -1\<rparr>), sdcard_num := sdcard_num b + 1\<rparr>))"

definition get_camera_type :: "string \<Rightarrow> camera_type" where
  "get_camera_type = lookup_word [(''dvp'', CAMERA_TYPE_DVP), (''usb'', CAMERA_TYPE_USB), (''mipi'', CAMERA_TYPE_MIPI)]
     CAMERA_TYPE_NONE"

definition camera_keys :: "(string \<times> (string \<Rightarrow> camera_cfg \<Rightarrow> camera_cfg)) list" where
  "camera_keys =
     [(''xclk'', \<lambda>v c. c\<lparr>xclk := int16 (atoi v)\<rparr>), (''pclk'', \<lambda>v c. c\<lparr>pclk := int16 (atoi v)\<rparr>),
      (''pwr'', \<lambda>v c. c\<lparr>pwr := int16 (atoi v)\<rparr>), (''reset'', \<lambda>v c. c\<lparr>cam_reset := int16 (atoi v)\<rparr>),
      (''vsync'', \<lambda>v c. c\<lparr>vsync := int16 (atoi v)\<rparr>), (''href'', \<lambda>v c. c\<lparr>href := int16 (atoi v)\<rparr>),
      (''de'', \<lambda>v c. c\<lparr>de := int16 (atoi v)\<rparr>)]"

definition camera_attr :: "string \<times> string \<Rightarrow> camera_cfg \<Rightarrow> camera_cfg" where
  "camera_attr av c0 =
     (let c = (if str_same (fst av) ''type'' then c0\<lparr>camera_type := get_camera_type (snd av)\<rparr> else c0) in
      if list_ex (\<lambda>(k, _). str_same (fst av) k) camera_keys then assign camera_keys av c
      else case fst av of
        d # n # rest \<Rightarrow>
          if d = CHR ''d'' \<and> is_digit n then
            (let i = atoi (n # rest)
             in if i < 16 then c\<lparr>cam_data := (cam_data c)[nat i := int16 (atoi (snd av))]\<rparr> else c)
          else c
      | _ \<Rightarrow> c)"

definition fill_camera_cfg :: "(string \<times> string) list \<Rightarrow> board_section \<Rightarrow> int \<times> board_section" where
  "fill_camera_cfg avs b =
     (if camera_num b \<ge> 1 then (-1, b)
      else (0, b\<lparr>camera := fold camera_attr avs
             ((camera b)\<lparr>cam_data := replicate 16 (-1), pwr := -1, cam_reset := -1, xclk := -1\<rparr>),
             camera_num := camera_num b + 1\<rparr>))"

definition fill_cfg :: "cfg_line \<Rightarrow> board_section \<Rightarrow> int \<times> board_section" where
  "fill_cfg line b =
     (case line of (ty, avs) \<Rightarrow>
        if str_same ty ''i2c'' then fill_i2c_cfg avs b
        else if str_same ty ''i2s'' then fill_i2s_cfg avs b
        else if str_same ty ''sdcard'' then fill_sdcard_cfg avs b
        else if str_same ty ''in_out'' then fill_codec_cfg avs 3 b
        else if str_same ty ''out'' then fill_codec_cfg avs 2 b
        else if str_same ty ''in'' then fill_codec_cfg avs 1 b
        else if str_same ty ''lcd'' then fill_lcd_cfg avs b
        else if str_same ty ''camera'' then fill_camera_cfg avs b
        else (0, b))"

section \<open>Parsing\<close>

text \<open>
  \<open>Crash\<close>: the text was left, or freed memory used. The loop of \<open>parse_cfg\<close> runs at most \<open>n\<close> times, else
  \<open>None\<close>; \<open>mem l\<close> is for its line \<open>l\<close>.
\<close>

datatype 'a outcome = Crash | Ret 'a

fun parse_cfg ::
  "nat \<Rightarrow> (nat \<Rightarrow> nat \<Rightarrow> bool) \<Rightarrow> nat \<Rightarrow> string \<Rightarrow> int \<Rightarrow> int \<Rightarrow> board_section \<Rightarrow> (int \<times> board_section) outcome option" where
  "parse_cfg 0 mem l s sz consume b = None"
| "parse_cfg (Suc n) mem l s sz consume b =
     (case parse_section (mem l) s sz consume of
        None \<Rightarrow> Some Crash
      | Some (None, _) \<Rightarrow> Some (Ret (0, b))
      | Some (Some line, consume1) \<Rightarrow>
          (case fill_cfg line b of
             (r, b1) \<Rightarrow> if r \<noteq> 0 then Some (Ret (r, b1))
                        else parse_cfg n mem (l + 1) (drop (nat consume1) s) (sz - consume1) consume1 b1))"

text \<open>
  The static \<open>codec_section\<close>: not there, allocated, or freed while the pointer still names it. The
  result is the section handed out.
\<close>

datatype section_ptr = No_section | Section board_section | Dangling

definition parse_codec_section ::
  "nat \<Rightarrow> (nat \<Rightarrow> nat \<Rightarrow> bool) \<Rightarrow> bool \<Rightarrow> string \<Rightarrow> section_ptr \<Rightarrow> (board_section option \<times> section_ptr) outcome option" where
  "parse_codec_section n mem calloc_ok text p =
     (if p = Dangling then Some Crash
      else if \<not> calloc_ok then Some (Ret (None, No_section))
      else case parse_cfg n mem 0 text (int (length text) - 1) 0 empty_section of
        None \<Rightarrow> None
      | Some Crash \<Rightarrow> Some Crash
      | Some (Ret (r, b)) \<Rightarrow> if r \<noteq> 0 then Some (Ret (None, Dangling)) else Some (Ret (Some b, Section b)))"

text \<open>\<open>cfg\<close> is the embedded text, whose size includes the NUL.\<close>

definition get_codec_section ::
  "nat \<Rightarrow> (nat \<Rightarrow> nat \<Rightarrow> bool) \<Rightarrow> bool \<Rightarrow> string \<Rightarrow> string option \<Rightarrow> section_ptr \<Rightarrow>
     (board_section option \<times> section_ptr) outcome option" where
  "get_codec_section n mem calloc_ok cfg name p =
     (case name of
        None \<Rightarrow> Some (Ret (None, p))
      | Some nm \<Rightarrow>
          if p = Dangling then Some Crash
          else if \<not> calloc_ok then Some (Ret (None, No_section))
          else case get_section_data (length cfg) cfg (length cfg) nm of
            None \<Rightarrow> Some Crash
          | Some None \<Rightarrow> Some (Ret (None, Dangling))
          | Some (Some s) \<Rightarrow>
              (case parse_cfg n mem 0 s (int (length s)) 0 empty_section of
                 None \<Rightarrow> None
               | Some Crash \<Rightarrow> Some Crash
               | Some (Ret (r, b)) \<Rightarrow> if r \<noteq> 0 then Some (Ret (None, Dangling)) else Some (Ret (Some b, Section b))))"

section \<open>The board in use\<close>

text \<open>\<open>codec\<close> is the section chosen once; the outputs are the member copied, or nothing.\<close>

record board_state =
  codec :: "board_section option"
  sections :: section_ptr

definition codec_board_parse_all_config ::
  "nat \<Rightarrow> (nat \<Rightarrow> nat \<Rightarrow> bool) \<Rightarrow> bool \<Rightarrow> string \<Rightarrow> board_state \<Rightarrow> (int \<times> board_state) outcome option" where
  "codec_board_parse_all_config n mem ok text st =
     (if codec st \<noteq> None then Some (Ret (0, st))
      else case parse_codec_section n mem ok text (sections st) of
        None \<Rightarrow> None
      | Some Crash \<Rightarrow> Some Crash
      | Some (Ret (c, p)) \<Rightarrow> Some (Ret (if c = None then -1 else 0, \<lparr>codec = c, sections = p\<rparr>)))"

definition set_codec_board_type ::
  "nat \<Rightarrow> (nat \<Rightarrow> nat \<Rightarrow> bool) \<Rightarrow> bool \<Rightarrow> string \<Rightarrow> string option \<Rightarrow> board_state \<Rightarrow> board_state outcome option" where
  "set_codec_board_type n mem ok cfg name st =
     (if codec st \<noteq> None then Some (Ret st)
      else case get_codec_section n mem ok cfg name (sections st) of
        None \<Rightarrow> None
      | Some Crash \<Rightarrow> Some Crash
      | Some (Ret (c, p)) \<Rightarrow> Some (Ret \<lparr>codec = c, sections = p\<rparr>))"

text \<open>\<open>def\<close> is \<open>CONFIG_CODEC_BOARD\<close>.\<close>

definition set_default_codec_board ::
  "nat \<Rightarrow> (nat \<Rightarrow> nat \<Rightarrow> bool) \<Rightarrow> bool \<Rightarrow> string \<Rightarrow> string \<Rightarrow> board_state \<Rightarrow> board_state outcome option" where
  "set_default_codec_board n mem ok cfg def st =
     (if codec st \<noteq> None then Some (Ret st) else set_codec_board_type n mem ok cfg (Some def) st)"

definition get_sdcard_config :: "board_state \<Rightarrow> int \<times> sdcard_cfg option" where
  "get_sdcard_config st =
     (case codec st of None \<Rightarrow> (-1, None)
      | Some b \<Rightarrow> if sdcard_num b = 0 then (-1, None) else (0, Some (sdcard b)))"

definition get_i2c_pin :: "nat \<Rightarrow> board_state \<Rightarrow> (int \<times> i2c_pin option) outcome" where
  "get_i2c_pin port st =
     (case codec st of None \<Rightarrow> Ret (-1, None)
      | Some b \<Rightarrow> if port > i2c_num b then Ret (-1, None)
                  else if port < length (i2c_pins b) then Ret (0, Some (i2c_pins b ! port)) else Crash)"

definition get_i2s_pin :: "nat \<Rightarrow> board_state \<Rightarrow> (int \<times> i2s_pin option) outcome" where
  "get_i2s_pin port st =
     (case codec st of None \<Rightarrow> Ret (-1, None)
      | Some b \<Rightarrow> if port > i2s_num b then Ret (-1, None)
                  else if port < length (i2s_pins b) then Ret (0, Some (i2s_pins b ! port)) else Crash)"

text \<open>The first codec of a direction: bit 1 out, bit 0 in.\<close>

definition get_codec_cfg :: "nat \<Rightarrow> board_state \<Rightarrow> int \<times> codec_cfg option" where
  "get_codec_cfg dir st =
     (case codec st of None \<Rightarrow> (-1, None)
      | Some b \<Rightarrow> (case find (\<lambda>c. codec_dir c div dir mod 2 = 1) (take (codec_num b) (codecs b)) of
          None \<Rightarrow> (-1, None) | Some c \<Rightarrow> (0, Some c)))"

definition get_out_codec_cfg :: "board_state \<Rightarrow> int \<times> codec_cfg option" where
  "get_out_codec_cfg = get_codec_cfg 2"

definition get_in_codec_cfg :: "board_state \<Rightarrow> int \<times> codec_cfg option" where
  "get_in_codec_cfg = get_codec_cfg 1"

definition get_camera_cfg :: "board_state \<Rightarrow> int \<times> camera_cfg option" where
  "get_camera_cfg st =
     (case codec st of None \<Rightarrow> (-1, None)
      | Some b \<Rightarrow> if camera_num b = 0 then (-1, None) else (0, Some (camera b)))"

definition get_lcd_cfg :: "board_state \<Rightarrow> int \<times> lcd_cfg option" where
  "get_lcd_cfg st =
     (case codec st of None \<Rightarrow> (-1, None)
      | Some b \<Rightarrow> if lcd_num b \<noteq> 0 then (0, Some (lcd b)) else (-1, None))"

section \<open>Printing a line\<close>

definition word_of :: "string \<Rightarrow> string" where
  "word_of s = takeWhile is_word s"

fun print_attrs :: "(string \<times> string) list \<Rightarrow> string" where
  "print_attrs [] = []"
| "print_attrs ((a, v) # avs) = word_of a @ '': '' @ word_of v @ (if avs \<noteq> [] then '', '' else []) @ print_attrs avs"

definition print_cfg_line :: "cfg_line \<Rightarrow> string" where
  "print_cfg_line line = word_of (fst line) @ '': {'' @ print_attrs (snd line) @ ''}'' @ [CHR 0x0A]"

section \<open>Reading words back\<close>

definition is_name :: "string \<Rightarrow> bool" where
  "is_name w \<longleftrightarrow> w \<noteq> [] \<and> list_all is_word w"

lemma not_word [simp]:
  "\<not> is_word CHR '':''" "\<not> is_word CHR '' ''" "\<not> is_word CHR '',''" "\<not> is_word CHR ''{''" "\<not> is_word CHR ''}''"
  "\<not> is_word CHR ''#''" "\<not> is_word (CHR 0x0A)" "\<not> is_word (CHR 0x00)"
  by (simp_all add: is_word_def in_range_def)

lemma word_not_brace: "is_word c \<Longrightarrow> c \<noteq> CHR ''}''"
  by auto

lemma word_of_name: "is_name w \<Longrightarrow> word_of w = w"
  by (simp add: word_of_def is_name_def takeWhile_eq_all_conv list_all_iff)

lemma word_of_append: "list_all is_word w \<Longrightarrow> \<not> is_word c \<Longrightarrow> word_of (w @ c # r) = w"
  by (induction w) (simp_all add: word_of_def)

lemma str_same_prefix: "str_same s b \<Longrightarrow> take (length b) s = b"
  by (induction s b rule: str_same.induct) auto

lemma str_same_word: "list_all is_word k \<Longrightarrow> str_same s k \<longleftrightarrow> word_of s = k"
proof (induction s k rule: str_same.induct)
  case (1 a)
  then show ?case by (cases a) (auto simp: word_of_def)
qed (auto simp: word_of_def)

lemma not_board:
  assumes "word_of s \<noteq> ''Board''"
  shows "\<not> str_same s BOARD_SECTION"
proof
  assume "str_same s BOARD_SECTION"
  from str_same_prefix [OF this] obtain r where "s = ''Board:'' @ r"
    by (metis BOARD_SECTION_def append_take_drop_id)
  then have "word_of s = ''Board''" by (simp add: word_of_def is_word_def in_range_def)
  with assms show False by simp
qed

lemma after_char_append: "x \<notin> set xs \<Longrightarrow> after_char x (xs @ x # r) = Some r"
  by (induction xs) auto

lemma scan_word_skip:
  "list_all (\<lambda>c. \<not> is_word c \<and> c \<noteq> CHR ''#'') pre \<Longrightarrow> int (length pre) \<le> n \<Longrightarrow> scan_word False (pre @ s) n = scan_word False s (n - int (length pre))"
  by (induction pre arbitrary: n) (auto simp: diff_diff_eq)

lemma scan_word_name:
  assumes "is_name w" "0 < n"
  shows "scan_word False (w @ r) n = Some (w @ r, n)"
proof (cases w)
  case (Cons c cs)
  then have "is_word c" using assms(1) by (simp add: is_name_def)
  moreover from this have "c \<noteq> CHR ''#''" by auto
  ultimately show ?thesis using Cons assms(2) by simp
qed (use assms in \<open>simp add: is_name_def\<close>)

lemma scan_rest:
  "list_all is_word w \<Longrightarrow> int (length w) < n \<Longrightarrow> scan_attrs mem k (w @ r) n True at acc = scan_attrs mem k r (n - int (length w)) True at acc"
proof (induction w arbitrary: n)
  case (Cons c w)
  then have "c \<noteq> CHR ''}''" using word_not_brace by simp
  with Cons show ?case by (simp add: diff_diff_eq)
qed simp

lemma scan_name:
  assumes "is_name w" "int (length w) < n"
  shows "scan_attrs mem k (w @ r) n False None acc = scan_attrs mem k r (n - int (length w)) True (Some (w @ r)) acc"
    and "scan_attrs mem k (w @ r) n False (Some a) acc =
      scan_attrs mem (Suc k) r (n - int (length w)) True None (if mem k then acc @ [(a, w @ r)] else acc)"
proof -
  obtain c cs where w: "w = c # cs" "is_word c" "list_all is_word cs" "c \<noteq> CHR ''}''"
    using assms(1) word_not_brace by (cases w) (simp_all add: is_name_def)
  show "scan_attrs mem k (w @ r) n False None acc = scan_attrs mem k r (n - int (length w)) True (Some (w @ r)) acc"
    using w assms(2) scan_rest [OF w(3), of "n - 1"] by (simp add: diff_diff_eq)
  show "scan_attrs mem k (w @ r) n False (Some a) acc =
      scan_attrs mem (Suc k) r (n - int (length w)) True None (if mem k then acc @ [(a, w @ r)] else acc)"
    using w assms(2) scan_rest [OF w(3), of "n - 1"] by (simp add: diff_diff_eq)
qed

lemma scan_attrs_print:
  "list_all (\<lambda>(a, v). is_name a \<and> is_name v) avs \<Longrightarrow> int (length (print_attrs avs)) < n \<Longrightarrow>
   \<exists>avs'. scan_attrs (\<lambda>_. True) k (print_attrs avs @ CHR ''}'' # r) n False None acc = Some (acc @ avs', Some r) \<and>
     map (\<lambda>(a, v). (word_of a, word_of v)) avs' = avs"
proof (induction avs arbitrary: n k acc)
  case (Cons av avs)
  obtain a v where av: "av = (a, v)" by (cases av)
  with Cons.prems have w: "is_name a" "is_name v" by auto
  let ?sep = "if avs \<noteq> [] then '', '' else []" and ?tail = "print_attrs avs @ CHR ''}'' # r"
  let ?v = "v @ ?sep @ ?tail" and ?m = "n - int (length a) - 2 - int (length v)"
  have p: "print_attrs (av # avs) @ CHR ''}'' # r = a @ CHR '':'' # CHR '' '' # ?v"
    using w by (simp add: av word_of_name)
  have len: "int (length a) + 2 + int (length v) + int (length ?sep) + int (length (print_attrs avs)) < n"
    using Cons.prems(2) w by (simp add: av word_of_name split: if_splits)
  have v: "word_of ?v = v"
  proof -
    obtain c t where "?sep @ ?tail = c # t" "\<not> is_word c" by (cases avs) auto
    then show ?thesis using word_of_append w(2) by (simp add: is_name_def)
  qed
  have a: "word_of (a @ CHR '':'' # CHR '' '' # ?v) = a" using word_of_append w(1) by (simp add: is_name_def)
  have "scan_attrs (\<lambda>_. True) k (a @ CHR '':'' # CHR '' '' # ?v) n False None acc =
      scan_attrs (\<lambda>_. True) k ?v (n - int (length a) - 2) False (Some (a @ CHR '':'' # CHR '' '' # ?v)) acc"
    using scan_name(1) [OF w(1)] len by simp
  also have "\<dots> = scan_attrs (\<lambda>_. True) (Suc k) (?sep @ ?tail) ?m True None (acc @ [(a @ CHR '':'' # CHR '' '' # ?v, ?v)])"
    using scan_name(2) [OF w(2), of "n - int (length a) - 2"] len by simp
  finally have 1: "scan_attrs (\<lambda>_. True) k (print_attrs (av # avs) @ CHR ''}'' # r) n False None acc =
      scan_attrs (\<lambda>_. True) (Suc k) (?sep @ ?tail) ?m True None (acc @ [(a @ CHR '':'' # CHR '' '' # ?v, ?v)])"
    unfolding p .
  show ?case
  proof (cases "avs = []")
    case True
    with 1 len a v show ?thesis by (simp add: av)
  next
    case False
    have "scan_attrs (\<lambda>_. True) (Suc k) (?sep @ ?tail) ?m True None (acc @ [(a @ CHR '':'' # CHR '' '' # ?v, ?v)]) =
      scan_attrs (\<lambda>_. True) (Suc k) ?tail (?m - 2) False None (acc @ [(a @ CHR '':'' # CHR '' '' # ?v, ?v)])"
      using False len by simp
    moreover have "int (length (print_attrs avs)) < ?m - 2" using len False by simp
    ultimately show ?thesis
      using 1 a v Cons.IH [of "?m - 2" "Suc k" "acc @ [(a @ CHR '':'' # CHR '' '' # ?v, ?v)]"] Cons.prems(1)
      by (fastforce simp: av)
  qed
qed simp
section \<open>The arrays of the section\<close>

text \<open>
  The counters stay within the arrays, the arrays keep their length, and the ports of a codec name a
  bus of the section or are the default 0, which nothing checks.
\<close>

definition section_inv :: "board_section \<Rightarrow> bool" where
  "section_inv b \<longleftrightarrow>
     (i2c_num b \<le> length (i2c_pins b) \<and> length (i2c_pins b) = MAX_I2C_NUM) \<and>
     (i2s_num b \<le> length (i2s_pins b) \<and> length (i2s_pins b) = MAX_I2S_NUM) \<and>
     (codec_num b \<le> length (codecs b) \<and> length (codecs b) = MAX_CODEC_NUM) \<and>
     (length (cam_data (camera b)) = 16 \<and> length (spi_d (lcd b)) = 7) \<and>
     (sdcard_num b \<le> 1 \<and> lcd_num b \<le> 1 \<and> camera_num b \<le> 1) \<and>
     list_all (\<lambda>c. i2c_port c < max 1 (int (i2c_num b)) \<and> i2s_port c < max 1 (int (i2s_num b))) (codecs b)"

lemmas max_nums = MAX_I2C_NUM_def MAX_I2S_NUM_def MAX_CODEC_NUM_def

lemma empty_section_inv: "section_inv empty_section"
  by (simp add: section_inv_def empty_section_def no_codec_def max_nums list_all_iff)

lemma set_spi_d [simp]: "spi_d (set_spi k v c) = spi_d c" "spi_d (set_mipi k v c) = spi_d c"
  by (simp_all add: set_spi_def set_mipi_def)

lemma assign_keeps:
  assumes "P x" "\<And>k f v y. (k, f) \<in> set ks \<Longrightarrow> P y \<Longrightarrow> P (f v y)"
  shows "P (assign ks av x)"
  using assms by (induction ks av x rule: assign.induct) auto

lemma fold_keeps: "(\<And>a y. P y \<Longrightarrow> P (f a y)) \<Longrightarrow> P x \<Longrightarrow> P (fold f xs x)"
  by (induction xs arbitrary: x) auto

lemma lcd_attr_keeps: "length (spi_d c) = 7 \<Longrightarrow> length (spi_d (lcd_attr av c)) = 7"
  unfolding lcd_attr_def
  by (auto intro!: assign_keeps [where P = "\<lambda>c. length (spi_d c) = 7"]
      simp: lcd_common_def lcd_spi_def lcd_mipi_def Let_def split: if_splits)

lemma camera_keys_keep: "cam_data (assign camera_keys av c) = cam_data c"
  by (rule assign_keeps [where P = "\<lambda>x. cam_data x = cam_data c"]) (auto simp: camera_keys_def)

lemma camera_attr_keeps: "length (cam_data c) = 16 \<Longrightarrow> length (cam_data (camera_attr av c)) = 16"
  by (auto simp: camera_attr_def Let_def camera_keys_keep split: list.splits)

lemma codec_attrs_below:
  assumes "codec_attrs m n avs c = (True, c')" "i2c_port c < M" "i2s_port c < N" "int m \<le> M" "int n \<le> N"
  shows "i2c_port c' < M \<and> i2s_port c' < N"
  using assms(1-3)
proof (induction avs arbitrary: c)
  case (Cons av avs)
  obtain a v where av: "av = (a, v)" by (cases av)
  have step: "codec_attrs m n (av # avs) c = (if P then codec_attrs m n avs d else e) \<Longrightarrow> i2c_port d < M \<Longrightarrow> i2s_port d < N \<Longrightarrow>
      (\<not> P \<Longrightarrow> \<not> fst e) \<Longrightarrow> i2c_port c' < M \<and> i2s_port c' < N" for P d e
    using Cons.IH [of d] Cons.prems(1) by (cases P) auto
  show ?case
  proof (cases "str_same a ''i2c_port''")
    case True
    let ?d = "c\<lparr>i2c_port := int8 (atoi v)\<rparr>"
    show ?thesis by (cases "i2c_port ?d < int m") (use True Cons assms(4) in \<open>auto simp: av Let_def\<close>)
  next
    case no_i2c: False
    show ?thesis
    proof (cases "str_same a ''i2s_port''")
      case True
      let ?d = "c\<lparr>i2s_port := int8 (atoi v)\<rparr>"
      show ?thesis by (cases "i2s_port ?d < int n") (use True no_i2c Cons assms(5) in \<open>auto simp: av Let_def\<close>)
    next
      case False
      with no_i2c obtain P d e where "codec_attrs m n (av # avs) c = (if P then codec_attrs m n avs d else e)"
        "i2c_port d = i2c_port c" "i2s_port d = i2s_port c" "\<not> P \<longrightarrow> \<not> fst e"
      proof (cases "str_same a ''codec'' \<and> \<not> str_same a ''pa'' \<and> \<not> str_same a ''pa_gain'' \<and> \<not> str_same a ''use_mclk''")
        case True
        let ?d = "c\<lparr>codec_type := get_codec_type v\<rparr>"
        show thesis
          by (rule that [of "get_codec_type v \<noteq> CODEC_TYPE_NONE" ?d "(False, ?d)"]) (use True no_i2c False in \<open>simp_all add: av Let_def\<close>)
      next
        case other: False
        let ?d = "if str_same a ''pa'' then c\<lparr>pa_pin := int16 (atoi v)\<rparr> else if str_same a ''pa_gain'' then c\<lparr>pa_gain := v\<rparr>
          else if str_same a ''use_mclk'' then c\<lparr>use_mclk := (atoi v \<noteq> 0)\<rparr>
          else if str_same a ''i2c_addr'' then c\<lparr>i2c_addr := uint8 (atoi v)\<rparr> else c"
        show thesis
          by (rule that [of True ?d "(False, c)"]) (use other no_i2c False in \<open>auto simp: av\<close>)
      qed
      then show ?thesis using step Cons.prems by metis
    qed
  qed
qed simp

lemmas codec_attrs_ports = codec_attrs_below [where M = "max 1 (int m)" and N = "max 1 (int n)" for m n]

lemma fill_codec_inv:
  assumes "section_inv b" "fill_codec_cfg avs dir b = (0, b')"
  shows "section_inv b'"
proof -
  from assms(2) obtain c where n: "codec_num b < MAX_CODEC_NUM" and
    c: "codec_attrs (i2c_num b) (i2s_num b) avs ((codecs b ! codec_num b)\<lparr>codec_dir := dir\<rparr>) = (True, c)" and
    b': "b' = b\<lparr>codecs := (codecs b)[codec_num b := c], codec_num := codec_num b + 1\<rparr>"
    by (auto simp: fill_codec_cfg_def Let_def split: if_splits prod.splits)
  from assms(1) n have "codecs b ! codec_num b \<in> set (codecs b)" by (simp add: section_inv_def)
  with assms(1) codec_attrs_ports [OF c]
  have "i2c_port c < max 1 (int (i2c_num b)) \<and> i2s_port c < max 1 (int (i2s_num b))"
    by (auto simp: section_inv_def list_all_iff)
  with assms(1) n show ?thesis unfolding b'
    by (auto simp: section_inv_def list_all_iff dest!: set_update_subset_insert [THEN subsetD])
qed

lemma ports_grow:
  "list_all (\<lambda>c. i2c_port c < max 1 m \<and> i2s_port c < max 1 n) cs \<Longrightarrow> m \<le> m' \<Longrightarrow> n \<le> n' \<Longrightarrow>
   list_all (\<lambda>c. i2c_port c < max 1 m' \<and> i2s_port c < max 1 n') cs"
  by (auto simp: list_all_iff)

lemma fill_cfg_inv:
  assumes "section_inv b" "fill_cfg line b = (0, b')"
  shows "section_inv b'"
proof -
  have lcd: "length (spi_d (fold lcd_attr avs c)) = 7" if "length (spi_d c) = 7" for avs c
    by (rule fold_keeps [where P = "\<lambda>c. length (spi_d c) = 7"]) (use that lcd_attr_keeps in auto)
  have cam: "length (cam_data (fold camera_attr avs c)) = 16" if "length (cam_data c) = 16" for avs c
    by (rule fold_keeps [where P = "\<lambda>c. length (cam_data c) = 16"]) (use that camera_attr_keeps in auto)
  have i2c: "section_inv b1" if "fill_i2c_cfg avs b = (0, b1)" for avs b1
    using assms(1) that ports_grow [of "int (i2c_num b)" "int (i2s_num b)" "codecs b" "int (i2c_num b) + 1" "int (i2s_num b)"]
    by (auto simp: section_inv_def fill_i2c_cfg_def max_nums add.commute split: if_splits)
  have i2s: "section_inv b1" if "fill_i2s_cfg avs b = (0, b1)" for avs b1
    using assms(1) that ports_grow [of "int (i2c_num b)" "int (i2s_num b)" "codecs b" "int (i2c_num b)" "int (i2s_num b) + 1"]
    by (auto simp: section_inv_def fill_i2s_cfg_def max_nums add.commute split: if_splits)
  have sd: "section_inv b1" if "fill_sdcard_cfg avs b = (0, b1)" for avs b1
    using assms(1) that by (auto simp: section_inv_def fill_sdcard_cfg_def split: if_splits)
  have l: "section_inv b1" if "fill_lcd_cfg avs b = (0, b1)" for avs b1
    using assms(1) that by (auto simp: section_inv_def fill_lcd_cfg_def lcd split: if_splits)
  have c: "section_inv b1" if "fill_camera_cfg avs b = (0, b1)" for avs b1
    using assms(1) that by (auto simp: section_inv_def fill_camera_cfg_def cam split: if_splits)
  show ?thesis
    using assms(2) i2c i2s sd l c fill_codec_inv [OF assms(1)] assms(1)
    by (simp add: fill_cfg_def split: prod.splits if_splits)
qed

lemma parse_cfg_inv:
  "parse_cfg n mem l s sz c b = Some (Ret (0, b')) \<Longrightarrow> section_inv b \<Longrightarrow> section_inv b'"
proof (induction n arbitrary: l s sz c b)
  case (Suc n)
  from Suc.prems(1) show ?case
    using Suc.IH Suc.prems(2) fill_cfg_inv by (auto split: option.splits prod.splits if_splits)
qed simp

lemma section_of_text:
  assumes "codec_board_parse_all_config n mem ok cfg st = Some (Ret (0, st'))" "codec st = None"
  obtains b where "codec st' = Some b" "section_inv b"
proof -
  from assms obtain c p where c: "parse_codec_section n mem ok cfg (sections st) = Some (Ret (Some c, p))" "codec st' = Some c"
    by (auto simp: codec_board_parse_all_config_def split: option.splits outcome.splits if_splits)
  from c(1) have "\<exists>m s k l. parse_cfg n mem m s k l empty_section = Some (Ret (0, c))"
    by (auto simp: parse_codec_section_def split: option.splits outcome.splits if_splits) blast+
  then have "section_inv c" using parse_cfg_inv empty_section_inv by blast
  with c(2) that show thesis by blast
qed
definition good_line :: "cfg_line \<Rightarrow> bool" where
  "good_line line \<longleftrightarrow> is_name (fst line) \<and> fst line \<noteq> ''Board'' \<and> list_all (\<lambda>(a, v). is_name a \<and> is_name v) (snd line)"

definition line_words :: "cfg_line \<Rightarrow> cfg_line" where
  "line_words line = (word_of (fst line), map (\<lambda>(a, v). (word_of a, word_of v)) (snd line))"

lemma parse_section_print:
  assumes l: "good_line line" and pre: "list_all (\<lambda>c. \<not> is_word c \<and> c \<noteq> CHR ''#'') pre"
    and n: "int (length pre + length (print_cfg_line line)) \<le> n"
  shows "\<exists>line'. parse_section (\<lambda>_. True) (pre @ print_cfg_line line @ r) n c0 =
      Some (Some line', int (length pre + length (print_cfg_line line)) - 1) \<and> line_words line' = line"
proof -
  obtain ty avs where line: "line = (ty, avs)" by (cases line)
  with l have w: "is_name ty" "ty \<noteq> ''Board''" "list_all (\<lambda>(a, v). is_name a \<and> is_name v) avs"
    by (auto simp: good_line_def)
  let ?tail = "print_attrs avs @ CHR ''}'' # CHR 0x0A # r"
  let ?name = "ty @ '': {'' @ ?tail"
  have print: "print_cfg_line line @ r = ?name" by (simp add: print_cfg_line_def line word_of_name [OF w(1)])
  have len: "length (print_cfg_line line) = length ty + 5 + length (print_attrs avs)"
    by (simp add: print_cfg_line_def line word_of_name [OF w(1)])
  have m: "int (length pre) \<le> n" "0 < n - int (length pre)" using n len by simp_all
  have scan: "scan_word False (pre @ ?name) n = Some (?name, n - int (length pre))"
    using scan_word_skip [OF pre m(1)] scan_word_name [OF w(1) m(2)] by simp
  have "word_of ?name = ty" using word_of_append w(1) by (simp add: is_name_def)
  then have board: "\<not> str_same ?name BOARD_SECTION" using w(2) by (intro not_board) simp
  have "CHR ''{'' \<notin> set (ty @ '': '')" using w(1) by (auto simp: is_name_def list_all_iff)
  from after_char_append [OF this, of ?tail] have brace: "after_char (CHR ''{'') ?name = Some ?tail" by simp
  let ?left = "n - int (length (pre @ ?name) - length ?tail)"
  have left: "int (length (print_attrs avs)) < ?left" using n len by simp
  from scan_attrs_print [OF w(3) left, of 1 "CHR 0x0A # r" "[]"] obtain avs' where
    avs': "scan_attrs (\<lambda>_. True) 1 ?tail ?left False None [] = Some (avs', Some (CHR 0x0A # r))"
    "map (\<lambda>(a, v). (word_of a, word_of v)) avs' = avs" by auto
  have "parse_section (\<lambda>_. True) (pre @ print_cfg_line line @ r) n c0 =
      Some (Some (?name, avs'), int (length (pre @ ?name) - length (CHR 0x0A # r)))"
    unfolding parse_section_def print scan option.case prod.case using board m(2) brace avs'(1) by simp
  moreover have "int (length (pre @ ?name) - length (CHR 0x0A # r)) = int (length pre + length (print_cfg_line line)) - 1"
    using len by simp
  moreover have "line_words (?name, avs') = line"
    using avs'(2) \<open>word_of ?name = ty\<close> by (simp add: line_words_def line)
  ultimately show ?thesis by metis
qed

lemma parse_cfg_print:
  "list_all good_line ls \<Longrightarrow> list_all (\<lambda>c. \<not> is_word c \<and> c \<noteq> CHR ''#'') pre \<Longrightarrow>
   \<exists>r b'. parse_cfg (Suc (length ls)) (\<lambda>_ _. True) k (pre @ concat (map print_cfg_line ls) @ [CHR 0x00])
      (int (length pre + length (concat (map print_cfg_line ls)))) c0 b = Some (Ret (r, b'))"
proof (induction ls arbitrary: pre k c0 b)
  case Nil
  have "scan_word False (pre @ [CHR 0x00]) (int (length pre)) = Some ([CHR 0x00], 0)"
    using scan_word_skip [OF Nil.prems(2), of "int (length pre)" "[CHR 0x00]"] by simp
  then show ?case by (simp add: parse_section_def)
next
  case (Cons line ls)
  let ?rest = "concat (map print_cfg_line ls)"
  from Cons.prems have g: "good_line line" "list_all good_line ls" by auto
  let ?n = "int (length pre + length (concat (map print_cfg_line (line # ls))))"
  have "int (length pre + length (print_cfg_line line)) \<le> ?n" by simp
  from parse_section_print [OF g(1) Cons.prems(2) this, of "?rest @ [CHR 0x00]" c0] obtain line' where
    p: "parse_section (\<lambda>_. True) (pre @ print_cfg_line line @ ?rest @ [CHR 0x00]) ?n c0 =
      Some (Some line', int (length pre + length (print_cfg_line line)) - 1)" by blast
  obtain t where t: "print_cfg_line line = t @ [CHR 0x0A]" by (simp add: print_cfg_line_def)
  obtain r b1 where f: "fill_cfg line' b = (r, b1)" by (cases "fill_cfg line' b")
  show ?case
  proof (cases "r = 0")
    case False
    with p f show ?thesis by simp
  next
    case True
    define N where "N = Suc (length ls)"
    have "list_all (\<lambda>c. \<not> is_word c \<and> c \<noteq> CHR ''#'') [CHR 0x0A]" by simp
    from Cons.IH [OF g(2) this, of "k + 1" "int (length pre + length t)" b1] obtain r2 b2 where
      "parse_cfg N (\<lambda>_ _. True) (k + 1) ([CHR 0x0A] @ ?rest @ [CHR 0x00])
        (int (length [CHR 0x0A] + length ?rest)) (int (length pre + length t)) b1 = Some (Ret (r2, b2))" unfolding N_def by blast
    moreover have "drop (nat (int (length pre + length t))) (pre @ print_cfg_line line @ ?rest @ [CHR 0x00]) =
        [CHR 0x0A] @ ?rest @ [CHR 0x00]" by (simp add: t)
    moreover have "length (line # ls) = N" by (simp add: N_def)
    ultimately show ?thesis using p f True by (simp only: parse_cfg.simps) (simp add: t)
  qed
qed

section \<open>Properties\<close>

text \<open>
  C19. Printing and parsing are inverse: the text the module prints for a line of words, also behind
  blanks and before any other text, is parsed into the same type, attributes and values, and exactly
  the line up to its closing brace is consumed.
\<close>

theorem board_line_roundtrip:
  assumes "is_name ty" "ty \<noteq> ''Board''" "list_all (\<lambda>(a, v). is_name a \<and> is_name v) avs"
    and "list_all (\<lambda>c. \<not> is_word c \<and> c \<noteq> CHR ''#'') pre" "int (length pre + length (print_cfg_line (ty, avs))) \<le> n"
  shows "\<exists>line'. parse_section (\<lambda>_. True) (pre @ print_cfg_line (ty, avs) @ r) n c0 =
      Some (Some line', int (length pre + length (print_cfg_line (ty, avs))) - 1) \<and>
    word_of (fst line') = ty \<and> map (\<lambda>(a, v). (word_of a, word_of v)) (snd line') = avs"
proof -
  have "good_line (ty, avs)" using assms(1-3) by (simp add: good_line_def)
  from parse_section_print [OF this assms(4,5), of r c0] show ?thesis
    by (fastforce simp: line_words_def)
qed

theorem board_line_roundtrip_witness:
  "\<exists>line'. parse_section (\<lambda>_. True) ('' '' @ ''i2c: {sda: 17, scl: -18}'' @ [CHR 0x0A, CHR 0x00]) 27 0 = Some (Some line', 25) \<and>
     word_of (fst line') = ''i2c'' \<and> map (\<lambda>(a, v). (word_of a, word_of v)) (snd line') = [(''sda'', ''17''), (''scl'', ''-18'')]"
proof -
  have p: "print_cfg_line (''i2c'', [(''sda'', ''17''), (''scl'', ''-18'')]) = ''i2c: {sda: 17, scl: -18}'' @ [CHR 0x0A]"
    by code_simp
  have "is_name ''i2c''" "list_all (\<lambda>(a, v). is_name a \<and> is_name v) [(''sda'', ''17''), (''scl'', ''-18'')]"
    "list_all (\<lambda>c. \<not> is_word c \<and> c \<noteq> CHR ''#'') '' ''" by code_simp+
  from board_line_roundtrip [OF this(1) _ this(2,3), of 27 "[CHR 0x00]" 0] show ?thesis unfolding p by simp
qed



text \<open>A text without a closing brace.\<close>

lemma scan_attrs_open:
  "CHR ''}'' \<notin> set s \<Longrightarrow> n \<le> int (length s) \<Longrightarrow> \<exists>avs. scan_attrs mem k s n inw at acc = Some (avs, None)"
proof (induction s arbitrary: n k inw at acc)
  case (Cons c s)
  then show ?case by (cases at) auto
qed simp

text \<open>
  A description whose only line is not closed hangs the device: \<open>parse_section\<close> returns the line but
  leaves \<open>consume\<close> at 0, so that the same line is parsed again for ever, whenever its type is none that
  \<open>fill_cfg\<close> could refuse.
\<close>

theorem unclosed_line_hangs:
  assumes "is_name ty" "ty \<notin> {''Board'', ''i2c'', ''i2s'', ''sdcard'', ''in_out'', ''out'', ''in'', ''lcd'', ''camera''}"
    and "CHR ''}'' \<notin> set body"
  shows "parse_codec_section n (\<lambda>_ _. True) True (ty @ '': {'' @ body @ [CHR 0x00]) p = (if p = Dangling then Some Crash else None)"
proof -
  let ?t = "body @ [CHR 0x00]" and ?s = "ty @ '': {'' @ body @ [CHR 0x00]"
  let ?n = "int (length ?s) - 1"
  have scan: "scan_word False ?s ?n = Some (?s, ?n)" by (rule scan_word_name [OF assms(1)]) simp
  have w: "word_of ?s = ty" using word_of_append assms(1) by (simp add: is_name_def)
  have "CHR ''{'' \<notin> set (ty @ '': '')" using assms(1) by (auto simp: is_name_def list_all_iff)
  from after_char_append [OF this, of ?t] have brace: "after_char (CHR ''{'') ?s = Some ?t" by simp
  have "CHR ''}'' \<notin> set ?t" "?n - int (length ?s - length ?t) \<le> int (length ?t)" using assms(3) by simp_all
  from scan_attrs_open [OF this, of "\<lambda>_. True" 1 False None "[]"] obtain avs where
    a: "scan_attrs (\<lambda>_. True) 1 ?t (?n - int (length ?s - length ?t)) False None [] = Some (avs, None)" by blast
  have "\<not> str_same ?s BOARD_SECTION" using w assms(2) by (intro not_board) simp
  then have parse: "parse_section (\<lambda>_. True) ?s ?n 0 = Some (Some (?s, avs), 0)"
    unfolding parse_section_def scan option.case prod.case using brace a by simp
  have "\<not> str_same ?s k" if "k \<in> {''i2c'', ''i2s'', ''sdcard'', ''in_out'', ''out'', ''in'', ''lcd'', ''camera''}" for k
  proof -
    have "list_all is_word k" using that by (auto simp: is_word_def in_range_def)
    from str_same_word [OF this, of ?s] w that assms(2) show ?thesis by auto
  qed
  then have fill: "fill_cfg (?s, avs) b = (0, b)" for b by (simp add: fill_cfg_def)
  have "parse_cfg n (\<lambda>_ _. True) l ?s ?n 0 b = None" for l b
    by (induction n arbitrary: l b) (simp_all only: parse_cfg.simps parse option.case prod.case fill, simp)
  then show ?thesis by (simp add: parse_codec_section_def)
qed

theorem unclosed_line_hangs_witness:
  "\<forall>n. parse_codec_section n (\<lambda>_ _. True) True (''buttons'' @ '': {'' @ ''vol_up: 5'' @ [CHR 0x00]) No_section = None"
proof -
  have "is_name ''buttons''" by code_simp
  from unclosed_line_hangs [OF this, of "''vol_up: 5''" _ No_section] show ?thesis by simp
qed
text \<open>
  Whatever the text says, a section that was parsed never exceeds its arrays: at most two I2C buses,
  two I2S buses and two codecs, one card, display and camera, and every codec names a bus that was
  described before it, or the default bus 0.
\<close>

theorem parsed_section_bounded:
  assumes "codec_board_parse_all_config n mem ok cfg st = Some (Ret (0, st'))" "codec st = None"
  shows "\<exists>b. codec st' = Some b \<and> section_inv b"
  using section_of_text [OF assms] by metis

theorem parsed_section_bounded_witness:
  "\<exists>st'. codec_board_parse_all_config 2 (\<lambda>_ _. True) True (''i2c: {sda: 1}'' @ [CHR 0x0A, CHR 0x00]) \<lparr>codec = None, sections = No_section\<rparr>
      = Some (Ret (0, st')) \<and> (\<exists>b. codec st' = Some b \<and> section_inv b)"
proof -
  let ?st = "\<lparr>codec = None, sections = No_section\<rparr>"
  obtain st' where e: "codec_board_parse_all_config 2 (\<lambda>_ _. True) True (''i2c: {sda: 1}'' @ [CHR 0x0A, CHR 0x00]) ?st = Some (Ret (0, st'))"
    by (simp add: codec_board_parse_all_config_def parse_codec_section_def parse_section_def fill_cfg_def fill_i2c_cfg_def
        empty_section_def max_nums is_word_def in_range_def BOARD_SECTION_def numeral_2_eq_2)
  with parsed_section_bounded [OF e] show ?thesis by simp
qed

text \<open>
  The pins of a bus: those of a described bus are copied out and a port beyond the buses plus one is
  refused, but the port just behind the last bus is accepted: it gives the zeroed entry as pins, and the
  memory behind the array when both buses are described.
\<close>

theorem bus_pins_off_by_one:
  assumes "section_inv b" "codec st = Some b"
  shows "get_i2c_pin port st =
      (if port < i2c_num b then Ret (0, Some (i2c_pins b ! port))
       else if port > i2c_num b then Ret (-1, None)
       else if i2c_num b = MAX_I2C_NUM then Crash else Ret (0, Some (i2c_pins b ! i2c_num b))) \<and>
    get_i2s_pin port st =
      (if port < i2s_num b then Ret (0, Some (i2s_pins b ! port))
       else if port > i2s_num b then Ret (-1, None)
       else if i2s_num b = MAX_I2S_NUM then Crash else Ret (0, Some (i2s_pins b ! i2s_num b)))"
  using assms by (auto simp: section_inv_def get_i2c_pin_def get_i2s_pin_def)

theorem bus_pins_off_by_one_witness:
  "get_i2c_pin 0 \<lparr>codec = Some empty_section, sections = Section empty_section\<rparr> = Ret (0, Some \<lparr>sda = 0, scl = 0\<rparr>)"
  using bus_pins_off_by_one [OF empty_section_inv, of "\<lparr>codec = Some empty_section, sections = Section empty_section\<rparr>" 0]
  by (simp add: empty_section_def max_nums)

text \<open>
  A board that is not found, or whose text is refused, cannot be replaced: the section is freed while
  its pointer is kept, so that the next call that chooses a board frees it again.
\<close>

theorem failed_board_is_final:
  assumes "set_codec_board_type n mem True cfg (Some name) st = Some (Ret st')" "codec st = None" "codec st' = None"
  shows "set_codec_board_type n2 mem2 ok cfg2 (Some name2) st' = Some Crash \<and>
    codec_board_parse_all_config n2 mem2 ok cfg2 st' = Some Crash \<and> get_sdcard_config st' = (-1, None)"
proof -
  from assms have "sections st' = Dangling"
    by (auto simp: set_codec_board_type_def get_codec_section_def split: option.splits outcome.splits if_splits)
  then show ?thesis
    using assms(3)
    by (simp_all add: set_codec_board_type_def get_codec_section_def codec_board_parse_all_config_def parse_codec_section_def
        get_sdcard_config_def)
qed

theorem failed_board_is_final_witness:
  "codec_board_parse_all_config 5 (\<lambda>_ _. True) True [CHR 0x00] \<lparr>codec = None, sections = Dangling\<rparr> = Some Crash \<and>
   set_codec_board_type 5 (\<lambda>_ _. True) True ''Board: A'' (Some ''B'') \<lparr>codec = None, sections = No_section\<rparr> =
     Some (Ret \<lparr>codec = None, sections = Dangling\<rparr>)"
proof -
  have "set_codec_board_type 5 (\<lambda>_ _. True) True ''Board: A'' (Some ''B'') \<lparr>codec = None, sections = No_section\<rparr> =
      Some (Ret \<lparr>codec = None, sections = Dangling\<rparr>)"
    by (simp add: set_codec_board_type_def get_codec_section_def BOARD_SECTION_def is_word_def in_range_def)
  from failed_board_is_final [OF this, where ?n2.0 = 5 and ?mem2.0 = "\<lambda>_ _. True" and ok = True and ?cfg2.0 = "[CHR 0x00]" and ?name2.0 = "''A''", simplified] this show ?thesis by simp
qed

end
