(* ===== verification/Mem_History.thy ===== *)
theory Mem_History
  imports Esp_Prelude
begin

text \<open>
  The memory history (\<open>components/media_lib_sal/mem_trace/media_lib_mem_his.c\<close>): every allocation and
  release is recorded in a ring of cache slices, which a thread of its own writes to a file. The allocating
  threads take turns, under the lock of the tracer; the writing thread runs beside them. The records
  are decoded as the script \<open>mem_trace.pl\<close> does.
\<close>

section \<open>Records\<close>

text \<open>\<open>malloc_detail_t\<close> and \<open>free_detail_t\<close>, packed; \<open>junk\<close> is the byte nothing is assigned to.\<close>

datatype his_record = His_malloc u32 u32 u8 "u32 list" | His_free u32

definition words_le :: "u32 list \<Rightarrow> u8 list" where
  "words_le ws = concat (map le32 ws)"

fun his_chunks :: "u8 \<Rightarrow> his_record \<Rightarrow> u8 list list" where
  "his_chunks junk (His_malloc addr sz flag stack) =
     [[0x2B, word_of_nat (length stack), flag, junk] @ le32 addr @ le32 sz, words_le stack]"
| "his_chunks junk (His_free addr) = [[0x2D, junk] @ le32 addr]"

definition his_bytes :: "u8 \<Rightarrow> his_record \<Rightarrow> u8 list" where
  "his_bytes junk r = concat (his_chunks junk r)"

definition his_size :: "his_record \<Rightarrow> nat" where
  "his_size r = (case r of His_malloc addr sz flag stack \<Rightarrow> 12 + 4 * length stack | His_free addr \<Rightarrow> 6)"

text \<open>
  The loop of \<open>parse_file\<close>: the records up to the first byte that starts none, and what is left from
  there. \<open>n\<close> bounds the records.
\<close>

fun read_words :: "nat \<Rightarrow> u8 list \<Rightarrow> (u32 list \<times> u8 list) option" where
  "read_words 0 bs = Some ([], bs)"
| "read_words (Suc n) bs =
     (case read_le32 bs 0 of None \<Rightarrow> None
      | Some w \<Rightarrow> (case read_words n (drop 4 bs) of None \<Rightarrow> None | Some (ws, r) \<Rightarrow> Some (w # ws, r)))"

fun parse_file :: "nat \<Rightarrow> u8 list \<Rightarrow> his_record list \<times> u8 list" where
  "parse_file 0 bs = ([], bs)"
| "parse_file (Suc n) bs =
     (case bs of
        [] \<Rightarrow> ([], [])
      | act # r \<Rightarrow>
          if act = 0x2B then
            (case r of
               num # flag # j # r1 \<Rightarrow>
                 (case read_words (2 + unat num) r1 of
                    Some (addr # sz # stack, r2) \<Rightarrow>
                      (case parse_file n r2 of (rs, left) \<Rightarrow> (His_malloc addr sz flag stack # rs, left))
                  | _ \<Rightarrow> ([], bs))
             | _ \<Rightarrow> ([], bs))
          else if act = 0x2D then
            (case r of
               j # r1 \<Rightarrow>
                 (case read_words 1 r1 of
                    Some ([addr], r2) \<Rightarrow> (case parse_file n r2 of (rs, left) \<Rightarrow> (His_free addr # rs, left))
                  | _ \<Rightarrow> ([], bs))
             | _ \<Rightarrow> ([], bs))
          else ([], bs))"

section \<open>State\<close>

text \<open>
  Where the writing thread is: created, between two passes, having found no full slice, holding the number of the slice it writes,
  behind the \<open>write\<close>, or gone.
\<close>

datatype save_pc = Not_started | Idle | Empty | Taken nat | Written | Exited

record save_his =
  save_pc :: save_pc
  his_running :: bool
  his_stopping :: bool
  save_cache :: "u8 list list"
  his_slice :: nat
  cache_filled :: nat
  his_wp :: nat
  his_full :: nat
  his_file :: "u8 list"
  his_pending :: "u8 list list"
  his_released :: bool
  his_closed :: bool

definition SAVE_SLICE_NUM :: nat where "SAVE_SLICE_NUM = 4"
definition MAX_WRITE_RETRY :: nat where "MAX_WRITE_RETRY = 5"

definition MEDIA_LIB_DEFAULT_SAVE_CACHE_SIZE :: nat where
  "MEDIA_LIB_DEFAULT_SAVE_CACHE_SIZE = 64 * 1024"

section \<open>Recording\<close>

definition his_enough :: "nat \<Rightarrow> save_his \<Rightarrow> bool" where
  "his_enough sz h \<longleftrightarrow> his_full h < SAVE_SLICE_NUM \<or> cache_filled h + sz \<le> his_slice h"

text \<open>\<open>env\<close>: what the writing thread does during each sleep.\<close>

fun his_wait_for_enough :: "nat \<Rightarrow> (save_his \<Rightarrow> save_his) list \<Rightarrow> nat \<Rightarrow> save_his \<Rightarrow> bool \<times> save_his" where
  "his_wait_for_enough 0 env sz h = (False, h)"
| "his_wait_for_enough (Suc retry) env sz h =
     (if his_enough sz h then (True, h)
      else case env of [] \<Rightarrow> (False, h) | f # fs \<Rightarrow> his_wait_for_enough retry fs sz (f h))"

text \<open>
  \<open>his_pending\<close> holds what the calls of \<open>his_write\<close> for the current record still have to store, the first
  call first; a call without bytes does nothing. One pass of the loop of the first call:
\<close>

definition fill_slice :: "nat \<Rightarrow> u8 list \<Rightarrow> save_his \<Rightarrow> save_his" where
  "fill_slice fill buf h =
     h\<lparr>save_cache := (save_cache h)[his_wp h := overwrite (save_cache h ! his_wp h) (cache_filled h) (take fill buf)],
       cache_filled := cache_filled h + fill\<rparr>"

definition his_write_pass :: "u8 list \<Rightarrow> save_his \<Rightarrow> u8 list \<times> save_his" where
  "his_write_pass buf h =
     (if his_full h \<ge> SAVE_SLICE_NUM then (buf, h)
      else if cache_filled h < his_slice h then
        (let left = his_slice h - cache_filled h;
             fill = (if left > length buf then length buf else left);
             h1 = fill_slice fill buf h
         in if left > fill then ([], h1)
            else (drop fill buf, h1\<lparr>cache_filled := 0, his_wp := (his_wp h + 1) mod SAVE_SLICE_NUM, his_full := his_full h + 1\<rparr>))
      else (buf, h))"

definition his_write :: "save_his \<Rightarrow> save_his" where
  "his_write h =
     (case his_pending h of
        [] \<Rightarrow> h
      | buf # bufs \<Rightarrow>
          if buf = [] then h\<lparr>his_pending := bufs\<rparr>
          else (case his_write_pass buf h of (rest, h1) \<Rightarrow>
            h1\<lparr>his_pending := (if rest = [] then bufs else rest # bufs)\<rparr>))"

definition media_lib_add_mem_his :: "u8 \<Rightarrow> his_record \<Rightarrow> save_his \<Rightarrow> save_his" where
  "media_lib_add_mem_his junk r h = (if his_enough (his_size r) h then h\<lparr>his_pending := his_chunks junk r\<rparr> else h)"

section \<open>Saving\<close>

text \<open>\<open>None\<close>: the thread runs on after the history was released.\<close>

definition save_thread :: "save_his \<Rightarrow> save_his option" where
  "save_thread h =
     (if save_pc h = Exited then Some h
      else if his_released h then None
      else case save_pc h of
        Not_started \<Rightarrow> Some (h\<lparr>his_running := True, save_pc := Idle\<rparr>)
      | Idle \<Rightarrow>
          Some (if his_full h \<noteq> 0 then h\<lparr>save_pc := Taken ((his_wp h + SAVE_SLICE_NUM - his_full h) mod SAVE_SLICE_NUM)\<rparr>
                else h\<lparr>save_pc := Empty\<rparr>)
      | Empty \<Rightarrow>
          Some (if his_stopping h then
                  h\<lparr>his_file := his_file h @ take (cache_filled h) (save_cache h ! his_wp h), his_stopping := False, his_running := False,
                    save_pc := Exited\<rparr>
                else h\<lparr>save_pc := Idle\<rparr>)
      | Taken head \<Rightarrow> Some (h\<lparr>his_file := his_file h @ take (his_slice h) (save_cache h ! head), save_pc := Written\<rparr>)
      | Written \<Rightarrow> Some (h\<lparr>his_full := his_full h - 1, save_pc := Idle\<rparr>)
      | Exited \<Rightarrow> Some h)"

section \<open>Starting and his_stopping\<close>

text \<open>
  \<open>made\<close>: which of the mutex, the file, the cache and the thread could be had. The result is the code
  and, on success, the history; what was obtained is given back otherwise. \<open>mem\<close> is the fresh cache.
\<close>

datatype his_object = His_struct | His_mutex | His_file | His_cache | His_thread

definition his_start_code :: "(his_object \<Rightarrow> bool) \<Rightarrow> int" where
  "his_start_code made =
     (if \<not> made His_struct then 0x101 else if \<not> made His_mutex \<or> \<not> made His_file then -1
      else if \<not> made His_cache then 0x101 else if \<not> made His_thread then -1 else 0)"

definition new_his :: "u8 list \<Rightarrow> nat \<Rightarrow> save_his" where
  "new_his mem size_cfg =
     (let sz = (if size_cfg \<noteq> 0 then size_cfg else MEDIA_LIB_DEFAULT_SAVE_CACHE_SIZE);
          each = sz div SAVE_SLICE_NUM
      in \<lparr>save_pc = Not_started, his_running = False, his_stopping = False,
          save_cache = map (\<lambda>i. take each (drop (i * each) mem)) [0..<SAVE_SLICE_NUM], his_slice = each,
          cache_filled = 0, his_wp = 0, his_full = 0, his_file = [], his_pending = [], his_released = False, his_closed = False\<rparr>)"

definition media_lib_start_mem_his :: "(his_object \<Rightarrow> bool) \<Rightarrow> u8 list \<Rightarrow> nat \<Rightarrow> save_his option \<Rightarrow> int \<times> save_his option" where
  "media_lib_start_mem_his made mem size_cfg his =
     (case his of
        Some h \<Rightarrow> (0, Some h)
      | None \<Rightarrow> if his_start_code made = 0 then (0, Some (new_his mem size_cfg)) else (his_start_code made, None))"

text \<open>
  \<open>sync_mem_his\<close> asks the thread to stop; \<open>media_lib_stop_mem_his\<close> goes on when \<open>his_running\<close> is false and
  releases the lock, the file and the cache.
\<close>

definition sync_mem_his :: "save_his \<Rightarrow> save_his" where
  "sync_mem_his h = h\<lparr>his_stopping := True\<rparr>"

definition media_lib_stop_mem_his :: "save_his \<Rightarrow> save_his" where
  "media_lib_stop_mem_his h = (if his_running h then h else h\<lparr>his_released := True\<rparr>)"

section \<open>All threads\<close>

text \<open>
  The steps: a record is begun when no other is being written, the writer and the writing thread make
  one pass, and the tracer stops the history, which it does outside any record.
\<close>

datatype his_event = Record u8 his_record | Write_pass | Save_pass | Stop | Join

fun his_step :: "save_his \<Rightarrow> his_event \<Rightarrow> save_his option" where
  "his_step h (Record junk r) = Some (if his_pending h = [] \<and> \<not> his_closed h then media_lib_add_mem_his junk r h else h)"
| "his_step h Write_pass = Some (his_write h)"
| "his_step h Save_pass = save_thread h"
| "his_step h Stop = Some (if his_pending h = [] \<and> \<not> his_closed h then (sync_mem_his h)\<lparr>his_closed := True\<rparr> else h)"
| "his_step h Join = Some (if his_closed h then media_lib_stop_mem_his h else h)"

section \<open>The bytes on their way\<close>

text \<open>The full slices, oldest first; the oldest is in the file already when the thread is behind its \<open>write\<close>.\<close>

definition slice_no :: "save_his \<Rightarrow> nat \<Rightarrow> nat" where
  "slice_no h i = (his_wp h + SAVE_SLICE_NUM - his_full h + i) mod SAVE_SLICE_NUM"

definition full_slices :: "save_his \<Rightarrow> u8 list list" where
  "full_slices h = map (\<lambda>i. save_cache h ! slice_no h i) [(if save_pc h = Written then 1 else 0)..<his_full h]"

definition his_content :: "save_his \<Rightarrow> u8 list" where
  "his_content h = his_file h @ concat (full_slices h) @
     (if save_pc h = Exited then [] else take (cache_filled h) (save_cache h ! his_wp h))"

definition his_out :: "save_his \<Rightarrow> u8 list" where
  "his_out h = his_content h @ concat (his_pending h)"

definition his_inv :: "save_his \<Rightarrow> bool" where
  "his_inv h \<longleftrightarrow>
     (length (save_cache h) = SAVE_SLICE_NUM \<and> list_all (\<lambda>s. length s = his_slice h) (save_cache h)) \<and>
     (cache_filled h < his_slice h \<and> his_wp h < SAVE_SLICE_NUM \<and> his_full h \<le> SAVE_SLICE_NUM) \<and>
     (his_full h = SAVE_SLICE_NUM \<longrightarrow> cache_filled h = 0) \<and>
     (his_running h \<longleftrightarrow> save_pc h \<notin> {Not_started, Exited}) \<and>
     (his_closed h \<longrightarrow> his_pending h = []) \<and> (his_stopping h \<longrightarrow> his_closed h) \<and>
     (his_released h \<longrightarrow> save_pc h \<in> {Not_started, Exited}) \<and>
     (case save_pc h of
        Taken i \<Rightarrow> his_full h \<noteq> 0 \<and> i = slice_no h 0
      | Written \<Rightarrow> his_full h \<noteq> 0
      | Exited \<Rightarrow> his_closed h
      | _ \<Rightarrow> True)"

text \<open>The thread is not about to end, or has not ended, with a full slice unsaved.\<close>

definition his_calm :: "save_his \<Rightarrow> bool" where
  "his_calm h \<longleftrightarrow> (his_closed h \<and> save_pc h \<in> {Empty, Exited} \<longrightarrow> his_full h = 0)"

lemma slice_no_free: "his_wp h < SAVE_SLICE_NUM \<Longrightarrow> i < his_full h \<Longrightarrow> his_full h < SAVE_SLICE_NUM \<Longrightarrow> his_wp h \<noteq> slice_no h i"
proof -
  assume a: "his_wp h < SAVE_SLICE_NUM" "i < his_full h" "his_full h < SAVE_SLICE_NUM"
  define k where "k = SAVE_SLICE_NUM - his_full h + i"
  have "slice_no h i = (his_wp h + k) mod SAVE_SLICE_NUM" using a(3) by (simp add: slice_no_def k_def add.assoc)
  moreover have "k = 1 \<or> k = 2 \<or> k = 3" using a by (auto simp: SAVE_SLICE_NUM_def k_def)
  moreover have "his_wp h = 0 \<or> his_wp h = 1 \<or> his_wp h = 2 \<or> his_wp h = 3" using a(1) by (auto simp: SAVE_SLICE_NUM_def)
  ultimately show ?thesis by (elim disjE) (simp_all add: SAVE_SLICE_NUM_def)
qed

lemma slice_no_less: "slice_no h i < SAVE_SLICE_NUM"
  by (simp add: slice_no_def SAVE_SLICE_NUM_def)

lemma full_slices_cong:
  assumes "his_wp h' = his_wp h" "his_full h' = his_full h" "save_pc h' = save_pc h"
    and "\<And>i. i < his_full h \<Longrightarrow> save_cache h' ! slice_no h i = save_cache h ! slice_no h i"
  shows "full_slices h' = full_slices h"
  using assms by (auto simp: full_slices_def slice_no_def)

lemma fill_slice_content:
  assumes inv: "his_inv h" and room: "his_full h < SAVE_SLICE_NUM" "cache_filled h + fill \<le> his_slice h" "fill \<le> length buf"
    and pc: "save_pc h \<noteq> Exited"
  shows "his_content (fill_slice fill buf h) = his_content h @ take fill buf"
    and "length (save_cache (fill_slice fill buf h) ! his_wp h) = his_slice h"
    and "list_all (\<lambda>s. length s = his_slice h) (save_cache (fill_slice fill buf h))"
proof -
  let ?h = "fill_slice fill buf h" and ?s = "save_cache h ! his_wp h"
  from inv have w: "his_wp h < length (save_cache h)" "length ?s = his_slice h" "list_all (\<lambda>s. length s = his_slice h) (save_cache h)"
    by (auto simp: his_inv_def list_all_length)
  have "his_wp h < SAVE_SLICE_NUM" using inv by (simp add: his_inv_def)
  note free = slice_no_free [OF this _ room(1)]
  have "full_slices ?h = full_slices h"
    by (rule full_slices_cong) (simp_all add: fill_slice_def free)
  moreover have "save_cache ?h ! his_wp h = overwrite ?s (cache_filled h) (take fill buf)"
    using w(1) by (simp add: fill_slice_def)
  moreover have "take (cache_filled h + fill) (overwrite ?s (cache_filled h) (take fill buf)) = take (cache_filled h) ?s @ take fill buf"
    using room w(2) by (simp add: overwrite_def)
  ultimately show "his_content ?h = his_content h @ take fill buf"
    using pc by (simp add: his_content_def fill_slice_def)
  show "length (save_cache ?h ! his_wp h) = his_slice h"
    using \<open>save_cache ?h ! his_wp h = _\<close> room w(2) by (simp add: overwrite_def)
  show "list_all (\<lambda>s. length s = his_slice h) (save_cache ?h)"
    using w room by (auto simp: fill_slice_def list_all_iff overwrite_def dest!: set_update_subset_insert [THEN subsetD])
qed

text \<open>A slice that is full joins the full slices.\<close>

lemma slice_full_content:
  assumes "his_wp h < SAVE_SLICE_NUM" "his_full h < SAVE_SLICE_NUM" "length (save_cache h ! his_wp h) = cache_filled h"
    "save_pc h \<noteq> Exited" "save_pc h = Written \<Longrightarrow> his_full h \<noteq> 0"
  shows "his_content (h\<lparr>cache_filled := 0, his_wp := (his_wp h + 1) mod SAVE_SLICE_NUM, his_full := his_full h + 1\<rparr>) = his_content h"
    (is "his_content ?h = _")
proof -
  have no: "slice_no ?h i = slice_no h i" for i
  proof (cases "his_wp h = 3")
    case True
    define m where "m = 3 - his_full h + i"
    have "slice_no h i = (m + SAVE_SLICE_NUM) mod SAVE_SLICE_NUM"
      using assms(2) True by (simp add: slice_no_def m_def SAVE_SLICE_NUM_def)
    moreover have "slice_no ?h i = m mod SAVE_SLICE_NUM"
      using True by (simp add: slice_no_def m_def SAVE_SLICE_NUM_def)
    ultimately show ?thesis by simp
  next
    case False
    with assms(1) have "(his_wp h + 1) mod SAVE_SLICE_NUM = his_wp h + 1" by (simp add: SAVE_SLICE_NUM_def)
    moreover have "his_wp h + 1 + SAVE_SLICE_NUM - (his_full h + 1) + i = his_wp h + SAVE_SLICE_NUM - his_full h + i" by simp
    ultimately show ?thesis by (simp add: slice_no_def)
  qed
  have last: "slice_no h (his_full h) = his_wp h"
    using assms(1,2) by (simp add: slice_no_def SAVE_SLICE_NUM_def)
  define g where "g = ?h"
  have g: "slice_no g i = slice_no h i" "save_cache g = save_cache h" "his_full g = Suc (his_full h)" "save_pc g = save_pc h"
    "cache_filled g = 0" "his_file g = his_file h" for i
    using no by (simp_all add: g_def)
  have "full_slices g = full_slices h @ [save_cache h ! his_wp h]"
    using assms(5) by (auto simp: full_slices_def g last)
  then have "his_content g = his_content h" using assms(3,4) by (simp add: his_content_def g)
  then show ?thesis unfolding g_def .
qed
section \<open>Every step keeps the bytes\<close>

lemma his_write_pass_out:
  assumes inv: "his_inv h" and pc: "save_pc h \<noteq> Exited" and pass: "his_write_pass buf h = (rest, h1)"
  shows "his_inv h1 \<and> his_content h1 @ rest = his_content h @ buf"
proof -
  let ?left = "his_slice h - cache_filled h"
  consider (full) "his_full h \<ge> SAVE_SLICE_NUM"
    | (part) "his_full h < SAVE_SLICE_NUM" "length buf < ?left"
    | (fill) "his_full h < SAVE_SLICE_NUM" "?left \<le> length buf" by linarith
  then show ?thesis
  proof cases
    case full
    then show ?thesis using pass inv by (simp add: his_write_pass_def)
  next
    case part
    have lt: "cache_filled h < his_slice h" using inv by (simp add: his_inv_def)
    with part have r: "rest = []" "h1 = fill_slice (length buf) buf h"
      using pass by (simp_all add: his_write_pass_def Let_def)
    have "cache_filled h + length buf \<le> his_slice h" using part(2) by simp
    note c = fill_slice_content [OF inv part(1) this order_refl pc]
    have "his_inv h1" using inv c(3) part pc
      by (auto simp: his_inv_def r(2) fill_slice_def slice_no_def split: save_pc.splits)
    then show ?thesis using c(1) by (simp add: r)
  next
    case fill
    have lt: "cache_filled h < his_slice h" using inv by (simp add: his_inv_def)
    let ?f = "fill_slice ?left buf h"
    from fill lt have r: "rest = drop ?left buf"
      "h1 = ?f\<lparr>cache_filled := 0, his_wp := (his_wp h + 1) mod SAVE_SLICE_NUM, his_full := his_full h + 1\<rparr>"
      using pass by (auto simp: his_write_pass_def Let_def split: if_splits)
    have "cache_filled h + ?left \<le> his_slice h" using lt by simp
    note c = fill_slice_content [OF inv fill(1) this fill(2) pc]
    have f: "his_wp ?f = his_wp h" "his_full ?f = his_full h" "save_pc ?f = save_pc h" "cache_filled ?f = his_slice h"
      using lt by (simp_all add: fill_slice_def)
    have "his_content h1 = his_content ?f"
      using slice_full_content [of ?f] inv fill(1) c(2) pc f by (simp add: r(2) his_inv_def split: save_pc.splits)
    moreover have "slice_no h1 0 = slice_no h 0" if "his_full h \<noteq> 0"
    proof (cases "his_wp h = 3")
      case True
      with fill(1) that show ?thesis
        by (simp add: r(2) slice_no_def SAVE_SLICE_NUM_def fill_slice_def mod_if)
    next
      case False
      with inv have "(his_wp h + 1) mod SAVE_SLICE_NUM = his_wp h + 1" by (simp add: his_inv_def SAVE_SLICE_NUM_def)
      then show ?thesis by (simp add: r(2) slice_no_def fill_slice_def)
    qed
    then have "his_inv h1" using inv c(3) fill(1) lt pc
      by (auto simp: his_inv_def r(2) fill_slice_def SAVE_SLICE_NUM_def split: save_pc.splits)
    ultimately show ?thesis using c(1) by (simp add: r(1))
  qed
qed

lemma his_write_out:
  assumes inv: "his_inv h"
  shows "his_inv (his_write h) \<and> his_out (his_write h) = his_out h \<and> save_pc (his_write h) = save_pc h"
proof (cases "his_pending h")
  case Nil
  then show ?thesis using inv by (simp add: his_write_def)
next
  case (Cons buf bufs)
  with inv have pc: "save_pc h \<noteq> Exited" "\<not> his_closed h" by (auto simp: his_inv_def)
  obtain rest h1 where p: "his_write_pass buf h = (rest, h1)" by (cases "his_write_pass buf h")
  have same: "his_pending h1 = his_pending h" "his_closed h1 = his_closed h" "save_pc h1 = save_pc h"
    using p by (auto simp: his_write_pass_def fill_slice_def Let_def split: if_splits)
  have inv': "his_inv (h'\<lparr>his_pending := ps\<rparr>)" if "his_inv h'" "\<not> his_closed h'" for h' ps
    using that by (simp add: his_inv_def slice_no_def split: save_pc.splits)
  have content': "his_content (h'\<lparr>his_pending := ps\<rparr>) = his_content h'" for h' ps
    by (simp add: his_content_def full_slices_def slice_no_def)
  from his_write_pass_out [OF inv pc(1) p] show ?thesis
    using Cons same pc(2) inv by (auto simp: his_write_def p inv' content' his_out_def)
qed

lemma save_thread_out:
  assumes inv: "his_inv h" and alive: "save_pc h = Not_started \<Longrightarrow> \<not> his_released h"
  shows "\<exists>h'. save_thread h = Some h' \<and> his_inv h' \<and> (his_calm h \<longrightarrow> his_out h' = his_out h) \<and> save_pc h' \<noteq> Not_started"
proof (cases "save_pc h")
  case Not_started
  with inv alive show ?thesis
    by (auto simp: save_thread_def his_inv_def his_out_def his_content_def full_slices_def slice_no_def)
next
  case Idle
  show ?thesis
  proof (cases "his_full h = 0")
    case True
    with Idle inv show ?thesis
      by (auto simp: save_thread_def his_inv_def his_out_def his_content_def full_slices_def slice_no_def)
  next
    case False
    with Idle inv show ?thesis
      by (auto simp: save_thread_def his_inv_def his_out_def his_content_def full_slices_def slice_no_def)
  qed
next
  case Empty
  with inv show ?thesis
    by (auto simp: save_thread_def his_calm_def his_inv_def his_out_def his_content_def full_slices_def slice_no_def)
next
  case (Taken i)
  with inv have i: "i = slice_no h 0" "his_full h \<noteq> 0" "\<not> his_released h" by (auto simp: his_inv_def)
  from i(2) obtain m where m: "his_full h = Suc m" by (cases "his_full h") auto
  have "length (save_cache h ! i) = his_slice h"
    using inv slice_no_less [of h 0] i(1) by (auto simp: his_inv_def list_all_length)
  moreover have "[0..<his_full h] = 0 # [1..<his_full h]" using i(2) by (simp add: upt_conv_Cons)
  ultimately show ?thesis using Taken inv i
    by (auto simp: save_thread_def his_inv_def his_out_def his_content_def full_slices_def slice_no_def)
next
  case Written
  with inv have i: "his_full h \<noteq> 0" "\<not> his_released h" "his_full h \<le> SAVE_SLICE_NUM" by (auto simp: his_inv_def)
  let ?h = "h\<lparr>his_full := his_full h - 1, save_pc := Idle\<rparr>"
  have "slice_no ?h i = slice_no h (Suc i)" for i
  proof -
    have "his_wp h + SAVE_SLICE_NUM - (his_full h - 1) + i = his_wp h + SAVE_SLICE_NUM - his_full h + Suc i"
      using i(1,3) by (cases "his_full h") (simp_all add: SAVE_SLICE_NUM_def)
    then show ?thesis by (simp add: slice_no_def)
  qed
  then have "full_slices ?h = full_slices h"
    using Written i(1) by (auto simp: full_slices_def map_Suc_upt [symmetric] simp del: map_Suc_upt intro!: nth_equalityI)
  then show ?thesis using Written inv i
    by (auto simp: save_thread_def his_inv_def his_out_def his_content_def)
qed (use inv in \<open>auto simp: save_thread_def\<close>)
text \<open>The bytes of the records that were begun: those that found room when they were offered.\<close>

definition begun :: "save_his \<Rightarrow> his_event \<Rightarrow> (u8 \<times> his_record) list" where
  "begun h e =
     (case e of
        Record junk r \<Rightarrow> if his_pending h = [] \<and> \<not> his_closed h \<and> his_enough (his_size r) h then [(junk, r)] else []
      | _ \<Rightarrow> [])"

fun recorded :: "save_his \<Rightarrow> his_event list \<Rightarrow> (u8 \<times> his_record) list" where
  "recorded h [] = []"
| "recorded h (e # es) = begun h e @ (case his_step h e of None \<Rightarrow> [] | Some h1 \<Rightarrow> recorded h1 es)"

definition record_bytes :: "(u8 \<times> his_record) list \<Rightarrow> u8 list" where
  "record_bytes rs = concat (map (\<lambda>(junk, r). his_bytes junk r) rs)"

text \<open>The only step that fails is the first pass of the thread after the history was released.\<close>

lemma his_step_out:
  assumes inv: "his_inv h" and alive: "\<not> (e = Save_pass \<and> save_pc h = Not_started \<and> his_released h)"
  shows "\<exists>h'. his_step h e = Some h' \<and> his_inv h' \<and> (his_calm h \<longrightarrow> his_out h' = his_out h @ record_bytes (begun h e)) \<and>
    (save_pc h \<noteq> Not_started \<longrightarrow> save_pc h' \<noteq> Not_started)"
proof -
  have flags: "his_out (h\<lparr>his_stopping := a, his_closed := b\<rparr>) = his_out h" "his_out (h\<lparr>his_released := c\<rparr>) = his_out h" for a b c
    by (simp_all add: his_out_def his_content_def full_slices_def slice_no_def)
  have content: "his_content (h\<lparr>his_pending := ps\<rparr>) = his_content h" for ps
    by (simp add: his_content_def full_slices_def slice_no_def)
  have pend: "his_inv (h\<lparr>his_pending := ps\<rparr>)" if "\<not> his_closed h" for ps
    using inv that by (simp add: his_inv_def slice_no_def split: save_pc.splits)
  show ?thesis
  proof (cases e)
    case (Record junk r)
    then show ?thesis using inv pend content
      by (auto simp: begun_def record_bytes_def media_lib_add_mem_his_def his_out_def his_bytes_def)
  next
    case Write_pass
    then show ?thesis using his_write_out [OF inv] by (simp add: begun_def record_bytes_def)
  next
    case Save_pass
    then show ?thesis using save_thread_out [OF inv] alive by (auto simp: begun_def record_bytes_def)
  next
    case Stop
    have "his_inv (h\<lparr>his_stopping := True, his_closed := True\<rparr>)" if "his_pending h = []"
      using inv that by (simp add: his_inv_def slice_no_def split: save_pc.splits)
    then show ?thesis using Stop inv flags(1) [of True True]
      by (auto simp: begun_def record_bytes_def sync_mem_his_def)
  next
    case Join
    have "his_inv (h\<lparr>his_released := True\<rparr>)" if "\<not> his_running h"
      using inv that by (simp add: his_inv_def slice_no_def split: save_pc.splits)
    then show ?thesis using Join inv flags(2) [of True]
      by (auto simp: begun_def record_bytes_def media_lib_stop_mem_his_def)
  qed
qed

interpretation his: event_machine his_step "\<lambda>h. his_inv h \<and> save_pc h \<noteq> Not_started" "\<lambda>_. True"
proof unfold_locales
  show "his_inv h' \<and> save_pc h' \<noteq> Not_started" if "his_inv h \<and> save_pc h \<noteq> Not_started" "his_step h e = Some h'" for h e h'
    using his_step_out [of h e] that by auto
  show "\<exists>h'. his_step h e = Some h'" if "his_inv h \<and> save_pc h \<noteq> Not_started" "True" for h e
    using his_step_out [of h e] that by auto
qed

lemma run_out:
  "his_inv h \<Longrightarrow> run_events his_step h es = Some h' \<Longrightarrow> Stop \<notin> set es \<Longrightarrow> \<not> his_closed h \<Longrightarrow>
   his_inv h' \<and> \<not> his_closed h' \<and> his_out h' = his_out h @ record_bytes (recorded h es)"
proof (induction es arbitrary: h)
  case Nil
  then show ?case by (simp add: record_bytes_def)
next
  case (Cons e es)
  from Cons.prems(2) obtain h1 where h1: "his_step h e = Some h1" "run_events his_step h1 es = Some h'"
    by (auto split: Option.bind_splits)
  then have "\<not> (e = Save_pass \<and> save_pc h = Not_started \<and> his_released h)" by (auto simp: save_thread_def)
  from his_step_out [OF Cons.prems(1) this] h1(1) Cons.prems(4)
  have "his_inv h1" "his_out h1 = his_out h @ record_bytes (begun h e)" by (auto simp: his_calm_def)
  moreover have "\<not> his_closed h1"
    using h1(1) Cons.prems(3,4)
    by (cases e) (auto simp: media_lib_add_mem_his_def his_write_def his_write_pass_def fill_slice_def Let_def save_thread_def
      split: list.splits if_splits prod.splits save_pc.splits)
  ultimately show ?case using Cons.IH [OF _ h1(2)] h1(1) Cons.prems(3) by (simp add: record_bytes_def)
qed

lemma closed_step:
  assumes "his_inv h" "his_closed h" "his_calm h" "his_step h e = Some h1"
  shows "his_closed h1 \<and> his_calm h1 \<and> begun h e = []"
proof -
  have "his_pending h = []" using assms(1,2) by (simp add: his_inv_def)
  then show ?thesis using assms(2-4)
    by (cases e) (auto simp: begun_def his_calm_def his_write_def save_thread_def media_lib_stop_mem_his_def split: if_splits save_pc.splits)
qed

lemma run_closed:
  "his_inv h \<Longrightarrow> run_events his_step h es = Some h' \<Longrightarrow> his_closed h \<Longrightarrow> his_calm h \<Longrightarrow>
   his_inv h' \<and> his_closed h' \<and> his_calm h' \<and> his_out h' = his_out h"
proof (induction es arbitrary: h)
  case (Cons e es)
  from Cons.prems(2) obtain h1 where h1: "his_step h e = Some h1" "run_events his_step h1 es = Some h'"
    by (auto split: Option.bind_splits)
  then have "\<not> (e = Save_pass \<and> save_pc h = Not_started \<and> his_released h)" by (auto simp: save_thread_def)
  from his_step_out [OF Cons.prems(1) this] h1(1) closed_step [OF Cons.prems(1,3,4) h1(1)] Cons.prems(4)
  have "his_inv h1" "his_out h1 = his_out h" "his_closed h1" "his_calm h1" by (auto simp: record_bytes_def)
  with Cons.IH [OF _ h1(2)] show ?case by simp
qed simp

lemma exited_content: "his_inv h \<Longrightarrow> save_pc h = Exited \<Longrightarrow> his_full h = 0 \<Longrightarrow> his_out h = his_file h"
  by (simp add: his_out_def his_content_def full_slices_def his_inv_def)

section \<open>The file read back\<close>

lemma words_le_simps [simp]: "words_le [] = []" "words_le (w # ws) = le32 w @ words_le ws"
  by (simp_all add: words_le_def)

lemma read_words_le: "length ws = n \<Longrightarrow> read_words n (words_le ws @ r) = Some (ws, r)"
  by (induction ws arbitrary: n) (auto simp: read_le32_le32)

definition well_sized :: "his_record \<Rightarrow> bool" where
  "well_sized r = (case r of His_malloc addr sz flag stack \<Rightarrow> length stack < 256 | His_free addr \<Rightarrow> True)"

lemma parse_record:
  assumes "well_sized r"
  shows "parse_file (Suc n) (his_bytes junk r @ bs) = (case parse_file n bs of (rs, left) \<Rightarrow> (r # rs, left))"
proof (cases r)
  case (His_malloc addr sz flag stack)
  then have "unat (word_of_nat (length stack) :: u8) = length stack"
    using assms by (simp add: well_sized_def unat_of_nat)
  moreover have "read_words (2 + length stack) (words_le (addr # sz # stack) @ bs) = Some (addr # sz # stack, bs)"
    by (rule read_words_le) simp
  ultimately show ?thesis using His_malloc by (simp add: his_bytes_def)
next
  case (His_free addr)
  moreover have "read_words 1 (words_le [addr] @ bs) = Some ([addr], bs)" by (rule read_words_le) simp
  ultimately show ?thesis by (simp add: his_bytes_def)
qed

lemma parse_records:
  "list_all (\<lambda>(junk, r). well_sized r) rs \<Longrightarrow> length rs < n \<Longrightarrow> parse_file n (record_bytes rs) = (map snd rs, [])"
proof (induction rs arbitrary: n)
  case Nil
  then show ?case by (cases n) (simp_all add: record_bytes_def)
next
  case (Cons p rs)
  obtain junk r where p: "p = (junk, r)" by (cases p)
  obtain m where m: "n = Suc m" using Cons.prems(2) by (cases n) auto
  have "record_bytes (p # rs) = his_bytes junk r @ record_bytes rs" by (simp add: record_bytes_def p)
  then show ?case using Cons parse_record [of r m junk "record_bytes rs"] by (simp add: p m)
qed
section \<open>Properties\<close>

lemma new_his_inv:
  assumes "size_cfg = 0 \<or> SAVE_SLICE_NUM \<le> size_cfg"
    and "(if size_cfg = 0 then MEDIA_LIB_DEFAULT_SAVE_CACHE_SIZE else size_cfg) \<le> length mem"
  shows "his_inv (new_his mem size_cfg)" "his_out (new_his mem size_cfg) = []"
proof -
  let ?sz = "if size_cfg = 0 then MEDIA_LIB_DEFAULT_SAVE_CACHE_SIZE else size_cfg"
  define each where "each = ?sz div SAVE_SLICE_NUM"
  have pos: "0 < each" using assms(1) by (auto simp: each_def SAVE_SLICE_NUM_def MEDIA_LIB_DEFAULT_SAVE_CACHE_SIZE_def)
  have "each * SAVE_SLICE_NUM \<le> ?sz" by (simp only: each_def div_times_less_eq_dividend)
  then have fit: "Suc i * each \<le> length mem" if "i < SAVE_SLICE_NUM" for i
  proof -
    have "Suc i * each \<le> SAVE_SLICE_NUM * each" using that by (intro mult_le_mono1) simp
    also have "\<dots> \<le> ?sz" using \<open>each * SAVE_SLICE_NUM \<le> ?sz\<close> by (simp only: mult.commute)
    finally show ?thesis using assms(2) by linarith
  qed
  have len: "length (take each (drop (i * each) mem)) = each" if "i < SAVE_SLICE_NUM" for i
    using fit [OF that] by simp
  have h: "new_his mem size_cfg = \<lparr>save_pc = Not_started, his_running = False, his_stopping = False,
      save_cache = map (\<lambda>i. take each (drop (i * each) mem)) [0..<SAVE_SLICE_NUM], his_slice = each,
      cache_filled = 0, his_wp = 0, his_full = 0, his_file = [], his_pending = [], his_released = False, his_closed = False\<rparr>"
    by (simp add: new_his_def Let_def each_def)
  show "his_inv (new_his mem size_cfg)"
    using pos len by (auto simp: h his_inv_def list_all_iff SAVE_SLICE_NUM_def simp del: length_take)
  show "his_out (new_his mem size_cfg) = []" by (simp add: h his_out_def his_content_def full_slices_def)
qed



text \<open>
  The thread looks for full slices and then for the request to stop. Slices that are filled in between,
  by whoever records just before the stop, are never written.
\<close>

theorem history_late_slices_lost:
  "\<exists>h. run_events his_step (new_his (replicate 8 0) 8)
      [Save_pass, Save_pass, Record 7 (His_free 5), Write_pass, Write_pass, Write_pass, Stop, Save_pass, Join] = Some h \<and>
     save_pc h = Exited \<and> his_released h \<and> his_file h = []"
proof -
  let ?r = "run_events his_step (new_his (replicate 8 0) 8)
      [Save_pass, Save_pass, Record 7 (His_free 5), Write_pass, Write_pass, Write_pass, Stop, Save_pass, Join]"
  have "case ?r of None \<Rightarrow> False | Some h \<Rightarrow> save_pc h = Exited \<and> his_released h \<and> his_file h = []" by code_simp
  then show ?thesis by (cases ?r) simp_all
qed

text \<open>
  Once the writing thread has made its first pass, no order of recording, writing, saving and
  stopping touches released memory. But stopping waits only for a thread that is running: a
  thread that was created and has not run yet is left behind and uses the history after its release.
\<close>

theorem history_stop_race:
  "(his_inv h \<and> save_pc h \<noteq> Not_started \<longrightarrow> (\<exists>h'. run_events his_step h es = Some h' \<and> his_inv h')) \<and>
   run_events his_step (new_his mem size_cfg) [Stop, Join, Save_pass] = None"
proof -
  have "run_events his_step (new_his mem size_cfg) [Stop, Join, Save_pass] = None"
    by (simp add: new_his_def Let_def sync_mem_his_def media_lib_stop_mem_his_def save_thread_def)
  moreover have "\<exists>h'. run_events his_step h es = Some h' \<and> his_inv h'" if "his_inv h \<and> save_pc h \<noteq> Not_started"
    using his.run_total [OF that, of es] by (auto simp: list_all_iff)
  ultimately show ?thesis by blast
qed

theorem history_stop_race_witness:
  "\<exists>h'. run_events his_step ((new_his (replicate 8 0) 8)\<lparr>save_pc := Idle, his_running := True\<rparr>) [Stop, Join, Save_pass, Join] = Some h'"
proof -
  have "his_inv (new_his (replicate 8 0) 8)" by (rule new_his_inv) (simp_all add: SAVE_SLICE_NUM_def)
  then have "his_inv ((new_his (replicate 8 0) 8)\<lparr>save_pc := Idle, his_running := True\<rparr>)"
    by (simp add: his_inv_def new_his_def Let_def slice_no_def)
  then show ?thesis
    using history_stop_race [of "(new_his (replicate 8 0) 8)\<lparr>save_pc := Idle, his_running := True\<rparr>" "[Stop, Join, Save_pass, Join]" "[]" 8]
    by auto
qed

text \<open>Slices without room.\<close>

lemma empty_slices_stuck:
  assumes "his_slice h = 0" "cache_filled h = 0" "his_full h = 0" "his_pending h = buf # bufs" "buf \<noteq> []" "save_pc h \<in> {Not_started, Idle, Empty}"
    "\<not> his_stopping h" "\<not> his_closed h" "\<not> his_released h"
  shows "\<exists>h'. run_events his_step h es = Some h' \<and> his_pending h' = buf # bufs"
  using assms
proof (induction es arbitrary: h)
  case (Cons e es)
  have "\<exists>h1. his_step h e = Some h1 \<and> his_slice h1 = 0 \<and> cache_filled h1 = 0 \<and> his_full h1 = 0 \<and> his_pending h1 = buf # bufs \<and>
      save_pc h1 \<in> {Not_started, Idle, Empty} \<and> \<not> his_stopping h1 \<and> \<not> his_closed h1 \<and> \<not> his_released h1"
    by (cases e) (use Cons.prems in \<open>auto simp: his_write_def his_write_pass_def save_thread_def\<close>)
  then obtain h1 where h1: "his_step h e = Some h1" "his_slice h1 = 0" "cache_filled h1 = 0" "his_full h1 = 0" "his_pending h1 = buf # bufs"
    "save_pc h1 \<in> {Not_started, Idle, Empty}" "\<not> his_stopping h1" "\<not> his_closed h1" "\<not> his_released h1" by blast
  from Cons.IH [OF h1(2-5) Cons.prems(5) h1(6-)] h1(1) show ?case by simp
qed simp

text \<open>
  A cache size below the number of slices gives slices without room: the first record is accepted
  and its writer spins for ever, holding the lock of the tracer and with it every allocation.
\<close>

theorem history_small_cache_hangs:
  assumes "0 < size_cfg" "size_cfg < SAVE_SLICE_NUM"
  shows "\<exists>h. run_events his_step (new_his mem size_cfg) (Record junk r # es) = Some h \<and> his_pending h = his_chunks junk r"
proof -
  have "size_cfg div SAVE_SLICE_NUM = 0" using assms(2) by simp
  then have h: "his_step (new_his mem size_cfg) (Record junk r) = Some ((new_his mem size_cfg)\<lparr>his_pending := his_chunks junk r\<rparr>)"
    using assms(1) by (simp add: new_his_def Let_def media_lib_add_mem_his_def his_enough_def SAVE_SLICE_NUM_def)
  obtain buf bufs where "his_chunks junk r = buf # bufs" "buf \<noteq> []" by (cases r) auto
  with empty_slices_stuck [of "(new_his mem size_cfg)\<lparr>his_pending := his_chunks junk r\<rparr>" buf bufs es] h \<open>size_cfg div SAVE_SLICE_NUM = 0\<close> assms(1)
  show ?thesis by (simp add: new_his_def Let_def)
qed

theorem history_small_cache_hangs_witness:
  "\<exists>h. run_events his_step (new_his [0, 0, 0] 3) [Record 0 (His_free 5), Write_pass, Save_pass, Write_pass, Stop] = Some h \<and> his_pending h \<noteq> []"
proof -
  have "(3 :: nat) < SAVE_SLICE_NUM" by (simp add: SAVE_SLICE_NUM_def)
  from history_small_cache_hangs [OF _ this, of "[0, 0, 0]" 0 "His_free 5" "[Write_pass, Save_pass, Write_pass, Stop]"]
  show ?thesis by auto
qed

end
