(* ===== verification/Mem_Trace.thy ===== *)
theory Mem_Trace
  imports Mem_History "HOL-Library.Multiset"
begin

text \<open>
  The memory tracer (\<open>components/media_lib_sal/mem_trace/media_lib_mem_trace.c\<close>): it stands between the
  media library and the allocator (\<open>kept\<close>), counts what is in use in total and by module, and keeps a
  table of the blocks that are not freed. Its recursive lock makes every operation one step. The answers
  of the allocator are arguments, its calls and the records for the history are logged.
\<close>

section \<open>State\<close>

text \<open>\<open>media_lib_mem_trace_type_t\<close> is a set of three bits; \<open>record_num\<close> is not negative.\<close>

record trace_cfg =
  module_usage :: bool
  leak :: bool
  save_history :: bool
  stack_depth :: nat
  record_num :: nat

definition trace_none :: "trace_cfg \<Rightarrow> bool" where
  "trace_none c \<longleftrightarrow> \<not> module_usage c \<and> \<not> leak c \<and> \<not> save_history c"

definition MAX_STACK_DEPTH :: nat where "MAX_STACK_DEPTH = 10"
definition MEDIA_LIB_DEFAULT_TRACE_NUM :: nat where "MEDIA_LIB_DEFAULT_TRACE_NUM = 1024"

text \<open>\<open>item_stack\<close> is the array behind the structure, which an assignment of structures does not copy.\<close>

record mem_trace_item =
  item_addr :: u32
  item_size :: int
  item_depth :: nat
  item_module :: u8
  item_stack :: "u32 list"

record module_mem_info =
  mod_name :: string
  mod_id :: u8
  mod_usage :: u32
  mod_peak :: u32

datatype trace_call =
    Kept_malloc u32 | Kept_malloc_align u32 u8 | Kept_calloc u32 u32 | Kept_realloc u32 u32 | Kept_strdup string
  | Kept_free u32 | Kept_free_align u32 | Lib_malloc u32 | Lib_calloc u32 u32 | Lib_realloc u32 u32 | Lib_strdup string
  | History his_record

record mem_trace =
  cfg :: trace_cfg
  trace_item :: "mem_trace_item list"
  trace_item_num :: nat
  module_lists :: "module_mem_info list"
  mem_usage :: u32
  peak_mem_usage :: u32
  overflow :: bool
  log :: "trace_call list"

definition log_call :: "trace_call \<Rightarrow> mem_trace \<Rightarrow> mem_trace" where
  "log_call c t = t\<lparr>log := log t @ [c]\<rparr>"

section \<open>Modules\<close>

definition get_module :: "string option \<Rightarrow> mem_trace \<Rightarrow> module_mem_info option" where
  "get_module name t = (case name of None \<Rightarrow> None | Some n \<Rightarrow> find (\<lambda>m. mod_name m = n) (module_lists t))"

definition get_module_by_id :: "u8 \<Rightarrow> mem_trace \<Rightarrow> module_mem_info option" where
  "get_module_by_id i t = find (\<lambda>m. mod_id m = i) (module_lists t)"

text \<open>\<open>mem\<close>: whether the two allocations for a new module succeed. The number of modules is the length.\<close>

definition alloc_module :: "bool \<Rightarrow> string \<Rightarrow> mem_trace \<Rightarrow> module_mem_info option \<times> mem_trace" where
  "alloc_module mem name t =
     (if length (module_lists t) > 0xFF \<or> \<not> mem then (None, t)
      else (let m = \<lparr>mod_name = name, mod_id = word_of_nat (length (module_lists t)), mod_usage = 0, mod_peak = 0\<rparr>
            in (Some m, t\<lparr>module_lists := module_lists t @ [m]\<rparr>)))"

fun update_module :: "(module_mem_info \<Rightarrow> bool) \<Rightarrow> (module_mem_info \<Rightarrow> module_mem_info) \<Rightarrow> module_mem_info list \<Rightarrow> module_mem_info list" where
  "update_module P f [] = []"
| "update_module P f (m # ms) = (if P m then f m # ms else m # update_module P f ms)"

definition charge :: "u32 \<Rightarrow> module_mem_info \<Rightarrow> module_mem_info" where
  "charge sz m = m\<lparr>mod_usage := mod_usage m + sz, mod_peak := max (mod_peak m) (mod_usage m + sz)\<rparr>"

definition add_mem_usage :: "bool \<Rightarrow> string option \<Rightarrow> int \<Rightarrow> mem_trace \<Rightarrow> u8 \<times> mem_trace" where
  "add_mem_usage mem name sz t =
     (let u = mem_usage t + word_of_int sz;
          t1 = t\<lparr>mem_usage := u, peak_mem_usage := max (peak_mem_usage t) u\<rparr>
      in if \<not> module_usage (cfg t) then (0, t1)
         else let (m, t2) = (case (name, get_module name t1) of
                               (Some n, None) \<Rightarrow> alloc_module mem n t1
                             | (_, m) \<Rightarrow> (m, t1))
              in case m of
                   None \<Rightarrow> (0, t2)
                 | Some m \<Rightarrow>
                     (mod_id m, t2\<lparr>module_lists := update_module (\<lambda>x. mod_name x = mod_name m) (charge (word_of_int sz)) (module_lists t2)\<rparr>))"

definition remove_mem_usage :: "u8 \<Rightarrow> int \<Rightarrow> mem_trace \<Rightarrow> mem_trace" where
  "remove_mem_usage i sz t =
     (let t1 = t\<lparr>mem_usage := mem_usage t - word_of_int sz\<rparr>
      in if \<not> module_usage (cfg t) then t1
         else t1\<lparr>module_lists := update_module (\<lambda>m. mod_id m = i) (\<lambda>m. m\<lparr>mod_usage := mod_usage m - word_of_int sz\<rparr>) (module_lists t1)\<rparr>)"

section \<open>The table of blocks\<close>

fun find_item :: "u32 \<Rightarrow> mem_trace_item list \<Rightarrow> nat option" where
  "find_item a [] = None"
| "find_item a (x # xs) = (if item_addr x = a then Some 0 else map_option Suc (find_item a xs))"

definition get_trace_item :: "u32 \<Rightarrow> mem_trace \<Rightarrow> nat option" where
  "get_trace_item a t = find_item a (take (trace_item_num t) (trace_item t))"

text \<open>
  \<open>None\<close>: the deliberate write to address 0 for a size of 860 bytes, or an access outside the table.
\<close>

definition add_trace_item :: "u8 \<Rightarrow> u32 \<Rightarrow> int \<Rightarrow> u32 list \<Rightarrow> mem_trace \<Rightarrow> mem_trace option" where
  "add_trace_item i a sz stack t =
     (if trace_item_num t \<ge> record_num (cfg t) then Some (t\<lparr>overflow := True\<rparr>)
      else if sz = 860 \<or> trace_item_num t \<ge> length (trace_item t) then None
      else (let old = trace_item t ! trace_item_num t;
                item = old\<lparr>item_module := i, item_addr := a, item_size := sz, item_depth := length stack,
                         item_stack := stack @ drop (length stack) (item_stack old)\<rparr>
            in Some (t\<lparr>overflow := False, trace_item := (trace_item t)[trace_item_num t := item],
                      trace_item_num := (trace_item_num t + 1) mod 2 ^ 16\<rparr>)))"

definition remove_trace_item :: "nat \<Rightarrow> mem_trace \<Rightarrow> mem_trace" where
  "remove_trace_item k t =
     (if trace_item_num t = 0 then t
      else (let n = trace_item_num t - 1;
                moved = (trace_item t ! n)\<lparr>item_stack := item_stack (trace_item t ! k)\<rparr>;
                items = (trace_item t)[k := moved];
                zero = (items ! n)\<lparr>item_addr := 0, item_size := 0, item_depth := 0, item_module := 0\<rparr>
            in t\<lparr>trace_item_num := n, trace_item := items[n := zero]\<rparr>))"

text \<open>\<open>frames\<close> is what \<open>get_stack_frame\<close> stores, at most the depth asked for.\<close>

definition add_trace :: "bool \<Rightarrow> string option \<Rightarrow> u32 \<Rightarrow> int \<Rightarrow> u8 \<Rightarrow> u32 list \<Rightarrow> mem_trace \<Rightarrow> mem_trace option" where
  "add_trace mem name a sz flag frames t =
     (case add_mem_usage mem name sz t of
        (i, t1) \<Rightarrow>
          let stack = (if stack_depth (cfg t) \<noteq> 0 \<and> (save_history (cfg t) \<or> leak (cfg t))
                       then take (stack_depth (cfg t)) frames else []);
              t2 = (if save_history (cfg t) then log_call (History (His_malloc a (word_of_int sz) flag stack)) t1 else t1)
          in if record_num (cfg t) \<noteq> 0 then add_trace_item i a sz stack t2 else Some t2)"

definition remove_trace :: "u32 \<Rightarrow> mem_trace \<Rightarrow> mem_trace" where
  "remove_trace a t =
     (let t1 = (if save_history (cfg t) then log_call (History (His_free a)) t else t)
      in case get_trace_item a t1 of
           None \<Rightarrow> t1
         | Some k \<Rightarrow>
             let item = trace_item t1 ! k
             in remove_trace_item k (remove_mem_usage (item_module item) (item_size item) t1))"

section \<open>The replaced allocator\<close>

text \<open>
  \<open>ptr\<close> is the answer of the allocator, 0 for none. The size is a \<open>size_t\<close> that is narrowed to \<open>int\<close>.
\<close>

definition trace_ptr :: "bool \<Rightarrow> string option \<Rightarrow> u32 \<Rightarrow> u32 \<Rightarrow> u32 list \<Rightarrow> mem_trace \<Rightarrow> (u32 \<times> mem_trace) option" where
  "trace_ptr mem name ptr sz frames t =
     (if ptr = 0 then Some (0, t) else map_option (Pair ptr) (add_trace mem name ptr (sint sz) 0 frames t))"

definition trace_malloc :: "u32 \<Rightarrow> u32 \<Rightarrow> u32 list \<Rightarrow> mem_trace \<Rightarrow> (u32 \<times> mem_trace) option" where
  "trace_malloc ptr sz frames t = trace_ptr True None ptr sz frames (log_call (Kept_malloc sz) t)"

definition trace_malloc_align :: "u32 \<Rightarrow> u32 \<Rightarrow> u8 \<Rightarrow> u32 list \<Rightarrow> mem_trace \<Rightarrow> (u32 \<times> mem_trace) option" where
  "trace_malloc_align ptr sz align frames t = trace_ptr True None ptr sz frames (log_call (Kept_malloc_align sz align) t)"

definition trace_calloc :: "u32 \<Rightarrow> u32 \<Rightarrow> u32 \<Rightarrow> u32 list \<Rightarrow> mem_trace \<Rightarrow> (u32 \<times> mem_trace) option" where
  "trace_calloc ptr num sz frames t = trace_ptr True None ptr (num * sz) frames (log_call (Kept_calloc num sz) t)"

definition trace_strdup :: "u32 \<Rightarrow> string \<Rightarrow> u32 list \<Rightarrow> mem_trace \<Rightarrow> (u32 \<times> mem_trace) option" where
  "trace_strdup ptr str frames t = trace_ptr True None ptr (word_of_nat (length str + 1)) frames (log_call (Kept_strdup str) t)"

definition trace_realloc :: "u32 \<Rightarrow> u32 \<Rightarrow> u32 \<Rightarrow> u32 list \<Rightarrow> mem_trace \<Rightarrow> (u32 \<times> mem_trace) option" where
  "trace_realloc ptr buf sz frames t =
     (let t1 = log_call (Kept_realloc buf sz) t;
          t2 = (if buf \<noteq> 0 then remove_trace buf t1 else t1)
      in trace_ptr True None ptr sz frames t2)"

definition trace_free :: "u32 \<Rightarrow> mem_trace \<Rightarrow> mem_trace" where
  "trace_free buf t = log_call (Kept_free buf) (remove_trace buf t)"

definition trace_free_align :: "u32 \<Rightarrow> mem_trace \<Rightarrow> mem_trace" where
  "trace_free_align buf t = log_call (Kept_free_align buf) (remove_trace buf t)"

section \<open>The interface\<close>

text \<open>
  \<open>trace\<close> is \<open>None\<close> when nothing is traced: then the calls go to the media library. \<open>mem\<close> is for the
  description of a new module.
\<close>

type_synonym tracer = "mem_trace option"

definition tracing :: "tracer \<Rightarrow> bool" where
  "tracing tr \<longleftrightarrow> (case tr of None \<Rightarrow> False | Some t \<Rightarrow> \<not> trace_none (cfg t))"

definition traced :: "(mem_trace \<Rightarrow> (u32 \<times> mem_trace) option) \<Rightarrow> trace_call \<Rightarrow> u32 \<Rightarrow> tracer \<Rightarrow> ((u32 \<times> trace_call list) \<times> tracer) option" where
  "traced f lib ptr tr =
     (case tr of
        Some t \<Rightarrow> if trace_none (cfg t) then Some ((ptr, [lib]), tr) else map_option (\<lambda>(p, t1). ((p, []), Some t1)) (f t)
      | None \<Rightarrow> Some ((ptr, [lib]), tr))"

definition media_lib_module_malloc ::
  "bool \<Rightarrow> u32 \<Rightarrow> u32 list \<Rightarrow> string option \<Rightarrow> u32 \<Rightarrow> tracer \<Rightarrow> ((u32 \<times> trace_call list) \<times> tracer) option" where
  "media_lib_module_malloc mem ptr frames name sz =
     traced (\<lambda>t. trace_ptr mem name ptr sz frames (log_call (Kept_malloc sz) t)) (Lib_malloc sz) ptr"

definition media_lib_module_calloc ::
  "bool \<Rightarrow> u32 \<Rightarrow> u32 list \<Rightarrow> string option \<Rightarrow> u32 \<Rightarrow> u32 \<Rightarrow> tracer \<Rightarrow> ((u32 \<times> trace_call list) \<times> tracer) option" where
  "media_lib_module_calloc mem ptr frames name num sz =
     traced (\<lambda>t. trace_ptr mem name ptr (num * sz) frames (log_call (Kept_calloc num sz) t)) (Lib_calloc num sz) ptr"

definition media_lib_module_realloc ::
  "bool \<Rightarrow> u32 \<Rightarrow> u32 list \<Rightarrow> string option \<Rightarrow> u32 \<Rightarrow> u32 \<Rightarrow> tracer \<Rightarrow> ((u32 \<times> trace_call list) \<times> tracer) option" where
  "media_lib_module_realloc mem ptr frames name buf sz =
     traced (\<lambda>t. let t1 = log_call (Kept_realloc buf sz) t;
                    t2 = (if buf \<noteq> 0 then remove_trace buf t1 else t1)
                in trace_ptr mem name ptr sz frames t2) (Lib_realloc buf sz) ptr"

definition media_lib_module_strdup ::
  "bool \<Rightarrow> u32 \<Rightarrow> u32 list \<Rightarrow> string option \<Rightarrow> string \<Rightarrow> tracer \<Rightarrow> ((u32 \<times> trace_call list) \<times> tracer) option" where
  "media_lib_module_strdup mem ptr frames name str =
     traced (\<lambda>t. trace_ptr mem name ptr (word_of_nat (length str + 1)) frames (log_call (Kept_strdup str) t)) (Lib_strdup str) ptr"

definition ESP_MEDIA_ERR_INVALID_ARG :: int where "ESP_MEDIA_ERR_INVALID_ARG = 0x102"
definition ESP_MEDIA_ERR_WRONG_STATE :: int where "ESP_MEDIA_ERR_WRONG_STATE = 0x103"
definition ESP_MEDIA_ERR_NOT_FOUND :: int where "ESP_MEDIA_ERR_NOT_FOUND = 0x105"

definition media_lib_add_trace_mem :: "bool \<Rightarrow> string option \<Rightarrow> u32 \<Rightarrow> int \<Rightarrow> u8 \<Rightarrow> u32 list \<Rightarrow> tracer \<Rightarrow> (int \<times> tracer) option" where
  "media_lib_add_trace_mem mem name ptr sz flag frames tr =
     (case tr of
        None \<Rightarrow> Some (ESP_MEDIA_ERR_WRONG_STATE, tr)
      | Some t \<Rightarrow>
          if trace_none (cfg t) then Some (ESP_MEDIA_ERR_WRONG_STATE, tr)
          else if ptr = 0 then Some (0, tr)
          else map_option (\<lambda>t1. (0, Some t1)) (add_trace mem name ptr sz flag frames t))"

definition media_lib_remove_trace_mem :: "u32 \<Rightarrow> tracer \<Rightarrow> tracer" where
  "media_lib_remove_trace_mem ptr tr = (if tracing tr then map_option (remove_trace ptr) tr else tr)"

definition media_lib_get_mem_usage :: "string option \<Rightarrow> tracer \<Rightarrow> int \<times> (u32 \<times> u32) option" where
  "media_lib_get_mem_usage name tr =
     (case tr of
        None \<Rightarrow> (ESP_MEDIA_ERR_WRONG_STATE, None)
      | Some t \<Rightarrow>
          if trace_none (cfg t) then (ESP_MEDIA_ERR_WRONG_STATE, None)
          else if name = None then (0, Some (mem_usage t, peak_mem_usage t))
          else case get_module name t of
            Some m \<Rightarrow> (0, Some (mod_usage m, mod_peak m))
          | None \<Rightarrow> (ESP_MEDIA_ERR_NOT_FOUND, None))"

text \<open>The lines of the report, address, size and stack, and the total.\<close>

definition print_leak :: "string option \<Rightarrow> mem_trace \<Rightarrow> int \<times> (u32 \<times> int \<times> u32 list) list" where
  "print_leak name t =
     (let items = filter (\<lambda>x. case get_module name t of None \<Rightarrow> True | Some m \<Rightarrow> mod_id m = item_module x)
                    (take (trace_item_num t) (trace_item t))
      in (sum_list (map item_size items), map (\<lambda>x. (item_addr x, item_size x, take (item_depth x) (item_stack x))) items))"

definition media_lib_print_leakage :: "string option \<Rightarrow> tracer \<Rightarrow> int" where
  "media_lib_print_leakage name tr =
     (case tr of None \<Rightarrow> ESP_MEDIA_ERR_WRONG_STATE
      | Some t \<Rightarrow> if trace_none (cfg t) then ESP_MEDIA_ERR_WRONG_STATE else fst (print_leak name t))"

text \<open>
  Starting: \<open>lib\<close> tells whether a memory library is installed, \<open>made\<close> which of the structure, the lock and
  the table could be had, \<open>his\<close> is the code of the history.
\<close>

datatype trace_object = Trace_struct | Trace_mutex | Trace_table

definition empty_item :: "nat \<Rightarrow> mem_trace_item" where
  "empty_item depth = \<lparr>item_addr = 0, item_size = 0, item_depth = 0, item_module = 0, item_stack = replicate depth 0\<rparr>"

definition start_records :: "trace_cfg \<Rightarrow> nat" where
  "start_records c = (if (module_usage c \<or> leak c) \<and> record_num c = 0 then MEDIA_LIB_DEFAULT_TRACE_NUM else record_num c)"

definition start_trace :: "trace_cfg \<Rightarrow> mem_trace" where
  "start_trace c =
     \<lparr>cfg = c\<lparr>stack_depth := min (stack_depth c) MAX_STACK_DEPTH, record_num := start_records c\<rparr>,
      trace_item = replicate (start_records c) (empty_item (stack_depth c)), trace_item_num = 0, module_lists = [],
      mem_usage = 0, peak_mem_usage = 0, overflow = False, log = []\<rparr>"

definition media_lib_start_mem_trace :: "bool \<Rightarrow> (trace_object \<Rightarrow> bool) \<Rightarrow> int \<Rightarrow> trace_cfg option \<Rightarrow> tracer \<Rightarrow> int \<times> tracer" where
  "media_lib_start_mem_trace lib made his c tr =
     (case c of
        None \<Rightarrow> (ESP_MEDIA_ERR_INVALID_ARG, tr)
      | Some c \<Rightarrow>
          if trace_none c then (ESP_MEDIA_ERR_INVALID_ARG, tr)
          else if tr \<noteq> None then (0, tr)
          else if \<not> lib then (ESP_MEDIA_ERR_INVALID_ARG, tr)
          else if \<not> made Trace_struct \<or> \<not> made Trace_mutex then (0x101, None)
          else if start_records c \<noteq> 0 \<and> \<not> made Trace_table then (0x101, None)
          else if save_history c \<and> his \<noteq> 0 then (his, None)
          else (0, Some (start_trace c)))"

text \<open>Stopping gives the allocator back and reports the leaks.\<close>

definition media_lib_stop_mem_trace :: "tracer \<Rightarrow> (int \<times> (u32 \<times> int \<times> u32 list) list) option \<times> tracer" where
  "media_lib_stop_mem_trace tr =
     (case tr of None \<Rightarrow> (None, None) | Some t \<Rightarrow> (if leak (cfg t) then Some (print_leak None t) else None, None))"

section \<open>The blocks in use\<close>

text \<open>
  The contract with the allocator: a block that is handed out is not in use, and only a block in use is
  freed; the blocks in use (\<open>live\<close>, with their sizes) fit into the table and into 32 bits, and none is 860
  bytes long.
\<close>

datatype block_op = Alloc (blk_module: "string option") (blk_addr: u32) (blk_size: u32) "u32 list" | Free u32

type_synonym blocks = "(u32 \<times> int) list"

fun blocks_step :: "blocks \<Rightarrow> block_op \<Rightarrow> blocks" where
  "blocks_step live (Alloc name a sz frames) = live @ [(a, sint sz)]"
| "blocks_step live (Free a) = filter (\<lambda>b. fst b \<noteq> a) live"

fun block_ok :: "nat \<Rightarrow> blocks \<Rightarrow> block_op \<Rightarrow> bool" where
  "block_ok n live (Alloc name a sz frames) \<longleftrightarrow> a \<noteq> 0 \<and> a \<notin> fst ` set live \<and> length live < n \<and> sint sz \<noteq> 860 \<and>
     0 \<le> sint sz \<and> sum_list (map snd live) + sint sz < 2 ^ 32"
| "block_ok n live (Free a) \<longleftrightarrow> a \<in> fst ` set live"

fun trace_step :: "mem_trace \<Rightarrow> block_op \<Rightarrow> mem_trace option" where
  "trace_step t (Alloc name a sz frames) = map_option snd (trace_ptr True name a sz frames (log_call (Kept_malloc sz) t))"
| "trace_step t (Free a) = Some (trace_free a t)"

definition table :: "mem_trace \<Rightarrow> mem_trace_item list" where
  "table t = take (trace_item_num t) (trace_item t)"

definition block_of :: "mem_trace_item \<Rightarrow> u32 \<times> int" where
  "block_of x = (item_addr x, item_size x)"

definition total :: "blocks \<Rightarrow> int" where
  "total live = sum_list (map snd live)"

definition trace_rep :: "mem_trace \<Rightarrow> blocks \<Rightarrow> int \<Rightarrow> bool" where
  "trace_rep t live pk \<longleftrightarrow>
     trace_item_num t \<le> length (trace_item t) \<and> length (trace_item t) = record_num (cfg t) \<and> record_num (cfg t) < 2 ^ 16 \<and>
     mset (map block_of (table t)) = mset live \<and> distinct (map fst live) \<and> (\<forall>b \<in> set live. 0 \<le> snd b) \<and>
     uint (mem_usage t) = total live \<and> uint (peak_mem_usage t) = pk \<and> total live \<le> pk"

lemma find_item_Some:
  "find_item a xs = Some k \<Longrightarrow> k < length xs \<and> item_addr (xs ! k) = a"
  by (induction xs arbitrary: k) (auto split: if_splits)

lemma find_item_None: "find_item a xs = None \<longleftrightarrow> a \<notin> item_addr ` set xs"
  by (induction xs) auto

lemma rep_length: "trace_rep t live pk \<Longrightarrow> trace_item_num t = length live"
proof -
  assume r: "trace_rep t live pk"
  then have "length (map block_of (table t)) = length live"
    by (metis trace_rep_def mset_eq_length)
  then show ?thesis using r by (simp add: table_def trace_rep_def)
qed

lemma rep_addrs: "trace_rep t live pk \<Longrightarrow> item_addr ` set (table t) = fst ` set live"
proof -
  assume "trace_rep t live pk"
  then have "set (map block_of (table t)) = set live" by (metis trace_rep_def mset_eq_setD)
  then have "fst ` block_of ` set (table t) = fst ` set live" by simp
  then show ?thesis by (simp add: image_image block_of_def)
qed

text \<open>The last item takes the place of the removed one.\<close>

lemma mset_remove_nth: "k < length xs \<Longrightarrow> mset (butlast (xs[k := last xs])) = mset xs - {#xs ! k#}"
proof -
  assume k: "k < length xs"
  then obtain ys y where xs: "xs = ys @ [y]" by (cases xs rule: rev_cases) auto
  show ?thesis
  proof (cases "k < length ys")
    case True
    then show ?thesis by (simp add: xs list_update_append nth_append mset_update)
  next
    case False
    with k xs have "k = length ys" by simp
    then show ?thesis by (simp add: xs list_update_append)
  qed
qed

lemma mset_filter_fst: "distinct (map fst bs) \<Longrightarrow> (a, s) \<in> set bs \<Longrightarrow> mset (filter (\<lambda>b. fst b \<noteq> a) bs) = mset bs - {#(a, s)#}"
proof (induction bs)
  case (Cons b bs)
  show ?case
  proof (cases "fst b = a")
    case True
    with Cons.prems have "b = (a, s)" "a \<notin> fst ` set bs" by (auto simp: image_iff)
    then have "filter (\<lambda>b. fst b \<noteq> a) bs = bs" by (auto simp: filter_id_conv image_iff)
    then show ?thesis using \<open>b = (a, s)\<close> by simp
  next
    case False
    with Cons show ?thesis by auto
  qed
qed simp
lemma add_mem_usage_same:
  assumes "add_mem_usage mem name sz t = (i, t1)"
  shows "cfg t1 = cfg t" "trace_item t1 = trace_item t" "trace_item_num t1 = trace_item_num t"
    "mem_usage t1 = mem_usage t + word_of_int sz" "peak_mem_usage t1 = max (peak_mem_usage t) (mem_usage t1)"
  using assms by (auto simp: add_mem_usage_def alloc_module_def Let_def split: if_splits option.splits prod.splits)

lemma remove_mem_usage_same:
  "cfg (remove_mem_usage i sz t) = cfg t" "trace_item (remove_mem_usage i sz t) = trace_item t"
  "trace_item_num (remove_mem_usage i sz t) = trace_item_num t" "mem_usage (remove_mem_usage i sz t) = mem_usage t - word_of_int sz"
  "peak_mem_usage (remove_mem_usage i sz t) = peak_mem_usage t"
  by (simp_all add: remove_mem_usage_def Let_def)

lemma log_call_same [simp]:
  "cfg (log_call c t) = cfg t" "trace_item (log_call c t) = trace_item t" "trace_item_num (log_call c t) = trace_item_num t"
  "mem_usage (log_call c t) = mem_usage t" "peak_mem_usage (log_call c t) = peak_mem_usage t"
  "module_lists (log_call c t) = module_lists t"
  by (simp_all add: log_call_def)

lemma add_trace_stored:
  assumes "add_trace mem name a sz flag frames t = Some t'" "record_num (cfg t) \<noteq> 0" "trace_item_num t < record_num (cfg t)"
    "record_num (cfg t) < 2 ^ 16"
  obtains item where "trace_item t' = (trace_item t)[trace_item_num t := item]" "block_of item = (a, sz)"
    "trace_item_num t' = Suc (trace_item_num t)" "cfg t' = cfg t" "mem_usage t' = mem_usage t + word_of_int sz"
    "peak_mem_usage t' = max (peak_mem_usage t) (mem_usage t')"
proof -
  obtain i t1 where u: "add_mem_usage mem name sz t = (i, t1)" by (cases "add_mem_usage mem name sz t")
  note same = add_mem_usage_same [OF u]
  from assms(1,2) obtain i stack t2 where "add_trace_item i a sz stack t2 = Some t'"
    "cfg t2 = cfg t" "trace_item t2 = trace_item t" "trace_item_num t2 = trace_item_num t" "mem_usage t2 = mem_usage t1"
    "peak_mem_usage t2 = peak_mem_usage t1"
    using same by (auto simp: add_trace_def u Let_def split: if_splits)
  then show thesis using assms(3,4) same
    by (intro that) (auto simp: add_trace_item_def Let_def block_of_def split: if_splits)
qed

lemma add_trace_total:
  assumes "trace_item_num t < length (trace_item t)" "sz \<noteq> 860"
  shows "\<exists>t'. add_trace mem name a sz flag frames t = Some t'"
proof -
  obtain i t1 where u: "add_mem_usage mem name sz t = (i, t1)" by (cases "add_mem_usage mem name sz t")
  show ?thesis
    using assms by (simp add: add_trace_def u add_mem_usage_same(1-3) [OF u] add_trace_item_def Let_def)
qed

lemma table_append:
  "n < length xs \<Longrightarrow> take (Suc n) (xs[n := x]) = take n xs @ [x]"
  by (simp add: take_Suc_conv_app_nth)

lemma total_simps [simp]: "total [] = 0" "total (live @ [(a, s)]) = total live + s"
  by (simp_all add: total_def)

lemma total_nonneg: "\<forall>b \<in> set live. 0 \<le> snd b \<Longrightarrow> 0 \<le> total live"
  by (auto simp: total_def intro!: sum_list_nonneg)

lemma uint_add: "uint (u :: u32) = x \<Longrightarrow> 0 \<le> x + s \<Longrightarrow> x + s < 2 ^ 32 \<Longrightarrow> uint (u + word_of_int s) = x + s"
proof -
  assume "uint u = x" "0 \<le> x + s" "x + s < 2 ^ 32"
  have "u + word_of_int s = word_of_int (x + s)" using \<open>uint u = x\<close> by (metis of_int_add word_of_int_uint)
  moreover have "uint (word_of_int (x + s) :: u32) = x + s"
    using \<open>0 \<le> x + s\<close> \<open>x + s < 2 ^ 32\<close> by (simp add: uint_word_of_int del: of_int_add)
  ultimately show ?thesis by (simp only:)
qed

lemma uint_max: "uint (max u v) = max (uint u) (uint (v :: u32))"
  by (simp add: max_def word_le_def)

lemma alloc_rep:
  assumes rep: "trace_rep t live pk" and ok: "block_ok (record_num (cfg t)) live (Alloc name a sz frames)"
  shows "\<exists>t'. trace_step t (Alloc name a sz frames) = Some t' \<and>
    trace_rep t' (live @ [(a, sint sz)]) (max pk (total (live @ [(a, sint sz)]))) \<and> cfg t' = cfg t"
proof -
  let ?t = "log_call (Kept_malloc sz) t"
  from ok have ok: "a \<noteq> 0" "a \<notin> fst ` set live" "length live < record_num (cfg t)" "sint sz \<noteq> 860" "0 \<le> sint sz"
    "total live + sint sz < 2 ^ 32" by (simp_all add: total_def)
  have n: "trace_item_num t < length (trace_item t)" "trace_item_num t < record_num (cfg t)" "record_num (cfg t) < 2 ^ 16"
    using rep_length [OF rep] ok(3) rep by (simp_all add: trace_rep_def)
  from add_trace_total [of ?t "sint sz" True name a 0 frames] n ok(4) obtain t' where
    t': "add_trace True name a (sint sz) 0 frames ?t = Some t'" by auto
  have r: "record_num (cfg ?t) \<noteq> 0" "trace_item_num ?t < record_num (cfg ?t)" "record_num (cfg ?t) < 2 ^ 16" using n by auto
  from add_trace_stored [OF t' r] obtain item where
    s: "trace_item t' = (trace_item t)[trace_item_num t := item]" "block_of item = (a, sint sz)"
      "trace_item_num t' = Suc (trace_item_num t)" "cfg t' = cfg t" "mem_usage t' = mem_usage t + word_of_int (sint sz)"
      "peak_mem_usage t' = max (peak_mem_usage t) (mem_usage t')" by auto
  have "table t' = table t @ [item]" using s n(1) by (simp add: table_def table_append)
  then have "mset (map block_of (table t')) = mset (live @ [(a, sint sz)])" using rep s(2) by (simp add: trace_rep_def)
  moreover have "0 \<le> total live" using rep total_nonneg by (simp add: trace_rep_def)
  then have "uint (mem_usage t') = total live + sint sz"
    unfolding s(5) using rep ok(5,6) by (intro uint_add) (simp_all add: trace_rep_def)
  ultimately have "trace_rep t' (live @ [(a, sint sz)]) (max pk (total (live @ [(a, sint sz)])))"
    using rep s(1,3,4,6) n ok(2,5) by (simp add: trace_rep_def uint_max ball_Un)
  then show ?thesis using t' s(4) ok(1) by (simp add: trace_ptr_def)
qed

lemma table_remove:
  assumes "trace_item_num t \<le> length (trace_item t)" "k < trace_item_num t"
  shows "mset (map block_of (table (remove_trace_item k t))) = mset (map block_of (table t)) - {#block_of (trace_item t ! k)#}"
    and "length (trace_item (remove_trace_item k t)) = length (trace_item t)"
    and "trace_item_num (remove_trace_item k t) = trace_item_num t - 1"
proof -
  obtain n where n: "trace_item_num t = Suc n" using assms(2) by (cases "trace_item_num t") auto
  let ?xs = "map block_of (table t)"
  have len: "length (table t) = Suc n" using assms(1) n by (simp add: table_def)
  have last: "last ?xs = block_of (trace_item t ! n)"
    using assms(1) n by (simp add: table_def take_Suc_conv_app_nth)
  have "table (remove_trace_item k t) = take n ((trace_item t)[k := (trace_item t ! n)\<lparr>item_stack := item_stack (trace_item t ! k)\<rparr>])"
    by (simp add: remove_trace_item_def Let_def n table_def)
  then have "map block_of (table (remove_trace_item k t)) = take n (?xs[k := block_of (trace_item t ! n)])"
    using n by (simp add: table_def take_map take_update_swap map_update block_of_def min_def)
  also have "\<dots> = butlast (?xs[k := last ?xs])" using len by (simp add: butlast_conv_take last)
  finally show "mset (map block_of (table (remove_trace_item k t))) = mset ?xs - {#block_of (trace_item t ! k)#}"
    using mset_remove_nth [of k ?xs] assms(2) len n by (simp add: table_def)
  show "length (trace_item (remove_trace_item k t)) = length (trace_item t)" "trace_item_num (remove_trace_item k t) = trace_item_num t - 1"
    by (simp_all add: remove_trace_item_def Let_def n)
qed

lemma free_rep:
  assumes rep: "trace_rep t live pk" and a: "a \<in> fst ` set live"
  shows "trace_rep (trace_free a t) (blocks_step live (Free a)) (max pk (total (blocks_step live (Free a)))) \<and> cfg (trace_free a t) = cfg t"
proof -
  let ?t = "if save_history (cfg t) then log_call (History (His_free a)) t else t"
  have same: "trace_item ?t = trace_item t" "trace_item_num ?t = trace_item_num t" "cfg ?t = cfg t" "mem_usage ?t = mem_usage t"
    "peak_mem_usage ?t = peak_mem_usage t" by simp_all
  from a rep_addrs [OF rep] obtain k where k: "find_item a (table t) = Some k" using find_item_None [of a "table t"] by auto
  from find_item_Some [OF k] have k': "k < trace_item_num t" "item_addr (trace_item t ! k) = a" by (auto simp: table_def)
  let ?item = "trace_item t ! k"
  let ?u = "remove_mem_usage (item_module ?item) (item_size ?item) ?t"
  have f: "trace_free a t = log_call (Kept_free a) (remove_trace_item k ?u)"
    using k by (simp add: trace_free_def remove_trace_def get_trace_item_def table_def Let_def)
  have num: "trace_item_num t \<le> length (trace_item t)" using rep by (simp add: trace_rep_def)
  have u: "trace_item ?u = trace_item t" "trace_item_num ?u = trace_item_num t" "table ?u = table t"
    by (simp_all add: remove_mem_usage_same table_def)
  have "trace_item_num ?u \<le> length (trace_item ?u)" "k < trace_item_num ?u" using num k'(1) u by simp_all
  note r = table_remove [OF this, unfolded u]
  have "?item \<in> set (table t)" using k'(1) num by (auto simp: table_def in_set_conv_nth)
  then have "block_of ?item \<in># mset (map block_of (table t))" by (simp only: set_mset_mset set_map imageI)
  moreover have "mset (map block_of (table t)) = mset live" using rep by (simp add: trace_rep_def)
  ultimately have "block_of ?item \<in> set live" by (simp only: set_mset_mset)
  then have mem: "(a, item_size ?item) \<in> set live" using k'(2) by (simp add: block_of_def)
  have d: "distinct (map fst live)" using rep by (simp add: trace_rep_def)
  note live = mset_filter_fst [OF d mem]
  have "mset live = add_mset (a, item_size ?item) (mset (filter (\<lambda>b. fst b \<noteq> a) live))" using live mem by simp
  from arg_cong [OF this, of "\<lambda>m. sum_mset (image_mset snd m)"]
  have tot: "total live = item_size ?item + total (filter (\<lambda>b. fst b \<noteq> a) live)"
    unfolding total_def sum_mset_sum_list [symmetric] mset_map by (simp del: mset_filter)
  have rm: "cfg (remove_trace_item k ?u) = cfg t" "mem_usage (remove_trace_item k ?u) = mem_usage t - word_of_int (item_size ?item)"
    "peak_mem_usage (remove_trace_item k ?u) = peak_mem_usage t"
    using k'(1) by (simp_all add: remove_trace_item_def Let_def remove_mem_usage_same)
  have nonneg: "\<forall>b \<in> set (filter (\<lambda>b. fst b \<noteq> a) live). 0 \<le> snd b" using rep by (simp add: trace_rep_def)
  have "0 \<le> item_size ?item" using mem rep by (auto simp: trace_rep_def)
  with tot have le: "total (filter (\<lambda>b. fst b \<noteq> a) live) \<le> total live" by simp
  have "uint (mem_usage t + word_of_int (- item_size ?item)) = total live + - item_size ?item"
    using rep tot total_nonneg [OF nonneg] \<open>0 \<le> item_size ?item\<close> uint_lt2p [of "mem_usage t"]
    by (intro uint_add) (simp_all add: trace_rep_def)
  then have "uint (mem_usage (remove_trace_item k ?u)) = total (filter (\<lambda>b. fst b \<noteq> a) live)"
    using tot by (simp add: rm(2))
  moreover have "mset (map block_of (table (remove_trace_item k ?u))) = mset (filter (\<lambda>b. fst b \<noteq> a) live)"
    using r(1) rep live k'(2) by (simp add: trace_rep_def block_of_def)
  moreover have "distinct (map fst (filter (\<lambda>b. fst b \<noteq> a) live))" using d by (simp add: distinct_map_filter)
  ultimately show ?thesis
    using rep rm r(2,3) nonneg le num k'(1) by (simp add: f trace_rep_def table_def max_def)
qed
text \<open>
  The abstract tracer: the size of the table, the blocks in use and the greatest total so far.
\<close>

type_synonym accounts = "nat \<times> blocks \<times> int"

fun account :: "accounts \<Rightarrow> block_op \<Rightarrow> accounts" where
  "account (n, live, pk) e = (n, blocks_step live e, max pk (total (blocks_step live e)))"

fun account_ok :: "accounts \<Rightarrow> block_op \<Rightarrow> bool" where
  "account_ok (n, live, pk) e = block_ok n live e"

fun traces :: "mem_trace \<Rightarrow> accounts \<Rightarrow> bool" where
  "traces t (n, live, pk) \<longleftrightarrow> trace_rep t live pk \<and> record_num (cfg t) = n \<and> \<not> trace_none (cfg t)"

interpretation tracer: simulation trace_step traces account account_ok
proof unfold_locales
  fix t a e
  assume r: "traces t a" "account_ok a e"
  obtain n live pk where a: "a = (n, live, pk)" by (cases a)
  show "\<exists>t'. trace_step t e = Some t' \<and> traces t' (account a e)"
  proof (cases e)
    case (Alloc name adr sz frames)
    then show ?thesis using alloc_rep [of t live pk name adr sz frames] r by (auto simp: a)
  next
    case (Free adr)
    then show ?thesis using free_rep [of t live pk adr] r by (auto simp: a)
  qed
qed

lemma account_size: "fst (foldl account (n, x) es) = n"
proof (induction es arbitrary: x)
  case (Cons e es)
  then show ?case by (cases x) simp
qed simp

lemma start_traces:
  assumes "media_lib_start_mem_trace lib made his (Some c) None = (0, Some t)" "start_records c < 2 ^ 16"
  shows "traces t (start_records c, [], 0)"
  using assms by (auto simp: media_lib_start_mem_trace_def ESP_MEDIA_ERR_INVALID_ARG_def start_trace_def trace_rep_def table_def
      trace_none_def total_def split: if_splits)

section \<open>Properties\<close>



text \<open>
  A debugging aid was left in: with room in the table, an allocation of exactly 860 bytes through
  the tracer writes to address 0, while any other allocation returns.
\<close>

theorem trace_debug_trap:
  assumes "\<not> trace_none (cfg t)" "trace_item_num t < record_num (cfg t)" "length (trace_item t) = record_num (cfg t)" "ptr \<noteq> 0"
  shows "media_lib_module_malloc mem ptr frames name sz (Some t) = None \<longleftrightarrow> sz = 860"
proof -
  have a: "add_trace mem name ptr s 0 frames (log_call c t) = None \<longleftrightarrow> s = 860" for s c
  proof -
    obtain i t1 where u: "add_mem_usage mem name s (log_call c t) = (i, t1)" by (cases "add_mem_usage mem name s (log_call c t)")
    show ?thesis
      using assms by (simp add: add_trace_def u add_mem_usage_same(1-3) [OF u] add_trace_item_def Let_def)
  qed
  have "sint sz = 860 \<longleftrightarrow> sz = 860"
  proof
    assume "sint sz = 860"
    then have "sint sz = sint (860 :: u32)" by simp
    then show "sz = 860" by (rule signed_word_eqI)
  qed simp
  then show ?thesis using assms(1,4) a by (simp add: media_lib_module_malloc_def traced_def trace_ptr_def)
qed

theorem trace_debug_trap_witness:
  "media_lib_module_malloc True 64 [] None 860
     (Some (start_trace \<lparr>module_usage = False, leak = True, save_history = False, stack_depth = 0, record_num = 3\<rparr>)) = None"
  using trace_debug_trap [of "start_trace \<lparr>module_usage = False, leak = True, save_history = False, stack_depth = 0, record_num = 3\<rparr>"
      64 True "[]" None 860]
  by (simp add: start_trace_def start_records_def trace_none_def)
lemma add_trace_split:
  assumes "add_mem_usage mem name sz t = (i, t1)" "record_num (cfg t) \<noteq> 0"
  shows "\<exists>stack t2. add_trace mem name a sz flag frames t = add_trace_item i a sz stack t2 \<and> cfg t2 = cfg t \<and>
    trace_item t2 = trace_item t \<and> trace_item_num t2 = trace_item_num t \<and> mem_usage t2 = mem_usage t + word_of_int sz \<and>
    module_lists t2 = module_lists t1"
proof -
  define stack where "stack = (if stack_depth (cfg t) \<noteq> 0 \<and> (save_history (cfg t) \<or> leak (cfg t)) then take (stack_depth (cfg t)) frames else [])"
  let ?t2 = "if save_history (cfg t) then log_call (History (His_malloc a (word_of_int sz) flag stack)) t1 else t1"
  have "add_trace mem name a sz flag frames t = add_trace_item i a sz stack ?t2"
    using assms(2) by (simp add: add_trace_def assms(1) Let_def stack_def)
  moreover have "cfg ?t2 = cfg t" "trace_item ?t2 = trace_item t" "trace_item_num ?t2 = trace_item_num t"
    "mem_usage ?t2 = mem_usage t + word_of_int sz" "module_lists ?t2 = module_lists t1"
    using add_mem_usage_same [OF assms(1)] by simp_all
  ultimately show ?thesis by blast
qed

text \<open>
  When the table is full a block is counted but not entered; its release is not found and the count
  keeps it for ever.
\<close>

theorem trace_overflow_drifts:
  assumes "trace_item_num t = record_num (cfg t)" "record_num (cfg t) \<noteq> 0" "a \<noteq> 0" "a \<notin> item_addr ` set (table t)"
  shows "\<exists>t1. trace_malloc a sz frames t = Some (a, t1) \<and> mem_usage (trace_free a t1) = mem_usage t + sz"
proof -
  let ?t = "log_call (Kept_malloc sz) t"
  obtain i t1 where u: "add_mem_usage True None (sint sz) ?t = (i, t1)" by (cases "add_mem_usage True None (sint sz) ?t")
  have "record_num (cfg ?t) \<noteq> 0" using assms(2) by simp
  from add_trace_split [OF u this, of a 0 frames] obtain stack t0 where t0:
    "add_trace True None a (sint sz) 0 frames ?t = add_trace_item i a (sint sz) stack t0" "cfg t0 = cfg t"
    "trace_item t0 = trace_item t" "trace_item_num t0 = trace_item_num t" "mem_usage t0 = mem_usage t + sz"
    by auto
  then obtain t2 where t2: "add_trace True None a (sint sz) 0 frames ?t = Some t2"
    "trace_item t2 = trace_item t" "trace_item_num t2 = trace_item_num t" "mem_usage t2 = mem_usage t + sz"
    using assms(1) by (simp add: add_trace_item_def)
  then have "get_trace_item a (log_call c t2) = None" "get_trace_item a t2 = None" for c
    using assms(4) by (simp_all add: get_trace_item_def find_item_None table_def)
  then show ?thesis using t2 assms(3) by (simp add: trace_malloc_def trace_ptr_def trace_free_def remove_trace_def Let_def)
qed

theorem trace_overflow_drifts_witness:
  "\<exists>t1. trace_malloc 64 100 [] ((start_trace \<lparr>module_usage = False, leak = True, save_history = False, stack_depth = 0, record_num = 1\<rparr>)
       \<lparr>trace_item_num := 1\<rparr>) = Some (64, t1) \<and> mem_usage (trace_free 64 t1) = 100"
  using trace_overflow_drifts [of "(start_trace \<lparr>module_usage = False, leak = True, save_history = False, stack_depth = 0, record_num = 1\<rparr>)
       \<lparr>trace_item_num := 1\<rparr>" 64 100 "[]"]
  by (simp add: start_trace_def start_records_def table_def empty_item_def)

text \<open>
  A release moves the last entry into the gap, but the assignment of structures leaves its call stack
  behind: the leak report shows that block with the stack of the released one.
\<close>

theorem leak_stack_of_other_block:
  assumes "get_trace_item a t = Some k" "k < trace_item_num t - 1" "trace_item_num t \<le> length (trace_item t)"
  shows "snd (print_leak None (trace_free a t)) ! k =
    (let moved = trace_item t ! (trace_item_num t - 1)
     in (item_addr moved, item_size moved, take (item_depth moved) (item_stack (trace_item t ! k))))"
proof -
  let ?t = "if save_history (cfg t) then log_call (History (His_free a)) t else t"
  let ?u = "remove_mem_usage (item_module (trace_item t ! k)) (item_size (trace_item t ! k)) ?t"
  have g: "get_trace_item a ?t = Some k" using assms(1) by (simp add: get_trace_item_def)
  have f: "trace_free a t = log_call (Kept_free a) (remove_trace_item k ?u)"
    using g by (simp add: trace_free_def remove_trace_def Let_def)
  let ?n = "trace_item_num t - 1"
  let ?moved = "(trace_item t ! ?n)\<lparr>item_stack := item_stack (trace_item t ! k)\<rparr>"
  have "trace_item_num t \<noteq> 0" "?n \<le> length (trace_item t)" using assms(2,3) by auto
  then have "trace_item_num (trace_free a t) = ?n" "trace_item (trace_free a t) ! k = ?moved"
    "?n \<le> length (trace_item (trace_free a t))"
    using assms(2,3) by (simp_all add: f remove_trace_item_def Let_def remove_mem_usage_same)
  then show ?thesis using assms(2,3) by (simp add: print_leak_def get_module_def Let_def)
qed

lemma replicate_3: "replicate 3 x = [x, x, x]"
  by (simp add: numeral_3_eq_3)

theorem leak_stack_of_other_block_witness:
  "case run_events trace_step (start_trace \<lparr>module_usage = False, leak = True, save_history = False, stack_depth = 1, record_num = 3\<rparr>)
     [Alloc None 16 100 [7], Alloc None 32 50 [8]] of
     None \<Rightarrow> False
   | Some t \<Rightarrow> snd (print_leak None (trace_free 16 t)) ! 0 = (32, 50, [7])"
proof -
  let ?c = "\<lparr>module_usage = False, leak = True, save_history = False, stack_depth = 1, record_num = 3\<rparr>"
  let ?i1 = "\<lparr>item_addr = 16, item_size = 100, item_depth = 1, item_module = 0, item_stack = [7]\<rparr>"
  let ?i2 = "\<lparr>item_addr = 32, item_size = 50, item_depth = 1, item_module = 0, item_stack = [8]\<rparr>"
  have "case run_events trace_step (start_trace ?c) [Alloc None 16 100 [7], Alloc None 32 50 [8]] of
      None \<Rightarrow> False | Some t \<Rightarrow> trace_item_num t = 2 \<and> trace_item t = [?i1, ?i2, empty_item 1]"
    by (simp add: start_trace_def start_records_def trace_ptr_def add_trace_def add_mem_usage_def add_trace_item_def log_call_def
        empty_item_def MAX_STACK_DEPTH_def Let_def replicate_3)
  then obtain t where t: "run_events trace_step (start_trace ?c) [Alloc None 16 100 [7], Alloc None 32 50 [8]] = Some t"
    "trace_item_num t = 2" "trace_item t = [?i1, ?i2, empty_item 1]" by (auto split: option.splits)
  have "get_trace_item 16 t = Some 0" using t(2,3) by (simp add: get_trace_item_def numeral_2_eq_2)
  from leak_stack_of_other_block [OF this] t show ?thesis by simp
qed

text \<open>
  Memory allocated without a module is entered under the number 0, which is that of the first module:
  its release is charged to that module, whose count falls below what it uses.
\<close>

theorem untagged_release_charged_to_first_module:
  assumes "module_lists t = [m]" "mod_id m = 0" "module_usage (cfg t)" "a \<noteq> 0" "a \<notin> item_addr ` set (table t)" "sz \<noteq> 860"
    "trace_item_num t < record_num (cfg t)" "length (trace_item t) = record_num (cfg t)" "record_num (cfg t) < 2 ^ 16"
  shows "\<exists>t1. trace_malloc a sz frames t = Some (a, t1) \<and> module_lists t1 = [m] \<and>
    module_lists (trace_free a t1) = [m\<lparr>mod_usage := mod_usage m - sz\<rparr>]"
proof -
  let ?t = "log_call (Kept_malloc sz) t"
  have s: "sint sz \<noteq> 860"
  proof
    assume "sint sz = 860"
    then have "sint sz = sint (860 :: u32)" by simp
    then have "sz = 860" by (rule signed_word_eqI)
    with assms(6) show False by simp
  qed
  obtain t1 where u: "add_mem_usage True None (sint sz) ?t = (0, t1)" "module_lists t1 = [m]"
    using assms(1,3) by (simp add: add_mem_usage_def get_module_def Let_def)
  define n where "n = trace_item_num t"
  have "record_num (cfg ?t) \<noteq> 0" using assms(7) by simp
  from add_trace_split [OF u(1) this, of a 0 frames] obtain stack t0 where t0:
    "add_trace True None a (sint sz) 0 frames ?t = add_trace_item 0 a (sint sz) stack t0" "cfg t0 = cfg t"
    "trace_item t0 = trace_item t" "trace_item_num t0 = trace_item_num t" "module_lists t0 = [m]"
    using u(2) by auto
  obtain t2 item where t2: "add_trace True None a (sint sz) 0 frames ?t = Some t2" "module_lists t2 = [m]" "cfg t2 = cfg t"
    "trace_item_num t2 = Suc n" "trace_item t2 = (trace_item t)[n := item]"
    "item_addr item = a" "item_size item = sint sz" "item_module item = 0"
  proof -
    let ?old = "trace_item t ! n"
    let ?item = "?old\<lparr>item_module := 0, item_addr := a, item_size := sint sz, item_depth := length stack,
      item_stack := stack @ drop (length stack) (item_stack ?old)\<rparr>"
    show thesis
      by (rule that [of "t0\<lparr>overflow := False, trace_item := (trace_item t)[n := ?item], trace_item_num := Suc n\<rparr>" ?item])
        (use assms(7-9) s t0 in \<open>simp_all add: add_trace_item_def Let_def n_def\<close>)
  qed
  have n: "n < length (trace_item t)" using assms(7,8) by (simp add: n_def)
  have find: "find_item a (xs @ [item]) = Some (length xs)" if "a \<notin> item_addr ` set xs" for xs
    using that t2(6) by (induction xs) auto
  have "get_trace_item a t2 = Some n" "get_trace_item a (log_call c t2) = Some n" for c
    using find [OF assms(5)] n by (simp_all add: get_trace_item_def t2 table_append table_def flip: n_def)
  moreover have "trace_item t2 ! n = item" using n by (simp add: t2)
  moreover have "module_lists (remove_trace_item k t') = module_lists t'" for k t' by (simp add: remove_trace_item_def Let_def)
  ultimately have "module_lists (trace_free a t2) = [m\<lparr>mod_usage := mod_usage m - sz\<rparr>]"
    using assms(2,3) t2 by (simp add: trace_free_def remove_trace_def Let_def remove_mem_usage_def)
  then show ?thesis using t2(1,2) assms(4) by (simp add: trace_malloc_def trace_ptr_def)
qed

theorem untagged_release_charged_to_first_module_witness:
  "\<exists>t1. trace_malloc 64 100 [] ((start_trace \<lparr>module_usage = True, leak = False, save_history = False, stack_depth = 0, record_num = 2\<rparr>)
       \<lparr>module_lists := [\<lparr>mod_name = ''net'', mod_id = 0, mod_usage = 30, mod_peak = 30\<rparr>]\<rparr>) = Some (64, t1) \<and>
     map mod_usage (module_lists (trace_free 64 t1)) = [30 - 100]"
proof -
  let ?t = "(start_trace \<lparr>module_usage = True, leak = False, save_history = False, stack_depth = 0, record_num = 2\<rparr>)
       \<lparr>module_lists := [\<lparr>mod_name = ''net'', mod_id = 0, mod_usage = 30, mod_peak = 30\<rparr>]\<rparr>"
  have "module_lists ?t = [\<lparr>mod_name = ''net'', mod_id = 0, mod_usage = 30, mod_peak = 30\<rparr>]" by simp
  from untagged_release_charged_to_first_module [OF this, of 64 100 "[]"] show ?thesis
    by (auto simp: start_trace_def start_records_def table_def)
qed

end
