(* ===== verification/Render_Sinks.thy ===== *)
theory Render_Sinks
  imports Audio_Resample Color_Convert
begin

text \<open>
  The handles through which the renderer plays (\<open>audio_render.c\<close> and \<open>video_render.c\<close> of
  \<open>components/av_render/src\<close>): a table of driver operations, and a count of the references held by the
  creator and by the renderer. Calls of the driver are recorded with their results; a call of an operation
  the driver does not have, and every access to a released handle, is \<open>None\<close>.
\<close>

section \<open>The contract of a counted handle\<close>

text \<open>What a request means for the owners of a handle.\<close>

datatype sink_act = Act_use | Act_start bool | Act_stop | Act_give_up

record sink_owners =
  held :: bool
  playing :: bool

fun sink_next :: "sink_owners \<Rightarrow> sink_act \<Rightarrow> sink_owners" where
  "sink_next a Act_use = a"
| "sink_next a (Act_start success) = (if success then a\<lparr>playing := True\<rparr> else a)"
| "sink_next a Act_stop = a\<lparr>playing := False\<rparr>"
| "sink_next a Act_give_up = a\<lparr>held := False\<rparr>"

text \<open>Only an owner uses the handle, it is not opened twice, and the creator gives it up once.\<close>

fun sink_ok :: "sink_owners \<Rightarrow> sink_act \<Rightarrow> bool" where
  "sink_ok a Act_use \<longleftrightarrow> held a \<or> playing a"
| "sink_ok a (Act_start success) \<longleftrightarrow> held a \<and> \<not> playing a"
| "sink_ok a Act_stop \<longleftrightarrow> held a \<or> playing a"
| "sink_ok a Act_give_up \<longleftrightarrow> held a"

definition fresh_sink :: sink_owners where
  "fresh_sink = \<lparr>held = True, playing = False\<rparr>"

locale counted_sink =
  simulation step rep "\<lambda>a e. sink_next a (act e)" "\<lambda>a e. sink_ok a (act e)"
  for step :: "'s \<Rightarrow> 'e \<Rightarrow> 's option" and rep :: "'s \<Rightarrow> sink_owners \<Rightarrow> bool" and act :: "'e \<Rightarrow> sink_act" +
  fixes gone :: "'s \<Rightarrow> bool"
  assumes rep_gone: "rep s a \<Longrightarrow> gone s \<longleftrightarrow> \<not> held a \<and> \<not> playing a"
begin

lemma lifetime:
  assumes "rep s fresh_sink" "path_ok (\<lambda>a e. sink_ok a (act e)) (\<lambda>a e. sink_next a (act e)) fresh_sink es"
  shows "\<exists>s'. run_events step s es = Some s' \<and> rep s' (foldl (\<lambda>a e. sink_next a (act e)) fresh_sink es) \<and>
    (gone s' \<longleftrightarrow> (let a = foldl (\<lambda>a e. sink_next a (act e)) fresh_sink es in \<not> held a \<and> \<not> playing a))"
  using run_sim [OF assms] rep_gone by (auto simp: Let_def)

text \<open>The renderer closes before it opens; it may do so as often as it likes while the creator holds the handle.\<close>

lemma reopening:
  assumes "act stop = Act_stop" "\<And>b. act (start b) = Act_start b" "held a"
  shows "path_ok (\<lambda>a e. sink_ok a (act e)) (\<lambda>a e. sink_next a (act e)) a (concat (map (\<lambda>b. [stop, start b]) bs)) \<and>
    held (foldl (\<lambda>a e. sink_next a (act e)) a (concat (map (\<lambda>b. [stop, start b]) bs)))"
  using assms(3) by (induction bs arbitrary: a) (simp_all add: assms(1,2))

end

section \<open>Audio\<close>

datatype audio_drv_op = AD_init | AD_open | AD_write | AD_get_latency | AD_get_frame_info | AD_set_speed | AD_close | AD_deinit

text \<open>A call of the driver with its result, and the release of the handle.\<close>

datatype audio_drv_call =
    Drv_init | Drv_open audio_info int | Drv_write "u8 list" int | Drv_get_latency int | Drv_get_frame_info int
  | Drv_set_speed int | Drv_close int | Drv_deinit | Drv_free

record audio_sink =
  a_ops :: "audio_drv_op \<Rightarrow> bool"
  a_handle :: bool
  a_is_open :: bool
  a_ref_count :: int
  a_calls :: "audio_drv_call list"

definition a_freed :: "audio_sink \<Rightarrow> bool" where
  "a_freed s \<longleftrightarrow> Drv_free \<in> set (a_calls s)"

definition a_deref :: "audio_sink \<Rightarrow> audio_sink option" where
  "a_deref s = (if a_freed s then None else Some s)"

definition a_call :: "audio_drv_op \<Rightarrow> audio_drv_call \<Rightarrow> audio_sink \<Rightarrow> audio_sink option" where
  "a_call op c s = (if a_ops s op then Some (s\<lparr>a_calls := a_calls s @ [c]\<rparr>) else None)"

definition a_try_free :: "audio_sink \<Rightarrow> audio_sink option" where
  "a_try_free s =
     (let s1 = (if a_ref_count s \<noteq> 0 then s\<lparr>a_ref_count := a_ref_count s - 1\<rparr> else s)
      in if a_ref_count s1 = 0
         then (if a_handle s1 then map_option (a_handle_update (\<lambda>_. False)) (a_call AD_deinit Drv_deinit s1) else Some s1) \<bind>
                (\<lambda>s2. Some (s2\<lparr>a_calls := a_calls s2 @ [Drv_free]\<rparr>))
         else Some s1)"

text \<open>\<open>NULL\<close> is \<open>None\<close>; the step functions take a handle that is not \<open>NULL\<close>.\<close>

fun audio_render_free_handle :: "audio_sink option \<Rightarrow> audio_sink option option" where
  "audio_render_free_handle None = Some None"
| "audio_render_free_handle (Some s) = a_deref s \<bind> a_try_free \<bind> (\<lambda>s'. Some (Some s'))"

text \<open>
  The allocation may fail (\<open>mem\<close>), and so may \<open>init\<close> of the driver (\<open>inited\<close>). The second component is
  what is left of a handle that was given back.
\<close>

definition audio_render_alloc_handle ::
  "(audio_drv_op \<Rightarrow> bool) option \<Rightarrow> bool \<Rightarrow> bool \<Rightarrow> (audio_sink option \<times> audio_sink option) option" where
  "audio_render_alloc_handle drv mem inited =
     (case drv of
        None \<Rightarrow> Some (None, None)
      | Some p \<Rightarrow>
          if \<not> p AD_open \<or> \<not> p AD_close \<or> \<not> mem then Some (None, None)
          else a_call AD_init Drv_init \<lparr>a_ops = p, a_handle = inited, a_is_open = False, a_ref_count = 0, a_calls = []\<rparr> \<bind>
            (\<lambda>s. if inited then Some (Some (s\<lparr>a_ref_count := a_ref_count s + 1\<rparr>), None)
                 else audio_render_free_handle (Some s) \<bind> (\<lambda>left. Some (None, left))))"

definition audio_render_open :: "audio_info option \<Rightarrow> int \<Rightarrow> audio_sink option \<Rightarrow> (int \<times> audio_sink option) option" where
  "audio_render_open info ret h =
     (case (info, h) of
        (Some i, Some s) \<Rightarrow>
          a_deref s \<bind> (\<lambda>s. if \<not> a_handle s then Some (-1, Some s) else
          a_call AD_open (Drv_open i ret) s \<bind> (\<lambda>s. if ret \<noteq> 0 then Some (ret, Some s) else
          Some (ret, Some (s\<lparr>a_is_open := True, a_ref_count := a_ref_count s + 1\<rparr>))))
      | _ \<Rightarrow> Some (-1, h))"

text \<open>The requests that are forwarded while the handle is open; \<open>arg\<close> says that the argument is not \<open>NULL\<close>.\<close>

definition a_forward ::
  "audio_drv_op \<Rightarrow> audio_drv_call \<Rightarrow> bool \<Rightarrow> int \<Rightarrow> audio_sink option \<Rightarrow> (int \<times> audio_sink option) option" where
  "a_forward op c arg ret h =
     (case h of
        None \<Rightarrow> Some (-1, h)
      | Some s \<Rightarrow>
          if \<not> arg then Some (-1, h)
          else a_deref s \<bind> (\<lambda>s. if \<not> a_is_open s then Some (-1, Some s)
            else a_call op c s \<bind> (\<lambda>s. Some (ret, Some s))))"

definition audio_render_write :: "u8 list option \<Rightarrow> int \<Rightarrow> audio_sink option \<Rightarrow> (int \<times> audio_sink option) option" where
  "audio_render_write d ret h = a_forward AD_write (Drv_write (the d) ret) (d \<noteq> None) ret h"

definition audio_render_get_latency :: "bool \<Rightarrow> int \<Rightarrow> audio_sink option \<Rightarrow> (int \<times> audio_sink option) option" where
  "audio_render_get_latency arg ret h = a_forward AD_get_latency (Drv_get_latency ret) arg ret h"

definition audio_render_set_speed :: "int \<Rightarrow> audio_sink option \<Rightarrow> (int \<times> audio_sink option) option" where
  "audio_render_set_speed ret h = a_forward AD_set_speed (Drv_set_speed ret) True ret h"

definition audio_render_get_frame_info :: "bool \<Rightarrow> int \<Rightarrow> audio_sink option \<Rightarrow> (int \<times> audio_sink option) option" where
  "audio_render_get_frame_info arg ret h = a_forward AD_get_frame_info (Drv_get_frame_info ret) arg ret h"

definition audio_render_close :: "int \<Rightarrow> audio_sink option \<Rightarrow> (int \<times> audio_sink option) option" where
  "audio_render_close ret h =
     (case h of
        None \<Rightarrow> Some (-1, h)
      | Some s \<Rightarrow>
          a_deref s \<bind> (\<lambda>s. if \<not> a_is_open s then Some (-1, Some s)
            else a_call AD_close (Drv_close ret) (s\<lparr>a_is_open := False\<rparr>) \<bind> a_try_free \<bind> (\<lambda>s. Some (ret, Some s))))"

text \<open>The requests of the renderer and of the creator, on a handle that is not \<open>NULL\<close>.\<close>

datatype audio_request =
    AR_open audio_info int | AR_write "u8 list" int | AR_latency int | AR_speed int | AR_info int | AR_close int | AR_free

fun audio_sink_step :: "audio_sink \<Rightarrow> audio_request \<Rightarrow> audio_sink option" where
  "audio_sink_step s (AR_open i r) = audio_render_open (Some i) r (Some s) \<bind> snd"
| "audio_sink_step s (AR_write d r) = audio_render_write (Some d) r (Some s) \<bind> snd"
| "audio_sink_step s (AR_latency r) = audio_render_get_latency True r (Some s) \<bind> snd"
| "audio_sink_step s (AR_speed r) = audio_render_set_speed r (Some s) \<bind> snd"
| "audio_sink_step s (AR_info r) = audio_render_get_frame_info True r (Some s) \<bind> snd"
| "audio_sink_step s (AR_close r) = audio_render_close r (Some s) \<bind> snd"
| "audio_sink_step s AR_free = audio_render_free_handle (Some s) \<bind> id"

fun audio_act :: "audio_request \<Rightarrow> sink_act" where
  "audio_act (AR_open i r) = Act_start (r = 0)"
| "audio_act (AR_close r) = Act_stop"
| "audio_act AR_free = Act_give_up"
| "audio_act _ = Act_use"

text \<open>The calls a driver may expect: opened after \<open>init\<close> and while it is not, used while it is, torn down once, last.\<close>

datatype drv_phase = Drv_none | Drv_idle | Drv_on | Drv_down | Drv_gone

fun audio_drv_protocol :: "drv_phase \<Rightarrow> audio_drv_call \<Rightarrow> drv_phase option" where
  "audio_drv_protocol Drv_none Drv_init = Some Drv_idle"
| "audio_drv_protocol Drv_idle (Drv_open i r) = Some (if r = 0 then Drv_on else Drv_idle)"
| "audio_drv_protocol Drv_on (Drv_write d r) = Some Drv_on"
| "audio_drv_protocol Drv_on (Drv_get_latency r) = Some Drv_on"
| "audio_drv_protocol Drv_on (Drv_get_frame_info r) = Some Drv_on"
| "audio_drv_protocol Drv_on (Drv_set_speed r) = Some Drv_on"
| "audio_drv_protocol Drv_on (Drv_close r) = Some Drv_idle"
| "audio_drv_protocol Drv_idle Drv_deinit = Some Drv_down"
| "audio_drv_protocol Drv_down Drv_free = Some Drv_gone"
| "audio_drv_protocol _ _ = None"

definition sink_phase :: "sink_owners \<Rightarrow> drv_phase" where
  "sink_phase a = (if playing a then Drv_on else if held a then Drv_idle else Drv_gone)"

definition audio_sink_rep :: "audio_sink \<Rightarrow> sink_owners \<Rightarrow> bool" where
  "audio_sink_rep s a \<longleftrightarrow>
     a_ops s = (\<lambda>_. True) \<and> run_events audio_drv_protocol Drv_none (a_calls s) = Some (sink_phase a) \<and>
     (a_freed s \<longleftrightarrow> \<not> held a \<and> \<not> playing a) \<and> a_is_open s = playing a \<and>
     a_ref_count s = of_bool (held a) + of_bool (playing a) \<and> a_handle s = (held a \<or> playing a)"

lemmas audio_sink_ops = audio_render_open_def audio_render_write_def audio_render_get_latency_def audio_render_set_speed_def
  audio_render_get_frame_info_def audio_render_close_def a_forward_def a_call_def a_deref_def a_try_free_def

lemma audio_sink_step_rep:
  assumes "audio_sink_rep s a" "sink_ok a (audio_act e)"
  shows "\<exists>s'. audio_sink_step s e = Some s' \<and> audio_sink_rep s' (sink_next a (audio_act e))"
proof (cases e)
  case (AR_close r)
  then show ?thesis using assms
    by (cases "held a"; cases "playing a")
      (auto simp: audio_sink_ops audio_sink_rep_def run_events_append sink_phase_def a_freed_def Let_def)
next
  case AR_free
  then show ?thesis using assms
    by (cases "playing a") (auto simp: audio_sink_ops audio_sink_rep_def run_events_append sink_phase_def a_freed_def Let_def)
qed (use assms in \<open>auto simp: audio_sink_ops audio_sink_rep_def run_events_append sink_phase_def a_freed_def\<close>)

interpretation audio_sink: counted_sink audio_sink_step audio_sink_rep audio_act a_freed
proof unfold_locales
  show "\<exists>s'. audio_sink_step s e = Some s' \<and> audio_sink_rep s' (sink_next a (audio_act e))"
    if "audio_sink_rep s a" "sink_ok a (audio_act e)" for s a e
    using that by (rule audio_sink_step_rep)
  show "a_freed s \<longleftrightarrow> \<not> held a \<and> \<not> playing a" if "audio_sink_rep s a" for s a
    using that by (simp add: audio_sink_rep_def)
qed

lemma audio_alloc_rep:
  assumes "audio_render_alloc_handle (Some (\<lambda>_. True)) mem inited = Some (Some s, left)"
  shows "audio_sink_rep s fresh_sink"
  using assms by (auto simp: audio_render_alloc_handle_def a_call_def audio_sink_rep_def fresh_sink_def sink_phase_def a_freed_def
      split: if_splits Option.bind_splits)
section \<open>Video\<close>

datatype video_drv_op =
    VD_open | VD_format_support | VD_set_frame_info | VD_get_frame_buffer | VD_write | VD_get_latency | VD_get_frame_info
  | VD_clear | VD_close

datatype video_drv_call =
    Vdrv_open | Vdrv_format_support frame_type bool | Vdrv_set_frame_info frame_type nat nat nat int | Vdrv_get_frame_buffer int
  | Vdrv_write "u8 list" int | Vdrv_get_latency int | Vdrv_get_frame_info int | Vdrv_clear | Vdrv_close | Vdrv_free

record video_sink =
  v_ops :: "video_drv_op \<Rightarrow> bool"
  v_handle :: bool
  v_is_open :: bool
  v_ref_count :: int
  v_calls :: "video_drv_call list"

definition v_freed :: "video_sink \<Rightarrow> bool" where
  "v_freed s \<longleftrightarrow> Vdrv_free \<in> set (v_calls s)"

definition v_deref :: "video_sink \<Rightarrow> video_sink option" where
  "v_deref s = (if v_freed s then None else Some s)"

definition v_call :: "video_drv_op \<Rightarrow> video_drv_call \<Rightarrow> video_sink \<Rightarrow> video_sink option" where
  "v_call op c s = (if v_ops s op then Some (s\<lparr>v_calls := v_calls s @ [c]\<rparr>) else None)"

definition v_try_free :: "video_sink \<Rightarrow> video_sink option" where
  "v_try_free s =
     (let s1 = (if v_ref_count s \<noteq> 0 then s\<lparr>v_ref_count := v_ref_count s - 1\<rparr> else s)
      in if v_ref_count s1 = 0
         then (if v_handle s1 then map_option (v_handle_update (\<lambda>_. False)) (v_call VD_close Vdrv_close s1) else Some s1) \<bind>
                (\<lambda>s2. Some (s2\<lparr>v_calls := v_calls s2 @ [Vdrv_free]\<rparr>))
         else Some s1)"

fun video_render_free_handle :: "video_sink option \<Rightarrow> video_sink option option" where
  "video_render_free_handle None = Some None"
| "video_render_free_handle (Some s) = v_deref s \<bind> v_try_free \<bind> (\<lambda>s'. Some (Some s'))"

definition video_render_alloc_handle ::
  "(video_drv_op \<Rightarrow> bool) option \<Rightarrow> bool \<Rightarrow> bool \<Rightarrow> (video_sink option \<times> video_sink option) option" where
  "video_render_alloc_handle drv mem opens =
     (case drv of
        None \<Rightarrow> Some (None, None)
      | Some p \<Rightarrow>
          if \<not> p VD_open \<or> \<not> p VD_close \<or> \<not> mem then Some (None, None)
          else v_call VD_open Vdrv_open \<lparr>v_ops = p, v_handle = opens, v_is_open = False, v_ref_count = 0, v_calls = []\<rparr> \<bind>
            (\<lambda>s. if opens then Some (Some (s\<lparr>v_ref_count := v_ref_count s + 1\<rparr>), None)
                 else video_render_free_handle (Some s) \<bind> (\<lambda>left. Some (None, left))))"

definition video_render_format_supported :: "frame_type \<Rightarrow> bool \<Rightarrow> video_sink option \<Rightarrow> (bool \<times> video_sink option) option" where
  "video_render_format_supported t ret h =
     (case h of
        None \<Rightarrow> Some (False, h)
      | Some s \<Rightarrow>
          v_deref s \<bind> (\<lambda>s. if \<not> v_handle s then Some (False, Some s)
            else v_call VD_format_support (Vdrv_format_support t ret) s \<bind> (\<lambda>s. Some (ret, Some s))))"

definition video_render_open ::
  "(frame_type \<times> nat \<times> nat \<times> nat) option \<Rightarrow> int \<Rightarrow> video_sink option \<Rightarrow> (int \<times> video_sink option) option" where
  "video_render_open info ret h =
     (case (info, h) of
        (Some (t, w, ht, fps), Some s) \<Rightarrow>
          v_deref s \<bind> (\<lambda>s. if \<not> v_handle s then Some (-1, Some s) else
          v_call VD_set_frame_info (Vdrv_set_frame_info t w ht fps ret) s \<bind> (\<lambda>s. if ret \<noteq> 0 then Some (ret, Some s) else
          Some (ret, Some (s\<lparr>v_is_open := True, v_ref_count := v_ref_count s + 1\<rparr>))))
      | _ \<Rightarrow> Some (-1, h))"

definition v_forward ::
  "video_drv_op \<Rightarrow> video_drv_call \<Rightarrow> bool \<Rightarrow> int \<Rightarrow> video_sink option \<Rightarrow> (int \<times> video_sink option) option" where
  "v_forward op c arg ret h =
     (case h of
        None \<Rightarrow> Some (-1, h)
      | Some s \<Rightarrow>
          if \<not> arg then Some (-1, h)
          else v_deref s \<bind> (\<lambda>s. if \<not> v_is_open s then Some (-1, Some s)
            else v_call op c s \<bind> (\<lambda>s. Some (ret, Some s))))"

definition video_render_write :: "u8 list option \<Rightarrow> int \<Rightarrow> video_sink option \<Rightarrow> (int \<times> video_sink option) option" where
  "video_render_write d ret h = v_forward VD_write (Vdrv_write (the d) ret) (d \<noteq> None) ret h"

definition video_render_get_latency :: "bool \<Rightarrow> int \<Rightarrow> video_sink option \<Rightarrow> (int \<times> video_sink option) option" where
  "video_render_get_latency arg ret h = v_forward VD_get_latency (Vdrv_get_latency ret) arg ret h"

definition video_render_get_frame_info :: "bool \<Rightarrow> int \<Rightarrow> video_sink option \<Rightarrow> (int \<times> video_sink option) option" where
  "video_render_get_frame_info arg ret h = v_forward VD_get_frame_info (Vdrv_get_frame_info ret) arg ret h"

text \<open>The test is on \<open>get_frame_info\<close>, the call is of \<open>get_frame_buffer\<close>.\<close>

definition ESP_MEDIA_ERR_NOT_SUPPORT :: int where
  "ESP_MEDIA_ERR_NOT_SUPPORT = 0x106"

definition video_render_get_frame_buffer :: "bool \<Rightarrow> int \<Rightarrow> video_sink option \<Rightarrow> (int \<times> video_sink option) option" where
  "video_render_get_frame_buffer arg ret h =
     (case h of
        None \<Rightarrow> Some (-1, h)
      | Some s \<Rightarrow>
          if \<not> arg then Some (-1, h)
          else v_deref s \<bind> (\<lambda>s. if \<not> v_ops s VD_get_frame_info then Some (ESP_MEDIA_ERR_NOT_SUPPORT, Some s)
            else v_call VD_get_frame_buffer (Vdrv_get_frame_buffer ret) s \<bind> (\<lambda>s. Some (ret, Some s))))"

definition video_render_close :: "video_sink option \<Rightarrow> (int \<times> video_sink option) option" where
  "video_render_close h =
     (case h of
        None \<Rightarrow> Some (-1, h)
      | Some s \<Rightarrow>
          v_deref s \<bind> (\<lambda>s. if \<not> v_is_open s then Some (-1, Some s)
            else (if v_ops s VD_clear then v_call VD_clear Vdrv_clear s else Some s) \<bind>
              (\<lambda>s. v_try_free (s\<lparr>v_is_open := False\<rparr>)) \<bind> (\<lambda>s. Some (0, Some s))))"

datatype video_request =
    VR_format frame_type bool | VR_open frame_type nat nat nat int | VR_write "u8 list" int | VR_latency int | VR_info int
  | VR_frame_buffer int | VR_close | VR_free

fun video_sink_step :: "video_sink \<Rightarrow> video_request \<Rightarrow> video_sink option" where
  "video_sink_step s (VR_format t b) = video_render_format_supported t b (Some s) \<bind> snd"
| "video_sink_step s (VR_open t w h fps r) = video_render_open (Some (t, w, h, fps)) r (Some s) \<bind> snd"
| "video_sink_step s (VR_write d r) = video_render_write (Some d) r (Some s) \<bind> snd"
| "video_sink_step s (VR_latency r) = video_render_get_latency True r (Some s) \<bind> snd"
| "video_sink_step s (VR_info r) = video_render_get_frame_info True r (Some s) \<bind> snd"
| "video_sink_step s (VR_frame_buffer r) = video_render_get_frame_buffer True r (Some s) \<bind> snd"
| "video_sink_step s VR_close = video_render_close (Some s) \<bind> snd"
| "video_sink_step s VR_free = video_render_free_handle (Some s) \<bind> id"

fun video_act :: "video_request \<Rightarrow> sink_act" where
  "video_act (VR_open t w h fps r) = Act_start (r = 0)"
| "video_act VR_close = Act_stop"
| "video_act VR_free = Act_give_up"
| "video_act _ = Act_use"

fun video_drv_protocol :: "drv_phase \<Rightarrow> video_drv_call \<Rightarrow> drv_phase option" where
  "video_drv_protocol Drv_none Vdrv_open = Some Drv_idle"
| "video_drv_protocol Drv_idle (Vdrv_format_support t b) = Some Drv_idle"
| "video_drv_protocol Drv_idle (Vdrv_get_frame_buffer r) = Some Drv_idle"
| "video_drv_protocol Drv_idle (Vdrv_set_frame_info t w h fps r) = Some (if r = 0 then Drv_on else Drv_idle)"
| "video_drv_protocol Drv_on (Vdrv_format_support t b) = Some Drv_on"
| "video_drv_protocol Drv_on (Vdrv_get_frame_buffer r) = Some Drv_on"
| "video_drv_protocol Drv_on (Vdrv_write d r) = Some Drv_on"
| "video_drv_protocol Drv_on (Vdrv_get_latency r) = Some Drv_on"
| "video_drv_protocol Drv_on (Vdrv_get_frame_info r) = Some Drv_on"
| "video_drv_protocol Drv_on Vdrv_clear = Some Drv_idle"
| "video_drv_protocol Drv_idle Vdrv_close = Some Drv_down"
| "video_drv_protocol Drv_down Vdrv_free = Some Drv_gone"
| "video_drv_protocol _ _ = None"

definition video_sink_rep :: "video_sink \<Rightarrow> sink_owners \<Rightarrow> bool" where
  "video_sink_rep s a \<longleftrightarrow>
     v_ops s = (\<lambda>_. True) \<and> run_events video_drv_protocol Drv_none (v_calls s) = Some (sink_phase a) \<and>
     (v_freed s \<longleftrightarrow> \<not> held a \<and> \<not> playing a) \<and> v_is_open s = playing a \<and>
     v_ref_count s = of_bool (held a) + of_bool (playing a) \<and> v_handle s = (held a \<or> playing a)"

lemmas video_sink_ops = video_render_format_supported_def video_render_open_def video_render_write_def video_render_get_latency_def
  video_render_get_frame_info_def video_render_get_frame_buffer_def video_render_close_def v_forward_def v_call_def v_deref_def v_try_free_def

lemma video_sink_step_rep:
  assumes "video_sink_rep s a" "sink_ok a (video_act e)"
  shows "\<exists>s'. video_sink_step s e = Some s' \<and> video_sink_rep s' (sink_next a (video_act e))"
proof (cases e)
  case VR_close
  then show ?thesis using assms
    by (cases "held a"; cases "playing a")
      (auto simp: video_sink_ops video_sink_rep_def run_events_append sink_phase_def v_freed_def Let_def)
next
  case VR_free
  then show ?thesis using assms
    by (cases "playing a") (auto simp: video_sink_ops video_sink_rep_def run_events_append sink_phase_def v_freed_def Let_def)
qed (use assms in \<open>auto simp: video_sink_ops video_sink_rep_def run_events_append sink_phase_def v_freed_def\<close>)

interpretation video_sink: counted_sink video_sink_step video_sink_rep video_act v_freed
proof unfold_locales
  show "\<exists>s'. video_sink_step s e = Some s' \<and> video_sink_rep s' (sink_next a (video_act e))"
    if "video_sink_rep s a" "sink_ok a (video_act e)" for s a e
    using that by (rule video_sink_step_rep)
  show "v_freed s \<longleftrightarrow> \<not> held a \<and> \<not> playing a" if "video_sink_rep s a" for s a
    using that by (simp add: video_sink_rep_def)
qed

lemma video_alloc_rep:
  assumes "video_render_alloc_handle (Some (\<lambda>_. True)) mem opens = Some (Some s, left)"
  shows "video_sink_rep s fresh_sink"
  using assms by (auto simp: video_render_alloc_handle_def v_call_def video_sink_rep_def fresh_sink_def sink_phase_def v_freed_def
      split: if_splits Option.bind_splits)
section \<open>Properties\<close>

abbreviation sink_path :: "('e \<Rightarrow> sink_act) \<Rightarrow> 'e list \<Rightarrow> bool" where
  "sink_path act es \<equiv> path_ok (\<lambda>a e. sink_ok a (act e)) (\<lambda>a e. sink_next a (act e)) fresh_sink es"

abbreviation sink_owned :: "('e \<Rightarrow> sink_act) \<Rightarrow> 'e list \<Rightarrow> sink_owners" where
  "sink_owned act es \<equiv> foldl (\<lambda>a e. sink_next a (act e)) fresh_sink es"

text \<open>
  An audio handle and its users: whatever sequence of requests the creator and the renderer make, as long
  as only owners use the handle and it is not opened twice, no request touches a released handle, the driver
  sees its calls in the order it may expect (\<open>init\<close>, then playing between \<open>open\<close> and \<open>close\<close> only,
  \<open>deinit\<close> once), and it is torn down exactly when the creator has given the handle back and nothing
  plays: giving it back while it plays defers the release to \<open>audio_render_close\<close>.
\<close>

theorem audio_sink_lifetime:
  assumes "audio_render_alloc_handle (Some (\<lambda>_. True)) True True = Some (Some s0, None)" "sink_path audio_act es"
  shows "\<exists>s ph. run_events audio_sink_step s0 es = Some s \<and> run_events audio_drv_protocol Drv_none (a_calls s) = Some ph \<and>
    (ph = Drv_gone \<longleftrightarrow> \<not> held (sink_owned audio_act es) \<and> \<not> playing (sink_owned audio_act es)) \<and>
    (ph = Drv_on \<longleftrightarrow> playing (sink_owned audio_act es)) \<and> (a_freed s \<longleftrightarrow> ph = Drv_gone)"
proof -
  from audio_sink.lifetime [OF audio_alloc_rep [OF assms(1)] assms(2)] obtain s where
    s: "run_events audio_sink_step s0 es = Some s" "audio_sink_rep s (sink_owned audio_act es)" by blast
  then show ?thesis by (auto simp: audio_sink_rep_def sink_phase_def)
qed

theorem audio_sink_lifetime_witness:
  "\<exists>s0 s ph. audio_render_alloc_handle (Some (\<lambda>_. True)) True True = Some (Some s0, None) \<and>
    run_events audio_sink_step s0 [AR_open \<lparr>channel = 1, bits_per_sample = 16, sample_rate = 8000\<rparr> 0, AR_write [1, 2] 0, AR_free,
      AR_latency 0, AR_close 0] = Some s \<and>
    run_events audio_drv_protocol Drv_none (a_calls s) = Some ph \<and> ph = Drv_gone \<and> a_freed s"
proof -
  define s0 where "s0 = \<lparr>a_ops = \<lambda>_. True, a_handle = True, a_is_open = False, a_ref_count = 1, a_calls = [Drv_init]\<rparr>"
  have a: "audio_render_alloc_handle (Some (\<lambda>_. True)) True True = Some (Some s0, None)"
    by (simp add: audio_render_alloc_handle_def a_call_def s0_def)
  have "sink_path audio_act [AR_open \<lparr>channel = 1, bits_per_sample = 16, sample_rate = 8000\<rparr> 0, AR_write [1, 2] 0, AR_free,
      AR_latency 0, AR_close 0]"
    by (simp add: fresh_sink_def)
  from audio_sink_lifetime [OF a this] a show ?thesis by (auto simp: fresh_sink_def simp del: run_events.simps)
qed

text \<open>
  The renderer's use of a video handle is within that contract: it closes the handle before it opens it
  (\<open>av_render_video_frame_reached\<close>, once per stream) and closes it at the end (\<open>av_render_reset\<close>).
  After any number of streams, opened or refused by the driver, the creator's \<open>video_render_free_handle\<close> takes the
  driver down, once, and nothing did before.
\<close>

theorem video_sink_released:
  assumes "video_render_alloc_handle (Some (\<lambda>_. True)) True True = Some (Some s0, None)"
  shows "\<exists>s s'. run_events video_sink_step s0 (concat (map (\<lambda>(w, r). [VR_close, VR_open t w h fps r]) ss) @ [VR_close]) = Some s \<and>
    \<not> v_freed s \<and> video_sink_step s VR_free = Some s' \<and> run_events video_drv_protocol Drv_none (v_calls s') = Some Drv_gone"
proof -
  let ?es = "concat (map (\<lambda>(w, r). [VR_close, VR_open t w h fps r]) ss) @ [VR_close]"
  have p: "path_ok (\<lambda>a e. sink_ok a (video_act e)) (\<lambda>a e. sink_next a (video_act e)) a ?es \<and>
      held (foldl (\<lambda>a e. sink_next a (video_act e)) a ?es)" if "held a" for a
    using that by (induction ss arbitrary: a) (auto split: prod.splits)
  have "held fresh_sink" by (simp add: fresh_sink_def)
  note q = p [OF this]
  from video_sink.lifetime [OF video_alloc_rep [OF assms] conjunct1 [OF q]] obtain s where
    s: "run_events video_sink_step s0 ?es = Some s" "video_sink_rep s (sink_owned video_act ?es)" by blast
  from q have h: "held (sink_owned video_act ?es)" by simp
  then have "sink_ok (sink_owned video_act ?es) (video_act VR_free)" by simp
  from video_sink_step_rep [OF s(2) this] obtain s' where
    s': "video_sink_step s VR_free = Some s'" "video_sink_rep s' (sink_next (sink_owned video_act ?es) (video_act VR_free))"
    by blast
  have "\<not> playing (sink_owned video_act ?es)" by simp
  with s' s h show ?thesis by (auto simp: video_sink_rep_def sink_phase_def)
qed

theorem video_sink_released_witness:
  "\<exists>s0 s s'. video_render_alloc_handle (Some (\<lambda>_. True)) True True = Some (Some s0, None) \<and>
    run_events video_sink_step s0 (concat (map (\<lambda>(w, r). [VR_close, VR_open RAW_TYPE_RGB565 w 240 20 r]) [(320, 0), (640, -1)]) @ [VR_close]) = Some s \<and>
    \<not> v_freed s \<and> video_sink_step s VR_free = Some s' \<and> run_events video_drv_protocol Drv_none (v_calls s') = Some Drv_gone"
proof -
  define s0 where "s0 = \<lparr>v_ops = \<lambda>_. True, v_handle = True, v_is_open = False, v_ref_count = 1, v_calls = [Vdrv_open]\<rparr>"
  have a: "video_render_alloc_handle (Some (\<lambda>_. True)) True True = Some (Some s0, None)"
    by (simp add: video_render_alloc_handle_def v_call_def s0_def)
  from video_sink_released [OF a] a show ?thesis by blast
qed

text \<open>
  The contract is needed: a handle opened a second time without being closed takes a second reference, which
  nobody can give back. After the close and the release by the creator the driver is still up, a further
  \<open>audio_render_close\<close> is refused, and the handle is never freed.
\<close>

theorem sink_opened_twice_leaks:
  assumes "audio_sink_rep s fresh_sink"
  shows "\<exists>s'. run_events audio_sink_step s [AR_open i 0, AR_open i 0, AR_close 0, AR_free] = Some s' \<and>
    \<not> a_freed s' \<and> a_ref_count s' = 1 \<and> audio_render_close 0 (Some s') = Some (-1, Some s')"
  using assms by (auto simp: audio_sink_rep_def fresh_sink_def audio_sink_ops a_freed_def)

theorem sink_opened_twice_leaks_witness:
  "\<exists>s s'. run_events audio_sink_step s [AR_open \<lparr>channel = 1, bits_per_sample = 16, sample_rate = 8000\<rparr> 0,
      AR_open \<lparr>channel = 1, bits_per_sample = 16, sample_rate = 8000\<rparr> 0, AR_close 0, AR_free] = Some s' \<and>
    \<not> a_freed s' \<and> a_ref_count s' = 1 \<and> audio_render_close 0 (Some s') = Some (-1, Some s')"
proof -
  have "audio_render_alloc_handle (Some (\<lambda>_. True)) True True =
      Some (Some \<lparr>a_ops = \<lambda>_. True, a_handle = True, a_is_open = False, a_ref_count = 1, a_calls = [Drv_init]\<rparr>, None)"
    by (simp add: audio_render_alloc_handle_def a_call_def)
  from sink_opened_twice_leaks [OF audio_alloc_rep [OF this]] show ?thesis by blast
qed

text \<open>
  \<open>video_render_get_frame_buffer\<close> tests the wrong entry of the table: a driver with \<open>get_frame_info\<close> and without
  \<open>get_frame_buffer\<close> makes it call a null pointer, and one that has only
  \<open>get_frame_buffer\<close> is reported as not supporting it.
\<close>

theorem frame_buffer_wrong_guard:
  assumes "\<not> v_freed s"
  shows "(v_ops s VD_get_frame_info \<and> \<not> v_ops s VD_get_frame_buffer \<longrightarrow> video_render_get_frame_buffer True r (Some s) = None) \<and>
    (\<not> v_ops s VD_get_frame_info \<longrightarrow> video_render_get_frame_buffer True r (Some s) = Some (ESP_MEDIA_ERR_NOT_SUPPORT, Some s))"
  using assms by (simp add: video_render_get_frame_buffer_def v_deref_def v_call_def)

theorem frame_buffer_wrong_guard_witness:
  "video_render_get_frame_buffer True 0
     (Some \<lparr>v_ops = (\<lambda>op. op \<noteq> VD_get_frame_buffer), v_handle = True, v_is_open = False, v_ref_count = 1, v_calls = [Vdrv_open]\<rparr>) = None"
  using frame_buffer_wrong_guard [of "\<lparr>v_ops = (\<lambda>op. op \<noteq> VD_get_frame_buffer), v_handle = True, v_is_open = False,
    v_ref_count = 1, v_calls = [Vdrv_open]\<rparr>" 0] by (simp add: v_freed_def)

end
