(* ===== verification/Av_Packets.thy ===== *)
theory Av_Packets
  imports Data_Queue
begin

text \<open>
  The messages between the renderer and its threads (\<open>put_to_*\<close>, \<open>read_for_*\<close> and the frame buffers of
  \<open>components/av_render/src/av_render.c\<close>): a C structure copied into a data queue, followed by the media data, or by
  nothing when the data stays in a pool of the caller. The layout is that of the 32-bit targets; the padding bytes are an
  argument, \<open>base\<close> is the address of the buffer of the queue. An access outside that buffer is \<open>Crash\<close>.
\<close>

section \<open>The structures as bytes\<close>

text \<open>
  Audio data and the frames of both kinds have one layout: pts, pointer, size, end of stream, three bytes of padding.
  The \<open>int\<close> size of a frame is carried as its 32-bit pattern.
\<close>

record av_packet =
  pk_pts :: u32
  pk_data :: u32
  pk_size :: u32
  pk_eos :: bool

definition enc_packet :: "u8 list \<Rightarrow> av_packet \<Rightarrow> u8 list" where
  "enc_packet pad p = le32 (pk_pts p) @ le32 (pk_data p) @ le32 (pk_size p) @ [of_bool (pk_eos p)] @ pad"

definition dec_packet :: "u8 list \<Rightarrow> av_packet option" where
  "dec_packet bs =
     (if length bs < 16 then None
      else read_le32 bs 0 \<bind> (\<lambda>t. read_le32 bs 4 \<bind> (\<lambda>d. read_le32 bs 8 \<bind> (\<lambda>n.
        Some \<lparr>pk_pts = t, pk_data = d, pk_size = n, pk_eos = bs ! 12 \<noteq> 0\<rparr>))))"

text \<open>Video data has a key-frame flag behind the pts, and 20 bytes.\<close>

record av_video_packet =
  vp_pts :: u32
  vp_key :: bool
  vp_data :: u32
  vp_size :: u32
  vp_eos :: bool

definition enc_video_packet :: "u8 list \<Rightarrow> u8 list \<Rightarrow> av_video_packet \<Rightarrow> u8 list" where
  "enc_video_packet pad pad' p =
     le32 (vp_pts p) @ [of_bool (vp_key p)] @ pad @ le32 (vp_data p) @ le32 (vp_size p) @ [of_bool (vp_eos p)] @ pad'"

definition dec_video_packet :: "u8 list \<Rightarrow> av_video_packet option" where
  "dec_video_packet bs =
     (if length bs < 20 then None
      else read_le32 bs 0 \<bind> (\<lambda>t. read_le32 bs 8 \<bind> (\<lambda>d. read_le32 bs 12 \<bind> (\<lambda>n.
        Some \<lparr>vp_pts = t, vp_key = bs ! 4 \<noteq> 0, vp_data = d, vp_size = n, vp_eos = bs ! 16 \<noteq> 0\<rparr>))))"

section \<open>Sending\<close>

text \<open>\<open>memcpy\<close> into the buffer of the queue.\<close>

definition dq_store :: "int \<Rightarrow> u8 list \<Rightarrow> data_queue \<Rightarrow> data_queue option" where
  "dq_store pos bs q =
     (if 0 \<le> pos \<and> nat pos + length bs \<le> length (buffer q)
      then Some (q\<lparr>buffer := overwrite (buffer q) (nat pos) bs\<rparr>) else None)"

text \<open>
  The four senders share this body: \<open>hdr\<close> is the structure, \<open>n\<close> its size field, \<open>pay\<close> the bytes its pointer leads to.
\<close>

definition put_packet ::
  "(data_queue \<Rightarrow> data_queue) list \<Rightarrow> u8 list \<Rightarrow> u32 \<Rightarrow> u8 list \<Rightarrow> bool \<Rightarrow> data_queue option \<Rightarrow> int dq_result" where
  "put_packet env hdr n pay use_pool h =
     (let sz = sint (word_of_nat (length hdr) + (if use_pool then 0 else n) :: u32)
      in case data_queue_get_buffer env h sz of
           Null_handle _ \<Rightarrow> Null_handle (-1)
         | Crash \<Rightarrow> Crash
         | Blocked q \<Rightarrow> Blocked q
         | Ret None q \<Rightarrow> Ret (-1) q
         | Ret (Some pos) q \<Rightarrow>
             (case dq_store pos hdr q \<bind>
                     (\<lambda>q. if \<not> use_pool \<and> n \<noteq> 0
                          then (if length pay < unat n then None
                                else dq_store (pos + int (length hdr)) (take (unat n) pay) q)
                          else Some q) of
                None \<Rightarrow> Crash
              | Some q \<Rightarrow> data_queue_send_buffer (Some q) sz))"

definition put_to_adec ::
  "(data_queue \<Rightarrow> data_queue) list \<Rightarrow> u8 list \<Rightarrow> av_packet \<Rightarrow> u8 list \<Rightarrow> bool \<Rightarrow> data_queue option \<Rightarrow> int dq_result" where
  "put_to_adec env pad p pay use_pool h = put_packet env (enc_packet pad p) (pk_size p) pay use_pool h"

definition put_to_vdec ::
  "(data_queue \<Rightarrow> data_queue) list \<Rightarrow> u8 list \<Rightarrow> u8 list \<Rightarrow> av_video_packet \<Rightarrow> u8 list \<Rightarrow> bool \<Rightarrow> data_queue option \<Rightarrow> int dq_result" where
  "put_to_vdec env pad pad' p pay use_pool h = put_packet env (enc_video_packet pad pad' p) (vp_size p) pay use_pool h"

definition put_to_a_render ::
  "(data_queue \<Rightarrow> data_queue) list \<Rightarrow> u8 list \<Rightarrow> av_packet \<Rightarrow> u8 list \<Rightarrow> data_queue option \<Rightarrow> int dq_result" where
  "put_to_a_render env pad p pay h = put_packet env (enc_packet pad p) (pk_size p) pay False h"

definition put_to_v_render ::
  "(data_queue \<Rightarrow> data_queue) list \<Rightarrow> u8 list \<Rightarrow> av_packet \<Rightarrow> u8 list \<Rightarrow> data_queue option \<Rightarrow> int dq_result" where
  "put_to_v_render env pad p pay h = put_packet env (enc_packet pad p) (pk_size p) pay False h"

section \<open>Receiving\<close>

text \<open>
  Lock the oldest message and decode the structure at its start, or \<open>None\<close> with the code of
  \<open>data_queue_read_lock\<close>. The position of the message and its size come with it.
\<close>

definition read_packet ::
  "(data_queue \<Rightarrow> data_queue) list \<Rightarrow> (u8 list \<Rightarrow> 'h option) \<Rightarrow> data_queue option \<Rightarrow> (int \<times> int \<times> 'h) option dq_result" where
  "read_packet env dec h =
     (case data_queue_read_lock env h of
        Null_handle _ \<Rightarrow> Null_handle None
      | Crash \<Rightarrow> Crash
      | Blocked q \<Rightarrow> Blocked q
      | Ret None q \<Rightarrow> Ret None q
      | Ret (Some (pos, sz)) q \<Rightarrow>
          (case dec (drop (nat pos) (buffer q)) of
             None \<Rightarrow> Crash
           | Some p \<Rightarrow> Ret (Some (pos, sz, p)) q))"

fun dq_map :: "('a \<Rightarrow> 'b) \<Rightarrow> 'a dq_result \<Rightarrow> 'b dq_result" where
  "dq_map f (Null_handle a) = Null_handle (f a)"
| "dq_map f Crash = Crash"
| "dq_map f (Blocked q) = Blocked q"
| "dq_map f (Ret a q) = Ret (f a) q"

text \<open>
  The result is the return code and the structure handed out. A structure whose size does not match the
  message is refused; the lock on the message stays taken.
\<close>

definition read_for_adec ::
  "(data_queue \<Rightarrow> data_queue) list \<Rightarrow> u32 \<Rightarrow> bool \<Rightarrow> data_queue option \<Rightarrow> (int \<times> av_packet option) dq_result" where
  "read_for_adec env base use_pool h =
     dq_map (\<lambda>r. case r of
         None \<Rightarrow> (-1, None)
       | Some (pos, sz, p) \<Rightarrow>
           if use_pool then (0, Some p)
           else if pk_size p + 16 \<noteq> word_of_int sz then (-1, None)
           else (0, Some (p\<lparr>pk_data := base + word_of_int pos + 16\<rparr>)))
       (read_packet env dec_packet h)"

definition read_for_vdec ::
  "(data_queue \<Rightarrow> data_queue) list \<Rightarrow> u32 \<Rightarrow> bool \<Rightarrow> data_queue option \<Rightarrow> (int \<times> av_video_packet option) dq_result" where
  "read_for_vdec env base use_pool h =
     dq_map (\<lambda>r. case r of
         None \<Rightarrow> (-1, None)
       | Some (pos, sz, p) \<Rightarrow>
           if use_pool then (0, Some p)
           else if vp_size p + 20 \<noteq> word_of_int sz then (-1, None)
           else (0, Some (p\<lparr>vp_data := base + word_of_int pos + 20\<rparr>)))
       (read_packet env dec_video_packet h)"

definition read_for_a_render ::
  "(data_queue \<Rightarrow> data_queue) list \<Rightarrow> u32 \<Rightarrow> data_queue option \<Rightarrow> (int \<times> av_packet option) dq_result" where
  "read_for_a_render env base h =
     dq_map (\<lambda>r. case r of
         None \<Rightarrow> (-1, None)
       | Some (pos, sz, p) \<Rightarrow>
           if pk_size p + 16 \<noteq> word_of_int sz then (-1, None)
           else (0, Some (p\<lparr>pk_data := base + word_of_int pos + 16\<rparr>)))
       (read_packet env dec_packet h)"

text \<open>A frame that the decoder wrote in place carries its own pointer.\<close>

definition read_for_v_render ::
  "(data_queue \<Rightarrow> data_queue) list \<Rightarrow> u32 \<Rightarrow> data_queue option \<Rightarrow> (int \<times> av_packet option) dq_result" where
  "read_for_v_render env base h =
     dq_map (\<lambda>r. case r of
         None \<Rightarrow> (-1, None)
       | Some (pos, sz, p) \<Rightarrow>
           (let b = base + word_of_int pos in
            if pk_data p > b \<and> pk_data p + pk_size p = b + word_of_int sz then (0, Some p)
            else if pk_size p + 16 \<noteq> word_of_int sz then (-1, None)
            else (0, Some (p\<lparr>pk_data := b + 16\<rparr>))))
       (read_packet env dec_packet h)"

section \<open>Codecs\<close>

lemma dec_enc_packet:
  "length pad = 3 \<Longrightarrow> dec_packet (enc_packet pad p @ rest) = Some p"
proof -
  assume pad: "length pad = 3"
  let ?bs = "enc_packet pad p @ rest"
  have r: "read_le32 ?bs 0 = Some (pk_pts p)" "read_le32 ?bs 4 = Some (pk_data p)" "read_le32 ?bs 8 = Some (pk_size p)"
    using read_le32_append [of "[]" "pk_pts p"] read_le32_append [of "le32 (pk_pts p)" "pk_data p"]
      read_le32_append [of "le32 (pk_pts p) @ le32 (pk_data p)" "pk_size p"] by (simp_all add: enc_packet_def)
  have "?bs ! 12 = of_bool (pk_eos p)" by (simp add: enc_packet_def nth_append)
  with pad r show ?thesis by (simp add: dec_packet_def) (simp add: enc_packet_def)
qed

lemma dec_enc_video_packet:
  "length pad = 3 \<Longrightarrow> length pad' = 3 \<Longrightarrow> dec_video_packet (enc_video_packet pad pad' p @ rest) = Some p"
proof -
  assume pad: "length pad = 3" "length pad' = 3"
  let ?bs = "enc_video_packet pad pad' p @ rest"
  have r: "read_le32 ?bs 0 = Some (vp_pts p)" "read_le32 ?bs 8 = Some (vp_data p)" "read_le32 ?bs 12 = Some (vp_size p)"
    using read_le32_append [of "[]" "vp_pts p"] read_le32_append [of "le32 (vp_pts p) @ [of_bool (vp_key p)] @ pad" "vp_data p"]
      read_le32_append [of "le32 (vp_pts p) @ [of_bool (vp_key p)] @ pad @ le32 (vp_data p)" "vp_size p"] pad
    by (simp_all add: enc_video_packet_def)
  have "?bs ! 4 = of_bool (vp_key p)" "?bs ! 16 = of_bool (vp_eos p)"
    using pad by (simp_all add: enc_video_packet_def nth_append)
  with pad r show ?thesis by (simp add: dec_video_packet_def) (simp add: enc_video_packet_def)
qed

lemma length_enc [simp]:
  "length (enc_packet pad p) = 13 + length pad"
  "length (enc_video_packet pad pad' v) = 14 + length pad + length pad'"
  by (simp_all add: enc_packet_def enc_video_packet_def)

text \<open>What sending and receiving need of a structure: a fixed size, and that its bytes determine it.\<close>

locale packet_codec =
  fixes enc :: "'e \<Rightarrow> u8 list" and dec :: "u8 list \<Rightarrow> 'h option" and val :: "'e \<Rightarrow> 'h" and ok :: "'e \<Rightarrow> bool" and head :: nat
  assumes dec_enc: "ok e \<Longrightarrow> dec (enc e @ rest) = Some (val e)"
    and length_head: "ok e \<Longrightarrow> length (enc e) = head"
    and head_pos: "0 < head"
begin

lemma put_open:
  assumes o: "dq_open q fs" and e: "ok e" and p: "put_packet [] (enc e) n pay False (Some q) = Ret 0 q1"
  shows "dq_open q1 (fs @ [enc e @ take (unat n) pay]) \<and> unat n \<le> length pay \<and> head + unat n < 2 ^ 31"
proof -
  define sz where "sz = sint (word_of_nat head + n :: u32)"
  have p': "put_packet [] (enc e) n pay False (Some q) =
      (case data_queue_get_buffer [] (Some q) sz of
         Null_handle _ \<Rightarrow> Null_handle (-1) | Crash \<Rightarrow> Crash | Blocked q \<Rightarrow> Blocked q | Ret None q \<Rightarrow> Ret (-1) q
       | Ret (Some pos) q2 \<Rightarrow> (case dq_store pos (enc e) q2 \<bind> (\<lambda>q. if n \<noteq> 0 then (if length pay < unat n then None
              else dq_store (pos + int head) (take (unat n) pay) q) else Some q) of
            None \<Rightarrow> Crash | Some q \<Rightarrow> data_queue_send_buffer (Some q) sz))"
    unfolding put_packet_def sz_def Let_def length_head [OF e] if_False not_False_eq_True simp_thms by (rule TrueI)
  obtain pos q2 where
    g: "data_queue_get_buffer [] (Some q) sz = Ret (Some pos) q2"
    and r: "(case dq_store pos (enc e) q2 \<bind> (\<lambda>q. if n \<noteq> 0 then (if length pay < unat n then None
              else dq_store (pos + int head) (take (unat n) pay) q) else Some q) of
            None \<Rightarrow> Crash | Some q \<Rightarrow> data_queue_send_buffer (Some q) sz) = Ret 0 q1"
    using p unfolding p' by (cases "data_queue_get_buffer [] (Some q) sz")
      (auto simp del: data_queue_get_buffer.simps data_queue_send_buffer.simps split: option.splits)
  from g have l: "get_buffer_loop [] (sz + 4) (q\<lparr>write_locked := True\<rparr>) = Ret (Some pos) q2"
    by (auto simp: DATA_Q_ALLOC_HEAD_SIZE_def Let_def split: if_splits)
  have "dq_rep (q\<lparr>write_locked := True\<rparr>) fs" "\<not> quit q" using o by (simp_all add: dq_open_def)
  note k = get_buffer_Nil [OF this(1) l]
  let ?f = "enc e @ take (unat n) pay"
  from r have n: "unat n \<le> length pay" by (cases "n = 0") (auto split: option.splits Option.bind_splits if_splits)
  then have len: "length ?f = head + unat n" using e by (simp add: length_head)
  from k(1) have b: "length (buffer q2) < 2 ^ 31" by (auto simp: dq_rep_def)
  have store: "0 \<le> pos \<and> nat pos + head \<le> length (buffer q2)"
    "n \<noteq> 0 \<Longrightarrow> nat pos + head + unat n \<le> length (buffer q2)"
    using r n e by (auto simp: dq_store_def length_head length_overwrite nat_add_distrib split: option.splits Option.bind_splits if_splits)
  then have fit: "nat pos + length ?f \<le> length (buffer q2)" unfolding len by (cases "n = 0") (simp_all add: add.assoc)
  have sz: "sz = int (length ?f)"
  proof -
    have "head + unat n < 2 ^ 31" using fit b unfolding len by simp
    moreover have "word_of_nat head + n = (word_of_nat (head + unat n) :: u32)" by simp
    ultimately show ?thesis unfolding sz_def len
      by (simp add: signed_of_nat signed_take_bit_int_eq_self del: of_nat_add)
  qed
  have ow: "overwrite (overwrite (buffer q2) (nat pos) (enc e)) (nat pos + head) (take (unat n) pay) = overwrite (buffer q2) (nat pos) ?f"
    using store(1) n e by (simp add: overwrite_def length_head min_def ac_simps)
  have "overwrite (buffer q2) (nat pos) ?f = overwrite (buffer q2) (nat pos) (enc e)" if "n = 0"
    using that by simp
  with r ow store n e have send: "dq_fill_send pos ?f q2 = Ret 0 q1"
    by (cases "n = 0") (auto simp: dq_store_def dq_fill_send_def length_head length_overwrite sz len nat_add_distrib
        split: option.splits Option.bind_splits if_splits simp del: data_queue_send_buffer.simps)
  have ne: "?f \<noteq> []" using head_pos length_head [OF e] by auto
  have "dq_writable q2 (int (length ?f) + 4)" using k(2) sz by simp
  from send_rep [OF k(1) this ne] send k(3) k(6) \<open>\<not> quit q\<close> have "dq_open q1 (fs @ [?f])"
    by (auto simp: dq_open_def)
  moreover have "head + unat n < 2 ^ 31" using fit b unfolding len by simp
  ultimately show ?thesis using n by simp
qed

lemma read_front:
  assumes o: "dq_open q ((enc e @ pay) # fs)" and e: "ok e"
  shows "read_packet env dec (Some q) = Ret (Some (rp q + 4, int (head + length pay), val e)) (q\<lparr>user := user q + 1\<rparr>)"
    and "take (length pay) (drop (nat (rp q) + 4 + head) (buffer q)) = pay"
    and "0 \<le> rp q \<and> nat (rp q) + 4 + head + length pay < 2 ^ 31"
proof -
  have r: "dq_rep q ((enc e @ pay) # fs)" using o by (simp add: dq_open_def)
  note h = header_front [OF r]
  have b: "length (buffer q) < 2 ^ 31" "dq_size q = int (length (buffer q))" using r by (auto simp: dq_rep_def)
  let ?p = "nat (rp q + 4)"
  have p: "?p = nat (rp q) + 4" using h(4) by (simp add: nat_add_distrib)
  have t: "take (head + length pay) (drop ?p (buffer q)) = enc e @ pay"
    using h(5) e by (simp add: seg_def length_head)
  then have fit: "?p + (head + length pay) \<le> length (buffer q)"
  proof -
    have "length (take (head + length pay) (drop ?p (buffer q))) = head + length pay" using t e by (simp add: length_head)
    then show ?thesis using head_pos by simp
  qed
  with b h(4) p show "0 \<le> rp q \<and> nat (rp q) + 4 + head + length pay < 2 ^ 31" by simp
  have "take (length pay) (drop head (take (head + length pay) (drop ?p (buffer q)))) = pay"
    using e by (simp add: t length_head)
  then show "take (length pay) (drop (nat (rp q) + 4 + head) (buffer q)) = pay"
    by (simp add: p drop_take add.commute add.left_commute)
  have "drop ?p (buffer q) = enc e @ pay @ drop (head + length pay) (drop ?p (buffer q))"
    using append_take_drop_id [of "head + length pay" "drop ?p (buffer q)"] t by simp
  then have "dec (drop ?p (buffer q)) = Some (val e)" using dec_enc [OF e] by metis
  with read_lock_front [OF o, of env] e show
    "read_packet env dec (Some q) = Ret (Some (rp q + 4, int (head + length pay), val e)) (q\<lparr>user := user q + 1\<rparr>)"
    by (simp add: read_packet_def length_head del: data_queue_read_lock.simps)
qed

end

interpretation packet: packet_codec "\<lambda>(pad, p). enc_packet pad p" dec_packet snd "\<lambda>(pad, p). length pad = 3" 16
  by unfold_locales (auto simp: dec_enc_packet)

interpretation video_packet: packet_codec "\<lambda>(pad, pad', p). enc_video_packet pad pad' p" dec_video_packet
  "\<lambda>(pad, pad', p). p" "\<lambda>(pad, pad', p). length pad = 3 \<and> length pad' = 3" 20
  by unfold_locales (auto simp: dec_enc_video_packet)
section \<open>Frames decoded in place\<close>

text \<open>
  \<open>av_render_fetch_vid_fb\<close> reserves room for a frame structure, the image and its alignment, and stores the
  aligned address and a size of 0 in the structure; \<open>fb_frame\<close> is the position of the structure in the
  queue. \<open>vr\<close> says that there is a video render resource.
\<close>

definition align_up :: "u32 \<Rightarrow> int \<Rightarrow> u32" where
  "align_up b align = (b + word_of_int (align - 1)) AND NOT (word_of_int (align - 1))"

definition av_render_fetch_vid_fb ::
  "(data_queue \<Rightarrow> data_queue) list \<Rightarrow> u32 \<Rightarrow> int \<Rightarrow> int \<Rightarrow> bool \<Rightarrow> int option \<Rightarrow> data_queue option \<Rightarrow>
   (int option \<times> u32) dq_result" where
  "av_render_fetch_vid_fb env base align n vr fb h =
     (if \<not> vr \<or> n = 0 then (case h of None \<Rightarrow> Null_handle (fb, 0) | Some q \<Rightarrow> Ret (fb, 0) q)
      else case data_queue_get_buffer env h (16 + n + align) of
             Null_handle _ \<Rightarrow> Null_handle (fb, 0)
           | Crash \<Rightarrow> Crash
           | Blocked q \<Rightarrow> Blocked q
           | Ret None q \<Rightarrow> Ret (fb, 0) q
           | Ret (Some pos) q \<Rightarrow>
               let addr = align_up (base + word_of_int pos + 16) align in
               (case dq_store (pos + 4) (le32 addr @ le32 0) q of
                  None \<Rightarrow> Crash
                | Some q \<Rightarrow> Ret (Some pos, addr) q))"

text \<open>
  In this mode \<open>av_render_video_frame_reached\<close> replaces the structure by that of the frame, except for the pointer.
\<close>

definition fb_frame_update :: "u8 list \<Rightarrow> av_packet \<Rightarrow> int \<Rightarrow> data_queue \<Rightarrow> data_queue option" where
  "fb_frame_update pad p pos q =
     read_le32 (buffer q) (nat (pos + 4)) \<bind> (\<lambda>addr. dq_store pos (enc_packet pad (p\<lparr>pk_data := addr\<rparr>)) q)"

text \<open>A wrong address is only logged; \<open>data_queue_send_buffer\<close> of 0 bytes gives the reservation back.\<close>

definition av_render_release_vid_fb ::
  "u32 \<Rightarrow> u32 \<Rightarrow> bool \<Rightarrow> bool \<Rightarrow> int option \<Rightarrow> data_queue option \<Rightarrow> int dq_result" where
  "av_render_release_vid_fb base addr drop_frame vr fb h =
     (if \<not> vr then (case h of None \<Rightarrow> Null_handle 0 | Some q \<Rightarrow> Ret 0 q)
      else if drop_frame then data_queue_send_buffer h 0
      else (case (fb, h) of
              (Some pos, Some q) \<Rightarrow>
                (case read_le32 (buffer q) (nat (pos + 8)) of
                   None \<Rightarrow> Crash
                 | Some n \<Rightarrow> data_queue_send_buffer h (sint (n + (addr - (base + word_of_int pos)))))
            | _ \<Rightarrow> Crash))"

section \<open>Alignment\<close>

lemma and_not_mask: "x AND NOT (mask k) = x - take_bit k (x :: u32)"
proof -
  have "push_bit k (drop_bit k x) = x AND NOT (mask k)"
    by (rule bit_word_eqI) (auto simp: bit_simps)
  moreover have "push_bit k (drop_bit k x) + take_bit k x = x" by (rule bits_ident)
  ultimately show ?thesis by (metis add_diff_cancel_right')
qed

lemma unat_align_down: "unat (x AND NOT (mask k)) = unat (x :: u32) - unat x mod 2 ^ k"
proof -
  have t: "unat (take_bit k x) = unat x mod 2 ^ k" by (simp only: unsigned_take_bit_eq) (simp add: take_bit_eq_mod)
  have "take_bit k x \<le> x" by (simp add: word_le_nat_alt t)
  then show ?thesis by (simp add: and_not_mask unat_sub t)
qed

lemma unat_align_up:
  assumes "k < 31" "unat b + 2 ^ k \<le> 2 ^ 32"
  shows "unat b \<le> unat (align_up b (2 ^ k))" and "unat (align_up b (2 ^ k)) < unat b + 2 ^ k"
    and "unat (align_up b (2 ^ k)) mod 2 ^ k = 0"
proof -
  have m: "word_of_int (2 ^ k - 1) = (mask k :: u32)" by (simp add: mask_eq_exp_minus_1)
  have mk: "unat (mask k :: u32) = 2 ^ k - 1"
  proof -
    have "unat (mask k :: u32) = unat (word_of_nat (mask k) :: u32)" by (simp only: of_nat_mask_eq)
    also have "\<dots> = mask k" using assms(1) by (simp only: unsigned_of_nat take_bit_of_mask) (simp add: min_def)
    finally show ?thesis by (simp add: mask_eq_exp_minus_1)
  qed
  have "unat b + unat (mask k :: u32) < 2 ^ LENGTH(32)" using assms(2) unfolding mk by simp
  then have s: "unat (b + mask k) = unat b + (2 ^ k - 1)" using unat_add_lem [THEN iffD1] mk by metis
  have a: "unat (align_up b (2 ^ k)) = unat b + (2 ^ k - 1) - (unat b + (2 ^ k - 1)) mod 2 ^ k"
    unfolding align_up_def m unat_align_down s ..
  have lt: "(unat b + (2 ^ k - 1)) mod 2 ^ k < 2 ^ k" by simp
  have p: "(0::nat) < 2 ^ k" by simp
  show "unat b \<le> unat (align_up b (2 ^ k))" "unat (align_up b (2 ^ k)) < unat b + 2 ^ k"
    using lt p unfolding a by linarith+
  show "unat (align_up b (2 ^ k)) mod 2 ^ k = 0" unfolding a by (metis mod_0 mod_mult_self1_is_0 minus_mod_eq_mult_div mult.commute)
qed
section \<open>Writing inside a reservation\<close>

text \<open>\<open>q\<close> differs from \<open>q0\<close> only in the \<open>T\<close> bytes at \<open>p\<close>.\<close>

definition dq_inside :: "nat \<Rightarrow> nat \<Rightarrow> data_queue \<Rightarrow> data_queue \<Rightarrow> bool" where
  "dq_inside p T q0 q \<longleftrightarrow>
     q = q0\<lparr>buffer := buffer q\<rparr> \<and> length (buffer q) = length (buffer q0) \<and>
     take p (buffer q) = take p (buffer q0) \<and> drop (p + T) (buffer q) = drop (p + T) (buffer q0)"

lemma dq_inside_refl: "dq_inside p T q q"
  by (simp add: dq_inside_def)

lemma take_overwrite: "p \<le> a \<Longrightarrow> a + length bs \<le> length b \<Longrightarrow> take p (overwrite b a bs) = take p b"
  by (simp add: overwrite_def min_def)

lemma drop_overwrite: "a + length bs \<le> p \<Longrightarrow> a + length bs \<le> length b \<Longrightarrow> drop p (overwrite b a bs) = drop p b"
  by (simp add: overwrite_def min_def)

lemma store_inside:
  assumes "dq_inside p T q0 q" "p \<le> a" "a + length bs \<le> p + T" "p + T \<le> length (buffer q0)"
  shows "dq_store (int a) bs q = Some (q\<lparr>buffer := overwrite (buffer q) a bs\<rparr>)"
    and "dq_inside p T q0 (q\<lparr>buffer := overwrite (buffer q) a bs\<rparr>)"
proof -
  have l: "length (buffer q) = length (buffer q0)" using assms(1) by (simp add: dq_inside_def)
  with assms show "dq_store (int a) bs q = Some (q\<lparr>buffer := overwrite (buffer q) a bs\<rparr>)" by (simp add: dq_store_def)
  have "q\<lparr>buffer := overwrite (buffer q) a bs\<rparr> = q0\<lparr>buffer := overwrite (buffer q) a bs\<rparr>"
    using assms(1) unfolding dq_inside_def by (metis data_queue.update_convs(1) data_queue.surjective)
  with assms l show "dq_inside p T q0 (q\<lparr>buffer := overwrite (buffer q) a bs\<rparr>)"
    by (simp add: dq_inside_def take_overwrite drop_overwrite length_overwrite)
qed

lemma inside_overwrite:
  assumes "dq_inside p T q0 q" "p + T \<le> length (buffer q0)"
  shows "q = q0\<lparr>buffer := overwrite (buffer q0) p (take T (drop p (buffer q)))\<rparr>"
proof -
  have l: "length (buffer q) = length (buffer q0)" "take p (buffer q) = take p (buffer q0)"
    "drop (p + T) (buffer q) = drop (p + T) (buffer q0)" "q = q0\<lparr>buffer := buffer q\<rparr>"
    using assms(1) by (simp_all add: dq_inside_def)
  have "overwrite (buffer q0) p (take T (drop p (buffer q))) = take p (buffer q) @ take T (drop p (buffer q)) @ drop (p + T) (buffer q)"
    using l assms(2) by (simp add: overwrite_def min_def)
  also have "\<dots> = buffer q" by (metis append_take_drop_id drop_drop add.commute)
  finally show ?thesis using l(4) by simp
qed

lemma send_inside:
  assumes r: "dq_rep q0 fs" and w: "dq_writable q0 (int T + 4)" and i: "dq_inside p T q0 q" and p: "int p = wp q0 + 4" and T: "0 < T"
  shows "\<exists>q1. data_queue_send_buffer (Some q) (int T) = Ret 0 q1 \<and> dq_rep q1 (fs @ [take T (drop p (buffer q))]) \<and>
    quit q1 = quit q0 \<and> wp q1 = wp q0 + int T + 4"
proof -
  have fit: "p + T \<le> length (buffer q0)"
    using available_fits [OF r] w p r by (auto simp: dq_writable_def dq_rep_def)
  let ?f = "take T (drop p (buffer q))"
  have len: "length ?f = T" using fit i by (simp add: dq_inside_def)
  then have ne: "?f \<noteq> []" using T by auto
  have "dq_writable q0 (int (length ?f) + 4)" using w len by simp
  from send_rep [OF r this ne] obtain q1 where
    q1: "dq_fill_send (wp q0 + 4) ?f q0 = Ret 0 q1" "dq_rep q1 (fs @ [?f])" "quit q1 = quit q0" by blast
  have "dq_fill_send (wp q0 + 4) ?f q0 = data_queue_send_buffer (Some q) (int T)"
    unfolding dq_fill_send_def len using inside_overwrite [OF i fit] p [symmetric] by (simp del: data_queue_send_buffer.simps)
  moreover have "wp q1 = wp q0 + int T + 4"
    using q1(1) T unfolding dq_fill_send_def len
    by (auto simp: DATA_Q_ALLOC_HEAD_SIZE_def Let_def split: if_splits)
  ultimately show ?thesis using q1 by (intro exI [of _ q1]) (simp del: data_queue_send_buffer.simps)
qed

text \<open>A message that is alone in the queue lies right before the write position.\<close>

lemma single_front:
  assumes "dq_open q [f]" "int (length f) + 4 \<le> wp q"
  shows "rp q = wp q - int (length f) - 4"
proof -
  have r: "dq_rep q [f]" using assms by (simp add: dq_open_def)
  have "read_position q = rp q" "filled q = int (length f) + 4"
    using header_front(2) [OF r] dq_rep_filled [OF r] by simp_all
  with assms(2) show ?thesis by (auto simp: read_position_def split: if_splits)
qed

lemma fetch_reserves:
  assumes o: "dq_open q fs" and n: "0 < n" "0 \<le> align"
    and f: "av_render_fetch_vid_fb [] base align n True fb (Some q) = Ret (Some pos, addr) q1" "addr \<noteq> 0"
  shows "\<exists>q0. dq_open q0 fs \<and> dq_writable q0 (20 + n + align) \<and> pos = wp q0 + 4 \<and> length (buffer q0) = length (buffer q) \<and>
    addr = align_up (base + word_of_int pos + 16) align \<and> dq_store (pos + 4) (le32 addr @ le32 0) q0 = Some q1"
proof -
  obtain q0 where g: "data_queue_get_buffer [] (Some q) (16 + n + align) = Ret (Some pos) q0"
    and s: "addr = align_up (base + word_of_int pos + 16) align" "dq_store (pos + 4) (le32 addr @ le32 0) q0 = Some q1"
    using f n unfolding av_render_fetch_vid_fb_def
    by (cases "data_queue_get_buffer [] (Some q) (16 + n + align)")
      (auto simp: Let_def simp del: data_queue_get_buffer.simps split: option.splits)
  from g have l: "get_buffer_loop [] (16 + n + align + 4) (q\<lparr>write_locked := True\<rparr>) = Ret (Some pos) q0"
    by (auto simp: DATA_Q_ALLOC_HEAD_SIZE_def Let_def split: if_splits)
  have "dq_rep (q\<lparr>write_locked := True\<rparr>) fs" "\<not> quit q" using o by (simp_all add: dq_open_def)
  note k = get_buffer_Nil [OF this(1) l]
  have "length (buffer q0) = length (buffer q)"
    using l by (auto simp: get_buffer_loop.simps Let_def split: if_splits)
  with k s show ?thesis by (auto simp: dq_open_def add.commute add.left_commute)
qed
lemma split_at: "take m (drop a xs) = ys \<Longrightarrow> xs = take a xs @ ys @ drop (a + m) xs"
  by (metis append_take_drop_id drop_drop add.commute)

lemma packet_size_at:
  assumes "take 16 (drop a b) = enc_packet pad p" "a \<le> length b"
  shows "read_le32 b (a + 8) = Some (pk_size p)"
proof -
  define X Y where "X = take a b" and "Y = drop (a + 16) b"
  from split_at [OF assms(1)] have b: "b = X @ enc_packet pad p @ Y" by (simp add: X_def Y_def)
  have "length (X @ le32 (pk_pts p) @ le32 (pk_data p)) = a + 8" using assms(2) by (simp add: X_def)
  with read_le32_append [of "X @ le32 (pk_pts p) @ le32 (pk_data p)" "pk_size p" "[of_bool (pk_eos p)] @ pad @ Y"] show ?thesis
    unfolding b by (simp add: enc_packet_def)
qed

text \<open>The addresses: the image starts \<open>off\<close> bytes behind the structure, at least its size and less than its size and the alignment.\<close>

lemma in_place_address:
  assumes "P + 16 + 2 ^ k \<le> cap" "unat base + cap \<le> 2 ^ 32" "k < 31"
    and addr: "addr = align_up (base + word_of_nat P + 16) (2 ^ k)"
    and off_def: "off = unat addr - (unat base + P)"
  shows "unat (base + word_of_nat P) = unat base + P" and "unat addr = unat base + P + off" and "16 \<le> off"
    and "off < 16 + 2 ^ k" and "unat addr mod 2 ^ k = 0" and "addr - (base + word_of_nat P) = word_of_nat off"
proof -
  have lt: "unat base + P + 16 + 2 ^ k \<le> 2 ^ 32" using assms(1,2) by simp
  have "(0::nat) < 2 ^ k" by simp
  with lt have lt': "unat base + P + 16 < 2 ^ 32" by linarith
  then show b: "unat (base + word_of_nat P) = unat base + P"
    by (simp add: unat_word_ariths unsigned_of_nat take_bit_nat_eq_self)
  then have b16: "unat (base + word_of_nat P + 16) = unat base + P + 16" using lt' by (simp add: unat_word_ariths)
  with lt have "unat (base + word_of_nat P + 16) + 2 ^ k \<le> 2 ^ 32" by simp
  note a = unat_align_up [OF assms(3) this, folded addr, unfolded b16]
  have off: "unat addr = unat base + P + off" "16 \<le> off" "off < 16 + 2 ^ k" using a by (simp_all add: off_def)
  then have "off < 2 ^ 32" using lt by linarith
  then have t: "take_bit 32 off = off" by (rule take_bit_nat_eq_self)
  show "addr - (base + word_of_nat P) = word_of_nat off"
    by (rule word_unat_eq_iff [THEN iffD2])
      (use off b t in \<open>simp add: unat_sub word_le_nat_alt unsigned_of_nat\<close>)
  show "unat addr = unat base + P + off" "16 \<le> off" "off < 16 + 2 ^ k" "unat addr mod 2 ^ k = 0"
    by (rule off, rule off, rule off, rule a(3))
qed

text \<open>The three writes: pointer and size, image, structure.\<close>

lemma in_place_bytes:
  assumes "P + off + length img \<le> length b" "16 \<le> off" "length h = 16"
    and b1: "b1 = overwrite b (P + 4) (le32 addr @ le32 0)"
    and b2: "b2 = overwrite b1 (P + off) img" and b3: "b3 = overwrite b2 P h"
  shows "read_le32 b2 (P + 4) = Some addr" and "take 16 (drop P b3) = h"
    and "take (length img) (drop (P + off) b3) = img" and "length b3 = length b"
proof -
  have len: "length b1 = length b" "length b2 = length b"
    using assms(1,2) by (simp_all add: length_overwrite b1 b2)
  then show len3: "length b3 = length b" using assms(1-3) by (simp add: length_overwrite b3)
  have "take (P + 8 - (P + 4)) (drop (P + 4) b2) = take (P + 8 - (P + 4)) (drop (P + 4) b1)"
    unfolding b2 using assms(1,2) len by (intro overwrite_other) auto
  also have "\<dots> = take 4 (take 8 (drop (P + 4) b1))" by (simp add: min_def)
  also have "take 8 (drop (P + 4) b1) = le32 addr @ le32 0"
    using overwrite_at [of "P + 4" "le32 addr @ le32 0" b] assms(1,2) by (simp add: b1)
  finally have "take 4 (drop (P + 4) b2) = le32 addr" by simp
  from split_at [OF this] have "b2 = take (P + 4) b2 @ le32 addr @ drop (P + 4 + 4) b2" .
  then show "read_le32 b2 (P + 4) = Some addr"
    using read_le32_append [of "take (P + 4) b2" addr "drop (P + 4 + 4) b2"] assms(1,2) len by (simp add: min_def)
  show "take 16 (drop P b3) = h" using overwrite_at [of P h b2] assms(1-3) len by (simp add: b3)
  have "take (P + off + length img - (P + off)) (drop (P + off) b3) = take (P + off + length img - (P + off)) (drop (P + off) b2)"
    unfolding b3 using assms(1-3) len by (intro overwrite_other) auto
  then show "take (length img) (drop (P + off) b3) = img"
    using overwrite_at [of "P + off" img b1] assms(1) len by (simp add: b2)
qed

lemma in_place_release:
  assumes o: "dq_open q0 fs" and w: "dq_writable q0 (20 + n + 2 ^ k)" and P: "int P = wp q0 + 4"
    and n: "0 < n" "int (length img) \<le> n" and k: "k \<le> 7" and pad: "length pad = 3"
    and base: "unat base + length (buffer q0) \<le> 2 ^ 32"
    and addr: "addr = align_up (base + word_of_nat P + 16) (2 ^ k)"
    and st: "dq_store (int (P + 4)) (le32 addr @ le32 0) q0 = Some q1"
    and sz: "pk_size p = word_of_nat (length img)"
  shows "\<exists>off q2 q3 q4 pay. dq_store (int (unat addr) - int (unat base)) img q1 = Some q2 \<and>
    fb_frame_update pad p (int P) q2 = Some q3 \<and> av_render_release_vid_fb base addr False True (Some (int P)) (Some q3) = Ret 0 q4 \<and>
    dq_open q4 (fs @ [enc_packet pad (p\<lparr>pk_data := addr\<rparr>) @ pay]) \<and> wp q4 = int P + 16 + int (length pay) \<and>
    unat addr = unat base + P + off \<and> 16 \<le> off \<and> unat addr mod 2 ^ k = 0 \<and> 16 + length pay = off + length img \<and>
    unat (base + word_of_nat P) = unat base + P \<and> drop (off - 16) pay = img"
proof -
  have r: "dq_rep q0 fs" and nq: "\<not> quit q0" using o by (simp_all add: dq_open_def)
  have sizes: "dq_size q0 = int (length (buffer q0))" "length (buffer q0) < 2 ^ 31" using r by (auto simp: dq_rep_def)
  have room: "int P + (16 + n + 2 ^ k) \<le> int (length (buffer q0))"
    using w available_fits [OF r] P sizes by (simp add: dq_writable_def)
  then have "int (P + 16 + 2 ^ k) \<le> int (length (buffer q0))" using n by simp
  then have cap: "P + 16 + 2 ^ k \<le> length (buffer q0)" by (simp only: of_nat_le_iff)
  have k': "k < 31" using k by simp
  define off where "off = unat addr - (unat base + P)"
  note b = in_place_address(1) [OF cap base k' addr off_def] and off = in_place_address(2-6) [OF cap base k' addr off_def]
  define T where "T = off + length img"
  have "int off < int (16 + 2 ^ k)" using off(3) by (simp only: of_nat_less_iff)
  then have Tn: "int T \<le> 16 + n + 2 ^ k" using n by (simp add: T_def)
  then have fit: "P + T \<le> length (buffer q0)" using room by simp
  have T16: "16 \<le> T" using off by (simp add: T_def)
  let ?h = "enc_packet pad (p\<lparr>pk_data := addr\<rparr>)"
  have hl: "length ?h = 16" using pad by simp
  define b1 where "b1 = overwrite (buffer q0) (P + 4) (le32 addr @ le32 0)"
  define b2 where "b2 = overwrite b1 (P + off) img"
  define b3 where "b3 = overwrite b2 P ?h"
  define q2 where "q2 = q0\<lparr>buffer := b2\<rparr>"
  define q3 where "q3 = q0\<lparr>buffer := b3\<rparr>"
  have q1: "q1 = q0\<lparr>buffer := b1\<rparr>" "dq_inside P T q0 q1"
    using store_inside [OF dq_inside_refl [of P T q0], of "P + 4" "le32 addr @ le32 0"] st fit T16 by (auto simp: b1_def)
  have s2: "dq_store (int (P + off)) img q1 = Some q2" "dq_inside P T q0 q2"
    using store_inside [OF q1(2), of "P + off" img] fit by (auto simp: T_def q1(1) q2_def b2_def)
  have s3: "dq_store (int P) ?h q2 = Some q3" "dq_inside P T q0 q3"
    using store_inside [OF s2(2), of P ?h] fit T16 hl by (auto simp: q2_def q3_def b3_def)
  have "P + off + length img \<le> length (buffer q0)" using fit by (simp add: T_def)
  note bt = in_place_bytes [OF this off(2) hl b1_def b2_def b3_def]
  have upd: "fb_frame_update pad p (int P) q2 = Some q3"
    using s3(1) bt(1) by (simp add: fb_frame_update_def nat_add_distrib q2_def)
  define pay where "pay = drop 16 (take T (drop P b3))"
  have lp: "length pay = T - 16" using fit bt(4) by (simp add: pay_def)
  have f: "take T (drop P b3) = ?h @ pay"
    using append_take_drop_id [of 16 "take T (drop P b3)"] bt(2) T16 by (simp add: pay_def min_def del: append_take_drop_id)
  have img: "drop (off - 16) pay = img"
    using bt(3) off by (simp add: pay_def T_def drop_take add.commute)
  have "read_le32 b3 (P + 8) = Some (word_of_nat (length img))"
    using packet_size_at [OF bt(2)] fit bt(4) sz by simp
  moreover have "sint (word_of_nat (length img) + (addr - (base + word_of_nat P)) :: u32) = int T"
  proof -
    have "word_of_nat (length img) + (addr - (base + word_of_nat P)) = (word_of_nat T :: u32)"
      by (simp add: T_def add.commute off(5))
    moreover have "T < 2 ^ 31" using fit sizes by simp
    ultimately show ?thesis by (simp add: signed_of_nat signed_take_bit_int_eq_self)
  qed
  moreover have "dq_writable q0 (int T + 4)" using w Tn by (simp add: dq_writable_def)
  from send_inside [OF r this s3(2) P] T16 obtain q4 where
    q4: "data_queue_send_buffer (Some q3) (int T) = Ret 0 q4" "dq_rep q4 (fs @ [?h @ pay])" "quit q4 = quit q0"
      "wp q4 = wp q0 + int T + 4" by (auto simp: f q3_def simp del: data_queue_send_buffer.simps)
  ultimately have rel: "av_render_release_vid_fb base addr False True (Some (int P)) (Some q3) = Ret 0 q4"
    by (simp add: av_render_release_vid_fb_def q3_def nat_add_distrib del: data_queue_send_buffer.simps)
  have "int (unat addr) - int (unat base) = int (P + off)" using off by simp
  then have f1: "dq_store (int (unat addr) - int (unat base)) img q1 = Some q2" using s2(1) by (simp only:)
  have f4: "dq_open q4 (fs @ [?h @ pay])" using q4(2,3) nq by (simp add: dq_open_def)
  have f5: "wp q4 = int P + 16 + int (length pay)" using q4(4) P lp T16 by simp
  have f6: "16 + length pay = off + length img" using lp T16 by (simp add: T_def)
  show ?thesis
    by (intro exI conjI, rule f1, rule upd, rule rel, rule f4, rule f5, rule off, rule off, rule off(4), rule f6, rule b, rule img)
qed
section \<open>Properties\<close>

text \<open>
  A producer hands over audio data with its bytes (\<open>av_render_add_audio_data\<close> without a pool), the decoder thread
  takes the oldest one, looks at the bytes its pointer leads to and releases it (\<open>adec_body\<close>). \<open>x\<close>, \<open>y\<close>, \<open>z\<close> and
  \<open>ptr\<close> are the padding and the pointer of the producer.
\<close>

definition audio_packet :: "u32 \<Rightarrow> u32 \<times> bool \<times> u8 list \<Rightarrow> av_packet" where
  "audio_packet ptr m = \<lparr>pk_pts = fst m, pk_data = ptr, pk_size = word_of_nat (length (snd (snd m))), pk_eos = fst (snd m)\<rparr>"

definition audio_send :: "u8 \<Rightarrow> u8 \<Rightarrow> u8 \<Rightarrow> u32 \<Rightarrow> u32 \<times> bool \<times> u8 list \<Rightarrow> data_queue \<Rightarrow> data_queue option" where
  "audio_send x y z ptr m q =
     (if int (length (snd (snd m))) < 2 ^ 32
      then dq_done (put_to_adec [] [x, y, z] (audio_packet ptr m) (snd (snd m)) False (Some q)) else None)"

definition audio_take :: "u32 \<Rightarrow> data_queue \<Rightarrow> ((u32 \<times> bool \<times> u8 list) \<times> data_queue) option" where
  "audio_take base q =
     (case read_for_adec [] base False (Some q) of
        Ret (ret, Some p) q1 \<Rightarrow>
          (if ret \<noteq> 0 then None
           else map_option (Pair (pk_pts p, pk_eos p, take (unat (pk_size p)) (drop (unat (pk_data p - base)) (buffer q1))))
                  (dq_done (data_queue_read_unlock (Some q1))))
      | _ \<Rightarrow> None)"

definition audio_holds :: "u8 \<Rightarrow> u8 \<Rightarrow> u8 \<Rightarrow> u32 \<Rightarrow> data_queue \<Rightarrow> (u32 \<times> bool \<times> u8 list) list \<Rightarrow> bool" where
  "audio_holds x y z ptr q ms \<longleftrightarrow>
     dq_open q (map (\<lambda>m. enc_packet [x, y, z] (audio_packet ptr m) @ snd (snd m)) ms) \<and> (\<forall>m \<in> set ms. length (snd (snd m)) < 2 ^ 32)"

lemma audio_send_holds:
  assumes "audio_holds x y z ptr q ms" "audio_send x y z ptr m q = Some q1"
  shows "audio_holds x y z ptr q1 (ms @ [m])"
proof -
  have l: "length (snd (snd m)) < 2 ^ 32"
    and d: "dq_done (put_packet [] (enc_packet [x, y, z] (audio_packet ptr m)) (word_of_nat (length (snd (snd m)))) (snd (snd m)) False (Some q)) = Some q1"
    using assms(2) by (auto simp: audio_send_def put_to_adec_def audio_packet_def split: if_splits)
  from l have u: "unat (word_of_nat (length (snd (snd m))) :: u32) = length (snd (snd m))"
    by (simp add: unsigned_of_nat take_bit_nat_eq_self)
  from d have "put_packet [] (enc_packet [x, y, z] (audio_packet ptr m)) (word_of_nat (length (snd (snd m)))) (snd (snd m)) False (Some q) = Ret 0 q1"
    by (cases "put_packet [] (enc_packet [x, y, z] (audio_packet ptr m)) (word_of_nat (length (snd (snd m)))) (snd (snd m)) False (Some q)")
      (auto split: if_splits)
  with packet.put_open [of q _ "([x, y, z], audio_packet ptr m)" "word_of_nat (length (snd (snd m)))" "snd (snd m)" q1] assms(1) l u show ?thesis
    by (simp add: audio_holds_def)
qed

lemma audio_take_holds:
  assumes "audio_holds x y z ptr q (m # ms)"
  shows "\<exists>q1. audio_take base q = Some (m, q1) \<and> audio_holds x y z ptr q1 ms"
proof -
  let ?h = "enc_packet [x, y, z] (audio_packet ptr m)" and ?p = "snd (snd m)"
  have o: "dq_open q ((?h @ ?p) # map (\<lambda>m. enc_packet [x, y, z] (audio_packet ptr m) @ snd (snd m)) ms)" and l: "length ?p < 2 ^ 32"
    using assms by (simp_all add: audio_holds_def)
  note r = packet.read_front [of q "([x, y, z], audio_packet ptr m)" ?p, simplified, OF o]
  have u: "unat (word_of_nat (length ?p) :: u32) = length ?p" using l by (simp add: unsigned_of_nat take_bit_nat_eq_self)
  define R where "R = nat (rp q)"
  have R: "rp q = int R" using r(3) by (simp add: R_def)
  have adr: "unat (base + word_of_int (rp q + 4) + 16 - base) = R + 4 + 16"
  proof -
    have "base + word_of_int (rp q + 4) + 16 - base = (word_of_nat (R + 4 + 16) :: u32)" by (simp add: R)
    moreover have "R + 4 + 16 < 2 ^ 31" using r(3) R by simp
    ultimately show ?thesis by (simp add: unsigned_of_nat take_bit_nat_eq_self del: of_nat_add)
  qed
  have rd: "read_for_adec [] base False (Some q) =
      Ret (0, Some ((audio_packet ptr m)\<lparr>pk_data := base + word_of_int (rp q + 4) + 16\<rparr>)) (q\<lparr>user := user q + 1\<rparr>)"
    by (simp add: read_for_adec_def r(1) audio_packet_def add.commute)
  have q: "dq_rep (q\<lparr>user := user q + 1\<rparr>) ((?h @ ?p) # map (\<lambda>m. enc_packet [x, y, z] (audio_packet ptr m) @ snd (snd m)) ms)"
    using o by (simp add: dq_open_def)
  have p: "take (length ?p) (drop (R + 4 + 16) (buffer q)) = ?p" using r(2) by (simp add: R)
  note ul = read_unlock_front [OF q]
  have "audio_take base q = Some (m, post [DATA_CONSUME, USER_FREE]
      ((advance (int (length (?h @ ?p)) + 4) (q\<lparr>user := user q + 1\<rparr>))\<lparr>user := user (q\<lparr>user := user q + 1\<rparr>) - 1\<rparr>))"
    unfolding audio_take_def rd using ul adr u p
    by (simp add: audio_packet_def del: data_queue_read_unlock.simps of_nat_add length_append)
  moreover have "dq_open (post [DATA_CONSUME, USER_FREE]
      ((advance (int (length (?h @ ?p)) + 4) (q\<lparr>user := user q + 1\<rparr>))\<lparr>user := user (q\<lparr>user := user q + 1\<rparr>) - 1\<rparr>))
      (map (\<lambda>m. enc_packet [x, y, z] (audio_packet ptr m) @ snd (snd m)) ms)"
    using advance_rep [OF q] o by (simp add: dq_open_def)
  ultimately show ?thesis using assms by (auto simp: audio_holds_def)
qed

interpretation adec_queue: fifo "audio_holds x y z ptr" "audio_send x y z ptr" "audio_take base" for x y z ptr base
proof unfold_locales
  show "audio_holds x y z ptr q1 (ms @ [m])" if "audio_holds x y z ptr q ms" "audio_send x y z ptr m q = Some q1" for q ms m q1
    using that by (rule audio_send_holds)
  show "\<exists>q1. audio_take base q = Some (m, q1) \<and> audio_holds x y z ptr q1 ms" if "audio_holds x y z ptr q (m # ms)" for q m ms
    using that by (rule audio_take_holds)
  show "audio_take base q = None" if "audio_holds x y z ptr q []" for q
    using that have_data_from_last_iff [of q "[]"]
    by (auto simp: audio_take_def read_for_adec_def read_packet_def audio_holds_def dq_open_def read_lock_loop.simps [of "[]" q])
qed
text \<open>
  C9. Audio data on its way to the decoder thread: whatever packets are handed over, of whatever sizes, the thread
  gets all of them, in order, each with its time stamp, its end-of-stream flag and exactly its bytes, behind the
  pointer that \<open>read_for_adec\<close> computes into the queue, wherever the ring wraps and whatever the addresses and the
  padding are; the queue is then empty.
\<close>

theorem renderer_audio_lossless:
  assumes "dq_open q []" "enq_all (audio_send x y z ptr) ms q = Some q1"
  shows "\<exists>q2. deq_n (audio_take base) (length ms) q1 = Some (ms, q2) \<and> dq_open q2 []"
proof -
  have "audio_holds x y z ptr q []" using assms(1) by (simp add: audio_holds_def)
  from adec_queue.fifo_order [OF this assms(2), of base] show ?thesis by (auto simp: audio_holds_def)
qed

definition packet_queue :: data_queue where
  "packet_queue = the (fst (data_queue_init (\<lambda>_. True) (replicate 64 0) 64))"

lemma packet_queue_open: "dq_open packet_queue []"
  by (rule data_queue_init_open [of "replicate 64 0" "\<lambda>_. True"]) (simp_all add: packet_queue_def data_queue_init_def Let_def)

lemma packet_queue_put:
  "\<exists>q1. enq_all (audio_send 1 2 3 0x3f800000) [(40, False, [7, 8, 9]), (60, True, [])] packet_queue = Some q1"
proof -
  have "\<not> Option.is_none (enq_all (audio_send 1 2 3 0x3f800000) [(40, False, [7, 8, 9]), (60, True, [])] packet_queue)" by code_simp
  then show ?thesis by (auto simp: Option.is_none_def)
qed

theorem renderer_audio_lossless_witness:
  "\<exists>q1 q2. enq_all (audio_send 1 2 3 0x3f800000) [(40, False, [7, 8, 9]), (60, True, [])] packet_queue = Some q1 \<and>
    deq_n (audio_take 0x40000000) 2 q1 = Some ([(40, False, [7, 8, 9]), (60, True, [])], q2) \<and> dq_open q2 []"
proof -
  obtain q1 where q1: "enq_all (audio_send 1 2 3 0x3f800000) [(40, False, [7, 8, 9]), (60, True, [])] packet_queue = Some q1"
    using packet_queue_put by blast
  from renderer_audio_lossless [OF packet_queue_open q1, of "0x40000000"] q1 show ?thesis by (auto simp: numeral_2_eq_2)
qed

text \<open>
  A picture decoded straight into the queue. If \<open>av_render_fetch_vid_fb\<close> hands out an address, it is aligned as
  asked for, leaves the frame structure in front of it untouched, and has room for the picture: after the
  decoder has written up to \<open>n\<close> bytes there, the frame was announced and the buffer released, the reader that has
  taken what was queued before finds the frame with its own pointer and size, and the bytes of the picture behind it.
\<close>

theorem fb_frame_in_place:
  assumes o: "dq_open q fs" and n: "0 < n" "int (length img) \<le> n" and k: "k \<le> 7" and pad: "length pad = 3"
    and base: "unat base + length (buffer q) \<le> 2 ^ 32"
    and fetch: "av_render_fetch_vid_fb [] base (2 ^ k) n True fb (Some q) = Ret (Some pos, addr) q1" "addr \<noteq> 0"
    and sz: "pk_size p = word_of_nat (length img)"
  shows "unat addr mod 2 ^ k = 0 \<and>
    (\<exists>q2 q3 q4 q5 q6. dq_store (int (unat addr) - int (unat base)) img q1 = Some q2 \<and> fb_frame_update pad p pos q2 = Some q3 \<and>
      av_render_release_vid_fb base addr False True (Some pos) (Some q3) = Ret 0 q4 \<and>
      deq_n dq_get (length fs) q4 = Some (fs, q5) \<and>
      read_for_v_render env base (Some q5) = Ret (0, Some (p\<lparr>pk_data := addr\<rparr>)) q6 \<and>
      take (length img) (drop (unat addr - unat base) (buffer q6)) = img)"
proof -
  have "(0::int) \<le> 2 ^ k" by simp
  from fetch_reserves [OF o n(1) this fetch] obtain q0 where
    q0: "dq_open q0 fs" "dq_writable q0 (20 + n + 2 ^ k)" "pos = wp q0 + 4" "length (buffer q0) = length (buffer q)"
      "addr = align_up (base + word_of_int pos + 16) (2 ^ k)" "dq_store (pos + 4) (le32 addr @ le32 0) q0 = Some q1" by blast
  define P where "P = nat pos"
  have "0 \<le> wp q0" using dq_rep_positions(2) [of q0 fs] q0(1) by (simp add: dq_open_def)
  then have P: "pos = int P" using q0(3) by (simp add: P_def)
  have base0: "unat base + length (buffer q0) \<le> 2 ^ 32" using base q0(4) by simp
  have "int P = wp q0 + 4" "addr = align_up (base + word_of_nat P + 16) (2 ^ k)"
    "dq_store (int (P + 4)) (le32 addr @ le32 0) q0 = Some q1"
    subgoal using q0(3) P by simp
    subgoal using q0(5) unfolding P by simp
    subgoal using q0(6) unfolding P by simp
    done
  from in_place_release [OF q0(1,2) this(1) n k pad base0 this(2,3) sz] obtain off q2 q3 q4 pay where
    r: "dq_store (int (unat addr) - int (unat base)) img q1 = Some q2" "fb_frame_update pad p (int P) q2 = Some q3"
      "av_render_release_vid_fb base addr False True (Some (int P)) (Some q3) = Ret 0 q4"
      "dq_open q4 (fs @ [enc_packet pad (p\<lparr>pk_data := addr\<rparr>) @ pay])" "wp q4 = int P + 16 + int (length pay)"
      "unat addr = unat base + P + off" "16 \<le> off" "unat addr mod 2 ^ k = 0" "16 + length pay = off + length img"
      "unat (base + word_of_nat P) = unat base + P" "drop (off - 16) pay = img" by (elim exE conjE) (rule that)
  let ?h = "enc_packet pad (p\<lparr>pk_data := addr\<rparr>)"
  have "dq_writable q4 0" using dq_rep_positions [of q4] r(4)
    by (auto simp: dq_writable_def get_available_size_def dq_open_def)
  from read_keeps_reservation [OF r(4) this] obtain q5 where
    q5: "deq_n dq_get (length fs) q4 = Some (fs, q5)" "dq_open q5 [?h @ pay]" "wp q5 = wp q4" by blast
  have "int (length (?h @ pay)) + 4 \<le> wp q5" using q5(3) r(5) pad q0(3) \<open>0 \<le> wp q0\<close> P by simp
  from single_front [OF q5(2) this] have rp: "rp q5 = int P - 4" using q5(3) r(5) pad by simp
  have o5: "dq_open q5 [(case (pad, p\<lparr>pk_data := addr\<rparr>) of (pad, p) \<Rightarrow> enc_packet pad p) @ pay]" using q5(2) by simp
  have k5: "case (pad, p\<lparr>pk_data := addr\<rparr>) of (pad, p) \<Rightarrow> length pad = 3" using pad by simp
  note rd = packet.read_front [OF o5 k5, unfolded rp]
  have b: "addr > base + word_of_nat P" using r(6,7,10) by (simp add: word_less_nat_alt)
  have "addr + pk_size p = base + word_of_nat P + word_of_int (int (16 + length pay))"
  proof -
    have "addr = base + word_of_nat P + word_of_nat off"
    proof -
      have "addr = word_of_nat (unat addr)" by simp
      also have "\<dots> = word_of_nat (unat base) + word_of_nat P + word_of_nat off" unfolding r(6) by (simp only: of_nat_add)
      finally show ?thesis by simp
    qed
    then show ?thesis unfolding r(9) using sz by simp
  qed
  with rd(1) [of env] b have read: "read_for_v_render env base (Some q5) = Ret (0, Some (p\<lparr>pk_data := addr\<rparr>)) (q5\<lparr>user := user q5 + 1\<rparr>)"
    by (simp add: read_for_v_render_def Let_def)
  have "take (length pay) (drop (P + 16) (buffer q5)) = pay"
    using rd(2,3) by (simp add: nat_diff_distrib')
  then have "take (length img) (drop (off - 16) (drop (P + 16) (buffer q5))) = img"
    using r(7,9,11) by (metis (no_types, lifting) add_diff_cancel_left' diff_add_inverse drop_take le_add_diff_inverse add.commute diff_cancel2)
  then have "take (length img) (drop (unat addr - unat base) (buffer q5)) = img" using r(6,7) by (simp add: add.commute)
  with r(1-3,8) q5(1) read P show ?thesis by (intro conjI exI) (assumption | simp)+
qed
lemma packet_queue_fetch:
  "case av_render_fetch_vid_fb [] 0x40000000 16 8 True None (Some packet_queue) of
     Ret (fb, addr) q \<Rightarrow> fb = Some 4 \<and> addr = 0x40000020 | _ \<Rightarrow> False"
  by code_simp

theorem fb_frame_in_place_witness:
  "\<exists>q1 q2 q3 q4 q6. av_render_fetch_vid_fb [] 0x40000000 (2 ^ 4) 8 True None (Some packet_queue) = Ret (Some 4, 0x40000020) q1 \<and>
    dq_store 32 [1, 2, 3] q1 = Some q2 \<and>
    fb_frame_update [0, 0, 0] \<lparr>pk_pts = 40, pk_data = 9, pk_size = 3, pk_eos = False\<rparr> 4 q2 = Some q3 \<and>
    av_render_release_vid_fb 0x40000000 0x40000020 False True (Some 4) (Some q3) = Ret 0 q4 \<and>
    read_for_v_render [] 0x40000000 (Some q4) =
      Ret (0, Some \<lparr>pk_pts = 40, pk_data = 0x40000020, pk_size = 3, pk_eos = False\<rparr>) q6 \<and>
    take 3 (drop 32 (buffer q6)) = [1, 2, 3]"
proof -
  from packet_queue_fetch obtain q1 where
    f: "av_render_fetch_vid_fb [] 0x40000000 (2 ^ 4) 8 True None (Some packet_queue) = Ret (Some 4, 0x40000020) q1"
    by (auto split: dq_result.splits)
  have l: "unat (0x40000000 :: u32) + length (buffer packet_queue) \<le> 2 ^ 32"
    by (simp add: packet_queue_def data_queue_init_def Let_def)
  let ?p = "\<lparr>pk_pts = 40, pk_data = 9, pk_size = 3, pk_eos = False\<rparr>"
  have "unat (0x40000020 :: u32) mod 2 ^ 4 = 0 \<and>
    (\<exists>q2 q3 q4 q5 q6. dq_store (int (unat (0x40000020 :: u32)) - int (unat (0x40000000 :: u32))) [1, 2, 3] q1 = Some q2 \<and>
      fb_frame_update [0, 0, 0] ?p 4 q2 = Some q3 \<and>
      av_render_release_vid_fb 0x40000000 0x40000020 False True (Some 4) (Some q3) = Ret 0 q4 \<and>
      deq_n dq_get (length ([] :: u8 list list)) q4 = Some ([], q5) \<and>
      read_for_v_render [] 0x40000000 (Some q5) = Ret (0, Some (?p\<lparr>pk_data := 0x40000020\<rparr>)) q6 \<and>
      take (length [1, 2, 3 :: u8]) (drop (unat (0x40000020 :: u32) - unat (0x40000000 :: u32)) (buffer q6)) = [1, 2, 3])"
    by (rule fb_frame_in_place [OF packet_queue_open _ _ _ _ l f]) simp_all
  with f show ?thesis by (auto simp: numeral_3_eq_3)
qed

text \<open>
  The decoder thread of the video asks whether the renderer has a pool (\<open>pool_free\<close>), the producer whether the
  stream had one when it was added (\<open>use_pool\<close>). When \<open>av_render_use_data_pool\<close> comes after
  \<open>av_render_add_video_stream\<close>, the data is copied into the queue, but the decoder is given the pointer of the
  producer, to memory that the producer took back when \<open>av_render_add_video_data\<close> returned.
\<close>

theorem late_pool_reads_stale_pointer:
  assumes "dq_open q []" "length pad = 3" "length pad' = 3" "put_to_vdec [] pad pad' p pay False (Some q) = Ret 0 q1"
  shows "\<exists>q2. read_for_vdec env base True (Some q1) = Ret (0, Some p) q2"
proof -
  have "dq_open q1 ([] @ [enc_video_packet pad pad' p @ take (unat (vp_size p)) pay])"
    using video_packet.put_open [of q "[]" "(pad, pad', p)" "vp_size p" pay q1] assms by (simp add: put_to_vdec_def)
  then have "dq_open q1 [(case (pad, pad', p) of (pad, pad', p) \<Rightarrow> enc_video_packet pad pad' p) @ take (unat (vp_size p)) pay]" by simp
  from video_packet.read_front(1) [OF this, of env] assms(2,3) show ?thesis by (simp add: read_for_vdec_def)
qed

lemma packet_queue_video:
  "case put_to_vdec [] [0, 0, 0] [0, 0, 0] \<lparr>vp_pts = 40, vp_key = True, vp_data = 0x3f800000, vp_size = 2, vp_eos = False\<rparr> [7, 8] False
     (Some packet_queue) of Ret r q \<Rightarrow> r = 0 | _ \<Rightarrow> False"
  by code_simp

theorem late_pool_reads_stale_pointer_witness:
  "\<exists>q1 q2. put_to_vdec [] [0, 0, 0] [0, 0, 0] \<lparr>vp_pts = 40, vp_key = True, vp_data = 0x3f800000, vp_size = 2, vp_eos = False\<rparr> [7, 8] False
     (Some packet_queue) = Ret 0 q1 \<and>
    read_for_vdec [] 0x40000000 True (Some q1) =
      Ret (0, Some \<lparr>vp_pts = 40, vp_key = True, vp_data = 0x3f800000, vp_size = 2, vp_eos = False\<rparr>) q2"
proof -
  from packet_queue_video obtain q1 where
    q1: "put_to_vdec [] [0, 0, 0] [0, 0, 0] \<lparr>vp_pts = 40, vp_key = True, vp_data = 0x3f800000, vp_size = 2, vp_eos = False\<rparr> [7, 8] False
     (Some packet_queue) = Ret 0 q1" by (auto split: dq_result.splits)
  from late_pool_reads_stale_pointer [OF packet_queue_open _ _ q1] q1 show ?thesis by simp
qed

text \<open>
  A picture too large for the queue: \<open>av_render_fetch_vid_fb\<close> returns no buffer and reserves nothing, but the
  decoder, which fails without one, still returns it (\<open>fb_return(NULL, true)\<close> in \<open>do_decode\<close>). The user count
  of the queue drops below what it was and the lock of the writers is released although nobody took it;
  on an idle queue the count is then \<open>-1\<close>, and \<open>data_queue_wakeup\<close> waits for a user that does not exist.
\<close>

theorem failed_fetch_unbalances_queue:
  assumes "dq_size q < 20 + n + align" "user q = 0" "n \<noteq> 0"
  shows "\<exists>q1. av_render_fetch_vid_fb env base align n True fb (Some q) = Ret (fb, 0) q \<and>
    av_render_release_vid_fb base 0 True True fb (Some q) = Ret 0 q1 \<and> user q1 = -1 \<and>
    (\<exists>q2. data_queue_wakeup [] (Some q1) = Blocked q2)"
  using assms by (simp add: av_render_fetch_vid_fb_def av_render_release_vid_fb_def DATA_Q_ALLOC_HEAD_SIZE_def Let_def
      wakeup_loop.simps [of "[]"])

theorem failed_fetch_unbalances_queue_witness:
  "\<exists>q1. av_render_fetch_vid_fb [] 0x40000000 16 153600 True None (Some packet_queue) = Ret (None, 0) packet_queue \<and>
    av_render_release_vid_fb 0x40000000 0 True True None (Some packet_queue) = Ret 0 q1 \<and> user q1 = -1 \<and>
    (\<exists>q2. data_queue_wakeup [] (Some q1) = Blocked q2)"
  by (rule failed_fetch_unbalances_queue) (simp_all add: packet_queue_def data_queue_init_def Let_def)

end
