(* ===== verification/Av_Sync.thy ===== *)
theory Av_Sync
  imports Audio_Resample
begin

text \<open>
  The clocks of the renderer (\<open>components/av_render/src/av_render.c\<close>): the playing positions of audio and video, the
  pacing of video frames, and the tests that drop data. Times are 32-bit milliseconds that wrap. What the
  drivers answer (latencies), the fill of the queues and the system time are arguments.
\<close>

section \<open>State\<close>

datatype av_sync_mode = SYNC_NONE | SYNC_FOLLOW_AUDIO | SYNC_FOLLOW_TIME

record video_clock =
  vc_reached :: bool
  vc_fps :: u8
  vc_send_pts :: u32
  vc_sent_num :: u32
  vc_start_time :: u32
  vc_start_pts :: u32
  vc_last_pts :: u32
  vc_tolerance :: u32

text \<open>A frame rate of 0 counts as 20.\<close>

definition fps_or_default :: "video_clock \<Rightarrow> int" where
  "fps_or_default v = (if vc_fps v = 0 then 20 else uint (vc_fps v))"

section \<open>Positions\<close>

text \<open>\<open>reached\<close> and \<open>send\<close> are those of the audio stream; \<open>None\<close> for a latency is a driver that cannot tell.\<close>

definition av_render_get_audio_pts :: "bool \<Rightarrow> u32 \<Rightarrow> u32 option \<Rightarrow> u32 option" where
  "av_render_get_audio_pts reached send lat =
     (if \<not> reached then None
      else case lat of None \<Rightarrow> Some send | Some l \<Rightarrow> Some (if send \<ge> l then send - l else send))"

text \<open>\<open>q\<close> is the number of frames in the render queue, when there is one.\<close>

definition av_render_get_video_pts :: "video_clock \<Rightarrow> u32 option \<Rightarrow> int option \<Rightarrow> u32 option" where
  "av_render_get_video_pts v lat q =
     (if \<not> vc_reached v then None
      else let p1 = (case lat of None \<Rightarrow> vc_send_pts v | Some l \<Rightarrow> vc_send_pts v - l) in
        Some (case q of
                None \<Rightarrow> p1
              | Some n \<Rightarrow> if n \<noteq> 0 then p1 - word_of_int (n * 1000 div fps_or_default v) else p1))"

definition av_render_get_render_pts :: "u32 option \<Rightarrow> u32 option \<Rightarrow> u32" where
  "av_render_get_render_pts apts vpts =
     (let p1 = (case apts of None \<Rightarrow> 0xFFFFFFFF | Some p \<Rightarrow> p)
      in case vpts of None \<Rightarrow> p1 | Some p \<Rightarrow> if p < p1 then p else p1)"

section \<open>Pacing of video\<close>

text \<open>The time to follow, and the system time in terms of the stream; \<open>None\<close> when there is no audio to follow.\<close>

definition get_video_sync_time :: "av_sync_mode \<Rightarrow> u32 \<Rightarrow> u32 option \<Rightarrow> video_clock \<Rightarrow> u32 option \<times> u32" where
  "get_video_sync_time mode t apts v =
     (let ref_time = t - vc_start_time v + vc_start_pts v
      in (if mode = SYNC_FOLLOW_AUDIO then apts else Some ref_time, ref_time))"

definition video_sync_control_before_decode ::
  "bool \<Rightarrow> av_sync_mode \<Rightarrow> u32 \<Rightarrow> u32 option \<Rightarrow> video_clock \<Rightarrow> u32 \<Rightarrow> int \<Rightarrow> bool" where
  "video_sync_control_before_decode allow_drop mode t apts v video_pts q_num =
     (if \<not> allow_drop then False
      else if mode = SYNC_NONE then q_num \<ge> 2
      else case fst (get_video_sync_time mode t apts v) of
             None \<Rightarrow> False
           | Some now \<Rightarrow> vc_sent_num v \<noteq> 0 \<and> video_pts + 100 < now)"

definition in_sync_with :: "video_clock \<Rightarrow> u32 \<Rightarrow> u32 \<Rightarrow> bool" where
  "in_sync_with v cur now \<longleftrightarrow> cur < now + vc_tolerance v \<and> cur + vc_tolerance v > now"

text \<open>The loop of two rounds: first the time to follow, then the system time. The second component is \<open>now\<close> at its end.\<close>

definition sync_rounds :: "video_clock \<Rightarrow> u32 \<Rightarrow> u32 \<Rightarrow> u32 \<Rightarrow> bool \<times> u32" where
  "sync_rounds v cur now ref_time =
     (if in_sync_with v cur now then (True, now)
      else if now = ref_time then (False, now)
      else (in_sync_with v cur ref_time, ref_time))"

text \<open>
  What the code does with a frame: the time it sleeps, if it does, whether it asks to skip the frame, and the
  clock. \<open>vpts\<close> is the answer of \<open>av_render_get_video_pts\<close> (0 when it fails), \<open>t\<close> and \<open>t'\<close> the system time when
  it starts and when it is done waiting.
\<close>

record frame_control =
  fc_sleep :: "u32 option"
  fc_skip :: bool
  fc_clock :: video_clock

definition start_clock :: "u32 \<Rightarrow> u32 \<Rightarrow> video_clock \<Rightarrow> video_clock" where
  "start_clock t video_pts v =
     (let v1 = (if vc_sent_num v = 0 then v\<lparr>vc_start_time := t, vc_start_pts := video_pts\<rparr> else v)
      in v1\<lparr>vc_sent_num := vc_sent_num v1 + 1\<rparr>)"

definition video_sync_control_before_render ::
  "bool \<Rightarrow> av_sync_mode \<Rightarrow> u32 \<Rightarrow> u32 \<Rightarrow> u32 option \<Rightarrow> u32 option \<Rightarrow> video_clock \<Rightarrow> u32 \<Rightarrow> frame_control" where
  "video_sync_control_before_render allow_drop mode t t' apts vpts v video_pts =
     (if mode = SYNC_NONE then \<lparr>fc_sleep = None, fc_skip = False, fc_clock = v\<rparr>
      else case get_video_sync_time mode t apts v of
             (None, _) \<Rightarrow> \<lparr>fc_sleep = None, fc_skip = False, fc_clock = v\<rparr>
           | (Some audio_pts, ref_time) \<Rightarrow>
               if vc_sent_num v = 0 then \<lparr>fc_sleep = None, fc_skip = False, fc_clock = start_clock t' video_pts v\<rparr>
               else (let fps = fps_or_default v; cur = (case vpts of None \<Rightarrow> 0 | Some p \<Rightarrow> p);
                         (in_sync, now) = sync_rounds v cur audio_pts ref_time in
                 if in_sync then
                   (if cur > now then
                      \<lparr>fc_sleep = Some (min (cur - now) (word_of_int (2 * 1000 div fps))), fc_skip = False,
                       fc_clock = start_clock t' video_pts v\<rparr>
                    else \<lparr>fc_sleep = None, fc_skip = video_pts + word_of_int (1000 div fps * 4) \<le> now \<and> \<not> allow_drop,
                          fc_clock = start_clock t' video_pts v\<rparr>)
                 else \<lparr>fc_sleep = None, fc_skip = False, fc_clock = start_clock t' video_pts (v\<lparr>vc_sent_num := 0\<rparr>)\<rparr>))"

section \<open>Audio that is too late, and the frame rate\<close>

text \<open>\<open>None\<close> is a division by zero; the quotient by \<open>sample_rate\<close> is one of unsigned numbers.\<close>

definition audio_drop_before_render :: "bool \<Rightarrow> av_sync_mode \<Rightarrow> audio_info \<Rightarrow> int \<Rightarrow> bool option" where
  "audio_drop_before_render allow_drop mode info sz =
     (if allow_drop \<and> mode = SYNC_NONE \<and> sample_rate info \<noteq> 0 then
        (let sample_size = int (channel info * bits_per_sample info div 8)
         in if sample_size = 0 then None
            else Some (sint ((word_of_int (sz div sample_size * 1000) :: u32) div word_of_nat (sample_rate info)) \<ge> 200))
      else Some False)"

definition correct_video_fps :: "u32 \<Rightarrow> video_clock \<Rightarrow> video_clock" where
  "correct_video_fps pts v =
     (if vc_last_pts v \<noteq> 0 \<and> pts > vc_last_pts v \<and> pts \<le> vc_last_pts v + 100
      then v\<lparr>vc_fps := ucast (1000 div (pts - vc_last_pts v))\<rparr>
      else v\<lparr>vc_last_pts := pts\<rparr>)"

section \<open>Properties\<close>

lemma uint_add_small: "uint (a :: u32) + uint b < 2 ^ 32 \<Longrightarrow> uint (a + b) = uint a + uint b"
  by (simp add: uint_word_ariths)

lemma uint_sub_small: "b \<le> (a :: u32) \<Longrightarrow> uint (a - b) = uint a - uint b"
  by (simp add: uint_sub_lem word_le_def)

lemma fps_range: "1 \<le> fps_or_default v" "fps_or_default v \<le> 255"
proof -
  have "0 < uint (vc_fps v)" if "vc_fps v \<noteq> 0" 
    using that uint_nonnegative [of "vc_fps v"] by (metis order_le_less uint_0_iff)
  moreover have "uint (vc_fps v) < 2 ^ 8" using uint_bounded [of "vc_fps v"] by simp
  ultimately show "1 \<le> fps_or_default v" "fps_or_default v \<le> 255" by (auto simp: fps_or_default_def)
qed

lemma uint_quotient:
  assumes "0 \<le> n" "n < 2 ^ 32"
  shows "uint (word_of_int (n div fps_or_default v) :: u32) = n div fps_or_default v"
proof -
  have "0 \<le> n div fps_or_default v" "n div fps_or_default v \<le> n"
    using fps_range(1) [of v] assms(1) zdiv_mono2 [of n 1 "fps_or_default v"] by (simp_all add: pos_imp_zdiv_nonneg_iff)
  with assms(2) show ?thesis by (simp add: uint_word_of_int)
qed

text \<open>Inside the tolerance nothing wraps: a frame that is early is early by less than the tolerance.\<close>

lemma in_sync_lead:
  assumes "in_sync_with v cur now" "now < cur" "uint (vc_tolerance v) < 2 ^ 31"
  shows "uint (cur - now) < uint (vc_tolerance v)"
proof -
  have n: "uint now < uint cur" and c: "uint cur < uint (now + vc_tolerance v)"
    using assms(1,2) by (simp_all add: in_sync_with_def word_less_def)
  have "uint now + uint (vc_tolerance v) < 2 ^ 32"
  proof (rule ccontr)
    assume "\<not> uint now + uint (vc_tolerance v) < 2 ^ 32"
    then have "uint (now + vc_tolerance v) = uint now + uint (vc_tolerance v) - 2 ^ 32"
      using uint_bounded [of now] uint_bounded [of "vc_tolerance v"] by (simp add: uint_plus_if_size word_size)
    with n c assms(3) uint_bounded [of now] show False by simp
  qed
  then have "uint (now + vc_tolerance v) = uint now + uint (vc_tolerance v)" by (rule uint_add_small)
  with n c show ?thesis using assms(2) by (simp add: uint_sub_small less_imp_le)
qed

text \<open>
  C33. Whatever the time stamps, latencies and clocks are, in the modes that synchronise, the renderer never sleeps
  for long before a frame: less than the tolerance, and at most the length of two frames, so at most two seconds.
\<close>

theorem frame_sleep_bounded:
  assumes "fc_sleep (video_sync_control_before_render allow_drop mode t t' apts vpts v p) = Some d" "vc_tolerance v = 600"
  shows "uint d < 600 \<and> uint d \<le> 2000 div fps_or_default v"
proof -
  obtain cur now where c: "in_sync_with v cur now" "now < cur" "d = min (cur - now) (word_of_int (2 * 1000 div fps_or_default v))"
    using assms(1) by (auto simp: video_sync_control_before_render_def sync_rounds_def Let_def split: option.splits prod.splits if_splits)
  have u: "uint (word_of_int (2 * 1000 div fps_or_default v) :: u32) = 2000 div fps_or_default v"
    using uint_quotient [of 2000 v] by simp
  have "uint (cur - now) < 600" using in_sync_lead [OF c(1,2)] assms(2) by simp
  moreover have "uint d \<le> uint (cur - now)" "uint d \<le> uint (word_of_int (2 * 1000 div fps_or_default v) :: u32)"
    unfolding c(3) by (simp_all add: word_le_def [symmetric])
  ultimately show ?thesis using u by simp
qed

definition sample_clock :: video_clock where
  "sample_clock = \<lparr>vc_reached = True, vc_fps = 25, vc_send_pts = 1080, vc_sent_num = 2, vc_start_time = 5000, vc_start_pts = 1000,
     vc_last_pts = 0, vc_tolerance = 600\<rparr>"

theorem frame_sleep_bounded_witness:
  "fc_sleep (video_sync_control_before_render False SYNC_FOLLOW_TIME 5050 5080 None (Some 1080) sample_clock 1080) = Some 30 \<and>
   uint (30 :: u32) < 600 \<and> uint (30 :: u32) \<le> 2000 div fps_or_default sample_clock"
proof -
  have s: "fc_sleep (video_sync_control_before_render False SYNC_FOLLOW_TIME 5050 5080 None (Some 1080) sample_clock 1080) = Some 30"
    by code_simp
  from frame_sleep_bounded [OF this] s show ?thesis by (simp add: sample_clock_def)
qed

text \<open>
  Video that follows the system time plays at the speed of its time stamps. When no frame waits in a queue and
  the display reports no latency, a frame that comes at most two frame lengths early is delayed to exactly its
  moment, its distance from the first frame; one that is late is shown at once; neither restarts the clock,
  as long as it is less than the tolerance away from its moment.
\<close>

theorem follow_time_paces:
  assumes "vc_sent_num v \<noteq> 0" "vc_tolerance v = 600" "now = t - vc_start_time v + vc_start_pts v"
    and "uint now + 600 < 2 ^ 32" "uint p + 600 < 2 ^ 32" "\<bar>uint p - uint now\<bar> < 600"
    and "uint p - uint now \<le> 2000 div fps_or_default v"
  shows "\<exists>d. fc_sleep (video_sync_control_before_render allow_drop SYNC_FOLLOW_TIME t t' apts (Some p) v p) = (if p > now then Some d else None) \<and>
    (p > now \<longrightarrow> t + d - vc_start_time v = p - vc_start_pts v) \<and>
    fc_clock (video_sync_control_before_render allow_drop SYNC_FOLLOW_TIME t t' apts (Some p) v p) = v\<lparr>vc_sent_num := vc_sent_num v + 1\<rparr>"
proof -
  have "uint (now + 600) = uint now + 600" "uint (p + 600) = uint p + 600"
    using uint_add_small [of now 600] uint_add_small [of p 600] assms(4,5) by simp_all
  then have i: "in_sync_with v p now" using assms(2,6) by (simp add: in_sync_with_def word_less_def abs_less_iff)
  have u: "uint (word_of_int (2 * 1000 div fps_or_default v) :: u32) = 2000 div fps_or_default v"
    using uint_quotient [of 2000 v] by simp
  have m: "min (p - now) (word_of_int (2 * 1000 div fps_or_default v)) = p - now" if "p > now"
    using that assms(7) u uint_sub_small [OF less_imp_le [OF that]] by (simp add: min_def word_le_def)
  have c: "start_clock t' p v = v\<lparr>vc_sent_num := vc_sent_num v + 1\<rparr>" using assms(1) by (simp add: start_clock_def Let_def)
  show ?thesis
    using i m c assms(1) by (intro exI [of _ "p - now"]) (simp add: video_sync_control_before_render_def get_video_sync_time_def
        sync_rounds_def assms(3) [symmetric] Let_def, simp add: assms(3) algebra_simps)
qed

theorem follow_time_paces_witness:
  "\<exists>d. fc_sleep (video_sync_control_before_render False SYNC_FOLLOW_TIME 5050 5080 None (Some 1080) sample_clock 1080) = Some d \<and>
    5050 + d - 5000 = 1080 - 1000 \<and>
    fc_clock (video_sync_control_before_render False SYNC_FOLLOW_TIME 5050 5080 None (Some 1080) sample_clock 1080) =
      sample_clock\<lparr>vc_sent_num := 3\<rparr>"
proof -
  have "(1050 :: u32) = 5050 - vc_start_time sample_clock + vc_start_pts sample_clock" by (simp add: sample_clock_def)
  from follow_time_paces [OF _ _ this, of 1080 False 5080 None] show ?thesis
    by (simp add: sample_clock_def fps_or_default_def)
qed

text \<open>
  The position of the video is not guarded like that of the audio: while the latency of the display exceeds the time
  stamp of the frame, at the start of a stream, the position wraps to the end of the 32-bit range. Every
  frame is then taken for one that lost sync: the clock restarts at it, and it is shown without any pacing.
\<close>

theorem display_latency_restarts_clock:
  assumes "vc_reached v" "vc_send_pts v = p" "p < l" "uint l \<le> 2000" "vc_tolerance v = 600" "vc_sent_num v \<noteq> 0"
    and "uint (t - vc_start_time v + vc_start_pts v) < 2 ^ 31"
  shows "video_sync_control_before_render allow_drop SYNC_FOLLOW_TIME t t' apts (av_render_get_video_pts v (Some l) None) v p =
    \<lparr>fc_sleep = None, fc_skip = False, fc_clock = v\<lparr>vc_start_time := t', vc_start_pts := p, vc_sent_num := 1\<rparr>\<rparr>"
proof -
  define now where "now = t - vc_start_time v + vc_start_pts v"
  have c: "av_render_get_video_pts v (Some l) None = Some (p - l)"
    using assms(1,2) by (simp add: av_render_get_video_pts_def Let_def)
  have "uint (p - l) = uint p - uint l + 2 ^ 32"
    using assms(3) by (simp add: uint_sub_if_size word_size word_less_def)
  then have "2 ^ 32 - 2000 \<le> uint (p - l)" using assms(4) uint_nonnegative [of p] by linarith
  moreover have "uint (now + 600) = uint now + 600"
    using uint_add_small [of now 600] assms(7) by (simp add: now_def)
  ultimately have "\<not> in_sync_with v (p - l) now"
    using assms(5,7) by (simp add: in_sync_with_def word_less_def now_def)
  then show ?thesis
    using assms(6) by (simp add: video_sync_control_before_render_def get_video_sync_time_def c now_def [symmetric] sync_rounds_def
        start_clock_def Let_def)
qed

theorem display_latency_restarts_clock_witness:
  "fc_clock (video_sync_control_before_render False SYNC_FOLLOW_TIME 5040 5040 None
     (av_render_get_video_pts (sample_clock\<lparr>vc_send_pts := 40\<rparr>) (Some 80) None) (sample_clock\<lparr>vc_send_pts := 40\<rparr>) 40) =
   sample_clock\<lparr>vc_send_pts := 40, vc_start_time := 5040, vc_start_pts := 40, vc_sent_num := 1\<rparr>"
  using display_latency_restarts_clock [of "sample_clock\<lparr>vc_send_pts := 40\<rparr>" 40 80 5040 False 5040 None]
  by (simp add: sample_clock_def)

text \<open>
  The frame rate guessed from two time stamps is the right one down to a distance of 4 ms; closer frames
  overflow the 8-bit field, so that frames 2 ms apart count as 244 per second.
\<close>

theorem corrected_frame_rate:
  assumes "vc_last_pts v \<noteq> 0" "uint pts = uint (vc_last_pts v) + d" "1 \<le> d" "d \<le> 100" "uint (vc_last_pts v) + 100 < 2 ^ 32"
  shows "uint (vc_fps (correct_video_fps pts v)) = (if d \<le> 3 then 1000 div d - 256 * (1000 div d div 256) else 1000 div d)"
proof -
  have u: "uint (vc_last_pts v + 100) = uint (vc_last_pts v) + 100"
    using uint_add_small [of "vc_last_pts v" 100] assms(5) by simp
  have "pts > vc_last_pts v" "pts \<le> vc_last_pts v + 100" using assms u by (simp_all add: word_less_def word_le_def)
  moreover have "uint (pts - vc_last_pts v) = d" using assms(2,3) uint_sub_small [of "vc_last_pts v" pts] by (simp add: word_le_def)
  ultimately have r: "uint (vc_fps (correct_video_fps pts v)) = (1000 div d) mod 256"
    using assms(1) by (simp add: correct_video_fps_def uint_div unsigned_ucast_eq take_bit_eq_mod)
  have "1000 div d < 256" if "4 \<le> d"
  proof -
    have "1000 div d \<le> 1000 div 4" using that by (intro zdiv_mono2) simp_all
    then show ?thesis by simp
  qed
  with assms(3) show ?thesis unfolding r by (simp add: minus_mult_div_eq_mod pos_imp_zdiv_nonneg_iff)
qed

theorem corrected_frame_rate_witness:
  "uint (vc_fps (correct_video_fps 1040 (sample_clock\<lparr>vc_fps := 0, vc_last_pts := 1000\<rparr>))) = 25 \<and>
   uint (vc_fps (correct_video_fps 1002 (sample_clock\<lparr>vc_fps := 0, vc_last_pts := 1000\<rparr>))) = 244"
  using corrected_frame_rate [of "sample_clock\<lparr>vc_fps := 0, vc_last_pts := 1000\<rparr>" 1040 40]
    corrected_frame_rate [of "sample_clock\<lparr>vc_fps := 0, vc_last_pts := 1000\<rparr>" 1002 2] by simp

end
