(* ===== verification/Audio_Decoder.thy ===== *)
theory Audio_Decoder
  imports Audio_Resample
begin

text \<open>
  The audio decoder of the renderer (\<open>components/av_render/src/audio_decoder.c\<close>): a codec of the audio library
  behind a buffer that grows on demand. The codec is the parameter \<open>proc\<close>, a function of its state, the bytes it is
  offered and the room for its output; what is opened and freed is recorded.
\<close>

section \<open>State\<close>

datatype audio_codec =
    CODEC_NONE | CODEC_AAC | CODEC_MP3 | CODEC_PCM | CODEC_ADPCM | CODEC_G711A | CODEC_G711U | CODEC_AMRNB | CODEC_AMRWB
  | CODEC_OPUS | CODEC_FLAC | CODEC_VORBIS | CODEC_ALAC

datatype audio_dec_type =
    TYPE_UNSUPPORT | TYPE_AMRNB | TYPE_AMRWB | TYPE_AAC | TYPE_MP3 | TYPE_FLAC | TYPE_VORBIS | TYPE_OPUS | TYPE_ADPCM
  | TYPE_G711A | TYPE_G711U | TYPE_ALAC

fun get_audio_decoder_type :: "audio_codec \<Rightarrow> audio_dec_type" where
  "get_audio_decoder_type CODEC_MP3 = TYPE_MP3"
| "get_audio_decoder_type CODEC_AAC = TYPE_AAC"
| "get_audio_decoder_type CODEC_AMRNB = TYPE_AMRNB"
| "get_audio_decoder_type CODEC_AMRWB = TYPE_AMRWB"
| "get_audio_decoder_type CODEC_OPUS = TYPE_OPUS"
| "get_audio_decoder_type CODEC_FLAC = TYPE_FLAC"
| "get_audio_decoder_type CODEC_VORBIS = TYPE_VORBIS"
| "get_audio_decoder_type CODEC_G711A = TYPE_G711A"
| "get_audio_decoder_type CODEC_G711U = TYPE_G711U"
| "get_audio_decoder_type CODEC_ADPCM = TYPE_ADPCM"
| "get_audio_decoder_type CODEC_ALAC = TYPE_ALAC"
| "get_audio_decoder_type _ = TYPE_UNSUPPORT"

text \<open>The stream as announced; the codec-specific bytes are carried by their presence only.\<close>

record stream_info =
  si_codec :: audio_codec
  si_info :: audio_info
  si_no_adts :: bool
  si_spec :: bool

text \<open>The configuration handed to the codec: none, or a structure filled from the stream.\<close>

datatype dec_setup =
    No_setup | Opus_setup nat nat | Adpcm_setup nat nat nat | G711_setup nat | Alac_setup bool | Aac_setup nat nat nat bool

datatype adec_call = Dec_open audio_dec_type dec_setup bool | Dec_close | Free_frame_data | Free_adec

record adec =
  ad_codec :: audio_codec
  ad_info :: audio_info
  ad_opened :: bool
  ad_header_parsed :: bool
  ad_frame_data :: bool
  ad_frame_size :: nat
  ad_calls :: "adec_call list"

definition ADEC_DEFAULT_OUTPUT_SIZE :: nat where
  "ADEC_DEFAULT_OUTPUT_SIZE = 4096"

definition note_dec :: "adec_call \<Rightarrow> adec \<Rightarrow> adec" where
  "note_dec c a = a\<lparr>ad_calls := ad_calls a @ [c]\<rparr>"

section \<open>Opening and closing\<close>

text \<open>
  What \<open>_open_audio_dec\<close> hands to \<open>esp_audio_dec_open\<close>; \<open>None\<close> is the disabled branch of Vorbis. G711 and AAC get
  their structure only when the channel is known, or the stream has no ADTS headers.
\<close>

fun dec_setup_of :: "audio_dec_type \<Rightarrow> stream_info \<Rightarrow> dec_setup option" where
  "dec_setup_of TYPE_VORBIS s = None"
| "dec_setup_of TYPE_OPUS s = Some (Opus_setup (sample_rate (si_info s)) (channel (si_info s)))"
| "dec_setup_of TYPE_ADPCM s =
     Some (Adpcm_setup (sample_rate (si_info s)) (channel (si_info s)) (bits_per_sample (si_info s)))"
| "dec_setup_of TYPE_G711A s = Some (if channel (si_info s) \<noteq> 0 then G711_setup (channel (si_info s)) else No_setup)"
| "dec_setup_of TYPE_G711U s = Some (if channel (si_info s) \<noteq> 0 then G711_setup (channel (si_info s)) else No_setup)"
| "dec_setup_of TYPE_ALAC s = Some (Alac_setup (si_spec s))"
| "dec_setup_of TYPE_AAC s =
     Some (if si_no_adts s
           then Aac_setup (channel (si_info s)) (sample_rate (si_info s)) (bits_per_sample (si_info s)) (si_no_adts s)
           else No_setup)"
| "dec_setup_of _ s = Some No_setup"

text \<open>\<open>mem\<close>: the allocation of the frame buffer succeeds; \<open>opens\<close>: the library gives a handle.\<close>

definition open_audio_dec :: "bool \<Rightarrow> bool \<Rightarrow> stream_info \<Rightarrow> adec \<Rightarrow> int \<times> adec" where
  "open_audio_dec mem opens s a =
     (let ty = get_audio_decoder_type (si_codec s) in
      if ty = TYPE_UNSUPPORT then (-1, a)
      else if \<not> mem then (ESP_MEDIA_ERR_NO_MEM, a)
      else let a1 = a\<lparr>ad_frame_size := ADEC_DEFAULT_OUTPUT_SIZE, ad_frame_data := True\<rparr>;
               a2 = (case dec_setup_of ty s of
                       None \<Rightarrow> a1
                     | Some c \<Rightarrow> note_dec (Dec_open ty c opens) (if opens then a1\<lparr>ad_opened := True\<rparr> else a1))
        in (if ad_opened a2 then 0 else -1, a2))"

definition close_audio_dec :: "adec \<Rightarrow> int \<times> adec" where
  "close_audio_dec a = (if ad_opened a then (0, note_dec Dec_close (a\<lparr>ad_opened := False\<rparr>)) else (-1, a))"

definition adec_close :: "adec \<Rightarrow> adec" where
  "adec_close a =
     (let a1 = snd (close_audio_dec a)
      in note_dec Free_adec (if ad_frame_data a1 then note_dec Free_frame_data a1 else a1))"

text \<open>The second component is what is left of a decoder that could not be opened.\<close>

definition adec_open :: "bool \<Rightarrow> bool \<Rightarrow> bool \<Rightarrow> stream_info \<Rightarrow> adec option \<times> adec option" where
  "adec_open mem mem' opens s =
     (if \<not> mem then (None, None)
      else let (ret, a) = open_audio_dec mem' opens s
                 \<lparr>ad_codec = si_codec s, ad_info = si_info s, ad_opened = False, ad_header_parsed = False,
                  ad_frame_data = False, ad_frame_size = 0, ad_calls = []\<rparr>
        in if ret = 0 then (Some a, None) else (None, Some (adec_close a)))"

section \<open>Decoding\<close>

text \<open>
  An answer of \<open>esp_audio_dec_process\<close>: the buffer is too small, with the size it needs; an error; or decoded
  bytes, how many bytes of the input were consumed, and the format it reports from then on.
\<close>

datatype proc_answer = Need nat | Proc_err int | Decoded "u8 list" nat audio_info

record pcm_frame =
  pf_pts :: u32
  pf_eos :: bool
  pf_data :: "u8 list"

text \<open>The header is taken from the codec once, with the first bytes it decodes.\<close>

definition parse_header :: "u8 list \<Rightarrow> audio_info \<Rightarrow> adec \<Rightarrow> adec" where
  "parse_header out info a =
     (if \<not> ad_header_parsed a \<and> length out > 0 then
        (let a1 = (if sample_rate info \<noteq> 0 \<and> channel info \<noteq> 0 \<and> bits_per_sample info \<noteq> 0 then a\<lparr>ad_info := info\<rparr> else a)
         in a1\<lparr>ad_header_parsed := True\<rparr>)
      else a)"

text \<open>
  \<open>decoder_one_frame\<close>: \<open>mem n\<close> tells whether growing the buffer to \<open>n\<close> bytes succeeds; \<open>out\<close> collects the
  frames given to the callback. \<open>None\<close> is a loop that never ends.
\<close>

partial_function (option) decoder_one_frame ::
  "('d \<Rightarrow> u8 list \<Rightarrow> nat \<Rightarrow> proc_answer \<times> 'd) \<Rightarrow> (nat \<Rightarrow> bool) \<Rightarrow> u32 \<Rightarrow> bool \<Rightarrow> 'd \<Rightarrow> u8 list \<Rightarrow> adec \<Rightarrow> pcm_frame list \<Rightarrow>
   (int \<times> 'd \<times> adec \<times> pcm_frame list) option" where
  "decoder_one_frame proc mem pts eos d raw a out =
     (case proc d raw (ad_frame_size a) of
        (Need n, d1) \<Rightarrow>
          if mem n then decoder_one_frame proc mem pts eos d1 raw (a\<lparr>ad_frame_size := n\<rparr>) out
          else Some (ESP_MEDIA_ERR_NO_MEM, d1, a, out)
      | (Proc_err e, d1) \<Rightarrow> Some (e, d1, a, out)
      | (Decoded pcm used_bytes info, d1) \<Rightarrow>
          let a1 = parse_header pcm info a; out1 = out @ [\<lparr>pf_pts = pts, pf_eos = eos, pf_data = pcm\<rparr>]
          in if used_bytes < length raw then decoder_one_frame proc mem pts eos d1 (drop used_bytes raw) a1 out1
             else Some (0, d1, a1, out1))"

definition ADEC_ERR_INVALID_ARG :: int where "ADEC_ERR_INVALID_ARG = 0x102"

text \<open>\<open>adec_decode\<close> of a packet with its time stamp and end-of-stream flag.\<close>

definition adec_decode ::
  "('d \<Rightarrow> u8 list \<Rightarrow> nat \<Rightarrow> proc_answer \<times> 'd) \<Rightarrow> (nat \<Rightarrow> bool) \<Rightarrow> 'd \<Rightarrow> u32 \<Rightarrow> u8 list \<Rightarrow> bool \<Rightarrow> adec \<Rightarrow>
   (int \<times> 'd \<times> adec \<times> pcm_frame list) option" where
  "adec_decode proc mem d pts raw eos a =
     (if raw = [] \<and> \<not> eos then Some (ADEC_ERR_INVALID_ARG, d, a, [])
      else if raw = [] then Some (0, d, a, [\<lparr>pf_pts = pts, pf_eos = eos, pf_data = []\<rparr>])
      else decoder_one_frame proc mem pts eos d raw a [])"

definition adec_get_frame_info :: "adec \<Rightarrow> audio_info" where
  "adec_get_frame_info a = ad_info a"

section \<open>The codec without a buffer\<close>

text \<open>
  The reference: a codec that decodes the start of its input into as many bytes as it takes (\<open>spec\<close>: output, bytes consumed, format,
  new state), applied until the input is used up.
\<close>

function decode_all ::
  "('d \<Rightarrow> u8 list \<Rightarrow> u8 list \<times> nat \<times> audio_info \<times> 'd) \<Rightarrow> 'd \<Rightarrow> u8 list \<Rightarrow> u8 list list \<times> 'd" where
  "decode_all spec d raw =
     (case spec d raw of (pcm, used_bytes, info, d1) \<Rightarrow>
        if used_bytes = 0 \<or> used_bytes \<ge> length raw then ([pcm], d1)
        else (case decode_all spec d1 (drop used_bytes raw) of (pcms, d2) \<Rightarrow> (pcm # pcms, d2)))"
  by pat_completeness auto
termination by (relation "measure (\<lambda>(spec, d, raw). length raw)") auto

declare decode_all.simps [simp del]

text \<open>What the library makes of it: a buffer that is too small is refused with the size that is needed, and nothing changes.\<close>

definition buffered_codec ::
  "('d \<Rightarrow> u8 list \<Rightarrow> u8 list \<times> nat \<times> audio_info \<times> 'd) \<Rightarrow> 'd \<Rightarrow> u8 list \<Rightarrow> nat \<Rightarrow> proc_answer \<times> 'd" where
  "buffered_codec spec d raw room =
     (case spec d raw of (pcm, used_bytes, info, d1) \<Rightarrow>
        if length pcm \<le> room then (Decoded pcm used_bytes info, d1) else (Need (length pcm), d))"

lemma decoder_step:
  assumes "spec d raw = (pcm, k, info, d1)"
  shows "\<exists>a1. ad_calls a1 = ad_calls a \<and> ad_frame_size a \<le> ad_frame_size a1 \<and> length pcm \<le> ad_frame_size a1 \<and>
    decoder_one_frame (buffered_codec spec) (\<lambda>_. True) pts eos d raw a out =
      (if k < length raw
       then decoder_one_frame (buffered_codec spec) (\<lambda>_. True) pts eos d1 (drop k raw) a1 (out @ [\<lparr>pf_pts = pts, pf_eos = eos, pf_data = pcm\<rparr>])
       else Some (0, d1, a1, out @ [\<lparr>pf_pts = pts, pf_eos = eos, pf_data = pcm\<rparr>]))"
proof -
  have fits: "decoder_one_frame (buffered_codec spec) (\<lambda>_. True) pts eos d raw b out =
      (if k < length raw
       then decoder_one_frame (buffered_codec spec) (\<lambda>_. True) pts eos d1 (drop k raw) (parse_header pcm info b)
              (out @ [\<lparr>pf_pts = pts, pf_eos = eos, pf_data = pcm\<rparr>])
       else Some (0, d1, parse_header pcm info b, out @ [\<lparr>pf_pts = pts, pf_eos = eos, pf_data = pcm\<rparr>]))"
    if "length pcm \<le> ad_frame_size b" for b
    using that assms by (subst decoder_one_frame.simps) (simp add: buffered_codec_def Let_def)
  have p: "ad_calls (parse_header pcm info b) = ad_calls b \<and> ad_frame_size (parse_header pcm info b) = ad_frame_size b" for b
    by (simp add: parse_header_def Let_def)
  show ?thesis
  proof (cases "length pcm \<le> ad_frame_size a")
    case True
    then show ?thesis using fits [OF True] p [of a] by (intro exI [of _ "parse_header pcm info a"]) simp
  next
    case False
    let ?b = "a\<lparr>ad_frame_size := length pcm\<rparr>"
    have "decoder_one_frame (buffered_codec spec) (\<lambda>_. True) pts eos d raw a out =
        decoder_one_frame (buffered_codec spec) (\<lambda>_. True) pts eos d raw ?b out"
      using False assms by (subst decoder_one_frame.simps) (simp add: buffered_codec_def)
    then show ?thesis using fits [of ?b] p [of ?b] False by (intro exI [of _ "parse_header pcm info ?b"]) simp
  qed
qed

lemma decoder_one_frame_all:
  assumes progress: "\<And>d raw pcm k info d1. spec d raw = (pcm, k, info, d1) \<Longrightarrow> raw \<noteq> [] \<Longrightarrow> 0 < k"
  shows "raw \<noteq> [] \<Longrightarrow> \<exists>a1. decoder_one_frame (buffered_codec spec) (\<lambda>_. True) pts eos d raw a out =
      Some (0, snd (decode_all spec d raw), a1, out @ map (\<lambda>pcm. \<lparr>pf_pts = pts, pf_eos = eos, pf_data = pcm\<rparr>) (fst (decode_all spec d raw))) \<and>
    ad_calls a1 = ad_calls a \<and> ad_frame_size a \<le> ad_frame_size a1 \<and> (\<forall>pcm \<in> set (fst (decode_all spec d raw)). length pcm \<le> ad_frame_size a1)"
proof (induction "length raw" arbitrary: d raw a out rule: less_induct)
  case less
  obtain pcm k info d1 where s: "spec d raw = (pcm, k, info, d1)" by (cases "spec d raw")
  from progress [OF s less.prems] have k: "0 < k" .
  from decoder_step [of spec d raw pcm k info d1 a pts eos out, OF s] obtain a1 where
    a1: "ad_calls a1 = ad_calls a" "ad_frame_size a \<le> ad_frame_size a1" "length pcm \<le> ad_frame_size a1"
      "decoder_one_frame (buffered_codec spec) (\<lambda>_. True) pts eos d raw a out =
        (if k < length raw
         then decoder_one_frame (buffered_codec spec) (\<lambda>_. True) pts eos d1 (drop k raw) a1 (out @ [\<lparr>pf_pts = pts, pf_eos = eos, pf_data = pcm\<rparr>])
         else Some (0, d1, a1, out @ [\<lparr>pf_pts = pts, pf_eos = eos, pf_data = pcm\<rparr>]))" by blast
  show ?case
  proof (cases "k < length raw")
    case False
    then show ?thesis using a1 s k by (simp add: decode_all.simps [of spec d raw])
  next
    case True
    then have "length (drop k raw) < length raw" "drop k raw \<noteq> []" using k by simp_all
    from less.hyps [OF this, of d1 a1 "out @ [\<lparr>pf_pts = pts, pf_eos = eos, pf_data = pcm\<rparr>]"] a1 s k True show ?thesis
      by (cases "decode_all spec d1 (drop k raw)") (auto simp: decode_all.simps [of spec d raw])
  qed
qed

section \<open>Properties\<close>

text \<open>
  C23. The growing buffer is invisible. With a codec that refuses a buffer that is too small and otherwise consumes
  something, \<open>adec_decode\<close> of a packet returns, and the callback gets exactly what the codec decodes from the
  packet without any limit on its output: every piece, in order, with the time stamp of the packet, from a buffer it fits
  into. (Each piece also carries the end-of-stream flag of the packet, so that a last packet of several
  frames announces the end several times.)
\<close>

theorem adec_decodes_all:
  assumes "\<And>d raw pcm k info d1. spec d raw = (pcm, k, info, d1) \<Longrightarrow> raw \<noteq> [] \<Longrightarrow> 0 < k" "raw \<noteq> []"
  shows "\<exists>a1. adec_decode (buffered_codec spec) (\<lambda>_. True) d pts raw eos a =
      Some (0, snd (decode_all spec d raw), a1, map (\<lambda>pcm. \<lparr>pf_pts = pts, pf_eos = eos, pf_data = pcm\<rparr>) (fst (decode_all spec d raw))) \<and>
    (\<forall>pcm \<in> set (fst (decode_all spec d raw)). length pcm \<le> ad_frame_size a1)"
  using decoder_one_frame_all [of spec raw pts eos d a "[]"] assms by (auto simp: adec_decode_def)

text \<open>A codec for the witness: it repeats each byte of the input a hundred times.\<close>

definition repeat_codec :: "unit \<Rightarrow> u8 list \<Rightarrow> u8 list \<times> nat \<times> audio_info \<times> unit" where
  "repeat_codec d raw =
     (replicate 100 (hd raw), 1, \<lparr>channel = 1, bits_per_sample = 16, sample_rate = 8000\<rparr>, ())"

definition open_adec :: adec where
  "open_adec = \<lparr>ad_codec = CODEC_OPUS, ad_info = \<lparr>channel = 1, bits_per_sample = 16, sample_rate = 8000\<rparr>, ad_opened = True,
     ad_header_parsed = False, ad_frame_data = True, ad_frame_size = 64, ad_calls = []\<rparr>"

theorem adec_decodes_all_witness:
  "\<exists>a1. adec_decode (buffered_codec repeat_codec) (\<lambda>_. True) () 40 [5, 6] True open_adec =
      Some (0, (), a1, [\<lparr>pf_pts = 40, pf_eos = True, pf_data = replicate 100 5\<rparr>, \<lparr>pf_pts = 40, pf_eos = True, pf_data = replicate 100 6\<rparr>]) \<and>
    100 \<le> ad_frame_size a1"
proof -
  have d: "decode_all repeat_codec () [5, 6] = ([replicate 100 5, replicate 100 6], ())"
    by (simp add: decode_all.simps repeat_codec_def)
  have "0 < k" if "repeat_codec d raw = (pcm, k, info, d1)" for d raw pcm k info d1
    using that by (simp add: repeat_codec_def)
  from adec_decodes_all [where spec = repeat_codec and d = "()" and raw = "[5, 6]" and pts = 40 and eos = True and a = open_adec, OF this]
  show ?thesis unfolding d by auto
qed

text \<open>
  The progress is needed: \<open>adec_decode\<close> does not return when the codec accepts a packet without consuming anything of it; the
  loop offers it the same bytes again, delivering a frame each time.
\<close>

theorem adec_stalls:
  assumes "raw \<noteq> []" "\<And>room. \<exists>pcm info. proc d raw room = (Decoded pcm 0 info, d)"
  shows "adec_decode proc mem d pts raw eos a = None"
proof -
  have "raw = raw \<longrightarrow> d = d \<longrightarrow> proc = proc \<longrightarrow> False" if "decoder_one_frame proc mem pts eos d raw a [] = Some r" for r
    using that
  proof (rule decoder_one_frame.raw_induct
      [where P = "\<lambda>proc' mem' pts' eos' d' raw' a' out' r. raw' = raw \<longrightarrow> d' = d \<longrightarrow> proc' = proc \<longrightarrow> False", rotated])
    fix f proc' mem' pts' eos' d' raw' a' out' r
    assume hyp: "\<And>proc' mem' pts' eos' d' raw' a' out' r. f proc' mem' pts' eos' d' raw' a' out' = Some r \<Longrightarrow>
        raw' = raw \<longrightarrow> d' = d \<longrightarrow> proc' = proc \<longrightarrow> False"
      and body: "(case proc' d' raw' (ad_frame_size a') of
        (Need n, d1) \<Rightarrow> if mem' n then f proc' mem' pts' eos' d1 raw' (a'\<lparr>ad_frame_size := n\<rparr>) out'
          else Some (ESP_MEDIA_ERR_NO_MEM, d1, a', out')
      | (Proc_err e, d1) \<Rightarrow> Some (e, d1, a', out')
      | (Decoded pcm used_bytes info, d1) \<Rightarrow>
          let a1 = parse_header pcm info a'; out1 = out' @ [\<lparr>pf_pts = pts', pf_eos = eos', pf_data = pcm\<rparr>]
          in if used_bytes < length raw' then f proc' mem' pts' eos' d1 (drop used_bytes raw') a1 out1
             else Some (0, d1, a1, out1)) = Some r"
    show "raw' = raw \<longrightarrow> d' = d \<longrightarrow> proc' = proc \<longrightarrow> False"
    proof (intro impI)
      assume e: "raw' = raw" "d' = d" "proc' = proc"
      from assms(2) [of "ad_frame_size a'"] obtain pcm info where "proc d raw (ad_frame_size a') = (Decoded pcm 0 info, d)" by blast
      with body e assms(1) have "f proc' mem' pts' eos' d' raw' (parse_header pcm info a') (out' @ [\<lparr>pf_pts = pts', pf_eos = eos', pf_data = pcm\<rparr>]) = Some r"
        by (simp add: Let_def)
      from hyp [OF this] e show False by blast
    qed
  qed
  then have "decoder_one_frame proc mem pts eos d raw a [] = None" by (metis not_Some_eq)
  with assms(1) show ?thesis by (simp add: adec_decode_def)
qed

theorem adec_stalls_witness:
  "adec_decode (\<lambda>d raw room. (Decoded [] 0 (ad_info open_adec), d)) (\<lambda>_. True) () 40 [0xff] False open_adec = None"
  by (rule adec_stalls) simp_all

text \<open>
  Opening and closing balance: a decoder that cannot be opened gives back what it took, and one that was opened gives
  back its codec and its buffer when it is closed, once. A Vorbis stream is never opened.
\<close>

theorem adec_resources_balanced:
  "(case adec_open True mem opens s of
      (Some a, left) \<Rightarrow> ad_calls (adec_close a) = ad_calls a @ [Dec_close, Free_frame_data, Free_adec] \<and>
        get_audio_decoder_type (si_codec s) \<noteq> TYPE_VORBIS \<and> length (ad_calls a) = 1 \<and> opens \<and> mem
    | (None, left) \<Rightarrow> left \<noteq> None \<and> Dec_close \<notin> set (ad_calls (the left)) \<and> count_list (ad_calls (the left)) Free_adec = 1 \<and>
        (Free_frame_data \<in> set (ad_calls (the left)) \<longleftrightarrow> mem \<and> get_audio_decoder_type (si_codec s) \<noteq> TYPE_UNSUPPORT) \<and>
        (opens \<and> mem \<longrightarrow> get_audio_decoder_type (si_codec s) \<in> {TYPE_VORBIS, TYPE_UNSUPPORT}))"
  by (cases "get_audio_decoder_type (si_codec s)"; cases mem; cases opens)
    (simp_all add: adec_open_def open_audio_dec_def adec_close_def close_audio_dec_def note_dec_def Let_def ESP_MEDIA_ERR_NO_MEM_def)

end
