(* ===== verification/Video_Decoder.thy ===== *)
theory Video_Decoder
  imports Color_Convert
begin

text \<open>
  The video decoder of the renderer (\<open>components/av_render/src/video_decoder.c\<close>): a codec of the video library, the
  buffers it decodes into, and the conversion of its output when the display needs another format. The answers
  of the library and of the allocator are arguments (\<open>vdec_answers\<close>); blocks of memory are numbered in the order
  they are allocated, and allocations, releases and the traffic with the frame-buffer callbacks are recorded. \<open>None\<close> is an
  access outside the packet.
\<close>

section \<open>State\<close>

datatype video_codec = VCODEC_NONE | VCODEC_H264 | VCODEC_MJPEG | VCODEC_YUV420 | VCODEC_YUV422 | VCODEC_RGB565

datatype pixel_fmt = PIX_NONE | PIX_YUV420P | PIX_RGB565_LE | PIX_RGB565_BE | PIX_OTHER nat

datatype vcodec_type = VTYPE_NONE | VTYPE_H264 | VTYPE_MJPEG

fun get_vcodec_type :: "video_codec \<Rightarrow> vcodec_type" where
  "get_vcodec_type VCODEC_MJPEG = VTYPE_MJPEG"
| "get_vcodec_type VCODEC_H264 = VTYPE_H264"
| "get_vcodec_type _ = VTYPE_NONE"

fun get_out_fmt :: "frame_type \<Rightarrow> pixel_fmt" where
  "get_out_fmt RAW_TYPE_YUV420 = PIX_YUV420P"
| "get_out_fmt RAW_TYPE_RGB565 = PIX_RGB565_LE"
| "get_out_fmt RAW_TYPE_RGB565_BE = PIX_RGB565_BE"
| "get_out_fmt _ = PIX_NONE"

fun get_frame_type :: "pixel_fmt \<Rightarrow> frame_type" where
  "get_frame_type PIX_RGB565_LE = RAW_TYPE_RGB565"
| "get_frame_type PIX_YUV420P = RAW_TYPE_YUV420"
| "get_frame_type PIX_RGB565_BE = RAW_TYPE_RGB565_BE"
| "get_frame_type _ = RAW_TYPE_NONE"

text \<open>Where a picture is: nowhere, in an allocated block, in the frame buffer of the display, in a fetched buffer.\<close>

datatype pic_ptr = P_null | P_block nat | P_display u32 | P_fetched u32

datatype vdec_call =
    V_alloc nat | V_release nat | V_fetch u32 | V_return pic_ptr bool | V_probe pic_ptr | V_process pic_ptr int | V_convert pic_ptr pic_ptr int
  | V_frame u32 pic_ptr int bool | V_dec_open pixel_fmt bool | V_dec_close | V_release_vdec

record vdec =
  vd_type :: frame_type
  vd_width :: nat
  vd_height :: nat
  vd_fps :: nat
  vd_opened :: bool
  vd_out_data :: "nat option"
  vd_frame_data :: "u32 option"
  vd_frame_data_size :: int
  vd_out_size :: int
  vd_header_parsed :: bool
  vd_dec_out_fmt :: pixel_fmt
  vd_need_convert :: bool
  vd_table :: "nat option"
  vd_raw_buffer :: "nat option"
  vd_raw_buffer_size :: int
  vd_fb_cb :: bool
  vd_blocks :: nat
  vd_calls :: "vdec_call list"

definition v_note :: "vdec_call \<Rightarrow> vdec \<Rightarrow> vdec" where
  "v_note c v = v\<lparr>vd_calls := vd_calls v @ [c]\<rparr>"

text \<open>A new block, when the allocator has one.\<close>

definition v_alloc :: "bool \<Rightarrow> vdec \<Rightarrow> nat option \<times> vdec" where
  "v_alloc mem v = (if mem then (Some (vd_blocks v), v_note (V_alloc (vd_blocks v)) (v\<lparr>vd_blocks := vd_blocks v + 1\<rparr>)) else (None, v))"

text \<open>The three places a block is kept; what was there before is overwritten.\<close>

definition alloc_out_data :: "bool \<Rightarrow> vdec \<Rightarrow> vdec" where
  "alloc_out_data mem v = (let (b, v1) = v_alloc mem v in v1\<lparr>vd_out_data := b\<rparr>)"

definition alloc_table :: "bool \<Rightarrow> vdec \<Rightarrow> vdec" where
  "alloc_table mem v = (let (b, v1) = v_alloc mem v in v1\<lparr>vd_table := b\<rparr>)"

definition alloc_raw_buffer :: "bool \<Rightarrow> vdec \<Rightarrow> vdec" where
  "alloc_raw_buffer mem v = (let (b, v1) = v_alloc mem v in v1\<lparr>vd_raw_buffer := b\<rparr>)"

definition v_release :: "nat option \<Rightarrow> vdec \<Rightarrow> vdec" where
  "v_release b v = (case b of None \<Rightarrow> v | Some n \<Rightarrow> v_note (V_release n) v)"

definition free_out_data :: "vdec \<Rightarrow> vdec" where
  "free_out_data v = (v_release (vd_out_data v) v)\<lparr>vd_out_data := None\<rparr>"

section \<open>One packet\<close>

record vdec_answers =
  va_probe_mem :: bool
  va_wants_more :: bool
  va_info :: int
  va_res :: "nat \<times> nat"
  va_out_mem :: bool
  va_actual :: int
  va_table_mem :: bool
  va_raw_mem :: bool
  va_fetch :: u32
  va_process :: int
  va_decoded_pts :: u32
  va_convert :: int

definition VDEC_ERR_BAD_DATA :: int where "VDEC_ERR_BAD_DATA = 0x90003"
definition VDEC_ERR_NOT_SUPPORT :: int where "VDEC_ERR_NOT_SUPPORT = 0x106"
definition VDEC_ERR_NO_MEM :: int where "VDEC_ERR_NO_MEM = 0x101"

definition opt_block :: "nat option \<Rightarrow> pic_ptr" where
  "opt_block b = (case b of None \<Rightarrow> P_null | Some n \<Rightarrow> P_block n)"

text \<open>
  The part of \<open>do_decode\<close> for a stream whose header is not known. First decode once into 64 bytes, which the
  library has to refuse as too few (\<open>va_wants_more\<close>), to learn the size of the picture.
  \<open>image_size\<close> is the library's. The result is 0 or the code to return.
\<close>

definition probe_header :: "(pixel_fmt \<Rightarrow> nat \<times> nat \<Rightarrow> int) \<Rightarrow> vdec_answers \<Rightarrow> vdec \<Rightarrow> int \<times> vdec" where
  "probe_header image_size e v =
     (let v1 = (alloc_out_data (va_probe_mem e) v)\<lparr>vd_out_size := 64\<rparr>; v2 = v_note (V_probe (opt_block (vd_out_data v1))) v1
      in if \<not> va_wants_more e then (VDEC_ERR_BAD_DATA, v2)
      else if va_info e \<noteq> 0 then (VDEC_ERR_NOT_SUPPORT, free_out_data v2)
      else (0, (free_out_data v2)\<lparr>vd_width := fst (va_res e), vd_height := snd (va_res e),
                 vd_out_size := image_size (vd_dec_out_fmt v2) (va_res e)\<rparr>))"

text \<open>Then the output buffer, when the decoder does not write into one of the display; its allocator may round the size up.\<close>

definition setup_output :: "vdec_answers \<Rightarrow> vdec \<Rightarrow> int \<times> vdec" where
  "setup_output e v =
     (if (vd_frame_data v = None \<and> \<not> vd_fb_cb v) \<or> vd_need_convert v then
        (let v1 = (alloc_out_data (va_out_mem e) v)\<lparr>vd_out_size := va_actual e\<rparr>
         in if vd_out_data v1 = None then (VDEC_ERR_NO_MEM, v1) else (0, v1))
      else (0, v))"

text \<open>Then the conversion, with a buffer for its result.\<close>

definition setup_convert :: "(pixel_fmt \<Rightarrow> nat \<times> nat \<Rightarrow> int) \<Rightarrow> vdec_answers \<Rightarrow> vdec \<Rightarrow> int \<times> vdec" where
  "setup_convert image_size e v =
     (if \<not> vd_need_convert v then (0, v)
      else let v1 = alloc_table (va_table_mem e) v
      in if vd_table v1 = None then (-1, v1)
      else let v2 = v1\<lparr>vd_raw_buffer_size := image_size (get_out_fmt (vd_type v1)) (va_res e)\<rparr>
      in if \<not> vd_fb_cb v2 \<and> vd_raw_buffer v2 = None then
           (let v3 = alloc_raw_buffer (va_raw_mem e) v2 in if vd_raw_buffer v3 = None then (VDEC_ERR_NO_MEM, v3) else (0, v3))
         else (0, v2))"

definition parse_video_header :: "(pixel_fmt \<Rightarrow> nat \<times> nat \<Rightarrow> int) \<Rightarrow> vdec_answers \<Rightarrow> vdec \<Rightarrow> int \<times> vdec" where
  "parse_video_header image_size e v =
     (case probe_header image_size e v of (ret, v1) \<Rightarrow>
        if ret \<noteq> 0 then (ret, v1)
        else case setup_output e v1 of (ret, v2) \<Rightarrow>
          if ret \<noteq> 0 then (ret, v2)
          else case setup_convert image_size e v2 of (ret, v3) \<Rightarrow>
            if ret \<noteq> 0 then (ret, v3) else (0, v3\<lparr>vd_header_parsed := True\<rparr>))"

text \<open>\<open>fb_fetch\<close> and \<open>fb_return\<close>; the address 0 is no buffer.\<close>

definition v_fetch :: "u32 \<Rightarrow> vdec \<Rightarrow> pic_ptr \<times> vdec" where
  "v_fetch a v = (if a = 0 then P_null else P_fetched a, v_note (V_fetch a) v)"

text \<open>A packet, and a decoded frame: time stamp, where it is, its size, end of stream.\<close>

record vpacket =
  vpk_pts :: u32
  vpk_data :: "u8 list"
  vpk_eos :: bool

record vframe =
  vf_pts :: u32
  vf_data :: pic_ptr
  vf_size :: int
  vf_eos :: bool

text \<open>The diagnosis of a failed packet prints its first and its last four bytes.\<close>

definition print_packet_ends :: "vpacket \<Rightarrow> unit option" where
  "print_packet_ends p = (if length (vpk_data p) < 4 then None else Some ())"

definition display_or_block :: "vdec \<Rightarrow> nat option \<Rightarrow> pic_ptr" where
  "display_or_block v b = (case vd_frame_data v of Some a \<Rightarrow> P_display a | None \<Rightarrow> opt_block b)"

definition decode_picture :: "vdec_answers \<Rightarrow> vpacket \<Rightarrow> vframe \<Rightarrow> vdec \<Rightarrow> (int \<times> vframe \<times> vdec) option" where
  "decode_picture e p f v =
     (let (dst, v1) = (if vd_need_convert v then (opt_block (vd_out_data v), v)
                       else if vd_fb_cb v then v_fetch (va_fetch e) v
                       else (display_or_block v (vd_out_data v), v));
          v2 = v_note (V_process dst (va_process e)) v1
      in if va_process e \<noteq> 0 then
           print_packet_ends p \<bind> (\<lambda>_. Some (va_process e, f,
             if vd_fb_cb v2 \<and> \<not> vd_need_convert v2 then v_note (V_return dst True) v2 else v2))
         else if \<not> vd_need_convert v2 then
           Some (0, f\<lparr>vf_pts := vpk_pts p, vf_data := dst, vf_size := vd_out_size v2\<rparr>, v2)
         else
           (let (out, v3) = (if vd_fb_cb v2 then v_fetch (va_fetch e) v2 else (display_or_block v2 (vd_raw_buffer v2), v2))
            in if vd_fb_cb v3 \<and> out = P_null then Some (VDEC_ERR_NO_MEM, f, v3)
            else let v4 = v_note (V_convert dst out (va_convert e)) v3
            in if va_convert e \<noteq> 0 then
                 Some (va_convert e, f, if vd_fb_cb v4 then v_note (V_return out True) v4 else v4)
               else Some (0, f\<lparr>vf_pts := va_decoded_pts e, vf_data := out, vf_size := vd_raw_buffer_size v4\<rparr>, v4)))"

definition do_decode ::
  "(pixel_fmt \<Rightarrow> nat \<times> nat \<Rightarrow> int) \<Rightarrow> vdec_answers \<Rightarrow> vpacket \<Rightarrow> vframe \<Rightarrow> vdec \<Rightarrow> (int \<times> vframe \<times> vdec) option" where
  "do_decode image_size e p f v =
     (if vd_header_parsed v then decode_picture e p f v
      else let (ret, v1) = parse_video_header image_size e v
        in if ret \<noteq> 0 then Some (ret, f, v1) else decode_picture e p f v1)"

text \<open>\<open>vdec_decode\<close>; the frame callback is that of the renderer, which is always set.\<close>

definition vdec_decode :: "(pixel_fmt \<Rightarrow> nat \<times> nat \<Rightarrow> int) \<Rightarrow> vdec_answers \<Rightarrow> vpacket \<Rightarrow> vdec \<Rightarrow> (int \<times> vdec) option" where
  "vdec_decode image_size e p v =
     do_decode image_size e p \<lparr>vf_pts = vpk_pts p, vf_data = P_null, vf_size = 0, vf_eos = vpk_eos p\<rparr> v \<bind> (\<lambda>(ret, f, v1).
       if ret \<noteq> 0 then Some (ret, v1)
       else let v2 = v_note (V_frame (vf_pts f) (vf_data f) (vf_size f) (vf_eos f)) (v1\<lparr>vd_header_parsed := True\<rparr>)
         in Some (ret, if vd_fb_cb v2 \<and> vf_data f \<noteq> P_null then v_note (V_return (vf_data f) False) v2 else v2))"

section \<open>The rest of the interface\<close>

text \<open>\<open>caps\<close> are the output formats of the codec of the library. The result is the format to open it with.\<close>

definition check_input_format_support :: "pixel_fmt list \<Rightarrow> frame_type \<Rightarrow> vdec \<Rightarrow> pixel_fmt option \<times> vdec" where
  "check_input_format_support caps out_fmt v =
     (if caps = [] then (None, v)
      else if get_out_fmt out_fmt \<in> set caps then (Some (get_out_fmt out_fmt), v)
      else (Some (hd caps), v\<lparr>vd_need_convert := True\<rparr>))"

text \<open>The code, and what is stored through the two pointers: \<open>num\<close> is the room on entry, the number of formats on success.\<close>

definition VDEC_ERR_EXCEED_LIMIT :: int where "VDEC_ERR_EXCEED_LIMIT = 0x90004"

definition vdec_get_output_formats :: "pixel_fmt list \<Rightarrow> frame_type list \<Rightarrow> int \<times> frame_type list \<times> nat" where
  "vdec_get_output_formats caps fmts =
     (if caps = [] then (VDEC_ERR_NOT_SUPPORT, fmts, length fmts)
      else if length fmts < length caps then (VDEC_ERR_EXCEED_LIMIT, fmts, length fmts)
      else (0, map get_frame_type caps @ drop (length caps) fmts, length caps))"

definition vdec_close :: "vdec \<Rightarrow> vdec" where
  "vdec_close v =
     (let v1 = (if vd_opened v then v_note V_dec_close (v\<lparr>vd_opened := False\<rparr>) else v);
          v2 = free_out_data v1;
          v3 = (v_release (vd_table v2) v2)\<lparr>vd_table := None\<rparr>;
          v4 = (v_release (vd_raw_buffer v3) v3)\<lparr>vd_raw_buffer := None\<rparr>
      in v_note V_release_vdec v4)"

definition vdec_open ::
  "pixel_fmt list \<Rightarrow> bool \<Rightarrow> bool \<Rightarrow> frame_type \<Rightarrow> nat \<Rightarrow> nat \<Rightarrow> nat \<Rightarrow> vdec option \<times> vdec option" where
  "vdec_open caps mem opens out_type w h fps =
     (if \<not> mem then (None, None)
      else let ty = (if out_type = RAW_TYPE_NONE then RAW_TYPE_RGB565 else out_type);
               v = \<lparr>vd_type = RAW_TYPE_NONE, vd_width = w, vd_height = h, vd_fps = fps, vd_opened = False, vd_out_data = None,
                    vd_frame_data = None, vd_frame_data_size = 0, vd_out_size = 0, vd_header_parsed = False, vd_dec_out_fmt = PIX_NONE,
                    vd_need_convert = False, vd_table = None, vd_raw_buffer = None, vd_raw_buffer_size = 0, vd_fb_cb = False,
                    vd_blocks = 0, vd_calls = []\<rparr>
        in case check_input_format_support caps ty v of
             (None, v1) \<Rightarrow> (None, Some (vdec_close v1))
           | (Some fmt, v1) \<Rightarrow>
               (if opens
                then (Some (v_note (V_dec_open fmt True) (v1\<lparr>vd_opened := True, vd_type := ty, vd_dec_out_fmt := fmt\<rparr>)), None)
                else (None, Some (vdec_close (v_note (V_dec_open fmt False) v1)))))"

text \<open>Both callbacks have to be given.\<close>

definition vdec_set_fb_cb :: "bool \<Rightarrow> bool \<Rightarrow> vdec \<Rightarrow> vdec option" where
  "vdec_set_fb_cb fetch ret v = (if fetch \<and> ret then Some (v\<lparr>vd_fb_cb := True\<rparr>) else None)"

definition vdec_set_frame_buffer :: "u32 option \<Rightarrow> int \<Rightarrow> vdec \<Rightarrow> vdec" where
  "vdec_set_frame_buffer a n v =
     (let v1 = v\<lparr>vd_frame_data := a\<rparr> in if n > 0 then v1\<lparr>vd_frame_data_size := n\<rparr> else v1)"

definition vdec_get_frame_info :: "vdec \<Rightarrow> (frame_type \<times> nat \<times> nat \<times> nat) option" where
  "vdec_get_frame_info v =
     (if vd_header_parsed v then Some (vd_type v, vd_width v, vd_height v, vd_fps v) else None)"

section \<open>Blocks of memory\<close>

definition opt_list :: "'a option \<Rightarrow> 'a list" where
  "opt_list b = (case b of None \<Rightarrow> [] | Some n \<Rightarrow> [n])"

lemma opt_list_simps [simp]: "opt_list None = []" "opt_list (Some n) = [n]"
  by (simp_all add: opt_list_def)

definition v_held :: "vdec \<Rightarrow> nat list" where
  "v_held v = opt_list (vd_out_data v) @ opt_list (vd_table v) @ opt_list (vd_raw_buffer v)"

fun released_block :: "vdec_call \<Rightarrow> nat list" where
  "released_block (V_release n) = [n]"
| "released_block _ = []"

definition v_released :: "vdec \<Rightarrow> nat list" where
  "v_released v = concat (map released_block (vd_calls v))"

text \<open>No block is held twice or released twice, and none is held that was released.\<close>

definition vdec_mem_ok :: "vdec \<Rightarrow> bool" where
  "vdec_mem_ok v \<longleftrightarrow> distinct (v_released v @ v_held v) \<and> (\<forall>n \<in> set (v_released v @ v_held v). n < vd_blocks v)"

text \<open>The number of blocks that nobody can release any more.\<close>

definition v_lost :: "vdec \<Rightarrow> nat" where
  "v_lost v = vd_blocks v - length (v_released v @ v_held v)"

lemmas v_mem_defs = v_held_def v_released_def v_note_def v_alloc_def v_release_def

lemma mem_ok_cong:
  "v_released w = v_released v \<Longrightarrow> v_held w = v_held v \<Longrightarrow> vd_blocks w = vd_blocks v \<Longrightarrow> vdec_mem_ok v \<Longrightarrow> vdec_mem_ok w"
  by (simp add: vdec_mem_ok_def)

lemma mem_ok_update [simp]:
  "vdec_mem_ok (v\<lparr>vd_out_size := x\<rparr>) = vdec_mem_ok v" "vdec_mem_ok (v\<lparr>vd_width := n\<rparr>) = vdec_mem_ok v"
  "vdec_mem_ok (v\<lparr>vd_height := n\<rparr>) = vdec_mem_ok v" "vdec_mem_ok (v\<lparr>vd_header_parsed := b\<rparr>) = vdec_mem_ok v"
  "vdec_mem_ok (v\<lparr>vd_raw_buffer_size := x\<rparr>) = vdec_mem_ok v"
  by (simp_all add: vdec_mem_ok_def v_held_def v_released_def)

lemma mem_ok_note [simp]: "released_block c = [] \<Longrightarrow> vdec_mem_ok (v_note c v) = vdec_mem_ok v"
  by (simp add: vdec_mem_ok_def v_held_def v_released_def v_note_def)

lemma mem_ok_alloc [simp]:
  "vdec_mem_ok v \<Longrightarrow> vdec_mem_ok (alloc_out_data mem v)" "vdec_mem_ok v \<Longrightarrow> vdec_mem_ok (alloc_table mem v)"
  "vdec_mem_ok v \<Longrightarrow> vdec_mem_ok (alloc_raw_buffer mem v)"
  by (cases mem; auto simp: vdec_mem_ok_def alloc_out_data_def alloc_table_def alloc_raw_buffer_def v_mem_defs less_Suc_eq)+

lemma mem_ok_free [simp]: "vdec_mem_ok v \<Longrightarrow> vdec_mem_ok (free_out_data v)"
  by (cases "vd_out_data v") (auto simp: vdec_mem_ok_def free_out_data_def v_mem_defs)

lemma header_steps_mem:
  "vdec_mem_ok v \<Longrightarrow> vdec_mem_ok (snd (probe_header image_size e v))"
  "vdec_mem_ok v \<Longrightarrow> vdec_mem_ok (snd (setup_output e v))"
  "vdec_mem_ok v \<Longrightarrow> vdec_mem_ok (snd (setup_convert image_size e v))"
  by (auto simp: probe_header_def setup_output_def setup_convert_def Let_def)

lemma parse_header_mem: "vdec_mem_ok v \<Longrightarrow> vdec_mem_ok (snd (parse_video_header image_size e v))"
  using header_steps_mem(1) [of v image_size e] header_steps_mem(2) [of "snd (probe_header image_size e v)" e]
    header_steps_mem(3) [of "snd (setup_output e (snd (probe_header image_size e v)))" image_size e]
  by (auto simp: parse_video_header_def split: prod.splits)
lemma fetch_mem [simp]: "vdec_mem_ok (snd (v_fetch a v)) = vdec_mem_ok v"
  by (simp add: v_fetch_def)

lemma decode_picture_mem:
  assumes "decode_picture e p f v = Some (ret, f', v')" "vdec_mem_ok v"
  shows "vdec_mem_ok v'"
  using assms by (auto simp: decode_picture_def v_fetch_def Let_def split: Option.bind_splits if_splits prod.splits)

definition vdec_step :: "(pixel_fmt \<Rightarrow> nat \<times> nat \<Rightarrow> int) \<Rightarrow> vdec \<Rightarrow> vdec_answers \<times> vpacket \<Rightarrow> vdec option" where
  "vdec_step image_size v ep = map_option snd (vdec_decode image_size (fst ep) (snd ep) v)"

lemma vdec_step_mem: "vdec_mem_ok v \<Longrightarrow> vdec_step image_size v ep = Some v' \<Longrightarrow> vdec_mem_ok v'"
  using parse_header_mem [of v image_size "fst ep"]
  by (auto simp: vdec_step_def vdec_decode_def do_decode_def Let_def split: Option.bind_splits if_splits prod.splits
      dest!: decode_picture_mem)

text \<open>Everything allocated so far is held or was released; a decoder without a header holds nothing.\<close>

definition vdec_whole :: "vdec \<Rightarrow> bool" where
  "vdec_whole v \<longleftrightarrow> vdec_mem_ok v \<and> length (v_released v @ v_held v) = vd_blocks v \<and> (\<not> vd_header_parsed v \<longrightarrow> v_held v = [])"

text \<open>The stream starts with a header and the memory suffices.\<close>

definition good_answers :: "vdec_answers \<Rightarrow> bool" where
  "good_answers e \<longleftrightarrow> va_probe_mem e \<and> va_wants_more e \<and> va_info e = 0 \<and> va_out_mem e \<and> va_table_mem e \<and> va_raw_mem e"

lemma decode_picture_frame:
  assumes "decode_picture e p f v = Some (ret, f', v')"
  shows "v_released v' = v_released v \<and> v_held v' = v_held v \<and> vd_blocks v' = vd_blocks v \<and> vd_header_parsed v' = vd_header_parsed v"
  using assms by (auto simp: decode_picture_def v_fetch_def v_held_def v_released_def v_note_def Let_def split: Option.bind_splits if_splits prod.splits)

lemma parse_header_whole:
  assumes "good_answers e" "length (v_released v @ v_held v) = vd_blocks v" "v_held v = []"
  shows "fst (parse_video_header image_size e v) = 0 \<and> (case parse_video_header image_size e v of (ret, v1) \<Rightarrow>
    length (v_released v1 @ v_held v1) = vd_blocks v1 \<and> vd_header_parsed v1)"
proof -
  have n: "vd_out_data v = None" "vd_table v = None" "vd_raw_buffer v = None"
    using assms(3) by (auto simp: v_held_def opt_list_def split: option.splits)
  with assms show ?thesis
    by (auto simp: good_answers_def parse_video_header_def probe_header_def setup_output_def setup_convert_def alloc_out_data_def
        alloc_table_def alloc_raw_buffer_def free_out_data_def v_mem_defs Let_def)
qed
lemma vdec_step_frame:
  assumes "vdec_step image_size v ep = Some v'" "vd_header_parsed v1"
    and "v1 = (if vd_header_parsed v then v else snd (parse_video_header image_size (fst ep) v))"
    and "vd_header_parsed v \<or> fst (parse_video_header image_size (fst ep) v) = 0"
  shows "v_released v' = v_released v1 \<and> v_held v' = v_held v1 \<and> vd_blocks v' = vd_blocks v1 \<and> vd_header_parsed v'"
proof -
  from assms(1,3,4) obtain f ret f' v2 where d: "decode_picture (fst ep) (snd ep) f v1 = Some (ret, f', v2)"
    and v': "v' = v2 \<or> v' = v_note (V_frame (vf_pts f') (vf_data f') (vf_size f') (vf_eos f')) (v2\<lparr>vd_header_parsed := True\<rparr>) \<or>
      v' = v_note (V_return (vf_data f') False) (v_note (V_frame (vf_pts f') (vf_data f') (vf_size f') (vf_eos f')) (v2\<lparr>vd_header_parsed := True\<rparr>))"
    by (auto simp: vdec_step_def vdec_decode_def do_decode_def Let_def split: Option.bind_splits if_splits prod.splits)
  show ?thesis using v' decode_picture_frame [OF d] assms(2) by (auto simp: v_held_def v_released_def v_note_def)
qed

lemma vdec_step_whole:
  assumes w: "vdec_whole v" and g: "good_answers (fst ep)" and s: "vdec_step image_size v ep = Some v'"
  shows "vdec_whole v'"
proof (cases "vd_header_parsed v")
  case True
  with vdec_step_frame [OF s, of v] vdec_step_mem [OF _ s] w show ?thesis by (simp add: vdec_whole_def)
next
  case False
  then have "v_held v = []" "length (v_released v @ v_held v) = vd_blocks v" using w by (auto simp: vdec_whole_def)
  with parse_header_whole [OF g, of v image_size] vdec_step_frame [OF s _ refl] vdec_step_mem [OF _ s] w False show ?thesis
    by (auto simp: vdec_whole_def split: prod.splits)
qed

interpretation vdec_mem: safe_machine "vdec_step image_size" vdec_mem_ok for image_size
  by unfold_locales (rule vdec_step_mem)

lemma vdec_run_whole:
  "vdec_whole v \<Longrightarrow> list_all (\<lambda>ep. good_answers (fst ep)) eps \<Longrightarrow> run_events (vdec_step image_size) v eps = Some v' \<Longrightarrow> vdec_whole v'"
  by (induction eps arbitrary: v) (auto split: Option.bind_splits intro: vdec_step_whole)

lemma close_releases:
  "v_released (vdec_close v) = v_released v @ v_held v \<and> vd_blocks (vdec_close v) = vd_blocks v"
  by (cases "vd_out_data v"; cases "vd_table v"; cases "vd_raw_buffer v")
    (auto simp: vdec_close_def free_out_data_def v_mem_defs Let_def)

lemma vdec_open_whole:
  assumes "vdec_open caps mem opens ty w h fps = (Some v, left)"
  shows "vdec_whole v" and "vd_blocks v = 0" and "v_released v = []" and "\<not> vd_header_parsed v"
  using assms by (auto simp: vdec_open_def check_input_format_support_def vdec_whole_def vdec_mem_ok_def v_held_def v_released_def
      v_note_def Let_def split: if_splits option.splits prod.splits)

section \<open>Properties\<close>


definition h264_answers :: vdec_answers where
  "h264_answers = \<lparr>va_probe_mem = True, va_wants_more = True, va_info = 0, va_res = (320, 240), va_out_mem = True, va_actual = 115200,
     va_table_mem = True, va_raw_mem = True, va_fetch = 0, va_process = 0, va_decoded_pts = 40, va_convert = 0\<rparr>"

definition h264_packet :: vpacket where
  "h264_packet = \<lparr>vpk_pts = 40, vpk_data = [0, 0, 0, 1, 0x65], vpk_eos = False\<rparr>"

definition yuv_vdec :: vdec where
  "yuv_vdec = the (fst (vdec_open [PIX_YUV420P] True True RAW_TYPE_RGB565 320 240 20))"

lemma yuv_vdec_open: "vdec_open [PIX_YUV420P] True True RAW_TYPE_RGB565 320 240 20 = (Some yuv_vdec, None)"
  by (simp add: yuv_vdec_def vdec_open_def check_input_format_support_def Let_def)

lemma yuv_vdec_run:
  "\<exists>v. run_events (vdec_step (\<lambda>_ _. 153600)) yuv_vdec [(h264_answers, h264_packet), (h264_answers, h264_packet)] = Some v \<and> vd_blocks v = 4"
  by (simp add: yuv_vdec_def vdec_open_def check_input_format_support_def vdec_step_def vdec_decode_def do_decode_def parse_video_header_def
      probe_header_def setup_output_def setup_convert_def decode_picture_def alloc_out_data_def alloc_table_def alloc_raw_buffer_def
      free_out_data_def v_mem_defs h264_answers_def h264_packet_def display_or_block_def opt_block_def Let_def)

text \<open>
  The start matters: each packet that comes before a header (a stream joined in its middle) allocates a probe buffer and
  leaves it behind, since \<open>do_decode\<close> returns without freeing it and the next packet overwrites the
  pointer. After \<open>n\<close> such packets, closing the decoder releases only the last of the \<open>n\<close> blocks.
\<close>

lemma refused_packet:
  assumes "\<not> vd_header_parsed v" "va_probe_mem e" "\<not> va_wants_more e"
  shows "\<exists>v1. vdec_step image_size v (e, p) = Some v1 \<and> \<not> vd_header_parsed v1 \<and> vd_blocks v1 = vd_blocks v + 1 \<and>
    v_released v1 = v_released v \<and> vd_out_data v1 = Some (vd_blocks v) \<and> vd_table v1 = vd_table v \<and> vd_raw_buffer v1 = vd_raw_buffer v"
  using assms by (simp add: vdec_step_def vdec_decode_def do_decode_def parse_video_header_def probe_header_def alloc_out_data_def v_mem_defs
      VDEC_ERR_BAD_DATA_def Let_def)

lemma refused_packets:
  assumes "va_probe_mem e" "\<not> va_wants_more e"
  shows "\<not> vd_header_parsed v \<Longrightarrow> \<exists>v1. run_events (vdec_step image_size) v (replicate n (e, p)) = Some v1 \<and>
    vd_blocks v1 = vd_blocks v + n \<and> v_released v1 = v_released v \<and>
    (0 < n \<longrightarrow> vd_out_data v1 = Some (vd_blocks v + n - 1)) \<and> vd_table v1 = vd_table v \<and> vd_raw_buffer v1 = vd_raw_buffer v"
proof (induction n arbitrary: v)
  case (Suc n)
  from refused_packet [OF Suc.prems assms, of image_size p] obtain v1 where
    v1: "vdec_step image_size v (e, p) = Some v1" "\<not> vd_header_parsed v1" "vd_blocks v1 = vd_blocks v + 1" "v_released v1 = v_released v"
      "vd_out_data v1 = Some (vd_blocks v)" "vd_table v1 = vd_table v" "vd_raw_buffer v1 = vd_raw_buffer v" by blast
  with Suc.IH [OF v1(2)] show ?case by (cases n) auto
qed simp

theorem refused_packets_leak:
  assumes "vdec_open caps True True ty w h fps = (Some v0, left)" "va_probe_mem e" "\<not> va_wants_more e" "0 < n"
  shows "\<exists>v. run_events (vdec_step image_size) v0 (replicate n (e, p)) = Some v \<and> vd_blocks v = n \<and> v_released (vdec_close v) = [n - 1]"
proof -
  note o = vdec_open_whole [OF assms(1)]
  have "v_held v0 = []" using o by (simp add: vdec_whole_def)
  then have h: "vd_table v0 = None" "vd_raw_buffer v0 = None" by (auto simp: v_held_def opt_list_def split: option.splits)
  from refused_packets [OF assms(2,3) o(4), of image_size n p] o h assms(4) show ?thesis
    by (auto simp: close_releases v_held_def)
qed

theorem refused_packets_leak_witness:
  "\<exists>v. run_events (vdec_step (\<lambda>_ _. 153600)) yuv_vdec (replicate 5 (h264_answers\<lparr>va_wants_more := False\<rparr>, h264_packet)) = Some v \<and>
    vd_blocks v = 5 \<and> v_released (vdec_close v) = [4]"
  using refused_packets_leak [OF yuv_vdec_open, of "h264_answers\<lparr>va_wants_more := False\<rparr>" 5 "\<lambda>_ _. 153600" h264_packet]
  by (simp add: h264_answers_def del: run_events.simps replicate.simps)

fun fb_traffic :: "vdec_call \<Rightarrow> vdec_call list" where
  "fb_traffic (V_fetch a) = [V_fetch a]"
| "fb_traffic (V_return b d) = [V_return b d]"
| "fb_traffic (V_frame t b n e) = [V_frame t b n e]"
| "fb_traffic _ = []"

definition v_traffic :: "vdec \<Rightarrow> vdec_call list" where
  "v_traffic v = concat (map fb_traffic (vd_calls v))"

text \<open>
  Buffers fetched for the output are given back: when \<open>vdec_decode\<close> gets a buffer from the renderer for a
  picture, it is returned exactly once, as the last thing done with it; dropped when the packet or the conversion
  failed, and otherwise, after the frame was handed on, to be sent.
\<close>

theorem fetched_buffer_returned:
  assumes "vd_fb_cb v" "vd_header_parsed v" "va_fetch e \<noteq> 0" "vdec_decode image_size e p v = Some (ret, v')"
  shows "\<exists>t n. v_traffic v' = v_traffic v @
    (if ret = 0 then [V_fetch (va_fetch e), V_frame t (P_fetched (va_fetch e)) n (vpk_eos p), V_return (P_fetched (va_fetch e)) False]
     else if va_process e \<noteq> 0 \<and> vd_need_convert v then [] else [V_fetch (va_fetch e), V_return (P_fetched (va_fetch e)) True])"
  using assms by (auto simp: vdec_decode_def do_decode_def decode_picture_def v_fetch_def v_note_def v_traffic_def Let_def
      split: Option.bind_splits if_splits prod.splits)

theorem fetched_buffer_returned_witness:
  "\<exists>v' t n. vdec_decode (\<lambda>_ _. 153600) (h264_answers\<lparr>va_fetch := 0x40000020\<rparr>) h264_packet
      (yuv_vdec\<lparr>vd_fb_cb := True, vd_header_parsed := True, vd_need_convert := False\<rparr>) = Some (0, v') \<and>
    v_traffic v' = [V_fetch 0x40000020, V_frame t (P_fetched 0x40000020) n False, V_return (P_fetched 0x40000020) False]"
proof -
  let ?e = "h264_answers\<lparr>va_fetch := 0x40000020\<rparr>" and ?v = "yuv_vdec\<lparr>vd_fb_cb := True, vd_header_parsed := True, vd_need_convert := False\<rparr>"
  have "\<exists>v'. vdec_decode (\<lambda>_ _. 153600) ?e h264_packet ?v = Some (0, v')"
    by (simp add: vdec_decode_def do_decode_def decode_picture_def v_fetch_def v_note_def h264_answers_def Let_def)
  then obtain v' where v': "vdec_decode (\<lambda>_ _. 153600) ?e h264_packet ?v = Some (0, v')" by blast
  have "\<exists>t n. v_traffic v' = v_traffic ?v @ (if (0::int) = 0
      then [V_fetch (va_fetch ?e), V_frame t (P_fetched (va_fetch ?e)) n (vpk_eos h264_packet), V_return (P_fetched (va_fetch ?e)) False]
      else if va_process ?e \<noteq> 0 \<and> vd_need_convert ?v then [] else [V_fetch (va_fetch ?e), V_return (P_fetched (va_fetch ?e)) True])"
    by (rule fetched_buffer_returned [OF _ _ _ v']) simp_all
  then have "\<exists>t n. v_traffic v' = [V_fetch 0x40000020, V_frame t (P_fetched 0x40000020) n False, V_return (P_fetched 0x40000020) False]"
    by (simp add: v_traffic_def yuv_vdec_def vdec_open_def check_input_format_support_def v_note_def h264_packet_def Let_def)
  with v' show ?thesis by blast
qed

text \<open>
  A video stream cannot be ended with an empty packet, as an audio stream can: when the codec reports an error for it,
  the diagnosis prints four bytes from its start and four from before its end, outside the packet; the
  same happens for every refused packet of fewer than four bytes.
\<close>

theorem short_packet_overread:
  assumes "vd_header_parsed v" "va_process e \<noteq> 0" "length (vpk_data p) < 4"
  shows "vdec_decode image_size e p v = None"
  using assms by (simp add: vdec_decode_def do_decode_def decode_picture_def print_packet_ends_def Let_def split: prod.splits)

theorem short_packet_overread_witness:
  "vdec_decode (\<lambda>_ _. 153600) (h264_answers\<lparr>va_process := -1\<rparr>) \<lparr>vpk_pts = 80, vpk_data = [], vpk_eos = True\<rparr>
     (yuv_vdec\<lparr>vd_header_parsed := True\<rparr>) = None"
  by (rule short_packet_overread) simp_all

end
