(* ===== verification/Render_Threads.thy ===== *)
theory Render_Threads
  imports Esp_Prelude
begin

text \<open>
  The threads of the renderer and how they are controlled (\<open>render_thread\<close>, \<open>send_msg_to_thread\<close>, \<open>render_flush\<close> and
  \<open>av_render_reset\<close> of \<open>components/av_render/src/av_render.c\<close>). Up to four threads, numbered in the order in which
  \<open>av_render_reset\<close> closes them (0 audio decoder, 1 video decoder, 2 audio render, 3 video render), take messages from a queue of
  four and data from their data queue, and report through the bits of an event group. One thread uses the
  interface, under \<open>api_lock\<close>. Every statement that reads or writes what threads share is a step; steps
  interleave freely. A step that has to wait is not enabled.
\<close>

section \<open>State\<close>

datatype av_msg = MSG_PAUSE | MSG_RESUME | MSG_FLUSH | MSG_CLOSE

text \<open>Where a thread is: before \<open>msg_q_recv\<close>, before its body, after the loop, after it cleared its handle, gone.\<close>

datatype worker_phase = Wk_recv | Wk_body | Wk_broken | Wk_leaving | Wk_gone

text \<open>The data queue is the list of its elements; 0 is an element sent to wake the thread, which bodies ignore.\<close>

record worker =
  wk_thread :: bool
  wk_phase :: worker_phase
  wk_msgs :: "av_msg list"
  wk_q :: "nat list"
  wk_has_q :: bool
  wk_paused :: bool
  wk_flushing :: bool

text \<open>A thread that was never created.\<close>

definition no_worker :: worker where
  "no_worker = \<lparr>wk_thread = False, wk_phase = Wk_gone, wk_msgs = [], wk_q = [], wk_has_q = False, wk_paused = False, wk_flushing = False\<rparr>"

text \<open>\<open>create_thread_res\<close> when everything it needs can be created.\<close>

definition create_thread_res :: worker where
  "create_thread_res = \<lparr>wk_thread = True, wk_phase = Wk_recv, wk_msgs = [], wk_q = [], wk_has_q = True, wk_paused = False, wk_flushing = False\<rparr>"

text \<open>
  Where the thread of the interface is. \<open>F_*\<close> is \<open>render_flush\<close>, \<open>R_*\<close> the closing of the threads in
  \<open>av_render_reset\<close> (round, thread); \<open>Api_abort\<close> is a wait for no bits at all, which FreeRTOS does not permit.
\<close>

datatype api_pc =
    Api_idle | Api_abort
  | F_test nat | F_send nat | F_wake nat | F_wait nat | F_wait_renders
  | R_test nat nat | R_send nat nat | R_wake nat nat | R_wait nat | R_free

record render_sys =
  rs_workers :: "nat \<Rightarrow> worker"
  rs_closed :: "nat list"
  rs_flushed :: "nat list"
  rs_pc :: api_pc
  rs_wait :: "nat list"
  rs_recv :: "nat list"
  rs_freed :: bool

section \<open>A thread\<close>

text \<open>
  What a body does with an element, or what keeps it from it: its code, whether it takes the element out of the
  queue (it is only peeked at while paused, or below the audio threshold), and whether it pauses the thread.
\<close>

record body_answer =
  ba_ret :: int
  ba_takes :: bool
  ba_pauses :: bool

text \<open>Bits set by a step: flushed, closed.\<close>

datatype worker_bit = No_bit | Flushed_bit | Closed_bit

fun render_thread :: "body_answer \<Rightarrow> worker \<Rightarrow> (worker \<times> worker_bit) option" where
  "render_thread b w =
     (case wk_phase w of
        Wk_recv \<Rightarrow>
          (case wk_msgs w of
             [] \<Rightarrow> if wk_paused w then None else Some (w\<lparr>wk_phase := Wk_body\<rparr>, No_bit)
           | MSG_CLOSE # ms \<Rightarrow> Some (w\<lparr>wk_msgs := ms, wk_phase := Wk_broken\<rparr>, No_bit)
           | MSG_FLUSH # ms \<Rightarrow>
               Some (w\<lparr>wk_msgs := ms, wk_q := [], wk_flushing := False, wk_phase := (if wk_paused w then Wk_recv else Wk_body)\<rparr>,
                     Flushed_bit)
           | MSG_PAUSE # ms \<Rightarrow> Some (w\<lparr>wk_msgs := ms, wk_paused := True\<rparr>, No_bit)
           | MSG_RESUME # ms \<Rightarrow> Some (w\<lparr>wk_msgs := ms, wk_paused := False, wk_phase := Wk_body\<rparr>, No_bit))
      | Wk_body \<Rightarrow>
          (case wk_q w of
             [] \<Rightarrow> None
           | x # xs \<Rightarrow>
               Some (w\<lparr>wk_q := (if ba_takes b then xs else x # xs), wk_paused := (wk_paused w \<or> ba_pauses b),
                       wk_phase := (if ba_ret b \<noteq> 0 then Wk_broken else Wk_recv)\<rparr>, No_bit))
      | Wk_broken \<Rightarrow> Some (w\<lparr>wk_thread := False, wk_phase := Wk_leaving\<rparr>, No_bit)
      | Wk_leaving \<Rightarrow> Some (w\<lparr>wk_q := [], wk_phase := Wk_gone\<rparr>, Closed_bit)
      | Wk_gone \<Rightarrow> None)"

section \<open>The interface\<close>

definition upd_worker :: "nat \<Rightarrow> (worker \<Rightarrow> worker) \<Rightarrow> render_sys \<Rightarrow> render_sys" where
  "upd_worker k f s = s\<lparr>rs_workers := (rs_workers s)(k := f (rs_workers s k))\<rparr>"

text \<open>The two halves of \<open>send_msg_to_thread\<close>: \<open>msg_q_send\<close> waits for room, then an empty data queue gets an element.\<close>

definition send_msg :: "av_msg \<Rightarrow> nat \<Rightarrow> render_sys \<Rightarrow> render_sys option" where
  "send_msg m k s =
     (if length (wk_msgs (rs_workers s k)) < 4 then Some (upd_worker k (\<lambda>w. w\<lparr>wk_msgs := wk_msgs w @ [m]\<rparr>) s) else None)"

definition send_wake :: "nat \<Rightarrow> render_sys \<Rightarrow> render_sys" where
  "send_wake k s = upd_worker k (\<lambda>w. if wk_has_q w \<and> wk_q w = [] then w\<lparr>wk_q := [0]\<rparr> else w) s"

text \<open>
  \<open>render_flush\<close>: decoders first, each with the queue of its render (two further) emptied by hand and its bit
  awaited; then the renders, whose bits are assigned to \<open>wait_bits\<close> one after the other, and awaited together.
\<close>

definition flush_decoder :: "nat \<Rightarrow> render_sys \<Rightarrow> render_sys" where
  "flush_decoder k s =
     (let s1 = upd_worker k (\<lambda>w. w\<lparr>wk_flushing := True\<rparr>) s
      in upd_worker (k + 2) (\<lambda>w. if wk_has_q w then w\<lparr>wk_flushing := True, wk_q := []\<rparr> else w) s1)"

fun flush_step :: "render_sys \<Rightarrow> render_sys option" where
  "flush_step s =
     (case rs_pc s of
        F_test k \<Rightarrow>
          if k \<ge> 4 then Some (s\<lparr>rs_pc := F_wait_renders\<rparr>)
          else if \<not> wk_thread (rs_workers s k) then Some (s\<lparr>rs_pc := F_test (k + 1)\<rparr>)
          else if k < 2 then Some ((flush_decoder k s)\<lparr>rs_pc := F_send k\<rparr>)
          else Some ((upd_worker k (\<lambda>w. w\<lparr>wk_flushing := True\<rparr>) s)\<lparr>rs_pc := F_send k\<rparr>)
      | F_send k \<Rightarrow> map_option (rs_pc_update (\<lambda>_. F_wake k)) (send_msg MSG_FLUSH k s)
      | F_wake k \<Rightarrow>
          (let s1 = send_wake k s
           in Some (if k < 2 then s1\<lparr>rs_pc := F_wait k\<rparr> else s1\<lparr>rs_wait := [k], rs_pc := F_test (k + 1)\<rparr>))
      | F_wait k \<Rightarrow>
          if k \<in> set (rs_flushed s)
          then Some (s\<lparr>rs_flushed := removeAll k (rs_flushed s), rs_wait := [], rs_pc := F_test (k + 1)\<rparr>) else None
      | F_wait_renders \<Rightarrow>
          if rs_wait s = [] then Some (s\<lparr>rs_pc := Api_abort\<rparr>)
          else if set (rs_wait s) \<subseteq> set (rs_flushed s)
          then Some (s\<lparr>rs_flushed := filter (\<lambda>k. k \<notin> set (rs_wait s)) (rs_flushed s), rs_wait := [], rs_pc := Api_idle\<rparr>) else None
      | _ \<Rightarrow> None)"

text \<open>\<open>av_render_reset\<close>: two rounds over the threads that have a handle and were not awaited yet, then the release.\<close>

fun reset_step :: "render_sys \<Rightarrow> render_sys option" where
  "reset_step s =
     (case rs_pc s of
        R_test i k \<Rightarrow>
          if k \<ge> 4 then Some (s\<lparr>rs_pc := (if rs_wait s = [] then R_free else R_wait i)\<rparr>)
          else if wk_thread (rs_workers s k) \<and> k \<notin> set (rs_recv s)
          then Some (s\<lparr>rs_wait := k # rs_wait s, rs_pc := R_send i k\<rparr>)
          else Some (s\<lparr>rs_pc := R_test i (k + 1)\<rparr>)
      | R_send i k \<Rightarrow> map_option (rs_pc_update (\<lambda>_. R_wake i k)) (send_msg MSG_CLOSE k s)
      | R_wake i k \<Rightarrow> Some ((send_wake k s)\<lparr>rs_pc := R_test i (k + 1)\<rparr>)
      | R_wait i \<Rightarrow>
          if set (rs_wait s) \<subseteq> set (rs_closed s)
          then Some (s\<lparr>rs_closed := filter (\<lambda>k. k \<notin> set (rs_wait s)) (rs_closed s), rs_recv := rs_wait s @ rs_recv s, rs_wait := [],
                       rs_pc := (if i = 0 then R_test 1 0 else R_free)\<rparr>)
          else None
      | R_free \<Rightarrow> Some (s\<lparr>rs_workers := (\<lambda>_. no_worker), rs_freed := True, rs_pc := Api_idle\<rparr>)
      | _ \<Rightarrow> None)"

fun api_step :: "render_sys \<Rightarrow> render_sys option" where
  "api_step s =
     (case rs_pc s of
        Api_idle \<Rightarrow> None | Api_abort \<Rightarrow> None
      | F_test _ \<Rightarrow> flush_step s | F_send _ \<Rightarrow> flush_step s | F_wake _ \<Rightarrow> flush_step s | F_wait _ \<Rightarrow> flush_step s | F_wait_renders \<Rightarrow> flush_step s
      | R_test _ _ \<Rightarrow> reset_step s | R_send _ _ \<Rightarrow> reset_step s | R_wake _ _ \<Rightarrow> reset_step s | R_wait _ \<Rightarrow> reset_step s | R_free \<Rightarrow> reset_step s)"

text \<open>Calls of the interface, when no other is in progress.\<close>

definition call_flush :: "render_sys \<Rightarrow> render_sys" where
  "call_flush s = s\<lparr>rs_pc := F_test 0, rs_wait := []\<rparr>"

definition call_reset :: "render_sys \<Rightarrow> render_sys" where
  "call_reset s = s\<lparr>rs_pc := R_test 0 0, rs_wait := [], rs_recv := []\<rparr>"

section \<open>The system\<close>

text \<open>A step of a thread, of the interface, or of somebody who puts an element into a data queue.\<close>

datatype render_event = Ev_worker nat body_answer | Ev_api | Ev_put nat nat

fun report_bit :: "worker_bit \<Rightarrow> nat \<Rightarrow> render_sys \<Rightarrow> render_sys" where
  "report_bit No_bit k s = s"
| "report_bit Flushed_bit k s = s\<lparr>rs_flushed := k # rs_flushed s\<rparr>"
| "report_bit Closed_bit k s = s\<lparr>rs_closed := k # rs_closed s\<rparr>"

fun render_step :: "render_sys \<Rightarrow> render_event \<Rightarrow> render_sys option" where
  "render_step s Ev_api = api_step s"
| "render_step s (Ev_worker k b) =
     (case render_thread b (rs_workers s k) of
        None \<Rightarrow> None
      | Some (w, r) \<Rightarrow> Some (report_bit r k (upd_worker k (\<lambda>_. w) s)))"
| "render_step s (Ev_put k n) =
     (if wk_has_q (rs_workers s k) then Some (upd_worker k (\<lambda>w. w\<lparr>wk_q := wk_q w @ [n]\<rparr>) s) else None)"

section \<open>What a thread does while it is being closed\<close>

text \<open>A thread that was not told to close, and the order nobody may break: its body is entered with nothing pending, or with an element.\<close>

definition wk_fresh :: "worker \<Rightarrow> bool" where
  "wk_fresh w \<longleftrightarrow> wk_phase w \<in> {Wk_recv, Wk_body, Wk_gone} \<and> MSG_CLOSE \<notin> set (wk_msgs w)"

definition wk_sound :: "worker \<Rightarrow> bool" where
  "wk_sound w \<longleftrightarrow> (wk_thread w \<longleftrightarrow> wk_phase w \<in> {Wk_recv, Wk_body, Wk_broken}) \<and> (wk_phase w \<noteq> Wk_gone \<longrightarrow> wk_has_q w) \<and>
     set (wk_msgs w) \<subseteq> {MSG_PAUSE, MSG_CLOSE}"

definition wk_wakeful :: "worker \<Rightarrow> bool" where
  "wk_wakeful w \<longleftrightarrow> (wk_phase w = Wk_body \<longrightarrow> wk_msgs w \<noteq> [] \<longrightarrow> wk_q w \<noteq> [])"

text \<open>It will leave: it has, or the order to do so is pending.\<close>

definition wk_closing :: "worker \<Rightarrow> bool" where
  "wk_closing w \<longleftrightarrow> wk_phase w \<in> {Wk_broken, Wk_leaving, Wk_gone} \<or> MSG_CLOSE \<in> set (wk_msgs w)"

fun phase_rank :: "worker_phase \<Rightarrow> nat" where
  "phase_rank Wk_gone = 0" | "phase_rank Wk_leaving = 1" | "phase_rank Wk_broken = 2" | "phase_rank Wk_recv = 3" | "phase_rank Wk_body = 4"

definition wk_work :: "worker \<Rightarrow> nat" where
  "wk_work w = 4 * length (wk_msgs w) + phase_rank (wk_phase w)"

lemma render_thread_step:
  assumes s: "wk_sound w" and t: "render_thread b w = Some (w', r)"
  shows "wk_sound w'" and "wk_phase w \<noteq> Wk_gone" and "wk_wakeful w \<Longrightarrow> wk_wakeful w'"
    and "r \<noteq> Flushed_bit" and "r = Closed_bit \<longleftrightarrow> wk_phase w' = Wk_gone"
    and "ba_ret b = 0 \<Longrightarrow> wk_fresh w \<Longrightarrow> wk_fresh w'" and "wk_closing w \<Longrightarrow> wk_closing w'"
    and "wk_fresh w \<Longrightarrow> wk_phase w' \<noteq> Wk_gone"
proof -
  have m: "m \<in> {MSG_PAUSE, MSG_CLOSE}" if "wk_msgs w = m # ms" for m ms using s that by (auto simp: wk_sound_def)
  show "wk_sound w'" "wk_phase w \<noteq> Wk_gone" "wk_wakeful w \<Longrightarrow> wk_wakeful w'" "r \<noteq> Flushed_bit"
    "r = Closed_bit \<longleftrightarrow> wk_phase w' = Wk_gone" "ba_ret b = 0 \<Longrightarrow> wk_fresh w \<Longrightarrow> wk_fresh w'" "wk_closing w \<Longrightarrow> wk_closing w'"
    "wk_fresh w \<Longrightarrow> wk_phase w' \<noteq> Wk_gone"
    using t s m by (auto simp: wk_sound_def wk_wakeful_def wk_fresh_def wk_closing_def
        split: worker_phase.splits list.splits av_msg.splits if_splits)
qed

text \<open>A thread with something pending can always go on, and comes closer to its end by it.\<close>

definition plain_body :: body_answer where
  "plain_body = \<lparr>ba_ret = 0, ba_takes = True, ba_pauses = False\<rparr>"

lemma render_thread_progress:
  assumes "wk_sound w" "wk_wakeful w" "wk_phase w \<noteq> Wk_gone" "wk_phase w \<in> {Wk_recv, Wk_body} \<longrightarrow> wk_msgs w \<noteq> []"
  shows "\<exists>w' r. render_thread plain_body w = Some (w', r) \<and> wk_work w' < wk_work w"
proof -
  have m: "m \<in> {MSG_PAUSE, MSG_CLOSE}" if "wk_msgs w = m # ms" for m ms using assms(1) that by (auto simp: wk_sound_def)
  show ?thesis using assms m
    by (cases "wk_phase w"; cases "wk_msgs w"; cases "wk_q w")
      (auto simp: wk_wakeful_def wk_work_def plain_body_def split: av_msg.splits)
qed

section \<open>Closing all threads\<close>

abbreviation wk_is_gone :: "render_sys \<Rightarrow> nat \<Rightarrow> bool" where
  "wk_is_gone s k \<equiv> wk_phase (rs_workers s k) = Wk_gone"

text \<open>What has been achieved at each place of the first round, and what the second round finds.\<close>

definition told :: "render_sys \<Rightarrow> nat \<Rightarrow> nat \<Rightarrow> bool" where
  "told s told_to asked \<longleftrightarrow>
     (\<forall>k < asked. k \<in> set (rs_wait s) \<or> wk_is_gone s k) \<and> (\<forall>k \<ge> told_to. wk_fresh (rs_workers s k)) \<and>
     (\<forall>k \<in> set (rs_wait s). k < asked \<and> (k < told_to \<longrightarrow> wk_closing (rs_workers s k)))"

definition reset_stage :: "render_sys \<Rightarrow> bool" where
  "reset_stage s \<longleftrightarrow>
     (case rs_pc s of
        R_test i j \<Rightarrow> j \<le> 4 \<and> (if i = 0 then rs_recv s = [] \<and> told s j j else rs_wait s = [] \<and> (\<forall>k. wk_is_gone s k))
      | R_send i j \<Rightarrow> i = 0 \<and> j < 4 \<and> rs_recv s = [] \<and> j \<in> set (rs_wait s) \<and> \<not> wk_is_gone s j \<and> told s j (j + 1)
      | R_wake i j \<Rightarrow> i = 0 \<and> j < 4 \<and> rs_recv s = [] \<and> told s (j + 1) (j + 1)
      | R_wait i \<Rightarrow> i = 0 \<and> rs_recv s = [] \<and> told s 4 4
      | R_free \<Rightarrow> (\<forall>k. wk_is_gone s k)
      | Api_idle \<Rightarrow> rs_freed s \<and> (\<forall>k. wk_is_gone s k)
      | _ \<Rightarrow> False)"

definition reset_inv :: "render_sys \<Rightarrow> bool" where
  "reset_inv s \<longleftrightarrow>
     (\<forall>k. wk_sound (rs_workers s k)) \<and> (\<forall>k. wk_wakeful (rs_workers s k) \<or> rs_pc s = R_wake 0 k) \<and>
     (\<forall>k \<ge> 4. wk_is_gone s k) \<and> (\<forall>k \<in> set (rs_closed s). wk_is_gone s k) \<and>
     (\<forall>k \<in> set (rs_wait s). wk_is_gone s k \<longrightarrow> k \<in> set (rs_closed s)) \<and> reset_stage s"

lemma upd_worker_simps [simp]:
  "rs_workers (upd_worker k f s) j = (if j = k then f (rs_workers s k) else rs_workers s j)"
  "rs_pc (upd_worker k f s) = rs_pc s" "rs_closed (upd_worker k f s) = rs_closed s" "rs_wait (upd_worker k f s) = rs_wait s"
  "rs_recv (upd_worker k f s) = rs_recv s" "rs_freed (upd_worker k f s) = rs_freed s" "rs_flushed (upd_worker k f s) = rs_flushed s"
  by (simp_all add: upd_worker_def)

lemma report_bit_simps [simp]:
  "rs_workers (report_bit r k s) = rs_workers s" "rs_pc (report_bit r k s) = rs_pc s" "rs_wait (report_bit r k s) = rs_wait s"
  "rs_recv (report_bit r k s) = rs_recv s" "rs_freed (report_bit r k s) = rs_freed s"
  "rs_closed (report_bit r k s) = (if r = Closed_bit then k # rs_closed s else rs_closed s)"
  by (cases r; simp)+

definition calm_event :: "render_event \<Rightarrow> bool" where
  "calm_event e \<longleftrightarrow> (case e of Ev_worker k b \<Rightarrow> ba_ret b = 0 | _ \<Rightarrow> True)"

lemma told_worker:
  assumes "told s m n" "wk_sound (rs_workers s k)" "render_thread b (rs_workers s k) = Some (w', r)" "ba_ret b = 0"
  shows "told (report_bit r k (upd_worker k (\<lambda>_. w') s)) m n"
  using assms render_thread_step [OF assms(2,3)] by (auto simp: told_def)

lemma reset_inv_worker:
  assumes i: "reset_inv s" and t: "render_thread b (rs_workers s k) = Some (w', r)" and b: "ba_ret b = 0"
  shows "reset_inv (report_bit r k (upd_worker k (\<lambda>_. w') s))"
proof -
  let ?s = "report_bit r k (upd_worker k (\<lambda>_. w') s)"
  have s: "wk_sound (rs_workers s k)" using i by (simp add: reset_inv_def)
  note w = render_thread_step [OF s t]
  have nk: "\<not> (\<forall>k. wk_is_gone s k)" using w(2) by blast
  have ng: "\<not> wk_is_gone ?s j" if "rs_pc s = R_send n j" for n j
    using i that w(8) by (auto simp: reset_inv_def reset_stage_def told_def)
  have stage: "reset_stage ?s"
    using i nk ng told_worker [OF _ s t b] unfolding reset_inv_def reset_stage_def
    by (auto split: api_pc.splits if_splits)
  have wake: "wk_wakeful (rs_workers s j) \<or> rs_pc s = R_wake 0 j" for j using i by (simp add: reset_inv_def)
  have "wk_wakeful w' \<or> rs_pc s = R_wake 0 k" using wake [of k] w(3) by blast
  with i w stage wake show ?thesis unfolding reset_inv_def by auto
qed

lemma reset_inv_put:
  assumes "reset_inv s"
  shows "reset_inv (upd_worker k (\<lambda>w. w\<lparr>wk_q := wk_q w @ [n]\<rparr>) s)"
proof -
  let ?f = "\<lambda>w. w\<lparr>wk_q := wk_q w @ [n]\<rparr>"
  have f: "wk_sound (?f w) = wk_sound w" "wk_wakeful (?f w)" "wk_fresh (?f w) = wk_fresh w" "wk_closing (?f w) = wk_closing w" for w
    by (simp_all add: wk_sound_def wk_wakeful_def wk_fresh_def wk_closing_def)
  have "told (upd_worker k ?f s) m j = told s m j" for m j by (auto simp: told_def f)
  with assms show ?thesis by (auto simp: reset_inv_def reset_stage_def f split: api_pc.splits)
qed

lemma wk_updates [simp]:
  "wk_sound (w\<lparr>wk_msgs := wk_msgs w @ [MSG_CLOSE]\<rparr>) = wk_sound w"
  "wk_closing (w\<lparr>wk_msgs := wk_msgs w @ [MSG_CLOSE]\<rparr>)"
  "wk_sound (w\<lparr>wk_q := xs\<rparr>) = wk_sound w" "wk_fresh (w\<lparr>wk_q := xs\<rparr>) = wk_fresh w" "wk_closing (w\<lparr>wk_q := xs\<rparr>) = wk_closing w"
  "wk_sound (if wk_has_q w \<and> wk_q w = [] then w\<lparr>wk_q := [0]\<rparr> else w) = wk_sound w"
  "wk_fresh (if wk_has_q w \<and> wk_q w = [] then w\<lparr>wk_q := [0]\<rparr> else w) = wk_fresh w"
  "wk_closing (if wk_has_q w \<and> wk_q w = [] then w\<lparr>wk_q := [0]\<rparr> else w) = wk_closing w"
  "wk_phase (if wk_has_q w \<and> wk_q w = [] then w\<lparr>wk_q := [0]\<rparr> else w) = wk_phase w"
  by (auto simp: wk_sound_def wk_fresh_def wk_closing_def)

lemma woken: "wk_sound w \<Longrightarrow> wk_wakeful (if wk_has_q w \<and> wk_q w = [] then w\<lparr>wk_q := [0]\<rparr> else w)"
  by (auto simp: wk_sound_def wk_wakeful_def)

lemma told_pc [simp]: "told (s\<lparr>rs_pc := p\<rparr>) m n = told s m n"
  by (simp add: told_def)

lemma told_all_gone:
  assumes "told s 4 4" "set (rs_wait s) \<subseteq> set (rs_closed s)" "\<forall>k \<in> set (rs_closed s). wk_is_gone s k" "\<forall>k \<ge> 4. wk_is_gone s k"
  shows "wk_is_gone s k"
  using assms by (cases "k < 4") (auto simp: told_def)

lemma reset_inv_api:
  assumes i: "reset_inv s" and a: "api_step s = Some s'"
  shows "reset_inv s'"
proof (cases "rs_pc s")
  case (R_test n j)
  show ?thesis
  proof (cases "n = 0")
    case True
    with i R_test have st: "j \<le> 4" "rs_recv s = []" "told s j j" and w: "\<And>k. wk_wakeful (rs_workers s k)"
      by (auto simp: reset_inv_def reset_stage_def)
    show ?thesis
    proof (cases "j = 4")
      case True
      with a R_test \<open>n = 0\<close> have s': "s' = s\<lparr>rs_pc := (if rs_wait s = [] then R_free else R_wait 0)\<rparr>" by simp
      have t4: "told s 4 4" using st(3) True by simp
      show ?thesis
      proof (cases "rs_wait s = []")
        case True
        have "wk_is_gone s k" for k using told_all_gone [of s k] t4 i True by (simp add: reset_inv_def)
        with i w True show ?thesis by (simp add: s' reset_inv_def reset_stage_def)
      next
        case False
        with i st(2) t4 w show ?thesis by (simp add: s' reset_inv_def reset_stage_def)
      qed
    next
      case False
      show ?thesis
      proof (cases "wk_thread (rs_workers s j)")
        case True
        with a R_test \<open>n = 0\<close> False st have s': "s' = s\<lparr>rs_wait := j # rs_wait s, rs_pc := R_send 0 j\<rparr>" by simp
        have "\<not> wk_is_gone s j" using i True by (auto simp: reset_inv_def wk_sound_def)
        with i st w False show ?thesis by (auto simp: s' reset_inv_def reset_stage_def told_def less_Suc_eq)
      next
        case nt: False
        with a R_test \<open>n = 0\<close> False st have s': "s' = s\<lparr>rs_pc := R_test 0 (j + 1)\<rparr>" by simp
        have "wk_fresh (rs_workers s j)" using st by (simp add: told_def)
        then have "wk_is_gone s j" using i nt by (auto simp: reset_inv_def wk_sound_def wk_fresh_def)
        moreover have "wk_closing (rs_workers s j)" using calculation by (simp add: wk_closing_def)
        ultimately show ?thesis using i st w False by (auto simp: s' reset_inv_def reset_stage_def told_def less_Suc_eq)
      qed
    qed
  next
    case False
    with i R_test have "\<And>k. wk_is_gone s k" "\<And>k. \<not> wk_thread (rs_workers s k)" "rs_wait s = []" "j \<le> 4" "\<And>k. wk_wakeful (rs_workers s k)"
      by (auto simp: reset_inv_def reset_stage_def wk_sound_def)
    with a R_test False i show ?thesis by (auto simp: reset_inv_def reset_stage_def split: if_splits)
  qed
next
  case (R_send n j)
  with a obtain "s' = (upd_worker j (\<lambda>w. w\<lparr>wk_msgs := wk_msgs w @ [MSG_CLOSE]\<rparr>) s)\<lparr>rs_pc := R_wake n j\<rparr>"
    by (auto simp: send_msg_def split: if_splits)
  with i R_send show ?thesis
    by (auto simp: reset_inv_def reset_stage_def told_def less_Suc_eq)
next
  case (R_wake n j)
  with a have s': "s' = (send_wake j s)\<lparr>rs_pc := R_test n (j + 1)\<rparr>" by simp
  have st: "n = 0" "j < 4" "rs_recv s = []" "told s (j + 1) (j + 1)" using i R_wake by (simp_all add: reset_inv_def reset_stage_def)
  have "told (send_wake j s) (j + 1) (j + 1)" using st(4) by (auto simp: told_def send_wake_def)
  then have t: "told s' (j + 1) (j + 1)" by (simp add: told_def s')
  have wk: "wk_wakeful (rs_workers s' k)" for k
    using i R_wake woken [of "rs_workers s k"] by (auto simp: s' send_wake_def reset_inv_def)
  have ph: "wk_phase (rs_workers s' k) = wk_phase (rs_workers s k)" "wk_sound (rs_workers s' k) = wk_sound (rs_workers s k)" for k
    by (auto simp: s' send_wake_def)
  have eq: "rs_closed s' = rs_closed s" "rs_wait s' = rs_wait s" "rs_recv s' = rs_recv s" "rs_pc s' = R_test n (j + 1)"
    by (simp_all add: s' send_wake_def)
  have "reset_stage s'" using st t by (simp add: reset_stage_def eq)
  with i wk show ?thesis unfolding reset_inv_def ph eq by blast
next
  case (R_wait n)
  with i have st: "n = 0" "told s 4 4" "\<And>k. wk_wakeful (rs_workers s k)" by (auto simp: reset_inv_def reset_stage_def)
  with a R_wait have c: "set (rs_wait s) \<subseteq> set (rs_closed s)" by (auto split: if_splits)
  have g: "wk_is_gone s k" for k using told_all_gone [OF st(2) c] i by (simp add: reset_inv_def)
  from a R_wait c st(1) have s': "s' = s\<lparr>rs_closed := filter (\<lambda>k. k \<notin> set (rs_wait s)) (rs_closed s), rs_recv := rs_wait s @ rs_recv s,
      rs_wait := [], rs_pc := R_test 1 0\<rparr>" by simp
  have "wk_sound (rs_workers s k)" for k using i by (simp add: reset_inv_def)
  then show ?thesis using g st(3) by (simp add: s' reset_inv_def reset_stage_def)
next
  case R_free
  with a i show ?thesis
    by (auto simp: reset_inv_def reset_stage_def no_worker_def wk_sound_def wk_wakeful_def)
qed (use i a in \<open>auto simp: reset_inv_def reset_stage_def\<close>)

lemma reset_inv_step:
  assumes "reset_inv s" "calm_event e" "render_step s e = Some s'"
  shows "reset_inv s'"
proof (cases e)
  case (Ev_worker k b)
  with assms(3) obtain w' r where t: "render_thread b (rs_workers s k) = Some (w', r)" "s' = report_bit r k (upd_worker k (\<lambda>_. w') s)"
    by (auto simp del: render_thread.simps split: option.splits prod.splits)
  from reset_inv_worker [OF assms(1) t(1)] t(2) assms(2) Ev_worker show ?thesis by (simp add: calm_event_def)
next
  case Ev_api
  then show ?thesis using assms reset_inv_api [of s s'] by (simp del: api_step.simps)
next
  case (Ev_put k n)
  with assms show ?thesis by (auto split: if_splits intro: reset_inv_put)
qed

text \<open>
  The interface is called while the threads run: none was told to close or to do anything but pause, none is
  about to leave, and no bit is left over from an earlier end of a thread.
\<close>

definition reset_ready :: "render_sys \<Rightarrow> bool" where
  "reset_ready s \<longleftrightarrow>
     (\<forall>k. wk_sound (rs_workers s k) \<and> wk_fresh (rs_workers s k) \<and> wk_wakeful (rs_workers s k)) \<and>
     (\<forall>k \<ge> 4. wk_is_gone s k) \<and> rs_closed s = [] \<and> \<not> rs_freed s"

lemma reset_start: "reset_ready s \<Longrightarrow> reset_inv (call_reset s)"
  by (auto simp: reset_ready_def reset_inv_def call_reset_def reset_stage_def told_def)

section \<open>The end of the closing\<close>

fun pc_rank :: "api_pc \<Rightarrow> nat" where
  "pc_rank (R_test i j) = (if i = 0 then 3 * (4 - j) + 20 else 6 + (4 - j))"
| "pc_rank (R_send i j) = 3 * (4 - j) + 19"
| "pc_rank (R_wake i j) = 3 * (4 - j) + 18"
| "pc_rank (R_wait i) = 15"
| "pc_rank R_free = 1"
| "pc_rank _ = 0"

definition reset_work :: "render_sys \<Rightarrow> nat" where
  "reset_work s = 5 * pc_rank (rs_pc s) + sum (\<lambda>k. wk_work (rs_workers s k)) {..<4}"

lemma work_update:
  assumes "wk_work (f (rs_workers s k)) \<le> wk_work (rs_workers s k) + d"
  shows "sum (\<lambda>j. wk_work (rs_workers (upd_worker k f s) j)) {..<4} \<le> sum (\<lambda>j. wk_work (rs_workers s j)) {..<4} + d"
proof (cases "k < 4")
  case True
  then have k: "k \<in> {..<4}" by simp
  have "sum (\<lambda>j. wk_work (rs_workers (upd_worker k f s) j)) ({..<4} - {k}) = sum (\<lambda>j. wk_work (rs_workers s j)) ({..<4} - {k})"
    by (rule sum.cong) auto
  with assms sum.remove [OF _ k, of "\<lambda>j. wk_work (rs_workers (upd_worker k f s) j)"] sum.remove [OF _ k, of "\<lambda>j. wk_work (rs_workers s j)"]
  show ?thesis by simp
next
  case False
  then have "sum (\<lambda>j. wk_work (rs_workers (upd_worker k f s) j)) {..<4} = sum (\<lambda>j. wk_work (rs_workers s j)) {..<4}"
    by (intro sum.cong) auto
  then show ?thesis by simp
qed

lemma work_woken: "wk_work (if wk_has_q w \<and> wk_q w = [] then w\<lparr>wk_q := [0]\<rparr> else w) = wk_work w"
  by (simp add: wk_work_def)

lemma work_no_worker: "wk_work no_worker = 0"
  by (simp add: wk_work_def no_worker_def)

lemma api_work:
  assumes i: "reset_inv s" and a: "api_step s = Some s'"
  shows "reset_work s' < reset_work s"
proof -
  let ?W = "\<lambda>s. sum (\<lambda>k. wk_work (rs_workers s k)) {..<4}"
  have st: "reset_stage s" using i by (simp add: reset_inv_def)
  have k: "?W s' \<le> ?W s + 4 \<and> pc_rank (rs_pc s') < pc_rank (rs_pc s)"
  proof (cases "rs_pc s")
    case (R_test n j)
    have "n \<noteq> 0 \<Longrightarrow> \<not> wk_thread (rs_workers s j) \<and> rs_wait s = []" "j \<le> 4"
      using i st R_test by (auto simp: reset_inv_def reset_stage_def wk_sound_def)
    with a R_test show ?thesis by (auto split: if_splits)
  next
    case (R_send n j)
    with a have "s' = (upd_worker j (\<lambda>w. w\<lparr>wk_msgs := wk_msgs w @ [MSG_CLOSE]\<rparr>) s)\<lparr>rs_pc := R_wake n j\<rparr>"
      by (auto simp: send_msg_def split: if_splits)
    with R_send work_update [of "\<lambda>w. w\<lparr>wk_msgs := wk_msgs w @ [MSG_CLOSE]\<rparr>" s j 4] show ?thesis by (simp add: wk_work_def)
  next
    case (R_wake n j)
    with a st have "s' = (send_wake j s)\<lparr>rs_pc := R_test n (j + 1)\<rparr>" "n = 0" "j < 4" by (auto simp: reset_stage_def)
    with R_wake work_update [of "\<lambda>w. if wk_has_q w \<and> wk_q w = [] then w\<lparr>wk_q := [0]\<rparr> else w" s j 0] show ?thesis
      by (simp add: send_wake_def work_woken)
  next
    case (R_wait n)
    with a st show ?thesis by (auto simp: reset_stage_def split: if_splits)
  next
    case R_free
    with a have "s' = s\<lparr>rs_workers := (\<lambda>_. no_worker), rs_freed := True, rs_pc := Api_idle\<rparr>" by simp
    with R_free show ?thesis by (simp add: work_no_worker)
  qed (use a st in \<open>auto simp: reset_stage_def\<close>)
  then show ?thesis by (simp add: reset_work_def)
qed


lemma work_less:
  assumes "k < 4" "wk_work w' < wk_work (rs_workers s k)"
  shows "reset_work (report_bit r k (upd_worker k (\<lambda>_. w') s)) < reset_work s"
proof -
  have k: "k \<in> {..<4}" using assms(1) by simp
  have "sum (\<lambda>j. wk_work (rs_workers (upd_worker k (\<lambda>_. w') s) j)) ({..<4} - {k}) = sum (\<lambda>j. wk_work (rs_workers s j)) ({..<4} - {k})"
    by (rule sum.cong) auto
  with assms sum.remove [OF _ k, of "\<lambda>j. wk_work (rs_workers (upd_worker k (\<lambda>_. w') s) j)"] sum.remove [OF _ k, of "\<lambda>j. wk_work (rs_workers s j)"]
  show ?thesis by (simp add: reset_work_def)
qed

text \<open>The steps of the closing: the bodies return without an error of their own.\<close>

definition calm_step :: "render_sys \<Rightarrow> render_event \<Rightarrow> render_sys option" where
  "calm_step s e = (if calm_event e then render_step s e else None)"

interpretation closing: safe_machine calm_step reset_inv
  by unfold_locales (auto simp: calm_step_def split: if_splits intro: reset_inv_step)

lemma worker_goes_on:
  assumes i: "reset_inv s" and k: "k < 4" "\<not> wk_is_gone s k" "rs_pc s \<noteq> R_wake 0 k"
    and m: "wk_phase (rs_workers s k) \<in> {Wk_recv, Wk_body} \<longrightarrow> wk_msgs (rs_workers s k) \<noteq> []"
  shows "\<exists>e s'. calm_step s e = Some s' \<and> reset_work s' < reset_work s"
proof -
  have "wk_sound (rs_workers s k)" "wk_wakeful (rs_workers s k)" using i k(3) by (auto simp: reset_inv_def)
  then obtain w' r where t: "render_thread plain_body (rs_workers s k) = Some (w', r)" "wk_work w' < wk_work (rs_workers s k)"
    using render_thread_progress k(2) m by blast
  then have "calm_step s (Ev_worker k plain_body) = Some (report_bit r k (upd_worker k (\<lambda>_. w') s))"
    by (simp add: calm_step_def calm_event_def plain_body_def del: render_thread.simps)
  with work_less [OF k(1) t(2)] show ?thesis by blast
qed

lemma closing_goes_on:
  assumes i: "reset_inv s" and "rs_pc s \<noteq> Api_idle"
  shows "\<exists>e s'. calm_step s e = Some s' \<and> reset_work s' < reset_work s"
proof -
  have st: "reset_stage s" using i by (simp add: reset_inv_def)
  have api: ?thesis if "api_step s = Some s'" for s'
    using that api_work [OF i that] by (intro exI [of _ Ev_api] exI [of _ s']) (simp add: calm_step_def calm_event_def del: api_step.simps)
  show ?thesis
  proof (cases "rs_pc s")
    case (R_send n j)
    with st have j: "j < 4" "\<not> wk_is_gone s j" by (auto simp: reset_stage_def)
    show ?thesis
    proof (cases "length (wk_msgs (rs_workers s j)) < 4")
      case True
      with R_send show ?thesis by (intro api) (simp add: send_msg_def)
    next
      case False
      then have "wk_msgs (rs_workers s j) \<noteq> []" by auto
      with i j R_send show ?thesis by (intro worker_goes_on) auto
    qed
  next
    case (R_wait n)
    show ?thesis
    proof (cases "set (rs_wait s) \<subseteq> set (rs_closed s)")
      case True
      with R_wait show ?thesis by (intro api) simp
    next
      case False
      then obtain k where k: "k \<in> set (rs_wait s)" "k \<notin> set (rs_closed s)" by blast
      have "told s 4 4" using st R_wait by (simp add: reset_stage_def)
      with k(1) have "k < 4" "wk_closing (rs_workers s k)" unfolding told_def by blast+
      moreover have "\<not> wk_is_gone s k" using i k unfolding reset_inv_def by blast
      ultimately have "k < 4" "wk_closing (rs_workers s k)" "\<not> wk_is_gone s k" by blast+
      with i R_wait show ?thesis by (intro worker_goes_on [of s k]) (auto simp: wk_closing_def)
    qed
  next
    case (R_test n j)
    then have "\<exists>s'. api_step s = Some s'" by simp
    then show ?thesis using api by blast
  next
    case (R_wake n j)
    then show ?thesis by (intro api) (simp only: api_step.simps reset_step.simps api_pc.case)
  next
    case R_free
    then show ?thesis by (intro api) (simp only: api_step.simps reset_step.simps api_pc.case)
  qed (use st assms(2) in \<open>simp_all add: reset_stage_def\<close>)
qed

lemma closing_ends:
  "reset_inv s \<Longrightarrow> \<exists>es s'. length es \<le> reset_work s \<and> run_events calm_step s es = Some s' \<and> rs_freed s' \<and> rs_pc s' = Api_idle"
proof (induction "reset_work s" arbitrary: s rule: less_induct)
  case less
  show ?case
  proof (cases "rs_pc s = Api_idle")
    case True
    with less.prems show ?thesis by (intro exI [of _ "[]"] exI [of _ s]) (simp add: reset_inv_def reset_stage_def)
  next
    case False
    from closing_goes_on [OF less.prems this] obtain e s1 where s1: "calm_step s e = Some s1" "reset_work s1 < reset_work s" by blast
    with closing.step_inv less.prems have "reset_inv s1" by blast
    from less.hyps [OF s1(2) this] obtain es s' where
      "length es \<le> reset_work s1" "run_events calm_step s1 es = Some s'" "rs_freed s'" "rs_pc s' = Api_idle" by blast
    with s1 show ?thesis by (intro exI [of _ "e # es"] exI [of _ s']) simp
  qed
qed

section \<open>Properties\<close>

text \<open>A renderer with the threads \<open>ks\<close>, started and waiting in their bodies for data.\<close>

definition idle_renderer :: "nat list \<Rightarrow> render_sys" where
  "idle_renderer ks =
     \<lparr>rs_workers = (\<lambda>k. if k \<in> set ks then create_thread_res\<lparr>wk_phase := Wk_body\<rparr> else no_worker), rs_closed = [], rs_flushed = [],
      rs_pc = Api_idle, rs_wait = [], rs_recv = [], rs_freed = False\<rparr>"

abbreviation Ev_go :: "nat \<Rightarrow> render_event" where
  "Ev_go k \<equiv> Ev_worker k plain_body"

text \<open>The steps of a reset of a renderer with an audio decoder only, up to the release of its resources.\<close>

definition reset_trace :: "render_event list" where
  "reset_trace = replicate 7 Ev_api @ [Ev_go 0, Ev_go 0, Ev_go 0, Ev_go 0] @ replicate 6 Ev_api"

lemma ran: "\<not> Option.is_none x \<Longrightarrow> x = Some (the x)"
  by (simp add: Option.is_none_def)

lemma idle_ready: "\<forall>k \<in> set ks. k < 4 \<Longrightarrow> reset_ready (idle_renderer ks)"
  by (auto simp: reset_ready_def idle_renderer_def create_thread_res_def no_worker_def wk_sound_def wk_fresh_def wk_wakeful_def)





text \<open>Nobody but a producer can make a step, and a call of the interface is in progress.\<close>

definition renderer_stuck :: "render_sys \<Rightarrow> bool" where
  "renderer_stuck s \<longleftrightarrow> rs_pc s \<noteq> Api_idle \<and> api_step s = None \<and> (\<forall>k b. render_thread b (rs_workers s k) = None)"

lemma stuckI:
  assumes "rs_pc s \<noteq> Api_idle" "Option.is_none (api_step s)"
    and "\<And>k. wk_phase (rs_workers s k) = Wk_gone \<or> wk_phase (rs_workers s k) = Wk_body \<and> wk_q (rs_workers s k) = []"
  shows "renderer_stuck s"
proof -
  have "render_thread b (rs_workers s k) = None" for k b using assms(3) [of k] by auto
  with assms(1,2) show ?thesis by (simp add: renderer_stuck_def Option.is_none_def del: api_step.simps render_thread.simps)
qed

text \<open>
  A message that leads a thread back into its body swallows the wake-up of the next one. \<open>send_msg_to_thread\<close>
  puts a wake-up element only into an empty queue: \<open>MSG_RESUME\<close> and \<open>MSG_CLOSE\<close> sent to a thread that waits for data
  share one element, the body consumes it before the first message is read, and the thread then waits in its body
  for data with the order to close pending, while \<open>av_render_reset\<close> holds \<open>api_lock\<close> and waits for it, forever.
\<close>

theorem resume_then_reset_hangs:
  "\<exists>s1 s2. send_msg MSG_RESUME 0 (idle_renderer [0]) = Some s1 \<and>
     run_events render_step (call_reset (send_wake 0 s1)) (replicate 7 Ev_api @ [Ev_go 0, Ev_go 0]) = Some s2 \<and> renderer_stuck s2"
proof -
  let ?s1 = "the (send_msg MSG_RESUME 0 (idle_renderer [0]))"
  let ?s2 = "the (run_events render_step (call_reset (send_wake 0 ?s1)) (replicate 7 Ev_api @ [Ev_go 0, Ev_go 0]))"
  have "send_msg MSG_RESUME 0 (idle_renderer [0]) = Some ?s1" by (rule ran) code_simp
  moreover have "run_events render_step (call_reset (send_wake 0 ?s1)) (replicate 7 Ev_api @ [Ev_go 0, Ev_go 0]) = Some ?s2" by (rule ran) code_simp
  moreover have "renderer_stuck ?s2"
  proof (rule stuckI)
    show "rs_pc ?s2 \<noteq> Api_idle" "Option.is_none (api_step ?s2)" by code_simp+
    show "wk_phase (rs_workers ?s2 k) = Wk_gone \<or> wk_phase (rs_workers ?s2 k) = Wk_body \<and> wk_q (rs_workers ?s2 k) = []" for k
      by (simp add: idle_renderer_def create_thread_res_def no_worker_def send_msg_def send_wake_def call_reset_def plain_body_def
          upd_worker_def eval_nat_numeral)
  qed
  ultimately show ?thesis by blast
qed

definition flush_trace :: "render_event list" where
  "flush_trace = replicate 9 Ev_api @ [Ev_go 3, Ev_go 3] @ [Ev_api]"

text \<open>
  C40. \<open>render_flush\<close> assigns the bits it waits for where it should add them, so with an audio and a video render it
  waits for the video render only. A reset that follows while the audio render has not come to its \<open>MSG_FLUSH\<close>
  then hangs: the flush empties the queue with the wake-up of \<open>MSG_CLOSE\<close> in it and the thread enters its body.
\<close>

theorem flush_then_reset_hangs:
  "\<exists>s1 s2. run_events render_step (call_flush (idle_renderer [2, 3])) flush_trace = Some s1 \<and> rs_pc s1 = Api_idle \<and>
     MSG_FLUSH \<in> set (wk_msgs (rs_workers s1 2)) \<and>
     run_events render_step (call_reset s1) (replicate 9 Ev_api @ [Ev_go 3, Ev_go 3, Ev_go 3, Ev_go 3, Ev_go 2, Ev_go 2]) = Some s2 \<and>
     renderer_stuck s2"
proof -
  let ?s1 = "the (run_events render_step (call_flush (idle_renderer [2, 3])) flush_trace)"
  let ?es = "replicate 9 Ev_api @ [Ev_go 3, Ev_go 3, Ev_go 3, Ev_go 3, Ev_go 2, Ev_go 2]"
  let ?s2 = "the (run_events render_step (call_reset ?s1) ?es)"
  have "run_events render_step (call_flush (idle_renderer [2, 3])) flush_trace = Some ?s1" by (rule ran) code_simp
  moreover have "rs_pc ?s1 = Api_idle" "MSG_FLUSH \<in> set (wk_msgs (rs_workers ?s1 2))" by code_simp+
  moreover have "run_events render_step (call_reset ?s1) ?es = Some ?s2" by (rule ran) code_simp
  moreover have "renderer_stuck ?s2"
  proof (rule stuckI)
    show "rs_pc ?s2 \<noteq> Api_idle" "Option.is_none (api_step ?s2)" by code_simp+
    show "wk_phase (rs_workers ?s2 k) = Wk_gone \<or> wk_phase (rs_workers ?s2 k) = Wk_body \<and> wk_q (rs_workers ?s2 k) = []" for k
      by (simp add: idle_renderer_def create_thread_res_def no_worker_def send_msg_def send_wake_def call_reset_def call_flush_def plain_body_def
          flush_trace_def upd_worker_def eval_nat_numeral)
  qed
  ultimately show ?thesis by blast
qed

text \<open>
  A thread that ends by an error of its body leaves its closed bit behind. Once it has been created again, a reset
  sees the old bit, and comes to the release of the resources while the new thread is still running.
\<close>

definition failing_body :: body_answer where
  "failing_body = \<lparr>ba_ret = - 1, ba_takes = True, ba_pauses = False\<rparr>"

definition failed_run :: "render_sys" where
  "failed_run = the (run_events render_step (idle_renderer [0]) [Ev_put 0 1, Ev_worker 0 failing_body, Ev_go 0, Ev_go 0])"

theorem stale_closed_bit:
  "\<exists>s. run_events render_step (call_reset (upd_worker 0 (\<lambda>w. create_thread_res\<lparr>wk_msgs := wk_msgs w\<rparr>) failed_run)) (replicate 13 Ev_api) = Some s \<and>
     rs_pc s = R_free \<and> wk_phase (rs_workers s 0) \<noteq> Wk_gone"
proof -
  let ?s = "call_reset (upd_worker 0 (\<lambda>w. create_thread_res\<lparr>wk_msgs := wk_msgs w\<rparr>) failed_run)"
  have "run_events render_step ?s (replicate 13 Ev_api) = Some (the (run_events render_step ?s (replicate 13 Ev_api)))" by (rule ran) code_simp
  moreover have "rs_pc (the (run_events render_step ?s (replicate 13 Ev_api))) = R_free"
    "wk_phase (rs_workers (the (run_events render_step ?s (replicate 13 Ev_api))) 0) \<noteq> Wk_gone" by code_simp+
  ultimately show ?thesis by blast
qed

text \<open>
  A thread that ends by an error of its body clears its handle first and uses its queue and the event group
  afterwards. A reset that finds the handle cleared does not wait, and releases them in between.
\<close>

theorem leaving_thread_not_awaited:
  "\<exists>s. run_events render_step (idle_renderer [0]) [Ev_put 0 1, Ev_worker 0 failing_body, Ev_go 0] = Some s \<and>
     (\<exists>s'. run_events render_step (call_reset s) (replicate 5 Ev_api) = Some s' \<and> rs_pc s' = R_free \<and> wk_phase (rs_workers s' 0) = Wk_leaving)"
proof -
  let ?s = "the (run_events render_step (idle_renderer [0]) [Ev_put 0 1, Ev_worker 0 failing_body, Ev_go 0])"
  let ?s' = "the (run_events render_step (call_reset ?s) (replicate 5 Ev_api))"
  have "run_events render_step (idle_renderer [0]) [Ev_put 0 1, Ev_worker 0 failing_body, Ev_go 0] = Some ?s" by (rule ran) code_simp
  moreover have "run_events render_step (call_reset ?s) (replicate 5 Ev_api) = Some ?s'" by (rule ran) code_simp
  moreover have "rs_pc ?s' = R_free" "wk_phase (rs_workers ?s' 0) = Wk_leaving" by code_simp+
  ultimately show ?thesis by blast
qed

text \<open>
  A flush of a renderer whose audio and video streams have no render thread waits for no bits at all:
  the wait is called with 0, which FreeRTOS asserts against.
\<close>

theorem flush_waits_for_nothing:
  assumes "\<forall>k < 4. \<not> wk_thread (rs_workers s k)"
  shows "\<exists>s'. run_events render_step (call_flush s) (replicate 6 Ev_api) = Some s' \<and> rs_pc s' = Api_abort"
  using assms by (simp add: call_flush_def eval_nat_numeral)

theorem flush_waits_for_nothing_witness:
  "\<exists>s'. run_events render_step (call_flush (idle_renderer [])) (replicate 6 Ev_api) = Some s' \<and> rs_pc s' = Api_abort"
  by (rule flush_waits_for_nothing) (simp add: idle_renderer_def no_worker_def)

end
