(* ===== verification/Ble_Server.thy ===== *)
theory Ble_Server
  imports Esp_Prelude
begin

text \<open>
  The Bluetooth server of the robot (\<open>main/ble/ble_client.c\<close> of \<open>IDF_robot_control\<close>): two GATT profiles whose
  handlers run, one event after the other, in the task of the Bluetooth stack. Calls into the stack and the
  message handler of the application are recorded. \<open>None\<close> is an access outside an object.
\<close>

section \<open>State\<close>

definition PREPARE_BUF_MAX_SIZE :: nat where "PREPARE_BUF_MAX_SIZE = 1024"

definition ESP_GATT_IF_NONE :: u8 where "ESP_GATT_IF_NONE = 0xff"

definition adv_config_flag :: u8 where "adv_config_flag = 1"
definition scan_rsp_config_flag :: u8 where "scan_rsp_config_flag = 2"

definition char_value_read :: "u8 list" where "char_value_read = [0xDE, 0xED, 0xBE, 0xEF]"

datatype ble_prop = Prop_read | Prop_write | Prop_notify | Prop_indicate

record ble_profile =
  bp_if :: u8
  bp_conn :: u16
  bp_service :: u16
  bp_char :: u16
  bp_descr :: u16
  bp_props :: "ble_prop list"

record prep_env =
  pe_buf :: "u8 list option"
  pe_len :: nat

datatype gatt_status = GATT_OK | GATT_INVALID_OFFSET | GATT_INVALID_ATTR_LEN | GATT_NO_RESOURCES

record gatt_rsp =
  rp_handle :: u16
  rp_offset :: nat
  rp_value :: "u8 list"

datatype ble_call =
    B_deliver "u8 list" | B_response u16 u32 gatt_status "gatt_rsp option" | B_indicate u16 u16 "u8 list" bool
  | B_set_name | B_config_adv bool | B_start_advertising | B_create_service u16 | B_start_service u16
  | B_add_char u16 u16 "ble_prop list" | B_get_attr u16 | B_add_descr u16 | B_update_conn_params | B_dump "u8 list"

record ble_server =
  bs_a :: ble_profile
  bs_b :: ble_profile
  bs_prep_a :: prep_env
  bs_prep_b :: prep_env
  bs_descr_value :: u16
  bs_mtu :: u16
  bs_adv_config :: u8
  bs_handler :: bool
  bs_calls :: "ble_call list"

definition ble_profile_initial :: ble_profile where
  "ble_profile_initial = \<lparr>bp_if = ESP_GATT_IF_NONE, bp_conn = 0, bp_service = 0, bp_char = 0, bp_descr = 0, bp_props = []\<rparr>"

definition prep_initial :: prep_env where "prep_initial = \<lparr>pe_buf = None, pe_len = 0\<rparr>"

definition ble_initial :: ble_server where
  "ble_initial = \<lparr>bs_a = ble_profile_initial, bs_b = ble_profile_initial, bs_prep_a = prep_initial, bs_prep_b = prep_initial,
     bs_descr_value = 0, bs_mtu = 23, bs_adv_config = 0, bs_handler = False, bs_calls = []\<rparr>"

definition SetBleMessageHandler :: "bool \<Rightarrow> ble_server \<Rightarrow> ble_server" where
  "SetBleMessageHandler fcn s = s\<lparr>bs_handler := fcn\<rparr>"

definition b_note :: "ble_call list \<Rightarrow> ble_server \<Rightarrow> ble_server" where
  "b_note cs s = s\<lparr>bs_calls := bs_calls s @ cs\<rparr>"

section \<open>Events of the stack\<close>

text \<open>Their parameters, and what the allocator answers: the contents of a fresh block.\<close>

record write_req =
  wr_conn :: u16
  wr_trans :: u32
  wr_handle :: u16
  wr_offset :: nat
  wr_need_rsp :: bool
  wr_is_prep :: bool
  wr_value :: "u8 list"

record read_req =
  rd_conn :: u16
  rd_trans :: u32
  rd_handle :: u16
  rd_is_long :: bool
  rd_offset :: u16
  rd_need_rsp :: bool

record ble_memory =
  bm_prepare :: "u8 list option"
  bm_rsp :: bool

datatype gatts_event =
    G_reg bool nat | G_read read_req | G_write write_req | G_exec_write u16 u32 bool | G_mtu u16 | G_create u16 | G_add_char u16
  | G_add_char_descr u16 | G_connect u16 | G_disconnect | G_other

datatype gap_event = Gap_adv_data_set | Gap_scan_rsp_set | Gap_other

definition gap_event_handler :: "gap_event \<Rightarrow> ble_server \<Rightarrow> ble_server" where
  "gap_event_handler ev s =
     (let done = (\<lambda>flag. let s1 = s\<lparr>bs_adv_config := bs_adv_config s AND NOT flag\<rparr>
                         in if bs_adv_config s1 = 0 then b_note [B_start_advertising] s1 else s1)
      in case ev of Gap_adv_data_set \<Rightarrow> done adv_config_flag | Gap_scan_rsp_set \<Rightarrow> done scan_rsp_config_flag | Gap_other \<Rightarrow> s)"

section \<open>Writes\<close>

text \<open>
  \<open>example_write_event_env\<close>: a prepared write is answered with its own bytes and kept. \<open>M\<close> is
  \<open>ESP_GATT_MAX_ATTR_LEN\<close>, the size of the value in a response.
\<close>

definition prep_status :: "write_req \<Rightarrow> gatt_status" where
  "prep_status r =
     (if wr_offset r > PREPARE_BUF_MAX_SIZE then GATT_INVALID_OFFSET
      else if wr_offset r + length (wr_value r) > PREPARE_BUF_MAX_SIZE then GATT_INVALID_ATTR_LEN else GATT_OK)"

definition alloc_prepare :: "ble_memory \<Rightarrow> gatt_status \<Rightarrow> prep_env \<Rightarrow> gatt_status \<times> prep_env" where
  "alloc_prepare e st p =
     (if st = GATT_OK \<and> pe_buf p = None then
        (case bm_prepare e of
           None \<Rightarrow> (GATT_NO_RESOURCES, p\<lparr>pe_len := 0\<rparr>)
         | Some g \<Rightarrow> (GATT_OK, \<lparr>pe_buf = Some g, pe_len = 0\<rparr>))
      else (st, p))"

definition store_prepare :: "write_req \<Rightarrow> prep_env \<Rightarrow> prep_env option" where
  "store_prepare r p =
     (case pe_buf p of
        None \<Rightarrow> None
      | Some b \<Rightarrow>
          if wr_offset r + length (wr_value r) \<le> length b
          then Some \<lparr>pe_buf = Some (overwrite b (wr_offset r) (wr_value r)), pe_len = pe_len p + length (wr_value r)\<rparr> else None)"

definition example_write_event_env :: "nat \<Rightarrow> ble_memory \<Rightarrow> write_req \<Rightarrow> prep_env \<Rightarrow> (ble_call list \<times> prep_env) option" where
  "example_write_event_env M e r p =
     (if \<not> wr_need_rsp r then Some ([], p)
      else if \<not> wr_is_prep r then Some ([B_response (wr_conn r) (wr_trans r) GATT_OK None], p)
      else (let (st, p1) = alloc_prepare e (prep_status r) p
        in if \<not> bm_rsp e then Some ([], p1)
           else if length (wr_value r) > M then None
           else (let answer = [B_response (wr_conn r) (wr_trans r) st (Some \<lparr>rp_handle = wr_handle r, rp_offset = wr_offset r, rp_value = wr_value r\<rparr>)]
             in if st \<noteq> GATT_OK then Some (answer, p1)
                else map_option (Pair answer) (store_prepare r p1))))"

definition example_exec_write_event_env :: "bool \<Rightarrow> prep_env \<Rightarrow> (ble_call list \<times> prep_env) option" where
  "example_exec_write_event_env exec p =
     (if \<not> exec then Some ([], prep_initial)
      else case pe_buf p of
             None \<Rightarrow> if pe_len p = 0 then Some ([B_dump []], prep_initial) else None
           | Some b \<Rightarrow> if pe_len p \<le> length b then Some ([B_dump (take (pe_len p) b)], prep_initial) else None)"

text \<open>The value of a client configuration descriptor and what a profile answers to it.\<close>

definition descr_of :: "u8 list \<Rightarrow> u16" where
  "descr_of v = push_bit 8 (ucast (v ! 1)) OR ucast (v ! 0)"

definition notify_data :: "u8 list" where
  "notify_data = map of_nat [0..<15]"

definition configure_descr :: "u16 \<Rightarrow> ble_profile \<Rightarrow> u16 \<Rightarrow> ble_call list" where
  "configure_descr conn p d =
     (if d = 1 then (if Prop_notify \<in> set (bp_props p) then [B_indicate conn (bp_char p) notify_data False] else [])
      else if d = 2 then (if Prop_indicate \<in> set (bp_props p) then [B_indicate conn (bp_char p) notify_data True] else [])
      else [])"

section \<open>Profile A\<close>

definition a_write_event :: "nat \<Rightarrow> ble_memory \<Rightarrow> write_req \<Rightarrow> ble_server \<Rightarrow> ble_server option" where
  "a_write_event M e r s =
     (let s1 = (if wr_is_prep r then s
                else let s2 = (if bs_handler s then b_note [B_deliver (wr_value r)] s else s)
                     in if bp_descr (bs_a s2) = wr_handle r \<and> length (wr_value r) = 2
                        then b_note (configure_descr (wr_conn r) (bs_a s2) (descr_of (wr_value r))) (s2\<lparr>bs_descr_value := descr_of (wr_value r)\<rparr>)
                        else s2)
      in map_option (\<lambda>(cs, p). b_note cs (s1\<lparr>bs_prep_a := p\<rparr>)) (example_write_event_env M e r (bs_prep_a s1)))"

text \<open>The length of the answer is computed in \<open>int\<close> and cut to 16 bits.\<close>

definition read_length :: "u16 \<Rightarrow> u16 \<Rightarrow> nat" where
  "read_length mtu off =
     (let mtu_size = mtu - 1; rest = int (length char_value_read) - uint off
      in unat (if rest > uint mtu_size then mtu_size else word_of_int rest))"

definition a_read_event :: "nat \<Rightarrow> read_req \<Rightarrow> ble_server \<Rightarrow> ble_server option" where
  "a_read_event M r s =
     (let answer = (\<lambda>st v. Some (b_note [B_response (rd_conn r) (rd_trans r) st (Some \<lparr>rp_handle = rd_handle r, rp_offset = 0, rp_value = v\<rparr>)] s))
      in if \<not> rd_need_rsp r then Some s
         else if rd_handle r = bp_descr (bs_a s) then answer GATT_OK [ucast (bs_descr_value s), ucast (drop_bit 8 (bs_descr_value s))]
         else if rd_handle r = bp_char (bs_a s) then
           (if rd_is_long r \<and> unat (rd_offset r) > length char_value_read then answer GATT_INVALID_OFFSET []
            else let n = read_length (bs_mtu s) (rd_offset r)
              in if unat (rd_offset r) + n > length char_value_read \<or> n > M then None
                 else answer GATT_OK (take n (drop (unat (rd_offset r)) char_value_read)))
         else Some s)"

text \<open>The attributes as the stack creates them, and the link to the peer.\<close>

fun a_attribute_event :: "gatts_event \<Rightarrow> ble_server \<Rightarrow> ble_server" where
  "a_attribute_event (G_create h) s =
     (let props = [Prop_read, Prop_write, Prop_notify]
      in b_note [B_start_service h, B_add_char h 0xFF01 props] (s\<lparr>bs_a := (bs_a s)\<lparr>bp_service := h, bp_props := props\<rparr>\<rparr>))"
| "a_attribute_event (G_add_char h) s = b_note [B_get_attr h, B_add_descr (bp_service (bs_a s))] (s\<lparr>bs_a := (bs_a s)\<lparr>bp_char := h\<rparr>\<rparr>)"
| "a_attribute_event (G_add_char_descr h) s = s\<lparr>bs_a := (bs_a s)\<lparr>bp_descr := h\<rparr>\<rparr>"
| "a_attribute_event _ s = s"

fun a_link_event :: "gatts_event \<Rightarrow> ble_server \<Rightarrow> ble_server" where
  "a_link_event (G_connect c) s = b_note [B_update_conn_params] (s\<lparr>bs_a := (bs_a s)\<lparr>bp_conn := c\<rparr>\<rparr>)"
| "a_link_event G_disconnect s = b_note [B_start_advertising] (s\<lparr>bs_mtu := 23\<rparr>)"
| "a_link_event _ s = s"

fun gatts_profile_a_event_handler :: "nat \<Rightarrow> ble_memory \<Rightarrow> gatts_event \<Rightarrow> ble_server \<Rightarrow> ble_server option" where
  "gatts_profile_a_event_handler M e (G_reg ok app) s =
     Some (b_note [B_set_name, B_config_adv False, B_config_adv True, B_create_service 0x00FF]
       (s\<lparr>bs_adv_config := bs_adv_config s OR adv_config_flag OR scan_rsp_config_flag\<rparr>))"
| "gatts_profile_a_event_handler M e (G_read r) s = a_read_event M r s"
| "gatts_profile_a_event_handler M e (G_write r) s = a_write_event M e r s"
| "gatts_profile_a_event_handler M e (G_exec_write conn tid exec) s =
     (let s1 = b_note [B_response conn tid GATT_OK None] s
      in map_option (\<lambda>(cs, p). b_note cs (s1\<lparr>bs_prep_a := p\<rparr>)) (example_exec_write_event_env exec (bs_prep_a s1)))"
| "gatts_profile_a_event_handler M e (G_mtu n) s = Some (s\<lparr>bs_mtu := n\<rparr>)"
| "gatts_profile_a_event_handler M e (G_create h) s = Some (a_attribute_event (G_create h) s)"
| "gatts_profile_a_event_handler M e (G_add_char h) s = Some (a_attribute_event (G_add_char h) s)"
| "gatts_profile_a_event_handler M e (G_add_char_descr h) s = Some (a_attribute_event (G_add_char_descr h) s)"
| "gatts_profile_a_event_handler M e (G_connect c) s = Some (a_link_event (G_connect c) s)"
| "gatts_profile_a_event_handler M e G_disconnect s = Some (a_link_event G_disconnect s)"
| "gatts_profile_a_event_handler M e G_other s = Some s"

section \<open>Profile B\<close>

definition b_write_event :: "nat \<Rightarrow> ble_memory \<Rightarrow> write_req \<Rightarrow> ble_server \<Rightarrow> ble_server option" where
  "b_write_event M e r s =
     (let s1 = (if \<not> wr_is_prep r \<and> bp_descr (bs_b s) = wr_handle r \<and> length (wr_value r) = 2
                then b_note (configure_descr (wr_conn r) (bs_b s) (descr_of (wr_value r))) s else s)
      in map_option (\<lambda>(cs, p). b_note cs (s1\<lparr>bs_prep_b := p\<rparr>)) (example_write_event_env M e r (bs_prep_b s1)))"

fun gatts_profile_b_event_handler :: "nat \<Rightarrow> ble_memory \<Rightarrow> gatts_event \<Rightarrow> ble_server \<Rightarrow> ble_server option" where
  "gatts_profile_b_event_handler M e (G_reg ok app) s = Some (b_note [B_create_service 0x00EE] s)"
| "gatts_profile_b_event_handler M e (G_read r) s =
     Some (b_note [B_response (rd_conn r) (rd_trans r) GATT_OK (Some \<lparr>rp_handle = rd_handle r, rp_offset = 0, rp_value = [0xde, 0xed, 0xbe, 0xef]\<rparr>)] s)"
| "gatts_profile_b_event_handler M e (G_write r) s = b_write_event M e r s"
| "gatts_profile_b_event_handler M e (G_exec_write conn tid exec) s =
     (let s1 = b_note [B_response conn tid GATT_OK None] s
      in map_option (\<lambda>(cs, p). b_note cs (s1\<lparr>bs_prep_b := p\<rparr>)) (example_exec_write_event_env exec (bs_prep_b s1)))"
| "gatts_profile_b_event_handler M e (G_create h) s =
     (let props = [Prop_read, Prop_write, Prop_notify]
      in Some (b_note [B_start_service h, B_add_char h 0xEE01 props] (s\<lparr>bs_b := (bs_b s)\<lparr>bp_service := h, bp_props := props\<rparr>\<rparr>)))"
| "gatts_profile_b_event_handler M e (G_add_char h) s =
     Some (b_note [B_add_descr (bp_service (bs_b s))] (s\<lparr>bs_b := (bs_b s)\<lparr>bp_char := h\<rparr>\<rparr>))"
| "gatts_profile_b_event_handler M e (G_add_char_descr h) s = Some (s\<lparr>bs_b := (bs_b s)\<lparr>bp_descr := h\<rparr>\<rparr>)"
| "gatts_profile_b_event_handler M e (G_connect c) s = Some (s\<lparr>bs_b := (bs_b s)\<lparr>bp_conn := c\<rparr>\<rparr>)"
| "gatts_profile_b_event_handler M e _ s = Some s"

section \<open>Dispatch and start-up\<close>

text \<open>The interface of a registered profile is stored first, at the index the event names; then every profile it belongs to is called.\<close>

definition call_profiles :: "nat \<Rightarrow> ble_memory \<Rightarrow> gatts_event \<Rightarrow> u8 \<Rightarrow> ble_server \<Rightarrow> ble_server option" where
  "call_profiles M e ev gif s =
     (if gif = ESP_GATT_IF_NONE \<or> gif = bp_if (bs_a s) then gatts_profile_a_event_handler M e ev s else Some s) \<bind>
     (\<lambda>s1. if gif = ESP_GATT_IF_NONE \<or> gif = bp_if (bs_b s1) then gatts_profile_b_event_handler M e ev s1 else Some s1)"

definition gatts_event_handler :: "nat \<Rightarrow> ble_memory \<Rightarrow> gatts_event \<Rightarrow> u8 \<Rightarrow> ble_server \<Rightarrow> ble_server option" where
  "gatts_event_handler M e ev gif s =
     (case ev of
        G_reg ok app \<Rightarrow>
          if \<not> ok then Some s
          else if app = 0 then call_profiles M e ev gif (s\<lparr>bs_a := (bs_a s)\<lparr>bp_if := gif\<rparr>\<rparr>)
          else if app = 1 then call_profiles M e ev gif (s\<lparr>bs_b := (bs_b s)\<lparr>bp_if := gif\<rparr>\<rparr>)
          else None
      | _ \<Rightarrow> call_profiles M e ev gif s)"

datatype ble_setup_call =
    S_nvs_init | S_nvs_erase | S_release_classic | S_controller_init | S_controller_enable | S_bluedroid_init | S_bluedroid_enable
  | S_register_gatts | S_register_gap | S_register_app nat | S_set_mtu

fun run_setup :: "(ble_setup_call \<times> int) list \<Rightarrow> ble_setup_call list" where
  "run_setup [] = [S_set_mtu]"
| "run_setup ((c, r) # cs) = (if r = 0 then c # run_setup cs else [c])"

text \<open>\<open>nvs1\<close>, \<open>nvs2\<close> tell whether the storage is usable (or must be erased first), \<open>rs\<close> the codes of the calls in turn; \<open>None\<close> is an abort.\<close>

definition ObdBleClientSetup :: "int \<Rightarrow> bool \<Rightarrow> bool \<Rightarrow> int \<Rightarrow> bool \<Rightarrow> int list \<Rightarrow> ble_setup_call list option" where
  "ObdBleClientSetup nvs1 no_pages erase_ok nvs2 release_ok rs =
     (let steps = zip [S_controller_init, S_controller_enable, S_bluedroid_init, S_bluedroid_enable, S_register_gatts, S_register_gap,
                       S_register_app 0, S_register_app 1] rs
      in if no_pages \<and> (\<not> erase_ok \<or> nvs2 \<noteq> 0) then None
         else if \<not> no_pages \<and> nvs1 \<noteq> 0 then None
         else if \<not> release_ok then None
         else Some ((if no_pages then [S_nvs_init, S_nvs_erase, S_nvs_init] else [S_nvs_init]) @ S_release_classic # run_setup steps))"

section \<open>The server as a machine\<close>

datatype ble_event = Ble_gatts ble_memory gatts_event u8 | Ble_gap gap_event

fun ble_step :: "nat \<Rightarrow> ble_server \<Rightarrow> ble_event \<Rightarrow> ble_server option" where
  "ble_step M s (Ble_gatts e ev gif) = gatts_event_handler M e ev gif s"
| "ble_step M s (Ble_gap ev) = Some (gap_event_handler ev s)"

section \<open>What the stack and the client do\<close>

text \<open>
  The view of the peer: which interface belongs to which profile, and how many bytes it prepared there since the
  last execution. The conditions are those of the stack (values fit a response, short reads start at 0, profiles
  are the two registered ones) and that no more bytes are prepared than the buffer holds.
\<close>

record ble_peer =
  pr_if_a :: u8
  pr_if_b :: u8
  pr_a :: nat
  pr_b :: nat

definition peer_initial :: ble_peer where
  "peer_initial = \<lparr>pr_if_a = ESP_GATT_IF_NONE, pr_if_b = ESP_GATT_IF_NONE, pr_a = 0, pr_b = 0\<rparr>"

definition peer_meets :: "u8 \<Rightarrow> u8 \<Rightarrow> bool" where
  "peer_meets gif p \<longleftrightarrow> gif = ESP_GATT_IF_NONE \<or> gif = p"

fun peer_step :: "ble_peer \<Rightarrow> ble_event \<Rightarrow> ble_peer" where
  "peer_step c (Ble_gatts e (G_reg ok app) gif) =
     (if \<not> ok then c else if app = 0 then c\<lparr>pr_if_a := gif\<rparr> else c\<lparr>pr_if_b := gif\<rparr>)"
| "peer_step c (Ble_gatts e (G_write r) gif) =
     c\<lparr>pr_a := pr_a c + (if peer_meets gif (pr_if_a c) then length (wr_value r) else 0),
       pr_b := pr_b c + (if peer_meets gif (pr_if_b c) then length (wr_value r) else 0)\<rparr>"
| "peer_step c (Ble_gatts e (G_exec_write conn tid exec) gif) =
     c\<lparr>pr_a := (if peer_meets gif (pr_if_a c) then 0 else pr_a c), pr_b := (if peer_meets gif (pr_if_b c) then 0 else pr_b c)\<rparr>"
| "peer_step c _ = c"

definition memory_ok :: "ble_memory \<Rightarrow> bool" where
  "memory_ok e \<longleftrightarrow> (\<forall>g. bm_prepare e = Some g \<longrightarrow> length g = PREPARE_BUF_MAX_SIZE)"

fun peer_ok :: "nat \<Rightarrow> ble_peer \<Rightarrow> ble_event \<Rightarrow> bool" where
  "peer_ok M c (Ble_gatts e (G_reg ok app) gif) \<longleftrightarrow> app < 2"
| "peer_ok M c (Ble_gatts e (G_read r) gif) \<longleftrightarrow> 4 \<le> M \<and> (rd_is_long r \<or> rd_offset r = 0)"
| "peer_ok M c (Ble_gatts e (G_write r) gif) \<longleftrightarrow> memory_ok e \<and> length (wr_value r) \<le> M"
| "peer_ok M c (Ble_gatts e (G_exec_write conn tid exec) gif) \<longleftrightarrow>
     (peer_meets gif (pr_if_a c) \<longrightarrow> pr_a c \<le> PREPARE_BUF_MAX_SIZE) \<and> (peer_meets gif (pr_if_b c) \<longrightarrow> pr_b c \<le> PREPARE_BUF_MAX_SIZE)"
| "peer_ok M c _ \<longleftrightarrow> True"

definition prep_rep :: "prep_env \<Rightarrow> nat \<Rightarrow> bool" where
  "prep_rep p n \<longleftrightarrow> pe_len p \<le> n \<and> (case pe_buf p of None \<Rightarrow> pe_len p = 0 | Some b \<Rightarrow> length b = PREPARE_BUF_MAX_SIZE)"

definition ble_rep :: "ble_server \<Rightarrow> ble_peer \<Rightarrow> bool" where
  "ble_rep s c \<longleftrightarrow> bp_if (bs_a s) = pr_if_a c \<and> bp_if (bs_b s) = pr_if_b c \<and> prep_rep (bs_prep_a s) (pr_a c) \<and> prep_rep (bs_prep_b s) (pr_b c)"

lemma b_note_simps [simp]:
  "bs_a (b_note cs s) = bs_a s" "bs_b (b_note cs s) = bs_b s" "bs_prep_a (b_note cs s) = bs_prep_a s" "bs_prep_b (b_note cs s) = bs_prep_b s"
  "bs_descr_value (b_note cs s) = bs_descr_value s" "bs_mtu (b_note cs s) = bs_mtu s" "bs_adv_config (b_note cs s) = bs_adv_config s"
  "bs_handler (b_note cs s) = bs_handler s" "bs_calls (b_note cs s) = bs_calls s @ cs"
  by (simp_all add: b_note_def)

lemma alloc_prepare_rep:
  assumes "prep_rep p n" "memory_ok e" "alloc_prepare e st p = (st', p')"
  shows "prep_rep p' n" and "st' = GATT_OK \<Longrightarrow> \<exists>b. pe_buf p' = Some b \<and> length b = PREPARE_BUF_MAX_SIZE" and "st' = GATT_OK \<Longrightarrow> st = GATT_OK"
  using assms by (auto simp: alloc_prepare_def prep_rep_def memory_ok_def split: if_splits option.splits)

lemma prep_status_ok: "prep_status r = GATT_OK \<longleftrightarrow> wr_offset r + length (wr_value r) \<le> PREPARE_BUF_MAX_SIZE"
  by (auto simp: prep_status_def)

lemma write_event_rep:
  assumes p: "prep_rep p n" and e: "memory_ok e" and l: "length (wr_value r) \<le> M"
  shows "\<exists>cs p'. example_write_event_env M e r p = Some (cs, p') \<and> prep_rep p' (n + length (wr_value r))"
proof -
  obtain st p1 where a: "alloc_prepare e (prep_status r) p = (st, p1)" by fastforce
  note al = alloc_prepare_rep [OF p e a]
  have w: "prep_rep p1 (n + length (wr_value r))" "prep_rep p (n + length (wr_value r))" using al(1) p by (auto simp: prep_rep_def)
  have "\<exists>p'. store_prepare r p1 = Some p' \<and> prep_rep p' (n + length (wr_value r))" if "st = GATT_OK"
  proof -
    from al(2,3) that obtain b where b: "pe_buf p1 = Some b" "length b = PREPARE_BUF_MAX_SIZE" "prep_status r = GATT_OK" by blast
    then show ?thesis using al(1) by (simp add: store_prepare_def prep_status_ok prep_rep_def length_overwrite)
  qed
  with w l show ?thesis by (auto simp: example_write_event_env_def a Let_def)
qed

lemma exec_event_rep:
  assumes "prep_rep p n" "n \<le> PREPARE_BUF_MAX_SIZE"
  shows "\<exists>cs. example_exec_write_event_env exec p = Some (cs, prep_initial)"
  using assms by (auto simp: example_exec_write_event_env_def prep_rep_def split: option.splits)

lemma prep_rep_initial [simp]: "prep_rep prep_initial n"
  by (simp add: prep_rep_def prep_initial_def)

fun prepared_after :: "gatts_event \<Rightarrow> nat \<Rightarrow> nat" where
  "prepared_after (G_write r) n = n + length (wr_value r)"
| "prepared_after (G_exec_write conn tid exec) n = 0"
| "prepared_after _ n = n"

lemma length_char_value [simp]: "length char_value_read = 4"
  by (simp add: char_value_read_def)

lemma read_length_eq:
  assumes "unat off \<le> 4"
  shows "read_length mtu off = min (4 - unat off) (unat (mtu - 1))"
proof -
  have o: "int 4 - uint off = int (4 - unat off)" using assms uint_nat [of off] by linarith
  have u: "unat (word_of_int (int (4 - unat off)) :: u16) = 4 - unat off"
    by (simp add: unat_of_nat take_bit_nat_eq_self)
  show ?thesis
  proof (cases "4 - unat off > unat (mtu - 1)")
    case True
    then have "int (4 - unat off) > uint (mtu - 1)" using uint_nat [of "mtu - 1"] by linarith
    with True show ?thesis unfolding read_length_def Let_def length_char_value o by simp
  next
    case False
    then have "\<not> int (4 - unat off) > uint (mtu - 1)" using uint_nat [of "mtu - 1"] by linarith
    with False u show ?thesis unfolding read_length_def Let_def length_char_value o by simp
  qed
qed

lemma b_note_Nil [simp]: "b_note [] s = s"
  by (simp add: b_note_def)

lemma a_read_total:
  assumes "4 \<le> M" "rd_is_long r \<or> rd_offset r = 0"
  shows "\<exists>cs. a_read_event M r s = Some (b_note cs s)"
proof -
  have none: "\<exists>cs. Some s = Some (b_note cs s)" by (rule exI [of _ "[]"]) simp
  have b: "read_length (bs_mtu s) (rd_offset r) \<le> 4 - unat (rd_offset r)" if "unat (rd_offset r) \<le> 4"
    using read_length_eq [OF that] by simp
  show ?thesis
  proof (cases "rd_need_rsp r \<and> rd_handle r \<noteq> bp_descr (bs_a s) \<and> rd_handle r = bp_char (bs_a s)")
    case True
    show ?thesis
    proof (cases "unat (rd_offset r) > 4")
      case gt: True
      with assms(2) have "rd_is_long r" by auto
      have "a_read_event M r s =
          Some (b_note [B_response (rd_conn r) (rd_trans r) GATT_INVALID_OFFSET (Some \<lparr>rp_handle = rd_handle r, rp_offset = 0, rp_value = []\<rparr>)] s)"
        using True gt \<open>rd_is_long r\<close> unfolding a_read_event_def Let_def length_char_value by (elim conjE) (simp only: if_False if_True simp_thms)
      then show ?thesis by blast
    next
      case False
      with b assms(1) have "unat (rd_offset r) + read_length (bs_mtu s) (rd_offset r) \<le> 4" "read_length (bs_mtu s) (rd_offset r) \<le> M" by auto
      then show ?thesis using True False unfolding a_read_event_def Let_def length_char_value
        by (simp only: not_True_eq_False if_False if_True option.inject not_less simp_thms) (auto simp: not_le)
    qed
  next
    case False
    then consider "\<not> rd_need_rsp r" | "rd_need_rsp r" "rd_handle r = bp_descr (bs_a s)"
      | "rd_need_rsp r" "rd_handle r \<noteq> bp_descr (bs_a s)" "rd_handle r \<noteq> bp_char (bs_a s)" by blast
    then show ?thesis
    proof cases
      case 2
      then have "a_read_event M r s = Some (b_note [B_response (rd_conn r) (rd_trans r) GATT_OK
          (Some \<lparr>rp_handle = rd_handle r, rp_offset = 0, rp_value = [ucast (bs_descr_value s), ucast (drop_bit 8 (bs_descr_value s))]\<rparr>)] s)"
        by (simp add: a_read_event_def Let_def)
      then show ?thesis by blast
    qed (use none in \<open>simp_all add: a_read_event_def Let_def\<close>)
  qed
qed

lemma a_handler_rep:
  assumes ok: "peer_ok M c (Ble_gatts e ev gif)" and p: "prep_rep (bs_prep_a s) n"
    and x: "\<And>conn tid x. ev = G_exec_write conn tid x \<Longrightarrow> n \<le> PREPARE_BUF_MAX_SIZE"
  shows "\<exists>s'. gatts_profile_a_event_handler M e ev s = Some s' \<and> bp_if (bs_a s') = bp_if (bs_a s) \<and> bs_b s' = bs_b s \<and>
    bs_prep_b s' = bs_prep_b s \<and> prep_rep (bs_prep_a s') (prepared_after ev n)"
proof (cases ev)
  case (G_read r)
  with ok a_read_total [of M r s] obtain cs where "a_read_event M r s = Some (b_note cs s)" by auto
  with G_read p show ?thesis by simp
next
  case (G_write r)
  define s1 where "s1 = (if wr_is_prep r then s
                else let s2 = (if bs_handler s then b_note [B_deliver (wr_value r)] s else s)
                     in if bp_descr (bs_a s2) = wr_handle r \<and> length (wr_value r) = 2
                        then b_note (configure_descr (wr_conn r) (bs_a s2) (descr_of (wr_value r))) (s2\<lparr>bs_descr_value := descr_of (wr_value r)\<rparr>)
                        else s2)"
  have s1: "bs_a s1 = bs_a s" "bs_b s1 = bs_b s" "bs_prep_a s1 = bs_prep_a s" "bs_prep_b s1 = bs_prep_b s" by (simp_all add: s1_def Let_def)
  from write_event_rep [OF p, of e r M] ok G_write obtain cs p' where
    w: "example_write_event_env M e r (bs_prep_a s) = Some (cs, p')" "prep_rep p' (n + length (wr_value r))" by auto
  have "a_write_event M e r s = Some (b_note cs (s1\<lparr>bs_prep_a := p'\<rparr>))"
    using w(1) s1 unfolding a_write_event_def s1_def [symmetric] by simp
  with G_write w(2) s1 show ?thesis by simp
next
  case (G_exec_write conn tid exec)
  from exec_event_rep [OF p x [OF G_exec_write]] obtain cs where
    "example_exec_write_event_env exec (bs_prep_a s) = Some (cs, prep_initial)" by blast
  with G_exec_write show ?thesis by simp
qed (use p in \<open>simp_all add: Let_def\<close>)

lemma b_handler_rep:
  assumes ok: "peer_ok M c (Ble_gatts e ev gif)" and p: "prep_rep (bs_prep_b s) n"
    and x: "\<And>conn tid x. ev = G_exec_write conn tid x \<Longrightarrow> n \<le> PREPARE_BUF_MAX_SIZE"
  shows "\<exists>s'. gatts_profile_b_event_handler M e ev s = Some s' \<and> bp_if (bs_b s') = bp_if (bs_b s) \<and> bs_a s' = bs_a s \<and>
    bs_prep_a s' = bs_prep_a s \<and> prep_rep (bs_prep_b s') (prepared_after ev n)"
proof (cases ev)
  case (G_write r)
  define s1 where "s1 = (if \<not> wr_is_prep r \<and> bp_descr (bs_b s) = wr_handle r \<and> length (wr_value r) = 2
                then b_note (configure_descr (wr_conn r) (bs_b s) (descr_of (wr_value r))) s else s)"
  have s1: "bs_a s1 = bs_a s" "bs_b s1 = bs_b s" "bs_prep_a s1 = bs_prep_a s" "bs_prep_b s1 = bs_prep_b s" by (simp_all add: s1_def)
  from write_event_rep [OF p, of e r M] ok G_write obtain cs p' where
    w: "example_write_event_env M e r (bs_prep_b s) = Some (cs, p')" "prep_rep p' (n + length (wr_value r))" by auto
  have "b_write_event M e r s = Some (b_note cs (s1\<lparr>bs_prep_b := p'\<rparr>))"
    using w(1) s1 unfolding b_write_event_def s1_def [symmetric] by simp
  with G_write w(2) s1 show ?thesis by simp
next
  case (G_exec_write conn tid exec)
  from exec_event_rep [OF p x [OF G_exec_write]] obtain cs where
    "example_exec_write_event_env exec (bs_prep_b s) = Some (cs, prep_initial)" by blast
  with G_exec_write show ?thesis by simp
qed (use p in \<open>simp_all add: Let_def\<close>)

lemma prep_rep_mono: "prep_rep p n \<Longrightarrow> n \<le> m \<Longrightarrow> prep_rep p m"
  by (auto simp: prep_rep_def)

lemma peer_step_gatts:
  assumes "\<And>ok app. ev \<noteq> G_reg ok app"
  shows "peer_step c (Ble_gatts e ev gif) =
    c\<lparr>pr_a := (if peer_meets gif (pr_if_a c) then prepared_after ev (pr_a c) else pr_a c),
      pr_b := (if peer_meets gif (pr_if_b c) then prepared_after ev (pr_b c) else pr_b c)\<rparr>"
  using assms by (cases ev) auto

lemma call_profiles_rep:
  assumes r: "ble_rep s c" and ok: "peer_ok M c (Ble_gatts e ev gif)"
  shows "\<exists>s'. call_profiles M e ev gif s = Some s' \<and>
    ble_rep s' (c\<lparr>pr_a := (if peer_meets gif (pr_if_a c) then prepared_after ev (pr_a c) else pr_a c),
      pr_b := (if peer_meets gif (pr_if_b c) then prepared_after ev (pr_b c) else pr_b c)\<rparr>)"
proof -
  have xa: "pr_a c \<le> PREPARE_BUF_MAX_SIZE" if "ev = G_exec_write conn tid x" "peer_meets gif (pr_if_a c)" for conn tid x
    using ok that by simp
  have xb: "pr_b c \<le> PREPARE_BUF_MAX_SIZE" if "ev = G_exec_write conn tid x" "peer_meets gif (pr_if_b c)" for conn tid x
    using ok that by simp
  have "\<exists>s1. (if gif = ESP_GATT_IF_NONE \<or> gif = bp_if (bs_a s) then gatts_profile_a_event_handler M e ev s else Some s) = Some s1 \<and>
      bp_if (bs_a s1) = bp_if (bs_a s) \<and> bs_b s1 = bs_b s \<and> bs_prep_b s1 = bs_prep_b s \<and>
      prep_rep (bs_prep_a s1) (if peer_meets gif (pr_if_a c) then prepared_after ev (pr_a c) else pr_a c)"
  proof (cases "peer_meets gif (pr_if_a c)")
    case True
    with r have "gif = ESP_GATT_IF_NONE \<or> gif = bp_if (bs_a s)" by (simp add: peer_meets_def ble_rep_def)
    with a_handler_rep [OF ok, of s "pr_a c"] r xa True show ?thesis by (auto simp: ble_rep_def)
  next
    case False
    with r show ?thesis by (simp add: peer_meets_def ble_rep_def)
  qed
  then obtain s1 where s1: "(if gif = ESP_GATT_IF_NONE \<or> gif = bp_if (bs_a s) then gatts_profile_a_event_handler M e ev s else Some s) = Some s1"
    "bp_if (bs_a s1) = bp_if (bs_a s)" "bs_b s1 = bs_b s" "bs_prep_b s1 = bs_prep_b s"
    "prep_rep (bs_prep_a s1) (if peer_meets gif (pr_if_a c) then prepared_after ev (pr_a c) else pr_a c)" by blast
  have "\<exists>s2. (if gif = ESP_GATT_IF_NONE \<or> gif = bp_if (bs_b s1) then gatts_profile_b_event_handler M e ev s1 else Some s1) = Some s2 \<and>
      bp_if (bs_b s2) = bp_if (bs_b s1) \<and> bs_a s2 = bs_a s1 \<and> bs_prep_a s2 = bs_prep_a s1 \<and>
      prep_rep (bs_prep_b s2) (if peer_meets gif (pr_if_b c) then prepared_after ev (pr_b c) else pr_b c)"
  proof (cases "peer_meets gif (pr_if_b c)")
    case True
    with r s1 have "gif = ESP_GATT_IF_NONE \<or> gif = bp_if (bs_b s1)" by (simp add: peer_meets_def ble_rep_def)
    with b_handler_rep [OF ok, of s1 "pr_b c"] r s1 xb True show ?thesis by (auto simp: ble_rep_def)
  next
    case False
    with r s1 show ?thesis by (simp add: peer_meets_def ble_rep_def)
  qed
  then obtain s2 where s2: "(if gif = ESP_GATT_IF_NONE \<or> gif = bp_if (bs_b s1) then gatts_profile_b_event_handler M e ev s1 else Some s1) = Some s2"
    "bp_if (bs_b s2) = bp_if (bs_b s1)" "bs_a s2 = bs_a s1" "bs_prep_a s2 = bs_prep_a s1"
    "prep_rep (bs_prep_b s2) (if peer_meets gif (pr_if_b c) then prepared_after ev (pr_b c) else pr_b c)" by blast
  have "call_profiles M e ev gif s = Some s2" unfolding call_profiles_def s1(1) using s2(1) by simp
  then show ?thesis using r s1 s2 by (intro exI [of _ s2]) (simp add: ble_rep_def)
qed

lemma prepared_reg: "(if b then prepared_after (G_reg ok app) n else n) = n"
  by simp

lemma peer_same: "c\<lparr>pr_a := pr_a c, pr_b := pr_b c\<rparr> = c"
  by simp

lemma ble_step_rep:
  assumes r: "ble_rep s c" and ok: "peer_ok M c ev"
  shows "\<exists>s'. ble_step M s ev = Some s' \<and> ble_rep s' (peer_step c ev)"
proof (cases ev)
  case (Ble_gap g)
  then show ?thesis using r by (cases g) (auto simp: gap_event_handler_def ble_rep_def Let_def)
next
  case (Ble_gatts e gev gif)
  show ?thesis
  proof (cases "\<exists>ok app. gev = G_reg ok app")
    case True
    then obtain ok' app where g: "gev = G_reg ok' app" by blast
    with ok Ble_gatts have app: "app = 0 \<or> app = 1" by auto
    define s1 where "s1 = (if app = 0 then s\<lparr>bs_a := (bs_a s)\<lparr>bp_if := gif\<rparr>\<rparr> else s\<lparr>bs_b := (bs_b s)\<lparr>bp_if := gif\<rparr>\<rparr>)"
    have "ble_rep s1 (if app = 0 then c\<lparr>pr_if_a := gif\<rparr> else c\<lparr>pr_if_b := gif\<rparr>)" using r by (simp add: s1_def ble_rep_def)
    from call_profiles_rep [OF this, of M e gev gif] g app
    obtain s' where s': "call_profiles M e gev gif s1 = Some s'" "ble_rep s' (if app = 0 then c\<lparr>pr_if_a := gif\<rparr> else c\<lparr>pr_if_b := gif\<rparr>)"
      by (simp only: prepared_reg peer_same peer_ok.simps) auto
    show ?thesis
    proof (cases ok')
      case True
      have "gatts_event_handler M e gev gif s = call_profiles M e gev gif s1"
        using g app True by (auto simp: gatts_event_handler_def s1_def)
      with s' g app True Ble_gatts show ?thesis by simp
    next
      case False
      with r g Ble_gatts show ?thesis by (simp add: gatts_event_handler_def)
    qed
  next
    case False
    then have "gatts_event_handler M e gev gif s = call_profiles M e gev gif s" by (cases gev) (auto simp: gatts_event_handler_def)
    with call_profiles_rep [OF r, of M e gev gif] ok False Ble_gatts peer_step_gatts [of gev c e gif] show ?thesis by simp
  qed
qed

interpretation ble_link: simulation "ble_step M" ble_rep peer_step "peer_ok M" for M
  by unfold_locales (rule ble_step_rep)

section \<open>Properties\<close>


text \<open>A registered server, and the requests of the witnesses.\<close>

definition sample_memory :: ble_memory where
  "sample_memory = \<lparr>bm_prepare = Some (replicate 1024 0), bm_rsp = True\<rparr>"

definition sample_write :: "u16 \<Rightarrow> nat \<Rightarrow> bool \<Rightarrow> u8 list \<Rightarrow> write_req" where
  "sample_write h off prep v = \<lparr>wr_conn = 0, wr_trans = 1, wr_handle = h, wr_offset = off, wr_need_rsp = True, wr_is_prep = prep, wr_value = v\<rparr>"

definition ble_setup_events :: "ble_event list" where
  "ble_setup_events =
     map (\<lambda>(ev, g). Ble_gatts sample_memory ev g)
       [(G_reg True 0, 3), (G_create 40, 3), (G_add_char 42, 3), (G_add_char_descr 43, 3), (G_reg True 1, 4), (G_create 50, 4)]
     @ [Ble_gap Gap_adv_data_set, Ble_gap Gap_scan_rsp_set, Ble_gatts sample_memory (G_connect 0) 3]"

definition ble_ready :: ble_server where
  "ble_ready = the (run_events (ble_step 512) (SetBleMessageHandler True ble_initial) ble_setup_events)"


text \<open>
  Preparing the same bytes again counts them again: two fragments of the same place, each accepted, add up to a length
  beyond the buffer, and executing the write prints past its end.
\<close>

theorem overlapping_prepares_overread:
  assumes "wr_is_prep r1" "wr_need_rsp r1" "wr_is_prep r2" "wr_need_rsp r2" "bm_rsp e" "memory_ok e" "bm_prepare e \<noteq> None"
    and "length (wr_value r1) \<le> M" "length (wr_value r2) \<le> M" "bs_prep_a s = prep_initial" "g \<noteq> ESP_GATT_IF_NONE" "bp_if (bs_a s) = g" "bp_if (bs_b s) \<noteq> g"
    and "wr_offset r1 + length (wr_value r1) \<le> PREPARE_BUF_MAX_SIZE" "wr_offset r2 + length (wr_value r2) \<le> PREPARE_BUF_MAX_SIZE"
    and "length (wr_value r1) + length (wr_value r2) > PREPARE_BUF_MAX_SIZE"
  shows "run_events (ble_step M) s [Ble_gatts e (G_write r1) g, Ble_gatts e (G_write r2) g, Ble_gatts e (G_exec_write c t True) g] = None"
proof -
  obtain b where b: "bm_prepare e = Some b" "length b = PREPARE_BUF_MAX_SIZE" using assms(6,7) by (auto simp: memory_ok_def)
  have st: "prep_status r1 = GATT_OK" "prep_status r2 = GATT_OK" using assms by (simp_all add: prep_status_ok)
  define b1 where "b1 = overwrite b (wr_offset r1) (wr_value r1)"
  define b2 where "b2 = overwrite b1 (wr_offset r2) (wr_value r2)"
  have l: "length b1 = PREPARE_BUF_MAX_SIZE" "length b2 = PREPARE_BUF_MAX_SIZE" using assms b by (simp_all add: b1_def b2_def length_overwrite)
  obtain cs1 where w1: "example_write_event_env M e r1 prep_initial = Some (cs1, \<lparr>pe_buf = Some b1, pe_len = length (wr_value r1)\<rparr>)"
    using assms b st by (simp add: example_write_event_env_def alloc_prepare_def prep_initial_def store_prepare_def b1_def Let_def)
  obtain cs2 where w2: "example_write_event_env M e r2 \<lparr>pe_buf = Some b1, pe_len = length (wr_value r1)\<rparr> =
      Some (cs2, \<lparr>pe_buf = Some b2, pe_len = length (wr_value r1) + length (wr_value r2)\<rparr>)"
    using assms b st l by (simp add: example_write_event_env_def alloc_prepare_def store_prepare_def b2_def Let_def)
  have x: "example_exec_write_event_env True \<lparr>pe_buf = Some b2, pe_len = length (wr_value r1) + length (wr_value r2)\<rparr> = None"
    using assms l by (simp add: example_exec_write_event_env_def)
  show ?thesis using assms w1 w2 x
    by (simp add: gatts_event_handler_def call_profiles_def a_write_event_def Let_def)
qed

theorem overlapping_prepares_overread_witness:
  "run_events (ble_step 600) ble_ready
     [Ble_gatts sample_memory (G_write (sample_write 42 0 True (replicate 600 0))) 3, Ble_gatts sample_memory (G_write (sample_write 42 0 True (replicate 600 0))) 3,
      Ble_gatts sample_memory (G_exec_write 0 2 True) 3] = None"
proof (rule overlapping_prepares_overread)
  show "bs_prep_a ble_ready = prep_initial" by code_simp
  show "bp_if (bs_a ble_ready) = 3" by code_simp
  show "bp_if (bs_b ble_ready) \<noteq> 3" by code_simp
qed (simp_all add: sample_memory_def sample_write_def memory_ok_def PREPARE_BUF_MAX_SIZE_def ESP_GATT_IF_NONE_def)

text \<open>
  What a peer writes in one piece reaches the application once, unchanged and before it is answered, whichever
  attribute it was written to.
\<close>

definition delivered :: "ble_server \<Rightarrow> u8 list list" where
  "delivered s = concat (map (\<lambda>c. case c of B_deliver v \<Rightarrow> [v] | _ \<Rightarrow> []) (bs_calls s))"

theorem ble_write_delivered:
  assumes "bs_handler s" "\<not> wr_is_prep r" "g \<noteq> ESP_GATT_IF_NONE" "bp_if (bs_a s) = g" "bp_if (bs_b s) \<noteq> g"
  shows "\<exists>s'. ble_step M s (Ble_gatts e (G_write r) g) = Some s' \<and> delivered s' = delivered s @ [wr_value r] \<and>
    (wr_need_rsp r \<longrightarrow> (\<exists>cs. bs_calls s' = bs_calls s @ B_deliver (wr_value r) # cs @ [B_response (wr_conn r) (wr_trans r) GATT_OK None]))"
  using assms
  by (auto simp: gatts_event_handler_def call_profiles_def a_write_event_def Let_def example_write_event_env_def delivered_def configure_descr_def)

theorem ble_write_delivered_witness:
  "\<exists>s'. ble_step 512 ble_ready (Ble_gatts sample_memory (G_write (sample_write 42 0 False [8, 30, 0, 0, 0])) 3) = Some s' \<and>
    delivered s' = delivered ble_ready @ [wr_value (sample_write 42 0 False [8, 30, 0, 0, 0])] \<and>
    (wr_need_rsp (sample_write 42 0 False [8, 30, 0, 0, 0]) \<longrightarrow> (\<exists>cs. bs_calls s' = bs_calls ble_ready @ B_deliver (wr_value (sample_write 42 0 False [8, 30, 0, 0, 0])) # cs @
      [B_response (wr_conn (sample_write 42 0 False [8, 30, 0, 0, 0])) (wr_trans (sample_write 42 0 False [8, 30, 0, 0, 0])) GATT_OK None]))"
proof (rule ble_write_delivered)
  show "bs_handler ble_ready" by code_simp
  show "bp_if (bs_a ble_ready) = 3" by code_simp
  show "bp_if (bs_b ble_ready) \<noteq> 3" by code_simp
qed (simp_all add: sample_write_def ESP_GATT_IF_NONE_def)

text \<open>
  What a peer writes in pieces (prepared and then executed) never reaches the application: neither step calls the
  message handler.
\<close>

theorem long_write_dropped:
  assumes "\<forall>ev \<in> set es. case ev of Ble_gatts e (G_write r) gif \<Rightarrow> wr_is_prep r | _ \<Rightarrow> True"
    and "run_events (ble_step M) s es = Some s'"
  shows "delivered s' = delivered s"
proof -
  have quiet: "delivered (b_note cs s) = delivered s" if "\<forall>v. B_deliver v \<notin> set cs" for cs s
    using that by (induction cs arbitrary: s) (auto simp: delivered_def split: ble_call.splits)
  have w: "\<forall>v. B_deliver v \<notin> set cs" if "example_write_event_env M e r p = Some (cs, p')" for e r p p' cs
    using that by (auto simp: example_write_event_env_def Let_def split: if_splits prod.splits)
  have x: "\<forall>v. B_deliver v \<notin> set cs" if "example_exec_write_event_env e p = Some (cs, p')" for e p p' cs
    using that by (auto simp: example_exec_write_event_env_def split: if_splits option.splits)
  have upd: "delivered (s\<lparr>bs_prep_a := p\<rparr>) = delivered s" "delivered (s\<lparr>bs_prep_b := p\<rparr>) = delivered s" "delivered (s\<lparr>bs_mtu := m\<rparr>) = delivered s"
    "delivered (s\<lparr>bs_a := a\<rparr>) = delivered s" "delivered (s\<lparr>bs_b := a\<rparr>) = delivered s" "delivered (s\<lparr>bs_adv_config := f\<rparr>) = delivered s" for s p m a f
    by (simp_all add: delivered_def)
  have cfg: "\<forall>v. B_deliver v \<notin> set (configure_descr c p d)" for c p d by (simp add: configure_descr_def)
  have A: "delivered s1 = delivered s" if "gatts_profile_a_event_handler M e ev s = Some s1" "\<forall>r. ev = G_write r \<longrightarrow> wr_is_prep r" for e ev s s1
    using that w x by (cases ev) (auto simp: a_read_event_def a_write_event_def Let_def quiet upd split: if_splits)
  have B: "delivered s1 = delivered s" if "gatts_profile_b_event_handler M e ev s = Some s1" for e ev s s1
    using that w x cfg by (cases ev) (auto simp: b_write_event_def Let_def quiet upd split: if_splits)
  have C: "delivered s1 = delivered s" if "call_profiles M e ev gif s = Some s1" "\<forall>r. ev = G_write r \<longrightarrow> wr_is_prep r" for e ev gif s s1
    using that A B by (auto simp: call_profiles_def split: if_splits Option.bind_splits)
  have S: "delivered s1 = delivered s" if "ble_step M s ev = Some s1" "case ev of Ble_gatts e (G_write r) gif \<Rightarrow> wr_is_prep r | _ \<Rightarrow> True" for s s1 ev
  proof (cases ev)
    case (Ble_gap g)
    with that(1) show ?thesis by (auto simp: gap_event_handler_def Let_def quiet upd split: gap_event.splits if_splits)
  next
    case (Ble_gatts e gev gif)
    with that(2) have "\<forall>r. gev = G_write r \<longrightarrow> wr_is_prep r" by auto
    with that(1) Ble_gatts C show ?thesis by (cases gev) (auto simp: gatts_event_handler_def upd split: if_splits)
  qed
  from assms show ?thesis by (induction es arbitrary: s) (auto split: Option.bind_splits dest!: S)
qed

theorem long_write_dropped_witness:
  "delivered (the (run_events (ble_step 512) ble_ready
     [Ble_gatts sample_memory (G_write (sample_write 42 0 True [8, 30])) 3, Ble_gatts sample_memory (G_write (sample_write 42 2 True [0, 0, 0])) 3,
      Ble_gatts sample_memory (G_exec_write 0 2 True) 3])) = delivered ble_ready"
proof -
  let ?es = "[Ble_gatts sample_memory (G_write (sample_write 42 0 True [8, 30])) 3, Ble_gatts sample_memory (G_write (sample_write 42 2 True [0, 0, 0])) 3,
      Ble_gatts sample_memory (G_exec_write 0 2 True) 3]"
  have "\<not> Option.is_none (run_events (ble_step 512) ble_ready ?es)" by code_simp
  then have "run_events (ble_step 512) ble_ready ?es = Some (the (run_events (ble_step 512) ble_ready ?es))" by (simp add: Option.is_none_def)
  then show ?thesis by (rule long_write_dropped [rotated]) (simp add: sample_write_def)
qed

text \<open>
  Advertising starts only when the advertising data and the scan response have both been set: after the
  registration, no order of other events starts it before both are complete.
\<close>

definition advertised :: "ble_server \<Rightarrow> nat" where
  "advertised s = length (filter (\<lambda>c. c = B_start_advertising) (bs_calls s))"

fun starts_anew :: "ble_event \<Rightarrow> bool" where
  "starts_anew (Ble_gatts e (G_reg ok app) gif) = True"
| "starts_anew (Ble_gatts e G_disconnect gif) = True"
| "starts_anew _ = False"

definition advertising_waits :: "bool \<Rightarrow> bool \<Rightarrow> nat \<Rightarrow> ble_server \<Rightarrow> bool" where
  "advertising_waits adv scan n s \<longleftrightarrow> advertised s = n \<and> (\<not> adv \<longrightarrow> bit (bs_adv_config s) 0) \<and> (\<not> scan \<longrightarrow> bit (bs_adv_config s) 1)"

lemma advertised_note [simp]: "B_start_advertising \<notin> set cs \<Longrightarrow> advertised (b_note cs s) = advertised s"
  by (auto simp: advertised_def filter_empty_conv)

lemma advertised_upd [simp]:
  "advertised (s\<lparr>bs_prep_a := p\<rparr>) = advertised s" "advertised (s\<lparr>bs_prep_b := p\<rparr>) = advertised s" "advertised (s\<lparr>bs_mtu := m\<rparr>) = advertised s"
  "advertised (s\<lparr>bs_a := a\<rparr>) = advertised s" "advertised (s\<lparr>bs_b := a\<rparr>) = advertised s" "advertised (s\<lparr>bs_adv_config := f\<rparr>) = advertised s"
  "advertised (s\<lparr>bs_descr_value := d\<rparr>) = advertised s"
  by (simp_all add: advertised_def)

lemma quiet_calls:
  "B_start_advertising \<notin> set (configure_descr c p d)"
  "example_write_event_env M e r q = Some (cs, q') \<Longrightarrow> B_start_advertising \<notin> set cs"
  "example_exec_write_event_env x q = Some (cs, q') \<Longrightarrow> B_start_advertising \<notin> set cs"
  by (auto simp: configure_descr_def example_write_event_env_def example_exec_write_event_env_def Let_def split: if_splits prod.splits option.splits)

lemma profiles_keep_advertising:
  assumes "gatts_profile_a_event_handler M e ev s = Some s1" "\<not> starts_anew (Ble_gatts e ev gif)"
  shows "advertised s1 = advertised s \<and> bs_adv_config s1 = bs_adv_config s"
  using assms quiet_calls by (cases ev) (auto simp: a_read_event_def a_write_event_def Let_def split: if_splits)

lemma profile_b_keeps_advertising:
  assumes "gatts_profile_b_event_handler M e ev s = Some s1"
  shows "advertised s1 = advertised s \<and> bs_adv_config s1 = bs_adv_config s"
  using assms quiet_calls by (cases ev) (auto simp: b_write_event_def Let_def split: if_splits)

lemma gatts_keeps_advertising:
  assumes "ble_step M s (Ble_gatts e ev gif) = Some s1" "\<not> starts_anew (Ble_gatts e ev gif)"
  shows "advertised s1 = advertised s \<and> bs_adv_config s1 = bs_adv_config s"
proof -
  from assms have "call_profiles M e ev gif s = Some s1" by (cases ev) (auto simp: gatts_event_handler_def)
  then show ?thesis using profiles_keep_advertising [OF _ assms(2)] profile_b_keeps_advertising
    by (auto simp: call_profiles_def split: if_splits Option.bind_splits)
qed

lemma bit_cleared: "bit (w AND NOT (1::u8)) (Suc 0) = bit w (Suc 0)" "bit (w AND NOT (2::u8)) 0 = bit w 0"
  by (simp_all add: bit_and_iff bit_not_iff_eq bit_1_iff bit_numeral_rec)

lemma gap_waits:
  assumes "advertising_waits adv scan n s" "adv' \<longleftrightarrow> adv \<or> ev = Gap_adv_data_set" "scan' \<longleftrightarrow> scan \<or> ev = Gap_scan_rsp_set" "\<not> (adv' \<and> scan')"
  shows "advertising_waits adv' scan' n (gap_event_handler ev s)"
proof (cases ev)
  case Gap_adv_data_set
  with assms have "bit (bs_adv_config s) (Suc 0)" by (simp add: advertising_waits_def)
  then have b: "bit (bs_adv_config s AND NOT adv_config_flag) (Suc 0)" by (simp only: adv_config_flag_def bit_cleared)
  then have "bs_adv_config s AND NOT adv_config_flag \<noteq> 0" by auto
  with assms Gap_adv_data_set b show ?thesis by (auto simp: advertising_waits_def gap_event_handler_def Let_def)
next
  case Gap_scan_rsp_set
  with assms have "bit (bs_adv_config s) 0" by (simp add: advertising_waits_def)
  then have b: "bit (bs_adv_config s AND NOT scan_rsp_config_flag) 0" by (simp only: scan_rsp_config_flag_def bit_cleared)
  then have "bs_adv_config s AND NOT scan_rsp_config_flag \<noteq> 0" by auto
  with assms Gap_scan_rsp_set b show ?thesis by (auto simp: advertising_waits_def gap_event_handler_def Let_def)
next
  case Gap_other
  with assms show ?thesis by (simp add: gap_event_handler_def advertising_waits_def)
qed

lemma advertising_run:
  assumes "advertising_waits adv scan n s" "run_events (ble_step M) s es = Some s'" "\<forall>ev \<in> set es. \<not> starts_anew ev"
    and "\<not> ((adv \<or> Ble_gap Gap_adv_data_set \<in> set es) \<and> (scan \<or> Ble_gap Gap_scan_rsp_set \<in> set es))"
  shows "advertised s' = n"
  using assms
proof (induction es arbitrary: s adv scan)
  case Nil
  then show ?case by (simp add: advertising_waits_def)
next
  case (Cons ev es)
  from Cons.prems(2) obtain s1 where s1: "ble_step M s ev = Some s1" "run_events (ble_step M) s1 es = Some s'" by (auto split: Option.bind_splits)
  let ?adv = "adv \<or> ev = Ble_gap Gap_adv_data_set" and ?scan = "scan \<or> ev = Ble_gap Gap_scan_rsp_set"
  have "advertising_waits ?adv ?scan n s1"
  proof (cases ev)
    case (Ble_gap g)
    from gap_waits [OF Cons.prems(1), of ?adv g ?scan] Cons.prems(4) Ble_gap s1(1) show ?thesis by auto
  next
    case (Ble_gatts e gev gif)
    from gatts_keeps_advertising [of M s e gev gif s1] s1(1) Cons.prems(1,3) Ble_gatts show ?thesis
      by (simp add: advertising_waits_def del: ble_step.simps)
  qed
  then show ?case by (rule Cons.IH [OF _ s1(2)]) (use Cons.prems(3,4) in auto)
qed

theorem advertising_needs_both:
  assumes "gatts_profile_a_event_handler M e (G_reg True 0) s0 = Some s"
    and "run_events (ble_step M) s es = Some s'" and "\<forall>ev \<in> set es. \<not> starts_anew ev"
    and "Ble_gap Gap_adv_data_set \<notin> set es \<or> Ble_gap Gap_scan_rsp_set \<notin> set es"
  shows "advertised s' = advertised s0"
proof -
  have "bit (bs_adv_config s0 OR adv_config_flag OR scan_rsp_config_flag) 0" "bit (bs_adv_config s0 OR adv_config_flag OR scan_rsp_config_flag) (Suc 0)"
    by (simp_all add: bit_or_iff adv_config_flag_def scan_rsp_config_flag_def bit_numeral_rec)
  with assms(1) have "advertising_waits False False (advertised s0) s" by (auto simp: advertising_waits_def)
  from advertising_run [OF this assms(2,3)] assms(4) show ?thesis by auto
qed

theorem advertising_needs_both_witness:
  "advertised (the (run_events (ble_step 512) (the (gatts_profile_a_event_handler 512 sample_memory (G_reg True 0) ble_initial))
     [Ble_gap Gap_adv_data_set, Ble_gatts sample_memory (G_create 40) 3, Ble_gap Gap_adv_data_set])) = advertised ble_initial"
proof -
  let ?s = "the (gatts_profile_a_event_handler 512 sample_memory (G_reg True 0) ble_initial)"
  let ?es = "[Ble_gap Gap_adv_data_set, Ble_gatts sample_memory (G_create 40) 3, Ble_gap Gap_adv_data_set]"
  have "\<not> Option.is_none (run_events (ble_step 512) ?s ?es)" by code_simp
  then have "run_events (ble_step 512) ?s ?es = Some (the (run_events (ble_step 512) ?s ?es))" by (simp add: Option.is_none_def)
  then show ?thesis by (rule advertising_needs_both [rotated]) simp_all
qed

text \<open>
  How a client reads a value longer than one answer: it asks for what follows the bytes it has, until an answer is
  shorter than the exchanged size permits.
\<close>

fun read_blob :: "nat \<Rightarrow> nat \<Rightarrow> read_req \<Rightarrow> nat \<Rightarrow> ble_server \<Rightarrow> u8 list option" where
  "read_blob 0 M r off s = None"
| "read_blob (Suc fuel) M r off s =
     (case a_read_event M (r\<lparr>rd_offset := of_nat off\<rparr>) s of
        None \<Rightarrow> None
      | Some s' \<Rightarrow>
          (case last (bs_calls s') of
             B_response c t GATT_OK (Some rsp) \<Rightarrow>
               if length (rp_value rsp) < unat (bs_mtu s - 1) then Some (rp_value rsp)
               else map_option (\<lambda>v. rp_value rsp @ v) (read_blob fuel M r (off + length (rp_value rsp)) s')
           | _ \<Rightarrow> None))"

lemma read_event_value:
  assumes "rd_need_rsp r" "rd_handle r = bp_char (bs_a s)" "bp_descr (bs_a s) \<noteq> bp_char (bs_a s)" "4 \<le> M" "off \<le> 4"
    and n: "n = min (4 - off) (unat (bs_mtu s - 1))"
  shows "a_read_event M (r\<lparr>rd_offset := of_nat off\<rparr>) s =
    Some (b_note [B_response (rd_conn r) (rd_trans r) GATT_OK (Some \<lparr>rp_handle = rd_handle r, rp_offset = 0,
      rp_value = take n (drop off char_value_read)\<rparr>)] s)"
proof -
  have o: "unat (of_nat off :: u16) = off" using assms(5) by (simp add: unat_of_nat take_bit_nat_eq_self)
  then have l: "read_length (bs_mtu s) (of_nat off) = n" using read_length_eq [of "of_nat off"] assms(5) n by simp
  have b: "off + n \<le> 4" "n \<le> M" using assms(4,5) n by linarith+
  have "bp_char (bs_a s) \<noteq> bp_descr (bs_a s)" using assms(3) by simp
  with assms(1,2,5) o l b show ?thesis by (simp add: a_read_event_def Let_def)
qed

lemma read_blob_rest:
  assumes "rd_need_rsp r" "rd_handle r = bp_char (bs_a s)" "bp_descr (bs_a s) \<noteq> bp_char (bs_a s)" "4 \<le> M" "unat (bs_mtu s - 1) > 0" "off \<le> 4" "fuel > 4 - off"
  shows "read_blob fuel M r off s = Some (drop off char_value_read)"
  using assms
proof (induction fuel arbitrary: off s)
  case (Suc fuel)
  define n where "n = min (4 - off) (unat (bs_mtu s - 1))"
  define v where "v = take n (drop off char_value_read)"
  note e = read_event_value [OF Suc.prems(1-4,6) n_def, folded v_def]
  have l: "length v = n" using Suc.prems(6) by (simp add: v_def n_def)
  show ?case
  proof (cases "n < unat (bs_mtu s - 1)")
    case True
    then have "v = drop off char_value_read" by (simp add: v_def n_def)
    with True l show ?thesis unfolding read_blob.simps e by simp
  next
    case False
    then have n: "n = unat (bs_mtu s - 1)" "n \<le> 4 - off" "0 < n" using Suc.prems(5) by (auto simp: n_def)
    then have "read_blob fuel M r (off + n) (b_note cs s) = Some (drop (off + n) char_value_read)" for cs
      using Suc.prems by (intro Suc.IH) auto
    moreover have "v @ drop (off + n) char_value_read = drop off char_value_read"
      using append_take_drop_id [of n "drop off char_value_read"] by (simp add: add.commute v_def)
    ultimately show ?thesis using False l unfolding read_blob.simps e by simp
  qed
qed simp

text \<open>
  C20. A long read returns the whole value, whatever size of packets was agreed on (at least two bytes), in at most five answers.
\<close>

theorem long_read_complete:
  assumes "rd_need_rsp r" "rd_handle r = bp_char (bs_a s)" "bp_descr (bs_a s) \<noteq> bp_char (bs_a s)" "4 \<le> M" "bs_mtu s \<noteq> 1"
  shows "read_blob 5 M r 0 s = Some char_value_read"
proof -
  have "bs_mtu s - 1 \<noteq> 0" using assms(5) by simp
  then have "unat (bs_mtu s - 1) > 0" using unat_eq_0 by blast
  from read_blob_rest [OF assms(1-4) this, of 0 5] show ?thesis by simp
qed

definition sample_read :: "u16 \<Rightarrow> read_req" where
  "sample_read h = \<lparr>rd_conn = 0, rd_trans = 9, rd_handle = h, rd_is_long = True, rd_offset = 0, rd_need_rsp = True\<rparr>"

theorem long_read_complete_witness:
  "read_blob 5 512 (sample_read 42) 0 (ble_ready\<lparr>bs_mtu := 3\<rparr>) = Some [0xDE, 0xED, 0xBE, 0xEF]"
proof -
  have "bp_char (bs_a ble_ready) = 42" "bp_descr (bs_a ble_ready) = 43" by code_simp+
  then have "read_blob 5 512 (sample_read 42) 0 (ble_ready\<lparr>bs_mtu := 3\<rparr>) = Some char_value_read"
    by (intro long_read_complete) (simp_all add: sample_read_def)
  then show ?thesis by (simp add: char_value_read_def)
qed

text \<open>
  Bytes a client prepared stay when it disconnects: the next client's execution takes them over.
\<close>

theorem prepared_survives_disconnect:
  assumes "g \<noteq> ESP_GATT_IF_NONE" "bp_if (bs_a s) = g" "bp_if (bs_b s) \<noteq> g" "pe_buf (bs_prep_a s) = Some b" "pe_len (bs_prep_a s) \<le> length b"
  shows "\<exists>s'. run_events (ble_step M) s [Ble_gatts e G_disconnect g, Ble_gatts e (G_connect c) g, Ble_gatts e (G_exec_write c t True) g] = Some s' \<and>
    last (bs_calls s') = B_dump (take (pe_len (bs_prep_a s)) b)"
  using assms by (simp add: gatts_event_handler_def call_profiles_def Let_def example_exec_write_event_env_def)

theorem prepared_survives_disconnect_witness:
  "\<exists>s'. run_events (ble_step 512) (ble_ready\<lparr>bs_prep_a := \<lparr>pe_buf = Some [7, 7, 0, 0], pe_len = 2\<rparr>\<rparr>)
      [Ble_gatts sample_memory G_disconnect 3, Ble_gatts sample_memory (G_connect 1) 3, Ble_gatts sample_memory (G_exec_write 1 5 True) 3] = Some s' \<and>
    last (bs_calls s') = B_dump [7, 7]"
proof -
  have "bp_if (bs_a ble_ready) = 3" "bp_if (bs_b ble_ready) \<noteq> 3" by code_simp+
  then show ?thesis
    using prepared_survives_disconnect [of 3 "ble_ready\<lparr>bs_prep_a := \<lparr>pe_buf = Some [7, 7, 0, 0], pe_len = 2\<rparr>\<rparr>" "[7, 7, 0, 0]" 512 sample_memory 1 5]
    by (simp add: ESP_GATT_IF_NONE_def del: run_events.simps)
qed

end
