(* ===== verification/Av_Audio.thy ===== *)
theory Av_Audio
  imports Av_Sync Render_Sinks Audio_Decoder "HOL-Library.Multiset"
begin

text \<open>
  The audio side of the renderer (\<open>components/av_render/src/av_render.c\<close>): streams, the way of a packet through the decoder,
  the resampler and the queues to the sink, and the bodies of the two audio threads. The sink is the one of
  \<open>Render_Sinks\<close>, its driver's codes are arguments; so are the frames the decoder hands to its callback
  (\<open>Audio_Decoder\<close>) and what the resampler makes of a frame. A queue is the list of its messages
  (\<open>Av_Packets\<close>). \<open>None\<close> is a crash. A body that has to wait leaves the state as it is.
\<close>

section \<open>State\<close>

datatype audio_event = EV_AUDIO_RENDERED | EV_AUDIO_EOS | EV_AUDIO_DECODE_ERR

record audio_cfg =
  ac_raw_fifo :: nat
  ac_render_fifo :: nat
  ac_mode :: av_sync_mode
  ac_quit_eos :: bool
  ac_drop :: bool
  ac_pause_first :: bool

record audio_data =
  aud_pts :: u32
  aud_addr :: u32
  aud_data :: "u8 list"
  aud_eos :: bool

record audio_path =
  ap_cfg :: audio_cfg
  ap_sink :: "audio_sink option"
  ap_fixed :: audio_info
  ap_threshold :: nat
  ap_event_cb :: bool
  ap_events :: "audio_event list"
  ap_pool :: bool
  ap_released :: "u32 list"
  ap_res :: bool
  ap_reached :: bool
  ap_rendered :: bool
  ap_info :: audio_info
  ap_out :: audio_info
  ap_need_resample :: bool
  ap_resampler :: bool
  ap_resamplers :: nat
  ap_send_pts :: u32
  ap_pcm :: bool
  ap_decode_sync :: bool
  ap_render_sync :: bool
  ap_thread :: bool
  ap_queue :: "pcm_frame list"
  ap_paused :: bool
  ap_flushing :: bool
  ap_adec_res :: bool
  ap_adec :: bool
  ap_adec_thread :: bool
  ap_raw :: "audio_data list"
  ap_use_pool :: bool
  ap_adec_paused :: bool
  ap_err_cnt :: nat

definition AUDIO_ERR_FRAME_TOLERANCE :: nat where "AUDIO_ERR_FRAME_TOLERANCE = 10"

definition AV_ERR_INVALID_ARG :: int where "AV_ERR_INVALID_ARG = 0x102"
definition AV_ERR_WRONG_STATE :: int where "AV_ERR_WRONG_STATE = 0x103"
definition AV_ERR_FAIL :: int where "AV_ERR_FAIL = -1"

definition no_audio_info :: audio_info where
  "no_audio_info = \<lparr>channel = 0, bits_per_sample = 0, sample_rate = 0\<rparr>"

text \<open>
  \<open>ap_resampler\<close> says whether there is a handle, \<open>ap_resamplers\<close> how many resamplers are open. What is outside answers in the course of one call: the driver of the sink, the allocator, the resampler.
\<close>

record audio_answers =
  aa_open :: int
  aa_close :: int
  aa_write :: int
  aa_resample_open :: bool
  aa_convert :: "pcm_frame \<Rightarrow> pcm_frame option"
  aa_thread :: bool
  aa_put :: bool

definition send_event :: "audio_event \<Rightarrow> audio_path \<Rightarrow> audio_path" where
  "send_event e s = (if ap_event_cb s then s\<lparr>ap_events := ap_events s @ [e]\<rparr> else s)"

section \<open>To the sink\<close>

definition first_audio_frame :: "audio_path \<Rightarrow> audio_path" where
  "first_audio_frame s =
     (if ap_rendered s then s
      else (send_event EV_AUDIO_RENDERED s)\<lparr>ap_paused := (ap_paused s \<or> ac_pause_first (ap_cfg s)), ap_rendered := True\<rparr>)"

definition render_write_audio :: "int \<Rightarrow> pcm_frame \<Rightarrow> audio_path \<Rightarrow> (int \<times> audio_path) option" where
  "render_write_audio ret f s =
     (let s1 = first_audio_frame s
      in if ap_paused s1 then Some (0, s1)
         else let s2 = s1\<lparr>ap_send_pts := pf_pts f\<rparr>; eos = (\<lambda>s. if pf_eos f then send_event EV_AUDIO_EOS s else s)
           in if ap_flushing s2 then Some (0, eos s2)
              else audio_render_write (Some (pf_data f)) ret (ap_sink s2) \<bind>
                (\<lambda>(r, sink). let s3 = s2\<lparr>ap_sink := sink\<rparr> in if r \<noteq> 0 then Some (r, s3) else Some (r, eos s3)))"

text \<open>The name \<open>audio_render_frame_reached\<close> is that of the callback of the resampler.\<close>

definition audio_render_frame_reached :: "audio_answers \<Rightarrow> pcm_frame \<Rightarrow> audio_path \<Rightarrow> (int \<times> audio_path) option" where
  "audio_render_frame_reached a f s =
     (if \<not> ap_reached s then Some (-1, s)
      else if ap_thread s then Some (if aa_put a then (0, s\<lparr>ap_queue := ap_queue s @ [f]\<rparr>) else (-1, s))
      else render_write_audio (aa_write a) f s)"

definition audio_need_resample :: "audio_path \<Rightarrow> bool" where
  "audio_need_resample s \<longleftrightarrow> ap_out s \<noteq> ap_info s"

definition audio_need_render_in_sync :: "audio_path \<Rightarrow> bool" where
  "audio_need_render_in_sync s \<longleftrightarrow> ac_render_fifo (ap_cfg s) = 0"

text \<open>The sink is closed and opened again with the format of the first frame. \<open>info\<close> is what the decoder reports by then.\<close>

definition reopen_sink :: "audio_answers \<Rightarrow> audio_path \<Rightarrow> (int \<times> audio_path) option" where
  "reopen_sink a s =
     audio_render_close (aa_close a) (ap_sink s) \<bind> (\<lambda>(_, k).
       if ap_need_resample s \<and> audio_need_resample s then
         audio_render_open (Some (ap_out s)) (aa_open a) k \<bind> (\<lambda>(r, k).
           Some (if aa_resample_open a then (r, s\<lparr>ap_sink := k, ap_resampler := True, ap_resamplers := ap_resamplers s + 1\<rparr>)
                 else (-1, s\<lparr>ap_sink := k, ap_resampler := False\<rparr>)))
       else
         (let s1 = (if ap_resampler s then s\<lparr>ap_resampler := False, ap_resamplers := ap_resamplers s - 1\<rparr> else s)
          in audio_render_open (Some (ap_info s1)) (aa_open a) k \<bind> (\<lambda>(r, k). Some (r, s1\<lparr>ap_sink := k\<rparr>))))"

definition open_audio_render :: "audio_answers \<Rightarrow> audio_info \<Rightarrow> audio_path \<Rightarrow> (int \<times> audio_path) option" where
  "open_audio_render a info s =
     (if \<not> ap_pcm s \<and> \<not> (ap_adec_res s \<and> ap_adec s) then Some (-1, s)
      else reopen_sink a (if ap_pcm s then s else s\<lparr>ap_info := info\<rparr>) \<bind> (\<lambda>(r, s1).
        if r \<noteq> 0 then Some (r, s1)
        else let s2 = s1\<lparr>ap_reached := True, ap_render_sync := True\<rparr>
          in Some (0, if \<not> audio_need_render_in_sync s2 \<and> \<not> ap_thread s2 \<and> aa_thread a then s2\<lparr>ap_thread := True\<rparr> else s2)))"

definition av_render_audio_frame_reached :: "audio_answers \<Rightarrow> audio_info \<Rightarrow> pcm_frame \<Rightarrow> audio_path \<Rightarrow> (int \<times> audio_path) option" where
  "av_render_audio_frame_reached a info f s =
     (if \<not> ap_res s then Some (0, s)
      else (if ap_reached s then Some (0, s) else open_audio_render a info s) \<bind> (\<lambda>(r, s).
        if r \<noteq> 0 then Some (r, s)
        else if ap_resampler s then
          (case aa_convert a f of
             None \<Rightarrow> Some (ESP_MEDIA_ERR_NO_MEM, s)
           | Some g \<Rightarrow> audio_render_frame_reached a g s \<bind> (\<lambda>(_, s). Some (0, s)))
        else audio_render_frame_reached a f s))"

section \<open>The decoder\<close>

text \<open>
  What \<open>adec_decode\<close> does with a packet: the frames it hands to the callback, each with the format
  \<open>adec_get_frame_info\<close> reports at that time, and its code. The codes of the callback are ignored by it.
\<close>

record decoded =
  dd_frames :: "(pcm_frame \<times> audio_info) list"
  dd_ret :: int

fun frames_reached :: "audio_answers \<Rightarrow> (pcm_frame \<times> audio_info) list \<Rightarrow> audio_path \<Rightarrow> audio_path option" where
  "frames_reached a [] s = Some s"
| "frames_reached a ((f, info) # fs) s = av_render_audio_frame_reached a info f s \<bind> (\<lambda>(_, s). frames_reached a fs s)"

definition count_decode_error :: "int \<Rightarrow> audio_path \<Rightarrow> audio_path" where
  "count_decode_error ret s =
     (if ret = 0 then s\<lparr>ap_err_cnt := 0\<rparr>
      else let n = ap_err_cnt s + 1
        in if n = AUDIO_ERR_FRAME_TOLERANCE then send_event EV_AUDIO_DECODE_ERR (s\<lparr>ap_err_cnt := n + 1\<rparr>) else s\<lparr>ap_err_cnt := n\<rparr>)"

definition decode_audio :: "audio_answers \<Rightarrow> decoded \<Rightarrow> audio_data \<Rightarrow> audio_path \<Rightarrow> (int \<times> audio_path) option" where
  "decode_audio a d p s =
     (if aud_data p \<noteq> [] \<or> aud_eos p
      then frames_reached a (dd_frames d) s \<bind> (\<lambda>s. Some (dd_ret d, count_decode_error (dd_ret d) s))
      else Some (0, s))"

definition release_data :: "audio_data \<Rightarrow> audio_path \<Rightarrow> audio_path" where
  "release_data p s = (if aud_addr p \<noteq> 0 then s\<lparr>ap_released := ap_released s @ [aud_addr p]\<rparr> else s)"

section \<open>The bodies of the threads\<close>

definition adec_body :: "audio_answers \<Rightarrow> decoded \<Rightarrow> bool \<Rightarrow> audio_path \<Rightarrow> (int \<times> audio_path) option" where
  "adec_body a d drp s =
     (case ap_raw s of
        [] \<Rightarrow> Some (0, s)
      | p # ps \<Rightarrow>
          (if drp then Some (0, s) else decode_audio a d p s) \<bind> (\<lambda>(_, s1).
            let s2 = (if ap_use_pool s1 then release_data p s1 else s1);
                s3 = s2\<lparr>ap_raw := ps\<rparr>
            in Some (if aud_eos p then (if ac_quit_eos (ap_cfg s3) then (1, s3) else (0, s3\<lparr>ap_adec_paused := True\<rparr>)) else (0, s3))))"

text \<open>The number and the payload of the messages in the render queue, each with its structure of 16 bytes.\<close>

definition q_bytes :: "pcm_frame list \<Rightarrow> nat" where
  "q_bytes q = sum_list (map (\<lambda>f. 16 + length (pf_data f)) q)"

definition below_threshold :: "audio_path \<Rightarrow> bool" where
  "below_threshold s \<longleftrightarrow> \<not> ap_paused s \<and> ap_threshold s \<noteq> 0 \<and>
     (if ap_rendered s then length (ap_queue s) < 3 else q_bytes (ap_queue s) < ap_threshold s)"

definition a_render_body :: "int \<Rightarrow> bool \<Rightarrow> audio_path \<Rightarrow> (int \<times> audio_path) option" where
  "a_render_body ret drp s =
     (case ap_queue s of
        [] \<Rightarrow> Some (0, s)
      | f # q \<Rightarrow>
          if pf_data f \<noteq> [] \<and> below_threshold s then Some (0, s\<lparr>ap_rendered := False\<rparr>)
          else (if pf_data f \<noteq> [] then audio_drop_before_render (ac_drop (ap_cfg s)) (ac_mode (ap_cfg s)) (ap_out s) (int (q_bytes (ap_queue s)))
                else Some False) \<bind> (\<lambda>skip.
            (if \<not> drp \<and> \<not> skip \<and> (pf_data f \<noteq> [] \<or> pf_eos f) then render_write_audio ret f s else Some (0, s)) \<bind> (\<lambda>(_, s1).
              Some (0, if ap_paused s1 then s1 else s1\<lparr>ap_queue := q\<rparr>))))"

section \<open>The interface\<close>

text \<open>Every function tests its handle and its argument; all but \<open>av_render_use_data_pool\<close> then hold \<open>api_lock\<close>.\<close>

definition with_handle :: "int \<Rightarrow> bool \<Rightarrow> (audio_path \<Rightarrow> (int \<times> audio_path) option) \<Rightarrow> audio_path option \<Rightarrow> (int \<times> audio_path option) option" where
  "with_handle err arg f h =
     (case h of
        None \<Rightarrow> Some (err, None)
      | Some s \<Rightarrow> if arg then f s \<bind> (\<lambda>(r, s). Some (r, Some s)) else Some (err, Some s))"

definition audio_need_decode_in_sync :: "audio_codec \<Rightarrow> audio_path \<Rightarrow> bool" where
  "audio_need_decode_in_sync c s \<longleftrightarrow> c = CODEC_PCM \<or> ac_raw_fifo (ap_cfg s) = 0"

definition convert_to_audio_frame :: "stream_info \<Rightarrow> audio_info" where
  "convert_to_audio_frame i = si_info i"

text \<open>
  The old decoder is closed: its thread is told to leave and awaited (\<open>Render_Threads\<close>), and consumes what is in its
  queue on the way out.
\<close>

definition close_old_decoder :: "audio_path \<Rightarrow> audio_path" where
  "close_old_decoder s =
     (if \<not> ap_adec_res s then s
      else (if ap_adec_thread s then (if ap_use_pool s then fold release_data (ap_raw s) s else s)\<lparr>ap_raw := [], ap_adec_thread := False\<rparr> else s)
        \<lparr>ap_adec := False\<rparr>)"

record stream_answers =
  sa_render_mem :: bool
  sa_adec_mem :: bool
  sa_adec_open :: bool
  sa_thread :: bool

definition open_new_decoder :: "stream_answers \<Rightarrow> stream_info \<Rightarrow> audio_path \<Rightarrow> int \<times> audio_path" where
  "open_new_decoder e i s =
     (if \<not> ap_adec_res s \<and> \<not> sa_adec_mem e then (ESP_MEDIA_ERR_NO_MEM, s)
      else let s1 = s\<lparr>ap_adec_res := True\<rparr>
        in if \<not> sa_adec_open e then (AV_ERR_FAIL, s1)
           else let s2 = s1\<lparr>ap_adec := True, ap_use_pool := ap_pool s1\<rparr>
             in if audio_need_decode_in_sync (si_codec i) s2 then (0, s2)
                else if \<not> sa_thread e then (AV_ERR_FAIL, s2)
                else (0, s2\<lparr>ap_adec_thread := True, ap_decode_sync := False\<rparr>))"

definition add_audio_stream :: "stream_answers \<Rightarrow> stream_info \<Rightarrow> audio_path \<Rightarrow> int \<times> audio_path" where
  "add_audio_stream e i s =
     (if ap_sink s = None then (ESP_MEDIA_ERR_NOT_SUPPORT, s)
      else if \<not> ap_res s \<and> \<not> sa_render_mem e then (ESP_MEDIA_ERR_NO_MEM, s)
      else let s1 = s\<lparr>ap_res := True\<rparr>;
               s2 = (if sample_rate (ap_fixed s1) \<noteq> 0 then s1\<lparr>ap_out := ap_fixed s1, ap_need_resample := True\<rparr> else s1);
               s3 = close_old_decoder s2;
               s4 = s3\<lparr>ap_reached := False, ap_rendered := False, ap_pcm := (si_codec i = CODEC_PCM), ap_decode_sync := True\<rparr>
        in if ap_pcm s4 then (0, s4\<lparr>ap_info := convert_to_audio_frame i\<rparr>) else open_new_decoder e i s4)"

definition av_render_add_audio_stream :: "stream_answers \<Rightarrow> stream_info option \<Rightarrow> audio_path option \<Rightarrow> (int \<times> audio_path option) option" where
  "av_render_add_audio_stream e i = with_handle AV_ERR_INVALID_ARG (i \<noteq> None) (\<lambda>s. Some (add_audio_stream e (the i) s))"

definition pcm_of_data :: "audio_data \<Rightarrow> pcm_frame" where
  "pcm_of_data p = \<lparr>pf_pts = aud_pts p, pf_eos = aud_eos p, pf_data = aud_data p\<rparr>"

definition add_audio_data :: "audio_answers \<Rightarrow> decoded \<Rightarrow> audio_data \<Rightarrow> audio_path \<Rightarrow> (int \<times> audio_path) option" where
  "add_audio_data a d p s =
     (let done = (\<lambda>(r, s). Some (r, if ap_pool s then release_data p s else s))
      in if \<not> ap_res s then done (AV_ERR_WRONG_STATE, s)
         else if ap_pcm s then av_render_audio_frame_reached a no_audio_info (pcm_of_data p) s \<bind> done
         else if \<not> ap_adec_res s then None
         else if \<not> ap_adec s then done (AV_ERR_WRONG_STATE, s)
         else if ap_adec_thread s then
           (if aa_put a then Some (0, s\<lparr>ap_raw := ap_raw s @ [p]\<rparr>) else done (-1, s))
         else decode_audio a d p s \<bind> done)"

definition av_render_add_audio_data ::
  "audio_answers \<Rightarrow> decoded \<Rightarrow> audio_data option \<Rightarrow> audio_path option \<Rightarrow> (int \<times> audio_path option) option" where
  "av_render_add_audio_data a d p = with_handle AV_ERR_INVALID_ARG (p \<noteq> None) (add_audio_data a d (the p))"

definition av_render_set_event_cb :: "bool \<Rightarrow> audio_path option \<Rightarrow> (int \<times> audio_path option) option" where
  "av_render_set_event_cb cb = with_handle AV_ERR_INVALID_ARG cb (\<lambda>s. Some (AV_ERR_WRONG_STATE, s\<lparr>ap_event_cb := True\<rparr>))"

definition av_render_set_fixed_frame_info :: "audio_info option \<Rightarrow> audio_path option \<Rightarrow> (int \<times> audio_path option) option" where
  "av_render_set_fixed_frame_info i =
     with_handle AV_ERR_INVALID_ARG (i \<noteq> None) (\<lambda>s. Some (AV_ERR_WRONG_STATE, s\<lparr>ap_fixed := the i\<rparr>))"

definition av_render_use_data_pool :: "bool \<Rightarrow> audio_path option \<Rightarrow> (int \<times> audio_path option) option" where
  "av_render_use_data_pool free = with_handle AV_ERR_INVALID_ARG free (\<lambda>s. Some (0, s\<lparr>ap_pool := True\<rparr>))"

definition av_render_config_audio_fifo :: "(nat \<times> nat) option \<Rightarrow> audio_path option \<Rightarrow> (int \<times> audio_path option) option" where
  "av_render_config_audio_fifo c =
     with_handle AV_ERR_INVALID_ARG (c \<noteq> None)
       (\<lambda>s. Some (0, s\<lparr>ap_cfg := (ap_cfg s)\<lparr>ac_raw_fifo := fst (the c), ac_render_fifo := snd (the c)\<rparr>\<rparr>))"

definition av_render_set_audio_threshold :: "nat \<Rightarrow> audio_path option \<Rightarrow> (int \<times> audio_path option) option" where
  "av_render_set_audio_threshold n =
     with_handle (-1) True
       (\<lambda>s. Some (0, if ac_render_fifo (ap_cfg s) = 0 then s else s\<lparr>ap_threshold := min n (ac_render_fifo (ap_cfg s) div 2)\<rparr>))"

text \<open>
  The audio side of \<open>render_pause\<close>: messages to the threads that exist, here with their effect. \<open>only\<close> is
  \<open>pause_render_only\<close> of the configuration.
\<close>

definition render_pause_audio :: "bool \<Rightarrow> bool \<Rightarrow> audio_path \<Rightarrow> audio_path" where
  "render_pause_audio only p s =
     (let s1 = (if ap_adec_res s \<and> ap_adec_thread s \<and> (\<not> p \<or> \<not> only \<or> ap_res s \<and> \<not> ap_thread s) then s\<lparr>ap_adec_paused := p\<rparr> else s)
      in if ap_res s \<and> ap_thread s then s1\<lparr>ap_paused := p\<rparr> else s1)"

text \<open>
  \<open>raw\<close> and \<open>ren\<close> are the answers of \<open>data_queue_get_available\<close>, for the queues that exist.
\<close>

definition av_render_audio_fifo_enough :: "int option \<Rightarrow> int option \<Rightarrow> audio_data option \<Rightarrow> audio_path option \<Rightarrow> bool" where
  "av_render_audio_fifo_enough raw ren p h =
     (case (h, p) of
        (Some s, Some d) \<Rightarrow>
          ap_res s \<and>
          (case (if ap_adec_res s then raw else None) of
             Some avail \<Rightarrow> int (16 + (if ap_use_pool s then 0 else length (aud_data d))) \<le> avail
           | None \<Rightarrow> (case ren of Some avail \<Rightarrow> int (16 + length (aud_data d)) \<le> avail | None \<Rightarrow> True))
      | _ \<Rightarrow> False)"

record fifo_stat =
  fs_duration :: nat
  fs_q_num :: nat
  fs_data_size :: nat
  fs_render_q_num :: nat
  fs_render_data_size :: nat

definition raw_bytes :: "bool \<Rightarrow> audio_data list \<Rightarrow> nat" where
  "raw_bytes pool q = sum_list (map (\<lambda>p. 16 + (if pool then 0 else length (aud_data p))) q)"

definition av_render_get_audio_fifo_level :: "audio_path option \<Rightarrow> int \<times> fifo_stat option" where
  "av_render_get_audio_fifo_level h =
     (case h of
        None \<Rightarrow> (-1, None)
      | Some s \<Rightarrow>
          (0, Some (if ap_res s
             then \<lparr>fs_duration = 0, fs_q_num = (if ap_adec_res s then length (ap_raw s) else 0), fs_data_size = (if ap_adec_res s then raw_bytes (ap_use_pool s) (ap_raw s) else 0),
                   fs_render_q_num = length (ap_queue s), fs_render_data_size = q_bytes (ap_queue s)\<rparr>
             else \<lparr>fs_duration = 0, fs_q_num = 0, fs_data_size = 0, fs_render_q_num = 0, fs_render_data_size = 0\<rparr>)))"


section \<open>From the queue to the driver\<close>

text \<open>What the driver was asked to play, and what waits in the queue; a frame without data and without end mark is not played.\<close>

definition handed :: "audio_path \<Rightarrow> u8 list list" where
  "handed s = (case ap_sink s of None \<Rightarrow> [] | Some k \<Rightarrow> concat (map (\<lambda>c. case c of Drv_write d r \<Rightarrow> [d] | _ \<Rightarrow> []) (a_calls k)))"

definition sounds :: "pcm_frame \<Rightarrow> bool" where
  "sounds f \<longleftrightarrow> pf_data f \<noteq> [] \<or> pf_eos f"

definition waiting :: "audio_path \<Rightarrow> u8 list list" where
  "waiting s = map pf_data (filter sounds (ap_queue s))"

text \<open>A stream of PCM that is played by its thread: the sink is open, nothing is flushed, late data is not dropped.\<close>

definition threaded :: "audio_path \<Rightarrow> bool" where
  "threaded s \<longleftrightarrow> (\<exists>k. ap_sink s = Some k \<and> \<not> a_freed k \<and> a_is_open k \<and> a_ops k AD_write) \<and>
     ap_res s \<and> ap_pcm s \<and> ap_reached s \<and> ap_thread s \<and> \<not> ap_resampler s \<and> \<not> ap_flushing s \<and>
     \<not> (ac_drop (ap_cfg s) \<and> ac_mode (ap_cfg s) = SYNC_NONE)"

text \<open>What happens to such a stream.\<close>

datatype audio_activity = Aa_data audio_answers audio_data | Aa_body int | Aa_pause bool | Aa_threshold nat

definition no_decode :: decoded where
  "no_decode = \<lparr>dd_frames = [], dd_ret = 0\<rparr>"

fun audio_step :: "audio_path \<Rightarrow> audio_activity \<Rightarrow> audio_path option" where
  "audio_step s (Aa_data a p) = map_option snd (add_audio_data a no_decode p s)"
| "audio_step s (Aa_body r) = map_option snd (a_render_body r False s)"
| "audio_step s (Aa_pause b) = Some (render_pause_audio False b s)"
| "audio_step s (Aa_threshold n) = av_render_set_audio_threshold n (Some s) \<bind> snd"

fun accepted :: "audio_activity \<Rightarrow> u8 list list" where
  "accepted (Aa_data a p) = (if aa_put a \<and> sounds (pcm_of_data p) then [aud_data p] else [])"
| "accepted _ = []"

lemma send_event_sel [simp]:
  "ap_sink (send_event e s) = ap_sink s" "ap_queue (send_event e s) = ap_queue s" "ap_cfg (send_event e s) = ap_cfg s"
  "ap_res (send_event e s) = ap_res s" "ap_pcm (send_event e s) = ap_pcm s" "ap_reached (send_event e s) = ap_reached s"
  "ap_thread (send_event e s) = ap_thread s" "ap_resampler (send_event e s) = ap_resampler s" "ap_paused (send_event e s) = ap_paused s"
  "ap_flushing (send_event e s) = ap_flushing s" "ap_rendered (send_event e s) = ap_rendered s" "ap_event_cb (send_event e s) = ap_event_cb s"
  "ap_released (send_event e s) = ap_released s" "ap_raw (send_event e s) = ap_raw s" "ap_pool (send_event e s) = ap_pool s"
  "ap_use_pool (send_event e s) = ap_use_pool s" "ap_adec_res (send_event e s) = ap_adec_res s" "ap_adec (send_event e s) = ap_adec s"
  "ap_adec_thread (send_event e s) = ap_adec_thread s" "ap_err_cnt (send_event e s) = ap_err_cnt s" "ap_threshold (send_event e s) = ap_threshold s"
  "ap_fixed (send_event e s) = ap_fixed s" "ap_info (send_event e s) = ap_info s" "ap_out (send_event e s) = ap_out s"
  "ap_need_resample (send_event e s) = ap_need_resample s" "ap_resamplers (send_event e s) = ap_resamplers s"
  by (simp_all add: send_event_def)

lemma first_audio_frame_sel [simp]:
  "ap_sink (first_audio_frame s) = ap_sink s" "ap_queue (first_audio_frame s) = ap_queue s" "ap_cfg (first_audio_frame s) = ap_cfg s"
  "ap_res (first_audio_frame s) = ap_res s" "ap_pcm (first_audio_frame s) = ap_pcm s" "ap_reached (first_audio_frame s) = ap_reached s"
  "ap_thread (first_audio_frame s) = ap_thread s" "ap_resampler (first_audio_frame s) = ap_resampler s"
  "ap_flushing (first_audio_frame s) = ap_flushing s" "ap_rendered (first_audio_frame s)"
  "ap_paused (first_audio_frame s) \<longleftrightarrow> ap_paused s \<or> \<not> ap_rendered s \<and> ac_pause_first (ap_cfg s)"
  "ap_released (first_audio_frame s) = ap_released s" "ap_raw (first_audio_frame s) = ap_raw s" "ap_pool (first_audio_frame s) = ap_pool s"
  "ap_use_pool (first_audio_frame s) = ap_use_pool s" "ap_adec_res (first_audio_frame s) = ap_adec_res s" "ap_adec (first_audio_frame s) = ap_adec s"
  "ap_adec_thread (first_audio_frame s) = ap_adec_thread s" "ap_threshold (first_audio_frame s) = ap_threshold s"
  by (simp_all add: first_audio_frame_def)

lemma audio_render_write_open:
  assumes "\<not> a_freed k" "a_is_open k" "a_ops k AD_write"
  shows "audio_render_write (Some d) ret (Some k) = Some (ret, Some (k\<lparr>a_calls := a_calls k @ [Drv_write d ret]\<rparr>))"
  using assms by (simp add: audio_render_write_def a_forward_def a_deref_def a_call_def)

text \<open>Writing a frame: while the stream is paused nothing is handed on, otherwise exactly this frame.\<close>

lemma write_hands_over:
  assumes "threaded s"
  shows "\<exists>r s1. render_write_audio ret f s = Some (r, s1) \<and> threaded s1 \<and> ap_queue s1 = ap_queue s \<and>
    (ap_paused s1 \<longleftrightarrow> ap_paused s \<or> \<not> ap_rendered s \<and> ac_pause_first (ap_cfg s)) \<and> ap_rendered s1 \<and> ap_threshold s1 = ap_threshold s \<and>
    handed s1 = (if ap_paused s1 then handed s else handed s @ [pf_data f])"
proof -
  from assms obtain k where k: "ap_sink s = Some k" "\<not> a_freed k" "a_is_open k" "a_ops k AD_write" by (auto simp: threaded_def)
  let ?k = "k\<lparr>a_calls := a_calls k @ [Drv_write (pf_data f) ret]\<rparr>"
  have "\<not> a_freed ?k" using k(2) by (simp add: a_freed_def)
  then show ?thesis using assms k audio_render_write_open [OF k(2-4)]
    by (auto simp: render_write_audio_def Let_def threaded_def handed_def)
qed

lemma no_late_drop:
  assumes "threaded s" shows "audio_drop_before_render (ac_drop (ap_cfg s)) (ac_mode (ap_cfg s)) i n = Some False"
  using assms by (auto simp: threaded_def audio_drop_before_render_def)

lemma body_hands_over:
  assumes "threaded s"
  shows "\<exists>s1. a_render_body r False s = Some (0, s1) \<and> threaded s1 \<and> handed s1 @ waiting s1 = handed s @ waiting s"
proof (cases "ap_queue s")
  case Nil
  then show ?thesis using assms by (simp add: a_render_body_def)
next
  case (Cons f q)
  obtain r1 s1 where w: "render_write_audio r f s = Some (r1, s1)" "threaded s1" "ap_queue s1 = ap_queue s"
    "handed s1 = (if ap_paused s1 then handed s else handed s @ [pf_data f])" using write_hands_over [OF assms] by blast
  have t: "threaded (s\<lparr>ap_rendered := b\<rparr>)" "threaded (s\<lparr>ap_queue := q\<rparr>)" "threaded (s1\<lparr>ap_queue := q\<rparr>)" for b
    using assms w(2) by (auto simp: threaded_def)
  have h: "handed (s\<lparr>ap_rendered := b\<rparr>) = handed s" "waiting (s\<lparr>ap_rendered := b\<rparr>) = waiting s" "handed (x\<lparr>ap_queue := q\<rparr>) = handed x" for b x
    by (auto simp: handed_def waiting_def)
  show ?thesis
  proof (cases "sounds f")
    case True
    then have b: "pf_data f \<noteq> [] \<or> pf_eos f" by (simp add: sounds_def)
    have "waiting s1 = waiting s" "waiting (s1\<lparr>ap_queue := q\<rparr>) = map pf_data (filter sounds q)" "waiting s = pf_data f # map pf_data (filter sounds q)"
      using w(3) Cons True by (simp_all add: waiting_def)
    then show ?thesis using Cons w t h b by (auto simp: a_render_body_def no_late_drop [OF assms])
  next
    case False
    then have b: "pf_data f = []" "\<not> pf_eos f" by (auto simp: sounds_def)
    have "waiting (s\<lparr>ap_queue := q\<rparr>) = waiting s" using Cons False by (simp add: waiting_def)
    then show ?thesis using Cons t h b assms by (auto simp: a_render_body_def)
  qed
qed

lemma data_is_queued:
  assumes "threaded s"
  shows "\<exists>s1. add_audio_data a d p s = Some (if aa_put a then 0 else -1, s1) \<and> threaded s1 \<and>
    handed s1 @ waiting s1 = handed s @ waiting s @ accepted (Aa_data a p)"
  using assms by (auto simp: threaded_def add_audio_data_def av_render_audio_frame_reached_def audio_render_frame_reached_def
      release_data_def Let_def handed_def waiting_def pcm_of_data_def)

lemma audio_step_hands_over:
  assumes "threaded s"
  shows "\<exists>s1. audio_step s e = Some s1 \<and> threaded s1 \<and> handed s1 @ waiting s1 = handed s @ waiting s @ accepted e"
proof (cases e)
  case (Aa_data a p)
  then show ?thesis using data_is_queued [OF assms, of a no_decode p] by auto
next
  case (Aa_body r)
  then show ?thesis using body_hands_over [OF assms, of r] by auto
next
  case (Aa_pause b)
  then show ?thesis using assms by (auto simp: threaded_def handed_def waiting_def render_pause_audio_def Let_def)
next
  case (Aa_threshold n)
  then show ?thesis using assms
    by (auto simp: threaded_def handed_def waiting_def av_render_set_audio_threshold_def with_handle_def)
qed

interpretation audio_flow: simulation audio_step "\<lambda>s xs. threaded s \<and> handed s @ waiting s = xs" "\<lambda>xs e. xs @ accepted e" "\<lambda>_ _. True"
proof unfold_locales
  fix s xs e
  assume "threaded s \<and> handed s @ waiting s = xs"
  then show "\<exists>s'. audio_step s e = Some s' \<and> threaded s' \<and> handed s' @ waiting s' = xs @ accepted e"
    using audio_step_hands_over [of s e] by auto
qed

lemma accepted_all: "foldl (\<lambda>xs e. xs @ accepted e) xs es = xs @ concat (map accepted es)"
  by (induction es arbitrary: xs) simp_all

lemma path_ok_True: "path_ok (\<lambda>_ _. True) f a es"
  by (induction es arbitrary: a) simp_all


definition demo_sink :: audio_sink where
  "demo_sink = \<lparr>a_ops = (\<lambda>_. True), a_handle = True, a_is_open = True, a_ref_count = 2, a_calls = []\<rparr>"

definition demo_path :: audio_path where
  "demo_path = \<lparr>ap_cfg = \<lparr>ac_raw_fifo = 0, ac_render_fifo = 1000, ac_mode = SYNC_NONE, ac_quit_eos = False, ac_drop = False, ac_pause_first = False\<rparr>,
     ap_sink = Some demo_sink, ap_fixed = no_audio_info, ap_threshold = 0, ap_event_cb = True, ap_events = [], ap_pool = False, ap_released = [],
     ap_res = True, ap_reached = True, ap_rendered = False, ap_info = no_audio_info, ap_out = no_audio_info, ap_need_resample = False,
     ap_resampler = False, ap_resamplers = 0, ap_send_pts = 0, ap_pcm = True, ap_decode_sync = True, ap_render_sync = True, ap_thread = True,
     ap_queue = [], ap_paused = False, ap_flushing = False, ap_adec_res = False, ap_adec = False, ap_adec_thread = False, ap_raw = [],
     ap_use_pool = False, ap_adec_paused = False, ap_err_cnt = 0\<rparr>"

definition demo_answers :: audio_answers where
  "demo_answers = \<lparr>aa_open = 0, aa_close = 0, aa_write = 0, aa_resample_open = True, aa_convert = Some, aa_thread = True, aa_put = True\<rparr>"

definition demo_data :: "u8 list \<Rightarrow> bool \<Rightarrow> audio_data" where
  "demo_data d e = \<lparr>aud_pts = 0, aud_addr = 4096, aud_data = d, aud_eos = e\<rparr>"

lemma demo_threaded: "threaded demo_path"
  by (simp add: threaded_def demo_path_def demo_sink_def a_freed_def)



section \<open>The threshold\<close>

definition bodies :: "nat \<Rightarrow> audio_path \<Rightarrow> audio_path option" where
  "bodies n s = run_events audio_step s (replicate n (Aa_body 0))"

lemma bodies_simps [simp]:
  "bodies 0 s = Some s" "bodies (Suc n) s = map_option snd (a_render_body 0 False s) \<bind> bodies n"
  by (simp_all add: bodies_def [abs_def])

text \<open>
  Without a threshold the thread plays what waits: as many bodies as there are frames leave the queue empty, and everything
  was handed to the driver in order.
\<close>

theorem audio_queue_drains:
  assumes "threaded s" "\<not> ap_paused s" "ap_rendered s \<or> \<not> ac_pause_first (ap_cfg s)" "ap_threshold s = 0"
  shows "\<exists>s'. bodies (length (ap_queue s)) s = Some s' \<and> ap_queue s' = [] \<and> handed s' = handed s @ waiting s"
  using assms
proof (induction "ap_queue s" arbitrary: s)
  case Nil
  then show ?case by (simp add: waiting_def flip: Nil.hyps(1))
next
  case (Cons f q)
  note a = Cons.prems and q = Cons.hyps(2) [symmetric]
  obtain r1 s1 where w: "render_write_audio 0 f s = Some (r1, s1)" "threaded s1" "ap_threshold s1 = ap_threshold s" "ap_rendered s1"
      "\<not> ap_paused s1" "handed s1 = handed s @ [pf_data f]"
    using write_hands_over [OF a(1), of 0 f] a(2,3) by auto
  let ?n = "(if sounds f then s1 else s)\<lparr>ap_queue := q\<rparr>"
  have b: "a_render_body 0 False s = Some (0, ?n)" using q w(1,5) a(2,4)
    by (auto simp: a_render_body_def no_late_drop [OF a(1)] below_threshold_def sounds_def)
  have t: "threaded ?n" "\<not> ap_paused ?n" "ap_rendered ?n \<or> \<not> ac_pause_first (ap_cfg ?n)" "ap_threshold ?n = 0"
    using a w by (auto simp: threaded_def)
  have h: "handed ?n @ waiting ?n = handed s @ waiting s" using q w(6) by (simp add: handed_def waiting_def)
  have "q = ap_queue ?n" by simp
  from Cons.hyps(1) [OF this t] show ?case using b q h by simp
qed

theorem audio_queue_drains_witness:
  "\<exists>s'. bodies 2 (demo_path\<lparr>ap_queue := [pcm_of_data (demo_data [1] False), pcm_of_data (demo_data [] True)]\<rparr>) = Some s' \<and>
     ap_queue s' = [] \<and> handed s' = [[1], []]"
proof -
  let ?s = "demo_path\<lparr>ap_queue := [pcm_of_data (demo_data [1] False), pcm_of_data (demo_data [] True)]\<rparr>"
  have "threaded ?s" using demo_threaded by (simp add: threaded_def)
  from audio_queue_drains [OF this] show ?thesis
    by (simp add: demo_path_def demo_sink_def handed_def waiting_def sounds_def pcm_of_data_def demo_data_def numeral_2_eq_2 del: bodies_simps)
qed

text \<open>
  C31. With a threshold the end of a stream is not played: once fewer than three frames are left the thread falls back to
  filling up to the threshold, and without new data no body ever hands on another frame or the end of the stream.
\<close>

theorem threshold_swallows_tail:
  assumes "\<not> ap_paused s" "ap_rendered s" "ap_queue s = f # q" "length q < 2" "pf_data f \<noteq> []" "q_bytes (ap_queue s) < ap_threshold s"
  shows "bodies (Suc n) s = Some (s\<lparr>ap_rendered := False\<rparr>)"
proof -
  have stuck: "bodies m (s\<lparr>ap_rendered := False\<rparr>) = Some (s\<lparr>ap_rendered := False\<rparr>)" for m
    using assms by (induction m) (simp_all add: a_render_body_def below_threshold_def)
  show ?thesis using assms stuck [of n] by (simp add: a_render_body_def below_threshold_def)
qed

theorem threshold_swallows_tail_witness:
  "bodies 1000 (demo_path\<lparr>ap_threshold := 500, ap_rendered := True, ap_queue := [pcm_of_data (demo_data [1] True)]\<rparr>) =
     Some (demo_path\<lparr>ap_threshold := 500, ap_rendered := False, ap_queue := [pcm_of_data (demo_data [1] True)]\<rparr>)"
  using threshold_swallows_tail [of "demo_path\<lparr>ap_threshold := 500, ap_rendered := True, ap_queue := [pcm_of_data (demo_data [1] True)]\<rparr>"
      "pcm_of_data (demo_data [1] True)" "[]" 999]
  by (simp add: demo_path_def pcm_of_data_def demo_data_def q_bytes_def del: bodies_simps)

section \<open>Errors\<close>

text \<open>Decoding \<open>n\<close> packets that the codec refuses.\<close>

fun decode_packets :: "audio_answers \<Rightarrow> (decoded \<times> audio_data) list \<Rightarrow> audio_path \<Rightarrow> audio_path option" where
  "decode_packets a [] s = Some s"
| "decode_packets a ((d, p) # ps) s = decode_audio a d p s \<bind> (\<lambda>(_, s). decode_packets a ps s)"

definition decode_errors :: "audio_path \<Rightarrow> nat" where
  "decode_errors s = length (filter (\<lambda>e. e = EV_AUDIO_DECODE_ERR) (ap_events s))"

lemma refused_counts:
  assumes "\<forall>(d, p) \<in> set ps. dd_frames d = [] \<and> dd_ret d \<noteq> 0 \<and> (aud_data p \<noteq> [] \<or> aud_eos p)" "ap_event_cb s"
  shows "\<exists>s'. decode_packets a ps s = Some s' \<and> ap_event_cb s' \<and>
    decode_errors s' = decode_errors s + of_bool (ap_err_cnt s < 10 \<and> 10 \<le> ap_err_cnt s + length ps)"
  using assms
proof (induction ps arbitrary: s)
  case (Cons x ps)
  obtain d p where x: "x = (d, p)" by force
  let ?s = "count_decode_error (dd_ret d) s"
  have s: "ap_event_cb ?s" "decode_audio a d p s = Some (dd_ret d, ?s)"
    "decode_errors ?s = decode_errors s + of_bool (ap_err_cnt s = 9)" "ap_err_cnt ?s = (if ap_err_cnt s = 9 then 11 else ap_err_cnt s + 1)"
    using Cons.prems x by (auto simp: count_decode_error_def decode_audio_def Let_def decode_errors_def send_event_def AUDIO_ERR_FRAME_TOLERANCE_def)
  from Cons.IH [OF _ s(1)] Cons.prems(1) obtain s' where "decode_packets a ps ?s = Some s'" "ap_event_cb s'"
    "decode_errors s' = decode_errors ?s + of_bool (ap_err_cnt ?s < 10 \<and> 10 \<le> ap_err_cnt ?s + length ps)" by auto
  then show ?case using s x by (auto simp: of_bool_def split: if_splits)
qed simp

text \<open>
  Errors of the codec are reported when they persist: a decoder that refuses one packet after the other makes one event
  at the tenth of them and no further, however many follow.
\<close>

theorem decode_error_reported_once:
  assumes "\<forall>(d, p) \<in> set ps. dd_frames d = [] \<and> dd_ret d \<noteq> 0 \<and> (aud_data p \<noteq> [] \<or> aud_eos p)" "ap_event_cb s" "ap_err_cnt s = 0"
  shows "\<exists>s'. decode_packets a ps s = Some s' \<and> decode_errors s' = decode_errors s + (if length ps < AUDIO_ERR_FRAME_TOLERANCE then 0 else 1)"
  using refused_counts [OF assms(1,2), of a] assms(3) by (auto simp: AUDIO_ERR_FRAME_TOLERANCE_def)

theorem decode_error_reported_once_witness:
  "\<exists>s'. decode_packets demo_answers (replicate 40 (\<lparr>dd_frames = [], dd_ret = -1\<rparr>, demo_data [7] False)) demo_path = Some s' \<and> decode_errors s' = 1"
  using decode_error_reported_once [of "replicate 40 (\<lparr>dd_frames = [], dd_ret = -1\<rparr>, demo_data [7] False)" demo_path demo_answers]
  by (simp add: demo_data_def demo_path_def decode_errors_def AUDIO_ERR_FRAME_TOLERANCE_def)

text \<open>
  When the memory for the decoder is missing the stream is refused, but it has been noted already: the next packet is
  given to the decoder that is not there.
\<close>

theorem refused_stream_crashes:
  assumes "ap_sink s \<noteq> None" "\<not> ap_adec_res s" "si_codec i \<noteq> CODEC_PCM" "sa_render_mem e" "\<not> sa_adec_mem e"
  shows "\<exists>s'. av_render_add_audio_stream e (Some i) (Some s) = Some (ESP_MEDIA_ERR_NO_MEM, Some s') \<and>
    av_render_add_audio_data a d (Some p) (Some s') = None"
  using assms
  by (auto simp: av_render_add_audio_stream_def with_handle_def add_audio_stream_def close_old_decoder_def open_new_decoder_def Let_def
      av_render_add_audio_data_def add_audio_data_def)

theorem refused_stream_crashes_witness:
  "\<exists>s'. av_render_add_audio_stream \<lparr>sa_render_mem = True, sa_adec_mem = False, sa_adec_open = True, sa_thread = True\<rparr>
        (Some \<lparr>si_codec = CODEC_OPUS, si_info = no_audio_info, si_no_adts = False, si_spec = False\<rparr>) (Some demo_path) = Some (ESP_MEDIA_ERR_NO_MEM, Some s') \<and>
    av_render_add_audio_data demo_answers no_decode (Some (demo_data [1] False)) (Some s') = None"
  by (rule refused_stream_crashes) (simp_all add: demo_path_def)


section \<open>Playing without a thread\<close>

text \<open>A stream of PCM that is written by the caller of \<open>av_render_add_audio_data\<close>.\<close>

definition direct :: "audio_path \<Rightarrow> bool" where
  "direct s \<longleftrightarrow> (\<exists>k. ap_sink s = Some k \<and> \<not> a_freed k \<and> a_is_open k \<and> a_ops k AD_write) \<and>
     ap_res s \<and> ap_pcm s \<and> ap_reached s \<and> \<not> ap_thread s \<and> \<not> ap_resampler s \<and> ap_queue s = []"

definition driver_calls :: "audio_path \<Rightarrow> audio_drv_call list" where
  "driver_calls s = (case ap_sink s of None \<Rightarrow> [] | Some k \<Rightarrow> a_calls k)"

definition ends :: "audio_data list \<Rightarrow> nat" where
  "ends ps = length (filter aud_eos ps)"

lemma direct_data:
  assumes "direct s" "\<not> ap_paused s" "\<not> ap_flushing s" "ap_rendered s" "ap_event_cb s" "aa_write a = 0"
  shows "\<exists>s'. audio_step s (Aa_data a p) = Some s' \<and> direct s' \<and> \<not> ap_paused s' \<and> \<not> ap_flushing s' \<and> ap_rendered s' \<and> ap_event_cb s' \<and>
    driver_calls s' = driver_calls s @ [Drv_write (aud_data p) 0] \<and> ap_events s' = ap_events s @ replicate (ends [p]) EV_AUDIO_EOS"
proof -
  from assms(1) obtain k where k: "ap_sink s = Some k" "\<not> a_freed k" "a_is_open k" "a_ops k AD_write" by (auto simp: direct_def)
  have "\<not> a_freed (k\<lparr>a_calls := a_calls k @ [Drv_write (aud_data p) 0]\<rparr>)" using k(2) by (simp add: a_freed_def)
  then show ?thesis using assms k audio_render_write_open [OF k(2-4), of "aud_data p" 0]
    by (auto simp: direct_def add_audio_data_def av_render_audio_frame_reached_def audio_render_frame_reached_def render_write_audio_def
        first_audio_frame_def pcm_of_data_def release_data_def Let_def driver_calls_def ends_def send_event_def)
qed

lemma direct_stream:
  assumes "direct s" "\<not> ap_paused s" "\<not> ap_flushing s" "ap_rendered s" "ap_event_cb s" "aa_write a = 0"
  shows "\<exists>s'. run_events audio_step s (map (Aa_data a) ps) = Some s' \<and>
    driver_calls s' = driver_calls s @ map (\<lambda>p. Drv_write (aud_data p) 0) ps \<and> ap_events s' = ap_events s @ replicate (ends ps) EV_AUDIO_EOS"
  using assms
proof (induction ps arbitrary: s)
  case Nil
  then show ?case by (simp add: ends_def)
next
  case (Cons p ps)
  obtain s1 where s1: "audio_step s (Aa_data a p) = Some s1" "direct s1" "\<not> ap_paused s1" "\<not> ap_flushing s1" "ap_rendered s1" "ap_event_cb s1"
    "driver_calls s1 = driver_calls s @ [Drv_write (aud_data p) 0]" "ap_events s1 = ap_events s @ replicate (ends [p]) EV_AUDIO_EOS"
    using direct_data [OF Cons.prems] by blast
  have "replicate (ends [p]) EV_AUDIO_EOS @ replicate (ends ps) EV_AUDIO_EOS = replicate (ends (p # ps)) EV_AUDIO_EOS"
    by (simp add: ends_def)
  then show ?case using Cons.IH [OF s1(2-6) Cons.prems(6)] s1(1,7,8) by (auto simp del: audio_step.simps)
qed

text \<open>The first packet opens the sink with the format of the stream, and is reported.\<close>

lemma first_direct_data:
  assumes "ap_sink s = Some k" "audio_sink_rep k \<lparr>held = True, playing = False\<rparr>" "ap_res s" "ap_pcm s" "\<not> ap_reached s" "\<not> ap_rendered s"
    "\<not> ap_thread s" "\<not> ap_resampler s" "\<not> ap_need_resample s" "ap_queue s = []" "ac_render_fifo (ap_cfg s) = 0" "\<not> ac_pause_first (ap_cfg s)"
    "\<not> ap_paused s" "\<not> ap_flushing s" "ap_event_cb s" "aa_open a = 0" "aa_write a = 0"
  shows "\<exists>s'. audio_step s (Aa_data a p) = Some s' \<and> direct s' \<and> \<not> ap_paused s' \<and> \<not> ap_flushing s' \<and> ap_rendered s' \<and> ap_event_cb s' \<and>
    driver_calls s' = a_calls k @ [Drv_open (ap_info s) 0, Drv_write (aud_data p) 0] \<and>
    ap_events s' = ap_events s @ EV_AUDIO_RENDERED # replicate (ends [p]) EV_AUDIO_EOS"
proof -
  have k: "\<not> a_freed k" "\<not> a_is_open k" "a_ops k = (\<lambda>_. True)" "a_handle k" using assms(2) by (auto simp: audio_sink_rep_def)
  then have f: "\<not> a_freed (k\<lparr>a_calls := cs\<rparr>)" if "Drv_free \<notin> set cs" for cs using that by (simp add: a_freed_def)
  have n: "Drv_free \<notin> set (a_calls k)" using k(1) by (simp add: a_freed_def)
  show ?thesis using assms k n
    by (auto simp: direct_def add_audio_data_def av_render_audio_frame_reached_def audio_render_frame_reached_def render_write_audio_def
        first_audio_frame_def pcm_of_data_def release_data_def Let_def driver_calls_def ends_def send_event_def open_audio_render_def reopen_sink_def
        audio_need_render_in_sync_def audio_sink_ops a_freed_def)
qed

text \<open>
  C22. PCM without queues: adding the stream and its packets opens the driver once with the announced format and writes every
  packet in order before the call that brought it returns; the application hears of the first packet and of each end.
\<close>

theorem pcm_plays_in_order:
  assumes "ap_sink s = Some k" "audio_sink_rep k \<lparr>held = True, playing = False\<rparr>" "ac_render_fifo (ap_cfg s) = 0" "\<not> ac_pause_first (ap_cfg s)"
    "sample_rate (ap_fixed s) = 0" "\<not> ap_need_resample s" "\<not> ap_resampler s" "\<not> ap_thread s" "ap_queue s = []" "\<not> ap_paused s" "\<not> ap_flushing s"
    "ap_event_cb s" "sa_render_mem e" "si_codec i = CODEC_PCM" "aa_open a = 0" "aa_write a = 0"
  shows "\<exists>s1 s2. av_render_add_audio_stream e (Some i) (Some s) = Some (0, Some s1) \<and> run_events audio_step s1 (map (Aa_data a) (p # ps)) = Some s2 \<and>
    driver_calls s2 = a_calls k @ Drv_open (si_info i) 0 # map (\<lambda>p. Drv_write (aud_data p) 0) (p # ps) \<and>
    ap_events s2 = ap_events s @ EV_AUDIO_RENDERED # replicate (ends (p # ps)) EV_AUDIO_EOS"
proof -
  have r: "ap_events (fold release_data ds x) = ap_events x \<and> ap_sink (fold release_data ds x) = ap_sink x \<and> ap_cfg (fold release_data ds x) = ap_cfg x \<and>
      ap_need_resample (fold release_data ds x) = ap_need_resample x \<and> ap_resampler (fold release_data ds x) = ap_resampler x \<and>
      ap_thread (fold release_data ds x) = ap_thread x \<and> ap_queue (fold release_data ds x) = ap_queue x \<and> ap_paused (fold release_data ds x) = ap_paused x \<and>
      ap_flushing (fold release_data ds x) = ap_flushing x \<and> ap_event_cb (fold release_data ds x) = ap_event_cb x \<and>
      ap_res (fold release_data ds x) = ap_res x" for ds x
    by (induction ds arbitrary: x) (simp_all add: release_data_def)
  define s1 where "s1 = snd (add_audio_stream e i s)"
  have v: "ap_sink s1 = Some k" "ap_res s1" "ap_pcm s1" "\<not> ap_reached s1" "\<not> ap_rendered s1" "\<not> ap_thread s1" "\<not> ap_resampler s1"
      "\<not> ap_need_resample s1" "ap_queue s1 = []" "ac_render_fifo (ap_cfg s1) = 0" "\<not> ac_pause_first (ap_cfg s1)" "\<not> ap_paused s1" "\<not> ap_flushing s1"
      "ap_event_cb s1" "ap_events s1 = ap_events s" "ap_info s1 = si_info i"
    using assms r by (simp_all add: s1_def add_audio_stream_def close_old_decoder_def convert_to_audio_frame_def Let_def)
  have "av_render_add_audio_stream e (Some i) (Some s) = Some (0, Some s1)" using assms
    by (simp add: s1_def av_render_add_audio_stream_def with_handle_def add_audio_stream_def close_old_decoder_def Let_def)
  moreover obtain s2 where s2: "audio_step s1 (Aa_data a p) = Some s2" "direct s2" "\<not> ap_paused s2" "\<not> ap_flushing s2" "ap_rendered s2" "ap_event_cb s2"
      "driver_calls s2 = a_calls k @ [Drv_open (si_info i) 0, Drv_write (aud_data p) 0]"
      "ap_events s2 = ap_events s @ EV_AUDIO_RENDERED # replicate (ends [p]) EV_AUDIO_EOS"
    using first_direct_data [OF v(1) assms(2) v(2-14) assms(15,16), of p] v(15,16) by auto
  moreover have "replicate (ends [p]) EV_AUDIO_EOS @ replicate (ends ps) EV_AUDIO_EOS = replicate (ends (p # ps)) EV_AUDIO_EOS"
    by (simp add: ends_def)
  ultimately show ?thesis using direct_stream [OF s2(2-6) assms(16), of ps] by (auto simp del: audio_step.simps)
qed

definition idle_sink :: audio_sink where
  "idle_sink = \<lparr>a_ops = (\<lambda>_. True), a_handle = True, a_is_open = False, a_ref_count = 1, a_calls = [Drv_init]\<rparr>"

definition idle_path :: audio_path where
  "idle_path = demo_path\<lparr>ap_sink := Some idle_sink, ap_cfg := (ap_cfg demo_path)\<lparr>ac_render_fifo := 0\<rparr>, ap_thread := False, ap_reached := False, ap_res := False\<rparr>"

definition all_memory :: stream_answers where
  "all_memory = \<lparr>sa_render_mem = True, sa_adec_mem = True, sa_adec_open = True, sa_thread = True\<rparr>"

definition pcm_stream :: stream_info where
  "pcm_stream = \<lparr>si_codec = CODEC_PCM, si_info = \<lparr>channel = 2, bits_per_sample = 16, sample_rate = 48000\<rparr>, si_no_adts = False, si_spec = False\<rparr>"

lemma idle_sink_rep: "audio_sink_rep idle_sink \<lparr>held = True, playing = False\<rparr>"
  by (simp add: audio_sink_rep_def idle_sink_def sink_phase_def a_freed_def)

theorem pcm_plays_in_order_witness:
  "\<exists>s1 s2. av_render_add_audio_stream all_memory (Some pcm_stream) (Some idle_path) = Some (0, Some s1) \<and>
    run_events audio_step s1 (map (Aa_data demo_answers) [demo_data [1] False, demo_data [2] True]) = Some s2 \<and>
    driver_calls s2 = [Drv_init, Drv_open \<lparr>channel = 2, bits_per_sample = 16, sample_rate = 48000\<rparr> 0, Drv_write [1] 0, Drv_write [2] 0] \<and>
    ap_events s2 = [EV_AUDIO_RENDERED, EV_AUDIO_EOS]"
  using pcm_plays_in_order [OF _ idle_sink_rep, of idle_path all_memory pcm_stream demo_answers "demo_data [1] False" "[demo_data [2] True]"]
  by (simp add: idle_path_def demo_path_def all_memory_def pcm_stream_def demo_answers_def demo_data_def no_audio_info_def ends_def idle_sink_def
      del: run_events.simps)


text \<open>A stream without a thread that is paused, or will pause itself on its first frame.\<close>

definition muted :: "audio_path \<Rightarrow> bool" where
  "muted s \<longleftrightarrow> direct s \<and> (ap_paused s \<or> \<not> ap_rendered s \<and> ac_pause_first (ap_cfg s))"

lemma muted_step: "muted s \<Longrightarrow> \<exists>s'. audio_step s e = Some s' \<and> muted s' \<and> driver_calls s' = driver_calls s"
  by (cases e)
    (auto simp: muted_def direct_def add_audio_data_def av_render_audio_frame_reached_def audio_render_frame_reached_def render_write_audio_def
      release_data_def Let_def driver_calls_def a_render_body_def render_pause_audio_def av_render_set_audio_threshold_def with_handle_def)

interpretation muted_flow: simulation audio_step "\<lambda>s c. muted s \<and> driver_calls s = c" "\<lambda>c e. c" "\<lambda>_ _. True"
  by unfold_locales (use muted_step in blast)

text \<open>
  \<open>pause_on_first_frame\<close> without a queue in front of the sink silences the stream for good: pausing and resuming are
  messages to a thread that does not exist, so nothing undoes the pause.
\<close>

theorem pause_without_thread_is_final:
  assumes "muted s"
  shows "\<exists>s'. run_events audio_step s es = Some s' \<and> driver_calls s' = driver_calls s"
proof -
  have "foldl (\<lambda>c e. c) c es = c" for c by (induction es) simp_all
  then show ?thesis using muted_flow.run_sim [of s "driver_calls s" es, OF _ path_ok_True] assms by auto
qed

theorem pause_without_thread_is_final_witness:
  "\<exists>s'. run_events audio_step (demo_path\<lparr>ap_thread := False, ap_cfg := (ap_cfg demo_path)\<lparr>ac_render_fifo := 0, ac_pause_first := True\<rparr>\<rparr>)
      [Aa_data demo_answers (demo_data [1] False), Aa_pause False, Aa_data demo_answers (demo_data [2] False)] = Some s' \<and> driver_calls s' = []"
proof -
  let ?s = "demo_path\<lparr>ap_thread := False, ap_cfg := (ap_cfg demo_path)\<lparr>ac_render_fifo := 0, ac_pause_first := True\<rparr>\<rparr>"
  have "muted ?s" by (simp add: muted_def direct_def demo_path_def demo_sink_def a_freed_def)
  from pause_without_thread_is_final [OF this] show ?thesis by (simp add: driver_calls_def demo_path_def demo_sink_def del: run_events.simps)
qed

section \<open>Blocks of the pool\<close>

text \<open>The sink belongs to its creator all the time.\<close>

definition sink_held :: "audio_path \<Rightarrow> bool" where
  "sink_held s \<longleftrightarrow> (\<exists>k b. ap_sink s = Some k \<and> audio_sink_rep k \<lparr>held = True, playing = b\<rparr>)"

text \<open>What delivering frames leaves alone.\<close>

definition pool_view :: "audio_path \<Rightarrow> _" where
  "pool_view s = (ap_pool s, ap_use_pool s, ap_released s, ap_raw s, ap_adec_thread s, ap_adec_res s, ap_adec s, ap_res s, ap_pcm s, ap_cfg s, ap_fixed s)"

lemma write_held:
  assumes "sink_held s"
  shows "\<exists>r s'. render_write_audio ret f s = Some (r, s') \<and> sink_held s' \<and> pool_view s' = pool_view s"
proof -
  from assms obtain k b where k: "ap_sink s = Some k" "audio_sink_rep k \<lparr>held = True, playing = b\<rparr>" by (auto simp: sink_held_def)
  then obtain r k' where w: "audio_render_write (Some (pf_data f)) ret (Some k) = Some (r, Some k')" "audio_sink_rep k' \<lparr>held = True, playing = b\<rparr>"
    using audio_sink_step_rep [OF k(2), of "AR_write (pf_data f) ret"] by (auto simp: bind_eq_Some_conv)
  let ?k = "\<lambda>s. if ap_paused (first_audio_frame s) \<or> ap_flushing s then Some k else Some k'"
  have e: "ap_fixed (first_audio_frame s) = ap_fixed s" by (simp add: first_audio_frame_def)
  have "\<exists>r s'. render_write_audio ret f s = Some (r, s') \<and> (ap_sink s' = Some k \<or> ap_sink s' = Some k') \<and> pool_view s' = pool_view s"
    using k(1) w(1) e by (auto simp: render_write_audio_def Let_def pool_view_def)
  then show ?thesis using k(2) w(2) by (fastforce simp: sink_held_def)
qed

lemma reopen_held:
  assumes "sink_held s"
  shows "\<exists>r s'. reopen_sink a s = Some (r, s') \<and> sink_held s' \<and> pool_view s' = pool_view s \<and> ap_reached s' = ap_reached s \<and> ap_thread s' = ap_thread s"
proof -
  from assms obtain k b where k: "ap_sink s = Some k" "audio_sink_rep k \<lparr>held = True, playing = b\<rparr>" by (auto simp: sink_held_def)
  have "\<exists>r k1. audio_render_close (aa_close a) (Some k) = Some (r, Some k1) \<and> audio_sink_rep k1 \<lparr>held = True, playing = False\<rparr>"
    using audio_sink_step_rep [OF k(2), of "AR_close (aa_close a)"] by (auto simp: bind_eq_Some_conv)
  then obtain r k1 where c: "audio_render_close (aa_close a) (Some k) = Some (r, Some k1)" "audio_sink_rep k1 \<lparr>held = True, playing = False\<rparr>" by blast
  have o: "\<exists>r k2 b. audio_render_open (Some i) (aa_open a) (Some k1) = Some (r, Some k2) \<and> audio_sink_rep k2 \<lparr>held = True, playing = b\<rparr>" for i
    using audio_sink_step_rep [OF c(2), of "AR_open i (aa_open a)"] by (auto simp: bind_eq_Some_conv split: if_splits)
  show ?thesis using k(1) c(1) o [of "ap_out s"] o [of "ap_info s"] by (auto simp: reopen_sink_def sink_held_def pool_view_def Let_def)
qed

lemma frame_reached_held:
  assumes "sink_held s"
  shows "\<exists>r s'. audio_render_frame_reached a f s = Some (r, s') \<and> sink_held s' \<and> pool_view s' = pool_view s"
  using write_held [OF assms, of "aa_write a" f] assms by (auto simp: audio_render_frame_reached_def sink_held_def pool_view_def)

lemma open_held:
  assumes "sink_held s"
  shows "\<exists>r s'. open_audio_render a i s = Some (r, s') \<and> sink_held s' \<and> pool_view s' = pool_view s"
proof -
  let ?s = "if ap_pcm s then s else s\<lparr>ap_info := i\<rparr>"
  have "sink_held ?s" "pool_view ?s = pool_view s" using assms by (auto simp: sink_held_def pool_view_def)
  with reopen_held [of ?s a] obtain r s1 where s1: "reopen_sink a ?s = Some (r, s1)" "sink_held s1" "pool_view s1 = pool_view s" by auto
  let ?t = "s1\<lparr>ap_reached := True, ap_render_sync := True\<rparr>"
  have t: "sink_held (?t\<lparr>ap_thread := b\<rparr>)" "sink_held ?t" "pool_view (?t\<lparr>ap_thread := b\<rparr>) = pool_view s" "pool_view ?t = pool_view s" for b
    using s1(2,3) by (auto simp: sink_held_def pool_view_def)
  show ?thesis using s1 t assms by (auto simp: open_audio_render_def Let_def)
qed

lemma reached_held:
  assumes "sink_held s"
  shows "\<exists>r s'. av_render_audio_frame_reached a i f s = Some (r, s') \<and> sink_held s' \<and> pool_view s' = pool_view s"
proof -
  obtain r s1 where s1: "(if ap_reached s then Some (0, s) else open_audio_render a i s) = Some (r, s1)" "sink_held s1" "pool_view s1 = pool_view s"
    using open_held [OF assms, of a i] assms by (cases "ap_reached s") auto
  obtain r2 s2 where s2: "audio_render_frame_reached a f s1 = Some (r2, s2)" "sink_held s2" "pool_view s2 = pool_view s1"
    using frame_reached_held [OF s1(2)] by blast
  have s3: "\<exists>r3 s3. audio_render_frame_reached a g s1 = Some (r3, s3) \<and> sink_held s3 \<and> pool_view s3 = pool_view s1" for g
    using frame_reached_held [OF s1(2)] by blast
  show ?thesis
  proof (cases "aa_convert a f")
    case None
    then show ?thesis using assms s1 s2 by (simp add: av_render_audio_frame_reached_def)
  next
    case (Some g)
    then show ?thesis using assms s1 s2 s3 [of g] by (auto simp: av_render_audio_frame_reached_def)
  qed
qed

lemma frames_held:
  assumes "sink_held s"
  shows "\<exists>s'. frames_reached a fs s = Some s' \<and> sink_held s' \<and> pool_view s' = pool_view s"
  using assms
proof (induction fs arbitrary: s)
  case (Cons x fs)
  obtain f i where x: "x = (f, i)" by force
  obtain r s1 where s1: "av_render_audio_frame_reached a i f s = Some (r, s1)" "sink_held s1" "pool_view s1 = pool_view s"
    using reached_held [OF Cons.prems] by blast
  from Cons.IH [OF s1(2)] show ?case using s1 x by auto
qed simp

lemma decode_held:
  assumes "sink_held s"
  shows "\<exists>r s'. decode_audio a d p s = Some (r, s') \<and> sink_held s' \<and> pool_view s' = pool_view s"
proof -
  obtain s1 where s1: "frames_reached a (dd_frames d) s = Some s1" "sink_held s1" "pool_view s1 = pool_view s" using frames_held [OF assms] by blast
  have "sink_held (count_decode_error r s1)" "pool_view (count_decode_error r s1) = pool_view s1" for r
    using s1(2) by (auto simp: count_decode_error_def Let_def sink_held_def pool_view_def)
  then show ?thesis using assms s1 by (auto simp: decode_audio_def)
qed


text \<open>
  The life of a renderer whose data comes from a pool: streams are added, packets arrive, the thread of the decoder runs.
  A packet at \<open>NULL\<close> has no block.
\<close>

datatype pool_activity = Pa_stream stream_answers stream_info | Pa_data audio_answers decoded audio_data | Pa_body audio_answers decoded bool

fun pool_step :: "audio_path \<Rightarrow> pool_activity \<Rightarrow> audio_path option" where
  "pool_step s (Pa_stream e i) = Some (snd (add_audio_stream e i s))"
| "pool_step s (Pa_data a d p) = map_option snd (add_audio_data a d p s)"
| "pool_step s (Pa_body a d drp) = map_option snd (adec_body a d drp s)"

definition pool_block :: "audio_data \<Rightarrow> u32 multiset" where
  "pool_block p = (if aud_addr p \<noteq> 0 then {#aud_addr p#} else {#})"

definition queued_blocks :: "audio_path \<Rightarrow> u32 multiset" where
  "queued_blocks s = (\<Sum>p\<leftarrow>ap_raw s. pool_block p)"

fun given_block :: "pool_activity \<Rightarrow> u32 multiset" where
  "given_block (Pa_data a d p) = pool_block p"
| "given_block _ = {#}"

text \<open>There is memory for the decoder; what happens without is \<open>refused_stream_crashes\<close>.\<close>

fun pool_ok :: "pool_activity \<Rightarrow> bool" where
  "pool_ok (Pa_stream e i) \<longleftrightarrow> sa_adec_mem e"
| "pool_ok _ \<longleftrightarrow> True"

definition pooled :: "audio_path \<Rightarrow> bool" where
  "pooled s \<longleftrightarrow> sink_held s \<and> ap_pool s \<and> \<not> ac_quit_eos (ap_cfg s) \<and> (ap_res s \<longrightarrow> ap_pcm s \<or> ap_adec_res s) \<and>
     (if ap_adec_thread s then ap_use_pool s \<and> ap_adec_res s else ap_raw s = [])"

abbreviation pool_rep :: "audio_path \<Rightarrow> u32 multiset \<Rightarrow> bool" where
  "pool_rep s m \<equiv> pooled s \<and> mset (ap_released s) + queued_blocks s = m"

lemma release_blocks:
  "mset (ap_released (release_data p s)) = mset (ap_released s) + pool_block p" "release_data p s = s\<lparr>ap_released := ap_released (release_data p s)\<rparr>"
  by (auto simp: release_data_def pool_block_def)

lemma release_all:
  "mset (ap_released (fold release_data ps s)) = mset (ap_released s) + (\<Sum>p\<leftarrow>ps. pool_block p) \<and>
   (\<exists>r. fold release_data ps s = s\<lparr>ap_released := r\<rparr>)"
proof (induction ps arbitrary: s)
  case Nil
  have "s = s\<lparr>ap_released := ap_released s\<rparr>" by simp
  then show ?case by (simp, metis)
next
  case (Cons p ps)
  obtain r where "release_data p s = s\<lparr>ap_released := r\<rparr>" using release_blocks(2) by blast
  then show ?case using Cons.IH [of "release_data p s"] release_blocks(1) [of p s] by auto
qed

lemma pooled_view:
  assumes "pool_view s' = pool_view s" "sink_held s'" "pooled s"
  shows "pooled s'" "queued_blocks s' = queued_blocks s" "ap_released s' = ap_released s"
    "pooled (s'\<lparr>ap_released := r\<rparr>)" "queued_blocks (s'\<lparr>ap_released := r\<rparr>) = queued_blocks s"
  using assms by (auto simp: pool_view_def pooled_def queued_blocks_def sink_held_def)

lemma released_data_rep:
  assumes "pool_view s' = pool_view s" "sink_held s'" "pool_rep s m"
  shows "pool_rep (release_data p s') (m + pool_block p)"
proof -
  obtain r where r: "release_data p s' = s'\<lparr>ap_released := r\<rparr>" "mset r = mset (ap_released s') + pool_block p"
    using release_blocks [of p s'] by fastforce
  then show ?thesis using pooled_view [OF assms(1,2)] assms(3) by (simp add: ac_simps)
qed

lemma pool_data_rep:
  assumes "pool_rep s m"
  shows "\<exists>s'. pool_step s (Pa_data a d p) = Some s' \<and> pool_rep s' (m + pool_block p)"
proof -
  have h: "sink_held s" and pl: "ap_pool s" using assms by (auto simp: pooled_def)
  obtain r1 s1 where s1: "decode_audio a d p s = Some (r1, s1)" "sink_held s1" "pool_view s1 = pool_view s" using decode_held [OF h] by blast
  obtain r2 s2 where s2: "av_render_audio_frame_reached a no_audio_info (pcm_of_data p) s = Some (r2, s2)" "sink_held s2" "pool_view s2 = pool_view s"
    using reached_held [OF h] by blast
  have pp: "ap_pool s1" "ap_pool s2" using s1 s2 pl by (auto simp: pool_view_def)
  note rel = released_data_rep [OF refl h assms, of p] released_data_rep [OF s1(3,2) assms, of p] released_data_rep [OF s2(3,2) assms, of p]
  consider "\<not> ap_res s" | "ap_res s" "ap_pcm s" | "ap_res s" "\<not> ap_pcm s" "ap_adec_res s" "\<not> ap_adec s"
    | "ap_res s" "\<not> ap_pcm s" "ap_adec_res s" "ap_adec s" "\<not> ap_adec_thread s" | "ap_res s" "\<not> ap_pcm s" "ap_adec_res s" "ap_adec s" "ap_adec_thread s"
    using assms by (auto simp: pooled_def)
  then show ?thesis
  proof cases
    case 5
    then have "pool_rep (s\<lparr>ap_raw := ap_raw s @ [p]\<rparr>) (m + pool_block p)"
      using assms by (auto simp: pooled_def sink_held_def queued_blocks_def)
    then show ?thesis using 5 rel(1) pl by (auto simp: add_audio_data_def Let_def)
  qed (use rel s1 s2 pl pp in \<open>auto simp: add_audio_data_def Let_def\<close>)
qed

lemma pool_body_rep:
  assumes "pool_rep s m"
  shows "\<exists>s'. pool_step s (Pa_body a d drp) = Some s' \<and> pool_rep s' m"
proof (cases "ap_raw s")
  case Nil
  then show ?thesis using assms by (simp add: adec_body_def)
next
  case (Cons p ps)
  have h: "sink_held s" and t: "ap_adec_thread s" "ap_use_pool s" "\<not> ac_quit_eos (ap_cfg s)" using assms Cons by (auto simp: pooled_def split: if_splits)
  obtain r1 s1 where s1: "(if drp then Some (0, s) else decode_audio a d p s) = Some (r1, s1)" "sink_held s1" "pool_view s1 = pool_view s"
    using decode_held [OF h, of a d p] h by (cases drp) auto
  have v: "ap_use_pool s1" "\<not> ac_quit_eos (ap_cfg s1)" "ap_raw s1 = p # ps" using s1(3) t Cons by (auto simp: pool_view_def)
  obtain r where r: "release_data p s1 = s1\<lparr>ap_released := r\<rparr>" "mset r = mset (ap_released s1) + pool_block p"
    using release_blocks [of p s1] by fastforce
  have "pool_rep s1 m" using pooled_view [OF s1(3,2)] assms by simp
  then have n: "pool_rep (s1\<lparr>ap_released := r, ap_raw := ps\<rparr>) m" "pool_rep (s1\<lparr>ap_released := r, ap_raw := ps, ap_adec_paused := True\<rparr>) m"
    using r(2) v by (auto simp: pooled_def sink_held_def queued_blocks_def ac_simps split: if_splits)
  show ?thesis using Cons s1(1) v r(1) n by (auto simp: adec_body_def Let_def)
qed

text \<open>Closing the old decoder gives back what its queue holds.\<close>

lemma close_old_rep:
  assumes "if ap_adec_thread s then ap_use_pool s \<and> ap_adec_res s else ap_raw s = []"
  shows "\<exists>r b. close_old_decoder s = s\<lparr>ap_released := r, ap_raw := [], ap_adec_thread := False, ap_adec := b\<rparr> \<and>
    mset r = mset (ap_released s) + queued_blocks s"
proof (cases "ap_adec_thread s")
  case True
  obtain r where "fold release_data (ap_raw s) s = s\<lparr>ap_released := r\<rparr>" "mset r = mset (ap_released s) + queued_blocks s"
    using release_all [where s = s and ps = "ap_raw s"] by (fastforce simp: queued_blocks_def)
  then show ?thesis using assms True by (auto simp: close_old_decoder_def intro!: exI [of _ r])
next
  case False
  then have "s\<lparr>ap_released := ap_released s, ap_raw := [], ap_adec_thread := False, ap_adec := b\<rparr> = s\<lparr>ap_adec := b\<rparr>" for b
    using assms by (cases s) auto
  then have "close_old_decoder s = s\<lparr>ap_released := ap_released s, ap_raw := [], ap_adec_thread := False,
      ap_adec := ap_adec s \<and> \<not> ap_adec_res s\<rparr>"
    using False by (simp add: close_old_decoder_def)
  moreover have "mset (ap_released s) = mset (ap_released s) + queued_blocks s" using assms False by (simp add: queued_blocks_def)
  ultimately show ?thesis by blast
qed

lemma pool_stream_rep:
  assumes "pool_rep s m" "sa_adec_mem e"
  shows "pool_rep (snd (add_audio_stream e i s)) m"
proof (cases "ap_sink s = None \<or> \<not> ap_res s \<and> \<not> sa_render_mem e")
  case True
  then show ?thesis using assms by (auto simp: add_audio_stream_def)
next
  case False
  define s2 where "s2 = (if sample_rate (ap_fixed (s\<lparr>ap_res := True\<rparr>)) \<noteq> 0
    then s\<lparr>ap_res := True, ap_out := ap_fixed (s\<lparr>ap_res := True\<rparr>), ap_need_resample := True\<rparr> else s\<lparr>ap_res := True\<rparr>)"
  have q: "ap_released s2 = ap_released s" "queued_blocks s2 = queued_blocks s" by (simp_all add: s2_def queued_blocks_def)
  have "if ap_adec_thread s2 then ap_use_pool s2 \<and> ap_adec_res s2 else ap_raw s2 = []" using assms by (simp add: s2_def pooled_def)
  from close_old_rep [OF this] obtain r b where
    c: "close_old_decoder s2 = s2\<lparr>ap_released := r, ap_raw := [], ap_adec_thread := False, ap_adec := b\<rparr>" "mset r = m"
    using q assms(1) by auto
  have f: "sink_held s2" "ap_pool s2" "\<not> ac_quit_eos (ap_cfg s2)" using assms(1) by (auto simp: s2_def pooled_def sink_held_def)
  have "add_audio_stream e i s = (let s3 = close_old_decoder s2; s4 = s3\<lparr>ap_reached := False, ap_rendered := False,
      ap_pcm := (si_codec i = CODEC_PCM), ap_decode_sync := True\<rparr>
    in if ap_pcm s4 then (0, s4\<lparr>ap_info := convert_to_audio_frame i\<rparr>) else open_new_decoder e i s4)"
    using False by (auto simp: add_audio_stream_def s2_def Let_def)
  then show ?thesis using c f assms(2)
    by (auto simp: open_new_decoder_def pooled_def sink_held_def queued_blocks_def Let_def)
qed

interpretation pool_flow: simulation pool_step pool_rep "\<lambda>m e. m + given_block e" "\<lambda>_. pool_ok"
proof unfold_locales
  fix s m e
  assume "pool_rep s m" "pool_ok e"
  then show "\<exists>s'. pool_step s e = Some s' \<and> pool_rep s' (m + given_block e)"
    using pool_data_rep pool_body_rep pool_stream_rep by (cases e) (fastforce simp del: pool_step.simps(2,3))+
qed

lemma pool_path_ok: "list_all pool_ok es \<Longrightarrow> path_ok (\<lambda>_. pool_ok) f m es"
  by (induction es arbitrary: m) simp_all

lemma given_all: "foldl (\<lambda>m e. m + given_block e) m es = m + (\<Sum>e\<leftarrow>es. given_block e)"
  by (induction es arbitrary: m) (simp_all add: ac_simps)




section \<open>Resamplers\<close>

lemma write_keeps_resamplers:
  assumes "render_write_audio ret f s = Some (r, s')"
  shows "ap_resamplers s' = ap_resamplers s \<and> ap_adec_res s' = ap_adec_res s"
  using assms by (auto simp: render_write_audio_def Let_def first_audio_frame_def bind_eq_Some_conv split: if_splits)

lemma delivery_keeps_resamplers:
  assumes "audio_render_frame_reached a f s = Some (r, s')"
  shows "ap_resamplers s' = ap_resamplers s \<and> ap_adec_res s' = ap_adec_res s"
  using assms write_keeps_resamplers by (fastforce simp: audio_render_frame_reached_def split: if_splits)

text \<open>The stream and one packet of it: the sink is opened with the fixed format, behind a new resampler.\<close>

lemma added_again:
  assumes "sink_held s" "\<not> ap_adec_res s" "\<not> ap_pool s" "ap_res s" "sample_rate (ap_fixed s) \<noteq> 0" "ap_fixed s \<noteq> si_info i"
    "si_codec i = CODEC_PCM" "aa_open a = 0" "aa_resample_open a"
  shows "\<exists>s'. run_events pool_step s [Pa_stream e i, Pa_data a d p] = Some s' \<and> sink_held s' \<and> \<not> ap_adec_res s' \<and> \<not> ap_pool s' \<and> ap_res s' \<and>
    ap_fixed s' = ap_fixed s \<and> ap_resamplers s' = ap_resamplers s + 1"
proof -
  define s1 where "s1 = snd (add_audio_stream e i s)"
  have s1: "sink_held s1" "ap_pcm s1" "ap_need_resample s1" "ap_out s1 = ap_fixed s" "ap_info s1 = si_info i" "ap_res s1" "\<not> ap_reached s1"
      "\<not> ap_pool s1" "ap_fixed s1 = ap_fixed s" "ap_resamplers s1 = ap_resamplers s" "\<not> ap_adec_res s1"
    using assms by (auto simp: s1_def add_audio_stream_def sink_held_def close_old_decoder_def Let_def convert_to_audio_frame_def)
  from s1(1) obtain k b where k: "ap_sink s1 = Some k" "audio_sink_rep k \<lparr>held = True, playing = b\<rparr>" by (auto simp: sink_held_def)
  obtain r k1 where c: "audio_render_close (aa_close a) (Some k) = Some (r, Some k1)" "audio_sink_rep k1 \<lparr>held = True, playing = False\<rparr>"
    using audio_sink_step_rep [OF k(2), of "AR_close (aa_close a)"] by (auto simp: bind_eq_Some_conv)
  obtain k2 where o: "audio_render_open (Some (ap_fixed s)) 0 (Some k1) = Some (0, Some k2)" "audio_sink_rep k2 \<lparr>held = True, playing = True\<rparr>"
  proof -
    have "\<not> a_freed k1" "a_handle k1" "a_ops k1 AD_open" using c(2) by (auto simp: audio_sink_rep_def)
    then have "\<exists>k2. audio_render_open (Some (ap_fixed s)) 0 (Some k1) = Some (0, Some k2)" by (simp add: audio_sink_ops)
    then show ?thesis using audio_sink_step_rep [OF c(2), of "AR_open (ap_fixed s) 0"] that by auto
  qed
  let ?s2 = "s1\<lparr>ap_sink := Some k2, ap_resampler := True, ap_resamplers := ap_resamplers s1 + 1\<rparr>"
  have "reopen_sink a s1 = Some (0, ?s2)" using s1 k(1) c(1) o(1) assms by (simp add: reopen_sink_def audio_need_resample_def)
  then have "\<exists>s3. open_audio_render a no_audio_info s1 = Some (0, s3) \<and> ap_resampler s3 \<and> ap_resamplers s3 = ap_resamplers s + 1 \<and>
      sink_held s3 \<and> pool_view s3 = pool_view s1"
    using s1(2,10) o(2) by (auto simp: open_audio_render_def Let_def sink_held_def pool_view_def)
  then obtain s3 where s3: "open_audio_render a no_audio_info s1 = Some (0, s3)" "ap_resampler s3" "ap_resamplers s3 = ap_resamplers s + 1"
      "sink_held s3" "pool_view s3 = pool_view s1" by blast
  have v: "ap_fixed s3 = ap_fixed s" "\<not> ap_pool s3" "\<not> ap_adec_res s3" "ap_res s3" using s3(5) s1 by (auto simp: pool_view_def)
  have "\<exists>r s4. av_render_audio_frame_reached a no_audio_info (pcm_of_data p) s1 = Some (r, s4) \<and> sink_held s4 \<and> \<not> ap_adec_res s4 \<and> \<not> ap_pool s4 \<and> ap_res s4 \<and>
    ap_fixed s4 = ap_fixed s \<and> ap_resamplers s4 = ap_resamplers s + 1"
  proof (cases "aa_convert a (pcm_of_data p)")
    case None
    then show ?thesis using s1 s3 v by (simp add: av_render_audio_frame_reached_def)
  next
    case (Some g)
    obtain r4 s4 where s4: "audio_render_frame_reached a g s3 = Some (r4, s4)" "sink_held s4" "pool_view s4 = pool_view s3"
      using frame_reached_held [OF s3(4)] by blast
    then have "\<not> ap_adec_res s4 \<and> \<not> ap_pool s4 \<and> ap_res s4 \<and> ap_fixed s4 = ap_fixed s" using v by (auto simp: pool_view_def)
    then show ?thesis using Some s1 s3 s4 delivery_keeps_resamplers [OF s4(1)] by (simp add: av_render_audio_frame_reached_def)
  qed
  then show ?thesis using s1 by (auto simp: s1_def [symmetric] add_audio_data_def Let_def)
qed

text \<open>
  With a fixed output format every stream that is added leaks a resampler: the handle of the one before is overwritten,
  and only the last can be closed.
\<close>

theorem readding_stream_leaks_resampler:
  assumes "sink_held s" "\<not> ap_adec_res s" "\<not> ap_pool s" "ap_res s" "sample_rate (ap_fixed s) \<noteq> 0" "ap_fixed s \<noteq> si_info i"
    "si_codec i = CODEC_PCM" "aa_open a = 0" "aa_resample_open a"
  shows "\<exists>s'. run_events pool_step s (concat (replicate n [Pa_stream e i, Pa_data a d p])) = Some s' \<and> ap_resamplers s' = ap_resamplers s + n"
  using assms(1-5) assms(6)
proof (induction n arbitrary: s)
  case (Suc n)
  obtain s' where s': "run_events pool_step s [Pa_stream e i, Pa_data a d p] = Some s'" "sink_held s'" "\<not> ap_adec_res s'" "\<not> ap_pool s'" "ap_res s'"
    "ap_fixed s' = ap_fixed s" "ap_resamplers s' = ap_resamplers s + 1"
    using added_again [OF Suc.prems(1-6) assms(7-9)] by blast
  have "sample_rate (ap_fixed s') \<noteq> 0" "ap_fixed s' \<noteq> si_info i" using s'(6) Suc.prems(5,6) by simp_all
  from Suc.IH [OF s'(2-5) this] s'(1,7) show ?case
    by (simp add: run_events_append del: run_events.simps pool_step.simps flip: append_Cons)
qed simp

theorem readding_stream_leaks_resampler_witness:
  "\<exists>s'. run_events pool_step (idle_path\<lparr>ap_res := True, ap_fixed := \<lparr>channel = 1, bits_per_sample = 16, sample_rate = 16000\<rparr>\<rparr>)
      (concat (replicate 7 [Pa_stream all_memory pcm_stream, Pa_data demo_answers no_decode (demo_data [1] False)])) = Some s' \<and> ap_resamplers s' = 7"
proof -
  let ?s = "idle_path\<lparr>ap_res := True, ap_fixed := \<lparr>channel = 1, bits_per_sample = 16, sample_rate = 16000\<rparr>\<rparr>"
  have "sink_held ?s" "ap_resamplers ?s = 0" using idle_sink_rep by (auto simp: sink_held_def idle_path_def demo_path_def)
  then show ?thesis
    using readding_stream_leaks_resampler [of ?s pcm_stream demo_answers 7 all_memory no_decode "demo_data [1] False"]
    by (simp add: idle_path_def demo_path_def pcm_stream_def demo_answers_def del: run_events.simps)
qed

end
