(* ===== verification/Av_Video.thy ===== *)
theory Av_Video
  imports Av_Audio Video_Decoder
begin

text \<open>
  The video side of the renderer (\<open>components/av_render/src/av_render.c\<close>): streams and the choice of a format, the way
  of a packet through the decoder, the frame buffers and the queues to the display, and the bodies of the two video
  threads. The display is the sink of \<open>Render_Sinks\<close>, the clock that of \<open>Av_Sync\<close>. Arguments are the answers of the
  driver, of the allocator and of the clock, what the decoder does with a packet (\<open>Video_Decoder\<close>) and what the colour
  conversion makes of a frame (\<open>Color_Convert\<close>). The queries of latencies are not recorded.
\<close>

section \<open>State\<close>

datatype video_event = EV_VIDEO_RENDERED | EV_VIDEO_EOS | EV_VIDEO_DECODE_ERR

record video_cfg =
  vcf_raw_fifo :: nat
  vcf_render_fifo :: nat
  vcf_mode :: av_sync_mode
  vcf_quit_eos :: bool
  vcf_drop :: bool
  vcf_pause_first :: bool
  vcf_cvt_in_render :: bool

record video_info =
  vi_codec :: video_codec
  vi_width :: nat
  vi_height :: nat
  vi_fps :: u8

record video_data =
  vda_pts :: u32
  vda_addr :: u32
  vda_data :: "u8 list"
  vda_eos :: bool

record video_frame =
  vfr_pts :: u32
  vfr_eos :: bool
  vfr_data :: "u8 list"

record frame_info =
  fi_type :: frame_type
  fi_width :: nat
  fi_height :: nat
  fi_fps :: u8

record video_path =
  vp_cfg :: video_cfg
  vp_sink :: "video_sink option"
  vp_event_cb :: bool
  vp_events :: "video_event list"
  vp_pool :: bool
  vp_released :: "u32 list"
  vp_res :: bool
  vp_clock :: video_clock
  vp_rendered :: bool
  vp_type :: frame_type
  vp_width :: nat
  vp_height :: nat
  vp_decode_sync :: bool
  vp_use_fb :: bool
  vp_render_sync :: bool
  vp_is_raw :: bool
  vp_thread :: bool
  vp_queue :: "video_frame list"
  vp_paused :: bool
  vp_flushing :: bool
  vp_vdec_res :: bool
  vp_vdec :: bool
  vp_vdec_thread :: bool
  vp_raw :: "video_data list"
  vp_use_pool :: bool
  vp_vdec_paused :: bool
  vp_err_cnt :: nat
  vp_dec_fmt :: frame_type
  vp_out_fmt :: frame_type
  vp_convert :: bool
  vp_convert_size :: nat
  vp_fb_cb :: bool
  vp_fb :: "video_frame option"
  vp_fb_own :: bool

text \<open>
  The answers of one call: codes of the driver of the display, memory, the conversion of a frame, the clock. \<open>va_apts\<close> and
  \<open>va_vpts\<close> are the positions of audio and video.
\<close>

record video_answers =
  va_open :: int
  va_write :: int
  va_fb :: int
  va_format :: "frame_type \<Rightarrow> bool"
  va_table :: bool
  va_realloc :: bool
  va_recolor :: "u8 list \<Rightarrow> u8 list"
  va_thread :: bool
  va_put :: bool
  va_time :: u32
  va_time' :: u32
  va_apts :: "u32 option"
  va_vpts :: "u32 option"

definition notify :: "video_event \<Rightarrow> video_path \<Rightarrow> video_path" where
  "notify e s = (if vp_event_cb s then s\<lparr>vp_events := vp_events s @ [e]\<rparr> else s)"

section \<open>To the display\<close>

definition video_check_first_frame_render_notify :: "video_path \<Rightarrow> video_path" where
  "video_check_first_frame_render_notify s =
     (if vp_rendered s then s
      else (notify EV_VIDEO_RENDERED s)
        \<lparr>vp_paused := (vp_paused s \<or> vcf_pause_first (vp_cfg s)),
         vp_vdec_paused := (vp_vdec_paused s \<or> vcf_pause_first (vp_cfg s) \<and> vp_render_sync s \<and> vp_vdec_res s),
         vp_rendered := True\<rparr>)"

text \<open>\<open>if (1 || skip == false)\<close>: what the clock says about skipping is ignored.\<close>

definition show_frame :: "video_answers \<Rightarrow> video_frame \<Rightarrow> video_path \<Rightarrow> (int \<times> video_path) option" where
  "show_frame a f s =
     (let s1 = (if vp_paused s \<and> vp_render_sync s \<and> vp_vdec_res s \<and> \<not> vp_vdec_paused s then s\<lparr>vp_paused := False\<rparr> else s);
          s2 = (if \<not> vp_paused s1
                then s1\<lparr>vp_clock := fc_clock (video_sync_control_before_render (vcf_drop (vp_cfg s1)) (vcf_mode (vp_cfg s1)) (va_time a) (va_time' a)
                       (va_apts a) (va_vpts a) (vp_clock s1) (vfr_pts f))\<rparr>
                else s1)
      in video_render_write (Some (vfr_data f)) (va_write a) (vp_sink s2) \<bind> (\<lambda>(r, k). Some (r, s2\<lparr>vp_sink := k\<rparr>)))"

definition end_of_video :: "video_frame \<Rightarrow> video_path \<Rightarrow> video_path" where
  "end_of_video f s = (if vfr_eos f then notify EV_VIDEO_EOS (video_check_first_frame_render_notify s) else s)"

definition render_write_video :: "video_answers \<Rightarrow> video_frame \<Rightarrow> video_path \<Rightarrow> (int \<times> video_path) option" where
  "render_write_video a f s =
     (let s0 = s\<lparr>vp_clock := (vp_clock s)\<lparr>vc_send_pts := vfr_pts f\<rparr>\<rparr>
      in (if vc_start_pts (vp_clock s0) \<le> vfr_pts f
          then let s1 = video_check_first_frame_render_notify s0 in if vp_flushing s1 then Some (0, s1) else show_frame a f s1
          else Some (0, s0)) \<bind> (\<lambda>(r, s). Some (r, end_of_video f s)))"

definition converted_frame :: "video_answers \<Rightarrow> video_frame \<Rightarrow> video_path \<Rightarrow> video_frame" where
  "converted_frame a f s = (if vp_vdec_res s \<and> vp_convert s then f\<lparr>vfr_data := take (vp_convert_size s) (va_recolor a (vfr_data f))\<rparr> else f)"

definition v_render_body :: "video_answers \<Rightarrow> bool \<Rightarrow> video_path \<Rightarrow> (int \<times> video_path) option" where
  "v_render_body a drp s =
     (case vp_queue s of
        [] \<Rightarrow> Some (0, s)
      | f # q \<Rightarrow>
          (if \<not> drp \<and> (vfr_data f \<noteq> [] \<or> vfr_eos f) then render_write_video a (converted_frame a f s) s else Some (0, s)) \<bind> (\<lambda>(_, s1).
            Some (0, if vp_paused s1 then s1 else s1\<lparr>vp_queue := q\<rparr>)))"

section \<open>A decoded frame\<close>

definition video_is_raw :: "video_codec \<Rightarrow> bool" where
  "video_is_raw c \<longleftrightarrow> c = VCODEC_YUV420 \<or> c = VCODEC_YUV422 \<or> c = VCODEC_RGB565"

definition video_need_decode_in_sync :: "video_codec \<Rightarrow> video_path \<Rightarrow> bool" where
  "video_need_decode_in_sync c s \<longleftrightarrow> video_is_raw c \<or> vcf_raw_fifo (vp_cfg s) = 0"

definition video_need_render_in_sync :: "video_path \<Rightarrow> bool" where
  "video_need_render_in_sync s \<longleftrightarrow> vcf_render_fifo (vp_cfg s) = 0"

definition set_frame_info :: "frame_info \<Rightarrow> video_path \<Rightarrow> video_path" where
  "set_frame_info i s = s\<lparr>vp_type := fi_type i, vp_width := fi_width i, vp_height := fi_height i, vp_clock := (vp_clock s)\<lparr>vc_fps := fi_fps i\<rparr>\<rparr>"

text \<open>The format the decoder reports, and the set-up of the colour conversion; \<open>info\<close> is what the decoder reports.\<close>

definition fit_decoder :: "video_answers \<Rightarrow> frame_info \<Rightarrow> video_path \<Rightarrow> int \<times> video_path" where
  "fit_decoder a info s =
     (if \<not> (vp_vdec_res s \<and> vp_vdec s) then (-1, s)
      else let old_fps = vc_fps (vp_clock s); s1 = set_frame_info info s;
               needs = (vp_dec_fmt s1 \<noteq> vp_out_fmt s1);
               s2 = (if needs then s1\<lparr>vp_convert := va_table a\<rparr> else s1)
        in if needs \<and> \<not> va_table a then (ESP_MEDIA_ERR_NO_MEM, s2)
           else if vp_convert s2 \<and> \<not> va_realloc a then (ESP_MEDIA_ERR_NO_MEM, s2)
           else let s3 = (if vp_convert s2
                          then s2\<lparr>vp_convert_size := convert_table_get_image_size (vp_out_fmt s2) (vp_width s2) (vp_height s2), vp_type := vp_out_fmt s2\<rparr>
                          else s2)
             in (0, if vc_fps (vp_clock s3) = 0 then s3\<lparr>vp_clock := (vp_clock s3)\<lparr>vc_fps := old_fps\<rparr>\<rparr> else s3))"

definition open_video_render :: "video_answers \<Rightarrow> frame_info \<Rightarrow> video_path \<Rightarrow> (int \<times> video_path) option" where
  "open_video_render a info s =
     (let (r, s1) = (if vp_is_raw s then (0, s) else fit_decoder a info s)
      in if r \<noteq> 0 then Some (r, s1)
         else video_render_close (vp_sink s1) \<bind> (\<lambda>(_, k).
           video_render_open (Some (vp_type s1, vp_width s1, vp_height s1, unat (vc_fps (vp_clock s1)))) (va_open a) k \<bind> (\<lambda>(r, k).
             let s2 = s1\<lparr>vp_sink := k\<rparr>
             in if r \<noteq> 0 then Some (r, s2)
                else let s3 = s2\<lparr>vp_clock := (vp_clock s2)\<lparr>vc_reached := True, vc_tolerance := 600\<rparr>, vp_render_sync := True\<rparr>
                  in Some (0, if \<not> vp_use_fb s3 \<and> \<not> video_need_render_in_sync s3 \<and> \<not> vp_thread s3 \<and> va_thread a
                              then s3\<lparr>vp_thread := True, vp_render_sync := False\<rparr> else s3))))"

text \<open>
  With a frame buffer only its header is filled in. A buffer that was given back, or a decoder that is not there, is
  \<open>None\<close>: the write goes to memory of the queue that belongs to somebody else.
\<close>

definition deliver_frame :: "video_answers \<Rightarrow> video_frame \<Rightarrow> video_path \<Rightarrow> (int \<times> video_path) option" where
  "deliver_frame a f s =
     (if vp_thread s then
        (if vp_use_fb s then
           (if \<not> vp_vdec_res s then None
            else case vp_fb s of None \<Rightarrow> Some (0, s) | Some _ \<Rightarrow> if vp_fb_own s then Some (0, s\<lparr>vp_fb := Some f\<rparr>) else None)
         else Some (if va_put a then (0, s\<lparr>vp_queue := vp_queue s @ [f]\<rparr>) else (-1, s)))
      else render_write_video a (converted_frame a f s) s)"

definition av_render_video_frame_reached :: "video_answers \<Rightarrow> frame_info \<Rightarrow> video_frame \<Rightarrow> video_path \<Rightarrow> (int \<times> video_path) option" where
  "av_render_video_frame_reached a info f s =
     (if \<not> vp_res s then Some (0, s)
      else (if vc_reached (vp_clock s) then Some (0, s) else open_video_render a info s) \<bind> (\<lambda>(r, s).
        if r \<noteq> 0 then Some (r, s) else deliver_frame a f s))"

section \<open>The decoder\<close>

text \<open>
  What the decoder asks for in the course of a packet: a frame buffer in the render queue (with what its header holds, or
  none), a frame with the format reported at that time, and the buffer given back, to be shown or dropped.
\<close>

datatype vdec_request = Vq_fetch "video_frame option" | Vq_frame video_frame frame_info | Vq_return bool

record vdecoded =
  vdd_requests :: "vdec_request list"
  vdd_ret :: int

text \<open>
  \<open>Av_Packets\<close> has the bytes of the buffers; \<open>None\<close> is a buffer returned that was not fetched
  (\<open>Av_Packets.failed_fetch_unbalances_queue\<close>).
\<close>

fun vdec_requests :: "video_answers \<Rightarrow> vdec_request list \<Rightarrow> video_path \<Rightarrow> video_path option" where
  "vdec_requests a [] s = Some s"
| "vdec_requests a (Vq_fetch fb # rs) s =
     vdec_requests a rs (if vp_fb_cb s then (case fb of None \<Rightarrow> s | Some f \<Rightarrow> s\<lparr>vp_fb := Some (f\<lparr>vfr_data := []\<rparr>), vp_fb_own := True\<rparr>) else s)"
| "vdec_requests a (Vq_frame f info # rs) s = av_render_video_frame_reached a info f s \<bind> (\<lambda>(_, s). vdec_requests a rs s)"
| "vdec_requests a (Vq_return drp # rs) s =
     (if \<not> vp_fb_cb s then vdec_requests a rs s
      else case vp_fb s of
             None \<Rightarrow> None
           | Some f \<Rightarrow> if \<not> vp_fb_own s then None
               else vdec_requests a rs (if drp then s\<lparr>vp_fb_own := False\<rparr> else s\<lparr>vp_fb_own := False, vp_queue := vp_queue s @ [f]\<rparr>))"

definition count_video_error :: "int \<Rightarrow> video_path \<Rightarrow> video_path" where
  "count_video_error ret s =
     (if ret = 0 then s\<lparr>vp_err_cnt := 0\<rparr>
      else let n = vp_err_cnt s + 1
        in if n = AUDIO_ERR_FRAME_TOLERANCE then notify EV_VIDEO_DECODE_ERR (s\<lparr>vp_err_cnt := n + 1\<rparr>) else s\<lparr>vp_err_cnt := n\<rparr>)"

text \<open>The code of the decoder stays in a variable of the inner block: the function returns 0.\<close>

definition decode_video :: "video_answers \<Rightarrow> vdecoded \<Rightarrow> video_data \<Rightarrow> video_path \<Rightarrow> (int \<times> video_path) option" where
  "decode_video a d p s =
     (if vp_thread s then Some s
      else video_render_get_frame_buffer True (va_fb a) (vp_sink s) \<bind> (\<lambda>(_, k). Some (s\<lparr>vp_sink := k\<rparr>))) \<bind> (\<lambda>s.
        if vda_data p \<noteq> [] \<or> vda_eos p
        then vdec_requests a (vdd_requests d) s \<bind> (\<lambda>s. Some (0, count_video_error (vdd_ret d) s))
        else Some (0, s))"

definition release_video :: "video_data \<Rightarrow> video_path \<Rightarrow> video_path" where
  "release_video p s = (if vda_addr p \<noteq> 0 then s\<lparr>vp_released := vp_released s @ [vda_addr p]\<rparr> else s)"

text \<open>
  A queue that was written without a pool and is read with one makes the decoder follow stale pointers
  (\<open>Av_Packets.late_pool_reads_stale_pointer\<close>): \<open>None\<close>.
\<close>

definition vdec_body :: "video_answers \<Rightarrow> vdecoded \<Rightarrow> bool \<Rightarrow> video_path \<Rightarrow> (int \<times> video_path) option" where
  "vdec_body a d drp s =
     (case vp_raw s of
        [] \<Rightarrow> Some (0, s)
      | p # ps \<Rightarrow>
          if vp_pool s \<noteq> vp_use_pool s then None
          else (if (vda_data p \<noteq> [] \<or> vda_eos p) \<and> \<not> drp \<and>
                   (vda_eos p \<or> \<not> video_sync_control_before_decode (vcf_drop (vp_cfg s)) (vcf_mode (vp_cfg s)) (va_time a) (va_apts a)
                     (vp_clock s) (vda_pts p) (int (length (vp_raw s))))
                then decode_video a d p s else Some (0, s)) \<bind> (\<lambda>(_, s1).
            let s2 = (if vp_use_pool s1 then release_video p s1 else s1);
                s3 = s2\<lparr>vp_raw := ps\<rparr>
            in Some (if vda_eos p then (if vcf_quit_eos (vp_cfg s3) then (1, s3) else (0, s3\<lparr>vp_vdec_paused := True\<rparr>)) else (0, s3))))"

section \<open>Streams\<close>

definition convert_to_video_frame :: "video_info \<Rightarrow> frame_info" where
  "convert_to_video_frame i =
     \<lparr>fi_type = (case vi_codec i of VCODEC_YUV420 \<Rightarrow> RAW_TYPE_YUV420 | VCODEC_YUV422 \<Rightarrow> RAW_TYPE_YUV422 | VCODEC_RGB565 \<Rightarrow> RAW_TYPE_RGB565
        | _ \<Rightarrow> RAW_TYPE_NONE),
      fi_width = vi_width i, fi_height = vi_height i, fi_fps = vi_fps i\<rparr>"

text \<open>The first format the display takes.\<close>

fun first_supported :: "(frame_type \<Rightarrow> bool) \<Rightarrow> frame_type list \<Rightarrow> video_sink option \<Rightarrow> (frame_type option \<times> video_sink option) option" where
  "first_supported ok [] k = Some (None, k)"
| "first_supported ok (t # ts) k =
     video_render_format_supported t (ok t) k \<bind> (\<lambda>(b, k). if b then Some (Some t, k) else first_supported ok ts k)"

definition all_formats :: "frame_type list" where
  "all_formats = [RAW_TYPE_YUV422, RAW_TYPE_YUV420, RAW_TYPE_RGB565, RAW_TYPE_RGB565_BE]"

text \<open>
  \<open>caps\<close> are the formats of the decoder, \<open>junk\<close> what the array of six holds before: when the decoder has no formats, or
  too many, it is searched as it is.
\<close>

definition get_support_output_format ::
  "(frame_type \<Rightarrow> bool) \<Rightarrow> pixel_fmt list \<Rightarrow> frame_type list \<Rightarrow> video_path \<Rightarrow> (bool \<times> video_path) option" where
  "get_support_output_format ok caps junk s =
     (let (_, fmts, num) = vdec_get_output_formats caps junk
      in first_supported ok (take num fmts) (vp_sink s) \<bind> (\<lambda>(t, k).
        case t of
          Some t \<Rightarrow> Some (True, s\<lparr>vp_sink := k, vp_out_fmt := t, vp_dec_fmt := t\<rparr>)
        | None \<Rightarrow> first_supported ok all_formats k \<bind> (\<lambda>(t, k).
            case t of
              None \<Rightarrow> Some (False, s\<lparr>vp_sink := k\<rparr>)
            | Some t \<Rightarrow>
                Some (True, if vcf_cvt_in_render (vp_cfg s) then s\<lparr>vp_sink := k, vp_out_fmt := t, vp_dec_fmt := hd fmts\<rparr>
                            else s\<lparr>vp_sink := k, vp_out_fmt := t, vp_dec_fmt := t\<rparr>))))"

text \<open>The old decoder is closed; its thread empties its queue on the way out.\<close>

definition close_old_vdec :: "video_path \<Rightarrow> video_path" where
  "close_old_vdec s =
     (if \<not> vp_vdec_res s then s
      else (if vp_vdec_thread s then (if vp_use_pool s then fold release_video (vp_raw s) s else s)\<lparr>vp_raw := [], vp_vdec_thread := False\<rparr> else s)
        \<lparr>vp_vdec := False, vp_convert := False, vp_fb_cb := False\<rparr>)"

record vstream_answers =
  vsa_render_mem :: bool
  vsa_vdec_mem :: bool
  vsa_vdec_open :: bool
  vsa_render_thread :: int
  vsa_vdec_thread :: int
  vsa_format :: "frame_type \<Rightarrow> bool"
  vsa_caps :: "pixel_fmt list"
  vsa_junk :: "frame_type list"

text \<open>The threads of a decoded stream, the render thread before its first frame; the result is the code of the last creation.\<close>

definition open_video_threads :: "vstream_answers \<Rightarrow> video_info \<Rightarrow> video_path \<Rightarrow> int \<times> video_path" where
  "open_video_threads e i s =
     (let (r, s1) = (if vp_use_fb s \<and> \<not> video_need_render_in_sync s \<and> \<not> vp_thread s
             then (if vsa_render_thread e \<noteq> 0 then (vsa_render_thread e, s)
                   else (0, s\<lparr>vp_thread := True, vp_render_sync := False, vp_fb_cb := True\<rparr>))
             else (0, s\<lparr>vp_use_fb := False\<rparr>))
      in if video_need_decode_in_sync (vi_codec i) s1 then (r, s1)
         else if vsa_vdec_thread e \<noteq> 0 then (vsa_vdec_thread e, s1)
         else (0, s1\<lparr>vp_vdec_thread := True, vp_decode_sync := False\<rparr>))"

definition open_new_vdec :: "vstream_answers \<Rightarrow> video_info \<Rightarrow> video_path \<Rightarrow> (int \<times> video_path) option" where
  "open_new_vdec e i s =
     (if \<not> vp_vdec_res s \<and> \<not> vsa_vdec_mem e then Some (ESP_MEDIA_ERR_NO_MEM, s)
      else get_support_output_format (vsa_format e) (vsa_caps e) (vsa_junk e) (s\<lparr>vp_vdec_res := True\<rparr>) \<bind> (\<lambda>(ok, s1).
        if \<not> ok then Some (0, s1)
        else if \<not> vsa_vdec_open e then Some (AV_ERR_FAIL, s1)
        else Some (open_video_threads e i (s1\<lparr>vp_vdec := True, vp_use_pool := vp_pool s1\<rparr>))))"

definition add_video_stream :: "vstream_answers \<Rightarrow> video_info \<Rightarrow> video_path \<Rightarrow> (int \<times> video_path) option" where
  "add_video_stream e i s =
     (if vp_sink s = None then Some (ESP_MEDIA_ERR_NOT_SUPPORT, s)
      else if \<not> vp_res s \<and> \<not> vsa_render_mem e then Some (ESP_MEDIA_ERR_NO_MEM, s)
      else let s1 = close_old_vdec (s\<lparr>vp_res := True, vp_use_fb := True\<rparr>);
               s2 = s1\<lparr>vp_clock := (vp_clock s1)\<lparr>vc_reached := False\<rparr>, vp_rendered := False, vp_is_raw := video_is_raw (vi_codec i), vp_decode_sync := True\<rparr>
        in if vp_is_raw s2 then Some (0, set_frame_info (convert_to_video_frame i) s2) else open_new_vdec e i s2)"

section \<open>The interface\<close>

text \<open>Like \<open>with_handle\<close>, for the video side.\<close>

definition with_vhandle :: "int \<Rightarrow> bool \<Rightarrow> (video_path \<Rightarrow> (int \<times> video_path) option) \<Rightarrow> video_path option \<Rightarrow> (int \<times> video_path option) option" where
  "with_vhandle err arg f h =
     (case h of
        None \<Rightarrow> Some (err, None)
      | Some s \<Rightarrow> if arg then f s \<bind> (\<lambda>(r, s). Some (r, Some s)) else Some (err, Some s))"

definition av_render_add_video_stream :: "vstream_answers \<Rightarrow> video_info option \<Rightarrow> video_path option \<Rightarrow> (int \<times> video_path option) option" where
  "av_render_add_video_stream e i = with_vhandle (- AV_ERR_INVALID_ARG) (i \<noteq> None) (add_video_stream e (the i))"

definition frame_of_data :: "video_data \<Rightarrow> video_frame" where
  "frame_of_data p = \<lparr>vfr_pts = vda_pts p, vfr_eos = vda_eos p, vfr_data = vda_data p\<rparr>"

definition no_frame_info :: frame_info where
  "no_frame_info = \<lparr>fi_type = RAW_TYPE_NONE, fi_width = 0, fi_height = 0, fi_fps = 0\<rparr>"

definition add_video_data :: "video_answers \<Rightarrow> vdecoded \<Rightarrow> video_data \<Rightarrow> video_path \<Rightarrow> (int \<times> video_path) option" where
  "add_video_data a d p s =
     (let done = (\<lambda>(r, s). Some (r, if vp_pool s then release_video p s else s))
      in if \<not> vp_res s then done (AV_ERR_WRONG_STATE, s)
         else let s1 = (if vc_fps (vp_clock s) = 0 then s\<lparr>vp_clock := correct_video_fps (vda_pts p) (vp_clock s)\<rparr> else s)
           in if vp_is_raw s1 then av_render_video_frame_reached a no_frame_info (frame_of_data p) s1 \<bind> done
              else if \<not> vp_vdec_res s1 then None
              else if \<not> vp_vdec s1 then done (AV_ERR_WRONG_STATE, s1)
              else if vp_vdec_thread s1 then (if va_put a then Some (0, s1\<lparr>vp_raw := vp_raw s1 @ [p]\<rparr>) else done (-1, s1))
              else decode_video a d p s1 \<bind> done)"

definition av_render_add_video_data ::
  "video_answers \<Rightarrow> vdecoded \<Rightarrow> video_data option \<Rightarrow> video_path option \<Rightarrow> (int \<times> video_path option) option" where
  "av_render_add_video_data a d p = with_vhandle (-1) (p \<noteq> None) (add_video_data a d (the p))"

definition av_render_config_video_fifo :: "(nat \<times> nat) option \<Rightarrow> video_path option \<Rightarrow> (int \<times> video_path option) option" where
  "av_render_config_video_fifo c =
     with_vhandle AV_ERR_INVALID_ARG (c \<noteq> None)
       (\<lambda>s. Some (0, s\<lparr>vp_cfg := (vp_cfg s)\<lparr>vcf_raw_fifo := fst (the c), vcf_render_fifo := snd (the c)\<rparr>\<rparr>))"

definition av_render_set_video_start_pts :: "u32 \<Rightarrow> video_path option \<Rightarrow> (int \<times> video_path option) option" where
  "av_render_set_video_start_pts pts =
     with_vhandle (-1) True (\<lambda>s. Some (0, if vp_res s then s\<lparr>vp_clock := (vp_clock s)\<lparr>vc_start_pts := pts\<rparr>\<rparr> else s))"

text \<open>
  Opening and closing the renderer: the calls into the libraries. \<open>av_render_reset\<close> is in \<open>Render_Threads\<close>.
\<close>

datatype renderer_call = Rc_calloc | Rc_mutex | Rc_event_group | Rc_reset | Rc_event_group_destroy | Rc_mutex_destroy | Rc_free

definition av_render_close :: "bool \<Rightarrow> bool \<Rightarrow> renderer_call list" where
  "av_render_close mutex event =
     [Rc_reset] @ (if event then [Rc_event_group_destroy] else []) @ (if mutex then [Rc_mutex_destroy] else []) @ [Rc_free]"

definition av_render_open :: "(bool \<times> bool) option \<Rightarrow> bool \<Rightarrow> bool \<Rightarrow> bool \<Rightarrow> bool \<times> renderer_call list" where
  "av_render_open c mem mutex event =
     (case c of
        None \<Rightarrow> (False, [])
      | Some (audio, video) \<Rightarrow>
          if \<not> audio \<and> \<not> video then (False, [])
          else if \<not> mem then (False, [Rc_calloc])
          else if \<not> mutex then (False, [Rc_calloc, Rc_mutex] @ av_render_close False False)
          else if \<not> event then (False, [Rc_calloc, Rc_mutex, Rc_event_group] @ av_render_close True False)
          else (True, [Rc_calloc, Rc_mutex, Rc_event_group]))"

text \<open>The video side of \<open>render_pause\<close>.\<close>

definition render_pause_video :: "bool \<Rightarrow> bool \<Rightarrow> video_path \<Rightarrow> video_path" where
  "render_pause_video only p s =
     (let s1 = (if vp_vdec_res s \<and> vp_vdec_thread s \<and> (\<not> p \<or> \<not> only \<or> vp_res s \<and> \<not> vp_thread s) then s\<lparr>vp_vdec_paused := p\<rparr> else s)
      in if vp_res s \<and> vp_thread s then s1\<lparr>vp_paused := p\<rparr> else s1)"

definition av_render_video_fifo_enough :: "int option \<Rightarrow> int option \<Rightarrow> video_data option \<Rightarrow> video_path option \<Rightarrow> bool" where
  "av_render_video_fifo_enough raw ren p h =
     (case (h, p) of
        (Some s, Some d) \<Rightarrow>
          vp_res s \<and>
          (case (if vp_vdec_res s then raw else None) of
             Some avail \<Rightarrow> int (20 + (if vp_use_pool s then 0 else length (vda_data d))) \<le> avail
           | None \<Rightarrow> (case ren of Some avail \<Rightarrow> int (20 + length (vda_data d)) \<le> avail | None \<Rightarrow> True))
      | _ \<Rightarrow> False)"

text \<open>\<open>raw\<close> and \<open>ren\<close> are number and size of what the queues hold, for those that exist.\<close>

definition av_render_get_video_fifo_level ::
  "(nat \<times> nat) option \<Rightarrow> (nat \<times> nat) option \<Rightarrow> bool \<Rightarrow> video_path option \<Rightarrow> int \<times> fifo_stat option" where
  "av_render_get_video_fifo_level raw ren arg h =
     (case h of
        None \<Rightarrow> (-1, None)
      | Some s \<Rightarrow>
          if \<not> arg then (-1, None)
          else let (n, b) = (if vp_res s then (case (if vp_vdec_res s then raw else None) of Some l \<Rightarrow> l | None \<Rightarrow> (case ren of Some l \<Rightarrow> l | None \<Rightarrow> (0, 0)))
                             else (0, 0))
            in (0, Some \<lparr>fs_duration = 0, fs_q_num = n, fs_data_size = b, fs_render_q_num = 0, fs_render_data_size = 0\<rparr>))"


section \<open>From the queue to the display\<close>

text \<open>What the display was asked to show, and what waits for it.\<close>

definition on_display :: "video_path \<Rightarrow> u8 list list" where
  "on_display s = (case vp_sink s of None \<Rightarrow> [] | Some k \<Rightarrow> concat (map (\<lambda>c. case c of Vdrv_write d r \<Rightarrow> [d] | _ \<Rightarrow> []) (v_calls k)))"

definition has_picture :: "video_frame \<Rightarrow> bool" where
  "has_picture f \<longleftrightarrow> vfr_data f \<noteq> [] \<or> vfr_eos f"

definition pictures :: "video_path \<Rightarrow> u8 list list" where
  "pictures s = map vfr_data (filter has_picture (vp_queue s))"

text \<open>
  A stream without synchronisation whose frames are queued for the render thread and keep their colours. The first frame
  was shown or does not pause the stream: the thread shows a frame that pauses the stream once more when it goes on.
\<close>

definition streaming :: "video_path \<Rightarrow> bool" where
  "streaming s \<longleftrightarrow> (\<exists>k. vp_sink s = Some k \<and> \<not> v_freed k \<and> v_is_open k \<and> v_ops k VD_write) \<and>
     vp_res s \<and> vc_reached (vp_clock s) \<and> vp_thread s \<and> \<not> vp_use_fb s \<and> \<not> vp_convert s \<and> \<not> vp_flushing s \<and>
     (vp_rendered s \<or> \<not> vcf_pause_first (vp_cfg s)) \<and> vcf_mode (vp_cfg s) = SYNC_NONE \<and>
     (\<forall>f \<in> set (vp_queue s). vc_start_pts (vp_clock s) \<le> vfr_pts f)"

text \<open>What happens to it: a decoded frame, a body of the thread (which a paused thread does not run), a pause or its end.\<close>

datatype video_activity = Va_frame video_answers frame_info video_frame | Va_body video_answers | Va_pause bool

fun video_path_step :: "video_path \<Rightarrow> video_activity \<Rightarrow> video_path option" where
  "video_path_step s (Va_frame a i f) = map_option snd (av_render_video_frame_reached a i f s)"
| "video_path_step s (Va_body a) = map_option snd (v_render_body a False s)"
| "video_path_step s (Va_pause b) = Some (render_pause_video False b s)"

fun queued_picture :: "video_activity \<Rightarrow> u8 list list" where
  "queued_picture (Va_frame a i f) = (if va_put a \<and> has_picture f then [vfr_data f] else [])"
| "queued_picture _ = []"

text \<open>The abstract state: the pictures so far, whether the stream is paused, and where it starts.\<close>

fun video_next :: "u8 list list \<times> bool \<times> u32 \<Rightarrow> video_activity \<Rightarrow> u8 list list \<times> bool \<times> u32" where
  "video_next (xs, p, t) (Va_pause b) = (xs, b, t)"
| "video_next (xs, p, t) e = (xs @ queued_picture e, p, t)"

fun video_may :: "u8 list list \<times> bool \<times> u32 \<Rightarrow> video_activity \<Rightarrow> bool" where
  "video_may (xs, p, t) (Va_body a) \<longleftrightarrow> \<not> p"
| "video_may (xs, p, t) (Va_frame a i f) \<longleftrightarrow> t \<le> vfr_pts f"
| "video_may (xs, p, t) (Va_pause b) \<longleftrightarrow> True"

definition video_flow_rep :: "video_path \<Rightarrow> u8 list list \<times> bool \<times> u32 \<Rightarrow> bool" where
  "video_flow_rep s a \<longleftrightarrow> streaming s \<and> a = (on_display s @ pictures s, vp_paused s, vc_start_pts (vp_clock s))"

lemma notify_sel [simp]:
  "vp_sink (notify e s) = vp_sink s" "vp_queue (notify e s) = vp_queue s" "vp_cfg (notify e s) = vp_cfg s" "vp_res (notify e s) = vp_res s"
  "vp_clock (notify e s) = vp_clock s" "vp_rendered (notify e s) = vp_rendered s" "vp_thread (notify e s) = vp_thread s"
  "vp_use_fb (notify e s) = vp_use_fb s" "vp_convert (notify e s) = vp_convert s" "vp_flushing (notify e s) = vp_flushing s"
  "vp_paused (notify e s) = vp_paused s" "vp_vdec_res (notify e s) = vp_vdec_res s" "vp_render_sync (notify e s) = vp_render_sync s"
  "vp_vdec_paused (notify e s) = vp_vdec_paused s" "vp_pool (notify e s) = vp_pool s" "vp_is_raw (notify e s) = vp_is_raw s"
  by (simp_all add: notify_def)

lemma check_first_sel [simp]:
  "vp_sink (video_check_first_frame_render_notify s) = vp_sink s" "vp_queue (video_check_first_frame_render_notify s) = vp_queue s"
  "vp_cfg (video_check_first_frame_render_notify s) = vp_cfg s" "vp_res (video_check_first_frame_render_notify s) = vp_res s"
  "vp_clock (video_check_first_frame_render_notify s) = vp_clock s" "vp_rendered (video_check_first_frame_render_notify s)"
  "vp_thread (video_check_first_frame_render_notify s) = vp_thread s" "vp_use_fb (video_check_first_frame_render_notify s) = vp_use_fb s"
  "vp_convert (video_check_first_frame_render_notify s) = vp_convert s" "vp_flushing (video_check_first_frame_render_notify s) = vp_flushing s"
  "vp_paused (video_check_first_frame_render_notify s) \<longleftrightarrow> vp_paused s \<or> \<not> vp_rendered s \<and> vcf_pause_first (vp_cfg s)"
  "vp_vdec_res (video_check_first_frame_render_notify s) = vp_vdec_res s" "vp_render_sync (video_check_first_frame_render_notify s) = vp_render_sync s"
  "vp_pool (video_check_first_frame_render_notify s) = vp_pool s" "vp_is_raw (video_check_first_frame_render_notify s) = vp_is_raw s"
  by (simp_all add: video_check_first_frame_render_notify_def)

lemma end_of_video_sel [simp]:
  "vp_sink (end_of_video f s) = vp_sink s" "vp_queue (end_of_video f s) = vp_queue s" "vp_cfg (end_of_video f s) = vp_cfg s"
  "vp_res (end_of_video f s) = vp_res s" "vp_clock (end_of_video f s) = vp_clock s" "vp_thread (end_of_video f s) = vp_thread s"
  "vp_use_fb (end_of_video f s) = vp_use_fb s" "vp_convert (end_of_video f s) = vp_convert s" "vp_flushing (end_of_video f s) = vp_flushing s"
  "vp_pool (end_of_video f s) = vp_pool s" "vp_is_raw (end_of_video f s) = vp_is_raw s"
  "vp_rendered (end_of_video f s) \<longleftrightarrow> vp_rendered s \<or> vfr_eos f"
  "vp_paused (end_of_video f s) \<longleftrightarrow> vp_paused s \<or> vfr_eos f \<and> \<not> vp_rendered s \<and> vcf_pause_first (vp_cfg s)"
  by (simp_all add: end_of_video_def)

lemma video_render_write_open:
  assumes "\<not> v_freed k" "v_is_open k" "v_ops k VD_write"
  shows "video_render_write (Some d) ret (Some k) = Some (ret, Some (k\<lparr>v_calls := v_calls k @ [Vdrv_write d ret]\<rparr>))"
  using assms by (simp add: video_render_write_def v_forward_def v_deref_def v_call_def)

lemma sync_none [simp]: "fc_clock (video_sync_control_before_render d SYNC_NONE t t' ap vp c p) = c"
  by (simp add: video_sync_control_before_render_def)

lemma written_picture:
  assumes "streaming s" "\<not> vp_paused s" "vc_start_pts (vp_clock s) \<le> vfr_pts f"
  shows "\<exists>r s1. render_write_video a f s = Some (r, s1) \<and> streaming s1 \<and> \<not> vp_paused s1 \<and> vp_queue s1 = vp_queue s \<and>
    vc_start_pts (vp_clock s1) = vc_start_pts (vp_clock s) \<and> on_display s1 = on_display s @ [vfr_data f]"
proof -
  from assms(1) obtain k where k: "vp_sink s = Some k" "\<not> v_freed k" "v_is_open k" "v_ops k VD_write" by (auto simp: streaming_def)
  have "\<not> v_freed (k\<lparr>v_calls := v_calls k @ [Vdrv_write (vfr_data f) (va_write a)]\<rparr>)" using k(2) by (simp add: v_freed_def)
  then show ?thesis using assms k video_render_write_open [OF k(2-4)]
    by (auto simp: render_write_video_def show_frame_def Let_def streaming_def on_display_def)
qed

lemma body_shows:
  assumes "streaming s" "\<not> vp_paused s"
  shows "\<exists>s1. v_render_body a False s = Some (0, s1) \<and> video_flow_rep s1 (on_display s @ pictures s, vp_paused s, vc_start_pts (vp_clock s))"
proof (cases "vp_queue s")
  case Nil
  then show ?thesis using assms by (simp add: v_render_body_def video_flow_rep_def)
next
  case (Cons f q)
  have t: "vc_start_pts (vp_clock s) \<le> vfr_pts f" "converted_frame a f s = f" using assms(1) Cons by (auto simp: streaming_def converted_frame_def)
  obtain r s1 where w: "render_write_video a f s = Some (r, s1)" "streaming s1" "\<not> vp_paused s1" "vp_queue s1 = vp_queue s"
    "vc_start_pts (vp_clock s1) = vc_start_pts (vp_clock s)" "on_display s1 = on_display s @ [vfr_data f]" using written_picture [OF assms t(1)] by blast
  have q: "streaming (x\<lparr>vp_queue := q\<rparr>)" if "streaming x" "vp_queue x = vp_queue s" for x using that Cons by (auto simp: streaming_def)
  have h: "on_display (x\<lparr>vp_queue := q\<rparr>) = on_display x" "pictures (x\<lparr>vp_queue := q\<rparr>) = map vfr_data (filter has_picture q)" for x
    by (auto simp: on_display_def pictures_def)
  have p: "pictures s = (if has_picture f then vfr_data f # map vfr_data (filter has_picture q) else map vfr_data (filter has_picture q))"
    using Cons by (simp add: pictures_def)
  show ?thesis
  proof (cases "has_picture f")
    case True
    then show ?thesis using Cons t w q [OF w(2,4)] h p assms(2) by (auto simp: v_render_body_def video_flow_rep_def has_picture_def)
  next
    case False
    then show ?thesis using Cons q [OF assms(1)] h p assms(2) by (auto simp: v_render_body_def video_flow_rep_def has_picture_def)
  qed
qed

lemma video_flow_step:
  assumes "video_flow_rep s a" "video_may a e"
  shows "\<exists>s'. video_path_step s e = Some s' \<and> video_flow_rep s' (video_next a e)"
proof (cases e)
  case (Va_frame b i f)
  then show ?thesis using assms
    by (auto simp: video_flow_rep_def av_render_video_frame_reached_def deliver_frame_def streaming_def on_display_def pictures_def)
next
  case (Va_body b)
  then show ?thesis using assms body_shows [of s b] by (auto simp: video_flow_rep_def)
next
  case (Va_pause b)
  have "streaming (s\<lparr>vp_vdec_paused := c, vp_paused := b\<rparr>) = streaming s" "streaming (s\<lparr>vp_paused := b\<rparr>) = streaming s" for c
    by (simp_all add: streaming_def)
  then show ?thesis using assms Va_pause
    by (auto simp: video_flow_rep_def render_pause_video_def Let_def on_display_def pictures_def streaming_def)
qed

interpretation video_flow: simulation video_path_step video_flow_rep video_next video_may
  by unfold_locales (rule video_flow_step)

lemma video_next_all: "fst (foldl video_next (xs, p, t) es) = xs @ concat (map queued_picture es)"
proof (induction es arbitrary: xs p t)
  case (Cons e es)
  then show ?case by (cases e) simp_all
qed simp


definition demo_display :: video_sink where
  "demo_display = \<lparr>v_ops = (\<lambda>_. True), v_handle = True, v_is_open = True, v_ref_count = 2, v_calls = []\<rparr>"

definition demo_video :: video_path where
  "demo_video = \<lparr>vp_cfg = \<lparr>vcf_raw_fifo = 0, vcf_render_fifo = 1000, vcf_mode = SYNC_NONE, vcf_quit_eos = False, vcf_drop = False,
        vcf_pause_first = False, vcf_cvt_in_render = False\<rparr>,
     vp_sink = Some demo_display, vp_event_cb = True, vp_events = [], vp_pool = False, vp_released = [], vp_res = True,
     vp_clock = \<lparr>vc_reached = True, vc_fps = 20, vc_send_pts = 0, vc_sent_num = 0, vc_start_time = 0, vc_start_pts = 0, vc_last_pts = 0,
        vc_tolerance = 600\<rparr>,
     vp_rendered = False, vp_type = RAW_TYPE_RGB565, vp_width = 2, vp_height = 2, vp_decode_sync = True, vp_use_fb = False, vp_render_sync = False,
     vp_is_raw = False, vp_thread = True, vp_queue = [], vp_paused = False, vp_flushing = False, vp_vdec_res = True, vp_vdec = True,
     vp_vdec_thread = False, vp_raw = [], vp_use_pool = False, vp_vdec_paused = False, vp_err_cnt = 0, vp_dec_fmt = RAW_TYPE_RGB565,
     vp_out_fmt = RAW_TYPE_RGB565, vp_convert = False, vp_convert_size = 0, vp_fb_cb = False, vp_fb = None, vp_fb_own = False\<rparr>"

definition demo_vanswers :: video_answers where
  "demo_vanswers = \<lparr>va_open = 0, va_write = 0, va_fb = 0, va_format = (\<lambda>_. True), va_table = True, va_realloc = True, va_recolor = (\<lambda>d. d),
     va_thread = True, va_put = True, va_time = 0, va_time' = 0, va_apts = None, va_vpts = None\<rparr>"



section \<open>Raw video\<close>

definition display_held :: "video_path \<Rightarrow> bool" where
  "display_held s \<longleftrightarrow> (\<exists>k b. vp_sink s = Some k \<and> video_sink_rep k \<lparr>held = True, playing = b\<rparr>)"

text \<open>A raw stream, and what its frames leave alone while none is shown.\<close>

definition raw_stream :: "video_path \<Rightarrow> bool" where
  "raw_stream s \<longleftrightarrow> display_held s \<and> vp_res s \<and> vp_is_raw s \<and> vp_use_fb s \<and> \<not> vp_pool s"

definition raw_view :: "video_path \<Rightarrow> _" where
  "raw_view s = (on_display s, vp_queue s, vp_thread s, vp_vdec_res s, vp_fb s, vp_fb_own s, vc_start_pts (vp_clock s))"

lemma opened_calls:
  assumes "video_sink_rep k \<lparr>held = True, playing = b\<rparr>"
  shows "\<exists>r k1. video_render_close (Some k) = Some (r, Some k1) \<and> video_sink_rep k1 \<lparr>held = True, playing = False\<rparr> \<and>
    on_display (s\<lparr>vp_sink := Some k1\<rparr>) = on_display (s\<lparr>vp_sink := Some k\<rparr>)"
proof -
  have "\<exists>r k1. video_render_close (Some k) = Some (r, Some k1) \<and> video_sink_rep k1 \<lparr>held = True, playing = False\<rparr>"
    using video_sink_step_rep [OF assms, of VR_close] by (auto simp: bind_eq_Some_conv)
  moreover have "on_display (s\<lparr>vp_sink := Some k1\<rparr>) = on_display (s\<lparr>vp_sink := Some k\<rparr>)" if "video_render_close (Some k) = Some (r, Some k1)" for r k1
    using that assms by (auto simp: video_sink_ops video_sink_rep_def on_display_def Let_def split: if_splits)
  ultimately show ?thesis by blast
qed

lemma reopened_calls:
  assumes "video_sink_rep k \<lparr>held = True, playing = False\<rparr>"
  shows "\<exists>k1 b. video_render_open (Some (t, w, h, f)) ret (Some k) = Some (ret, Some k1) \<and> video_sink_rep k1 \<lparr>held = True, playing = b\<rparr> \<and>
    on_display (s\<lparr>vp_sink := Some k1\<rparr>) = on_display (s\<lparr>vp_sink := Some k\<rparr>)"
proof -
  have k: "\<not> v_freed k" "v_handle k" "v_ops k = (\<lambda>_. True)" using assms by (auto simp: video_sink_rep_def)
  then have "\<exists>k1. video_render_open (Some (t, w, h, f)) ret (Some k) = Some (ret, Some k1) \<and>
      on_display (s\<lparr>vp_sink := Some k1\<rparr>) = on_display (s\<lparr>vp_sink := Some k\<rparr>)"
    by (auto simp: video_sink_ops on_display_def)
  then show ?thesis using video_sink_step_rep [OF assms, of "VR_open t w h f ret"] by (cases "ret = 0") auto
qed

lemma display_cong: "vp_sink x = vp_sink y \<Longrightarrow> on_display x = on_display y"
  by (simp add: on_display_def)

lemma raw_reached:
  assumes "raw_stream s" "va_open a = 0"
  shows "\<exists>s'. (if vc_reached (vp_clock s) then Some (0, s) else open_video_render a i s) = Some (0, s') \<and> raw_stream s' \<and> raw_view s' = raw_view s"
proof (cases "vc_reached (vp_clock s)")
  case True
  then show ?thesis using assms by simp
next
  case False
  from assms(1) obtain k b where k: "vp_sink s = Some k" "video_sink_rep k \<lparr>held = True, playing = b\<rparr>" by (auto simp: raw_stream_def display_held_def)
  have sk: "s\<lparr>vp_sink := Some k\<rparr> = s" using k(1) by simp
  obtain r k1 where c: "video_render_close (Some k) = Some (r, Some k1)" "video_sink_rep k1 \<lparr>held = True, playing = False\<rparr>"
    "on_display (s\<lparr>vp_sink := Some k1\<rparr>) = on_display s" using opened_calls [OF k(2), of s] sk by auto
  obtain k2 b2 where o: "video_render_open (Some (vp_type s, vp_width s, vp_height s, unat (vc_fps (vp_clock s)))) 0 (Some k1) = Some (0, Some k2)"
    "video_sink_rep k2 \<lparr>held = True, playing = b2\<rparr>" "on_display (s\<lparr>vp_sink := Some k2\<rparr>) = on_display (s\<lparr>vp_sink := Some k1\<rparr>)"
    using reopened_calls [OF c(2), of "vp_type s" "vp_width s" "vp_height s" "unat (vc_fps (vp_clock s))" 0 s] by auto
  let ?s = "s\<lparr>vp_sink := Some k2, vp_clock := (vp_clock s)\<lparr>vc_reached := True, vc_tolerance := 600\<rparr>, vp_render_sync := True\<rparr>"
  have "open_video_render a i s = Some (0, ?s)"
    using assms k(1) c(1) o(1) by (simp add: open_video_render_def raw_stream_def Let_def)
  moreover have "on_display ?s = on_display (s\<lparr>vp_sink := Some k2\<rparr>)" by (rule display_cong) simp
  ultimately show ?thesis using False assms(1) o(2,3) c(3) by (auto simp: raw_stream_def display_held_def raw_view_def)
qed

text \<open>The stream before leaves its thread, its buffer and its start behind.\<close>

lemma release_video_all: "\<exists>r. fold release_video ps s = s\<lparr>vp_released := r\<rparr>"
proof (induction ps arbitrary: s)
  case Nil
  have "s = s\<lparr>vp_released := vp_released s\<rparr>" by simp
  then show ?case by (simp, metis)
next
  case (Cons p ps)
  have "\<exists>r. release_video p s = s\<lparr>vp_released := r\<rparr>" by (simp add: release_video_def) (metis video_path.surjective video_path.update_convs(6))
  then obtain r where "release_video p s = s\<lparr>vp_released := r\<rparr>" by blast
  then show ?case using Cons.IH [of "release_video p s"] by auto
qed

lemma add_raw_stream:
  assumes "display_held s" "\<not> vp_pool s" "video_is_raw (vi_codec i)" "vp_res s"
  shows "\<exists>s'. add_video_stream e i s = Some (0, s') \<and> raw_stream s' \<and> raw_view s' = raw_view s"
proof -
  let ?s = "s\<lparr>vp_res := True, vp_use_fb := True\<rparr>"
  obtain r where r: "fold release_video (vp_raw ?s) ?s = ?s\<lparr>vp_released := r\<rparr>" using release_video_all by blast
  have "close_old_vdec ?s = (if vp_vdec_res s then (if vp_vdec_thread s then (if vp_use_pool s then ?s\<lparr>vp_released := r\<rparr> else ?s)
      \<lparr>vp_raw := [], vp_vdec_thread := False\<rparr> else ?s)\<lparr>vp_vdec := False, vp_convert := False, vp_fb_cb := False\<rparr> else ?s)"
    using r by (simp add: close_old_vdec_def)
  then show ?thesis using assms
    by (auto simp: add_video_stream_def Let_def raw_stream_def display_held_def raw_view_def on_display_def set_frame_info_def)
qed


text \<open>Packets that \<open>av_render_add_video_data\<close> takes one after the other.\<close>

definition no_vdecode :: vdecoded where
  "no_vdecode = \<lparr>vdd_requests = [], vdd_ret = 0\<rparr>"

fun all_taken :: "video_answers \<Rightarrow> video_data list \<Rightarrow> video_path \<Rightarrow> video_path option" where
  "all_taken a [] s = Some s"
| "all_taken a (p # ps) s = add_video_data a no_vdecode p s \<bind> (\<lambda>(r, s). if r = 0 then all_taken a ps s else None)"

lemma raw_data:
  assumes "raw_stream s"
  shows "\<exists>s1. raw_stream s1 \<and> raw_view s1 = raw_view s \<and>
    add_video_data a no_vdecode p s = av_render_video_frame_reached a no_frame_info (frame_of_data p) s1 \<bind> (\<lambda>(r, s). Some (r, if vp_pool s then release_video p s else s))"
proof -
  let ?s = "if vc_fps (vp_clock s) = 0 then s\<lparr>vp_clock := correct_video_fps (vda_pts p) (vp_clock s)\<rparr> else s"
  have "raw_stream ?s" "raw_view ?s = raw_view s"
    using assms by (auto simp: raw_stream_def display_held_def raw_view_def on_display_def correct_video_fps_def)
  moreover have "add_video_data a no_vdecode p s =
      av_render_video_frame_reached a no_frame_info (frame_of_data p) ?s \<bind> (\<lambda>(r, s). Some (r, if vp_pool s then release_video p s else s))"
    using assms by (auto simp: add_video_data_def raw_stream_def Let_def)
  ultimately show ?thesis by blast
qed

lemma raw_delivery:
  assumes "raw_stream s" "va_open a = 0"
  shows "\<exists>s1. raw_stream s1 \<and> raw_view s1 = raw_view s \<and>
    add_video_data a no_vdecode p s = deliver_frame a (frame_of_data p) s1 \<bind> (\<lambda>(r, s). Some (r, if vp_pool s then release_video p s else s))"
proof -
  obtain s0 where s0: "raw_stream s0" "raw_view s0 = raw_view s"
    "add_video_data a no_vdecode p s = av_render_video_frame_reached a no_frame_info (frame_of_data p) s0 \<bind> (\<lambda>(r, s). Some (r, if vp_pool s then release_video p s else s))"
    using raw_data [OF assms(1)] by blast
  obtain s1 where "(if vc_reached (vp_clock s0) then Some (0, s0) else open_video_render a no_frame_info s0) = Some (0, s1)" "raw_stream s1"
    "raw_view s1 = raw_view s0" using raw_reached [OF s0(1) assms(2)] by blast
  then show ?thesis using s0 by (auto simp: av_render_video_frame_reached_def raw_stream_def)
qed

lemma lost_data:
  assumes "raw_stream s" "vp_thread s" "vp_vdec_res s" "vp_fb s = None" "va_open a = 0"
  shows "\<exists>s'. all_taken a ps s = Some s' \<and> vp_queue s' = vp_queue s \<and> on_display s' = on_display s"
  using assms(1-4)
proof (induction ps arbitrary: s)
  case (Cons p ps)
  obtain s1 where s1: "raw_stream s1" "raw_view s1 = raw_view s"
    "add_video_data a no_vdecode p s = deliver_frame a (frame_of_data p) s1 \<bind> (\<lambda>(r, s). Some (r, if vp_pool s then release_video p s else s))"
    using raw_delivery [OF Cons.prems(1) assms(5)] by blast
  then have "add_video_data a no_vdecode p s = Some (0, s1)" "vp_thread s1" "vp_vdec_res s1" "vp_fb s1 = None" "vp_queue s1 = vp_queue s" "on_display s1 = on_display s"
    using Cons.prems by (auto simp: deliver_frame_def raw_view_def raw_stream_def)
  then show ?case using Cons.IH [OF s1(1)] by auto
qed simp


definition demo_raw :: video_info where
  "demo_raw = \<lparr>vi_codec = VCODEC_RGB565, vi_width = 2, vi_height = 2, vi_fps = 20\<rparr>"

definition video_memory :: vstream_answers where
  "video_memory = \<lparr>vsa_render_mem = True, vsa_vdec_mem = True, vsa_vdec_open = True, vsa_render_thread = 0, vsa_vdec_thread = 0,
     vsa_format = (\<lambda>_. True), vsa_caps = [], vsa_junk = []\<rparr>"

definition idle_display :: video_sink where
  "idle_display = \<lparr>v_ops = (\<lambda>_. True), v_handle = True, v_is_open = False, v_ref_count = 1, v_calls = [Vdrv_open]\<rparr>"

lemma idle_display_held: "vp_sink s = Some idle_display \<Longrightarrow> display_held s"
  by (auto simp: display_held_def video_sink_rep_def idle_display_def sink_phase_def v_freed_def)


text \<open>When the decoder had given a buffer back before, the first raw packet is written into memory of the queue.\<close>

theorem raw_after_decoded_corrupts:
  assumes "display_held s" "\<not> vp_pool s" "vp_res s" "vp_thread s" "vp_vdec_res s" "vp_fb s = Some f" "\<not> vp_fb_own s"
    "video_is_raw (vi_codec i)" "va_open a = 0"
  shows "\<exists>s1. av_render_add_video_stream e (Some i) (Some s) = Some (0, Some s1) \<and> add_video_data a no_vdecode p s1 = None"
proof -
  obtain s1 where s1: "add_video_stream e i s = Some (0, s1)" "raw_stream s1" "raw_view s1 = raw_view s"
    using add_raw_stream [OF assms(1,2,8,3)] by blast
  obtain s2 where "raw_stream s2" "raw_view s2 = raw_view s1"
    "add_video_data a no_vdecode p s1 = deliver_frame a (frame_of_data p) s2 \<bind> (\<lambda>(r, s). Some (r, if vp_pool s then release_video p s else s))"
    using raw_delivery [OF s1(2) assms(9)] by blast
  then show ?thesis using s1(1,3) assms(4-7)
    by (auto simp: av_render_add_video_stream_def with_vhandle_def raw_view_def deliver_frame_def raw_stream_def)
qed

theorem raw_after_decoded_corrupts_witness:
  "\<exists>s1. av_render_add_video_stream video_memory (Some demo_raw)
      (Some (demo_video\<lparr>vp_sink := Some idle_display, vp_fb := Some (frame_of_data \<lparr>vda_pts = 0, vda_addr = 0, vda_data = [1], vda_eos = False\<rparr>)\<rparr>)) = Some (0, Some s1) \<and>
    add_video_data demo_vanswers no_vdecode \<lparr>vda_pts = 0, vda_addr = 0, vda_data = [1, 2], vda_eos = False\<rparr> s1 = None"
  by (rule raw_after_decoded_corrupts [where f = "frame_of_data \<lparr>vda_pts = 0, vda_addr = 0, vda_data = [1], vda_eos = False\<rparr>"])
    (simp_all add: idle_display_held demo_video_def demo_raw_def video_is_raw_def demo_vanswers_def)

section \<open>The start of the clock\<close>

lemma early_data:
  assumes "raw_stream s" "\<not> vp_thread s" "va_open a = 0" "\<forall>p \<in> set ps. vda_pts p < vc_start_pts (vp_clock s)"
  shows "\<exists>s'. all_taken a ps s = Some s' \<and> on_display s' = on_display s"
  using assms(1,2,4)
proof (induction ps arbitrary: s)
  case (Cons p ps)
  obtain s1 where s1: "raw_stream s1" "raw_view s1 = raw_view s"
    "add_video_data a no_vdecode p s = deliver_frame a (frame_of_data p) s1 \<bind> (\<lambda>(r, s). Some (r, if vp_pool s then release_video p s else s))"
    using raw_delivery [OF Cons.prems(1) assms(3)] by blast
  let ?s = "end_of_video (converted_frame a (frame_of_data p) s1) (s1\<lparr>vp_clock := (vp_clock s1)\<lparr>vc_send_pts := vda_pts p\<rparr>\<rparr>)"
  have d: "deliver_frame a (frame_of_data p) s1 = Some (0, ?s)"
    using s1(1,2) Cons.prems by (auto simp: deliver_frame_def raw_view_def render_write_video_def converted_frame_def frame_of_data_def Let_def)
  have v: "raw_stream ?s" "raw_view ?s = raw_view s"
    using s1(1,2) by (auto simp: raw_stream_def display_held_def raw_view_def on_display_def end_of_video_def notify_def
        video_check_first_frame_render_notify_def)
  have "\<not> vp_pool ?s" using v(1) by (simp add: raw_stream_def)
  then have "add_video_data a no_vdecode p s = Some (0, ?s)" using s1(3) d by simp
  moreover obtain s' where "all_taken a ps ?s = Some s'" "on_display s' = on_display ?s"
    using Cons.IH [OF v(1)] v(2) Cons.prems(2,3) by (auto simp: raw_view_def)
  ultimately show ?case using v(2) by (simp add: raw_view_def)
qed simp

text \<open>
  A new stream does not restart the clock: when its time stamps begin before those the last one was started with, its frames
  are taken but not shown until they have caught up.
\<close>

theorem earlier_stream_hidden:
  assumes "display_held s" "\<not> vp_pool s" "vp_res s" "\<not> vp_thread s" "video_is_raw (vi_codec i)" "va_open a = 0"
    "\<forall>p \<in> set ps. vda_pts p < vc_start_pts (vp_clock s)"
  shows "\<exists>s1 s2. av_render_add_video_stream e (Some i) (Some s) = Some (0, Some s1) \<and> all_taken a ps s1 = Some s2 \<and> on_display s2 = on_display s"
proof -
  obtain s1 where s1: "add_video_stream e i s = Some (0, s1)" "raw_stream s1" "raw_view s1 = raw_view s"
    using add_raw_stream [OF assms(1,2,5,3)] by blast
  then have "\<not> vp_thread s1" "\<forall>p \<in> set ps. vda_pts p < vc_start_pts (vp_clock s1)" using assms(4,7) by (auto simp: raw_view_def)
  from early_data [OF s1(2) this(1) assms(6) this(2)] s1 show ?thesis by (auto simp: av_render_add_video_stream_def with_vhandle_def raw_view_def)
qed

theorem earlier_stream_hidden_witness:
  "\<exists>s1 s2. av_render_add_video_stream video_memory (Some demo_raw)
      (Some (demo_video\<lparr>vp_sink := Some idle_display, vp_thread := False, vp_clock := (vp_clock demo_video)\<lparr>vc_start_pts := 60000\<rparr>\<rparr>)) = Some (0, Some s1) \<and>
    all_taken demo_vanswers (map (\<lambda>t. \<lparr>vda_pts = t, vda_addr = 0, vda_data = [1, 2], vda_eos = False\<rparr>) [0, 40, 80]) s1 = Some s2 \<and> on_display s2 = []"
  using earlier_stream_hidden [OF idle_display_held, of "demo_video\<lparr>vp_sink := Some idle_display, vp_thread := False,
      vp_clock := (vp_clock demo_video)\<lparr>vc_start_pts := 60000\<rparr>\<rparr>" demo_raw demo_vanswers
      "map (\<lambda>t. \<lparr>vda_pts = t, vda_addr = 0, vda_data = [1, 2], vda_eos = False\<rparr>) [0, 40, 80]" video_memory]
  by (simp add: demo_video_def demo_raw_def video_is_raw_def demo_vanswers_def on_display_def idle_display_def)


section \<open>Frame buffers\<close>

text \<open>What the decoder asks for when it decodes pictures straight into the render queue.\<close>

definition into_queue :: "(video_frame \<times> frame_info) \<times> video_frame \<Rightarrow> vdec_request list" where
  "into_queue x = [Vq_fetch (Some (snd x)), Vq_frame (fst (fst x)) (snd (fst x)), Vq_return False]"

lemma fetched_into_queue:
  assumes "vp_fb_cb s" "vp_thread s" "vp_use_fb s" "vp_vdec_res s" "vp_res s" "vc_reached (vp_clock s)"
  shows "\<exists>s'. vdec_requests a (concat (map into_queue xs)) s = Some s' \<and> vp_queue s' = vp_queue s @ map (\<lambda>x. fst (fst x)) xs \<and>
    on_display s' = on_display s"
  using assms
proof (induction xs arbitrary: s)
  case (Cons x xs)
  let ?s = "s\<lparr>vp_fb := Some (fst (fst x)), vp_fb_own := False, vp_queue := vp_queue s @ [fst (fst x)]\<rparr>"
  have "vdec_requests a (concat (map into_queue (x # xs))) s = vdec_requests a (concat (map into_queue xs)) ?s"
    using Cons.prems by (simp add: into_queue_def av_render_video_frame_reached_def deliver_frame_def)
  moreover have "on_display ?s = on_display s" by (rule display_cong) simp
  ultimately show ?case using Cons.IH [of ?s] Cons.prems by auto
qed simp

text \<open>
  A decoder that fetches a buffer, reports its picture and gives the buffer back queues the pictures of a packet in order; the
  header that is queued is the one it reported, whatever the memory held. An error of the decoder is counted, not returned.
\<close>

theorem decoded_pictures_queued:
  assumes "vp_fb_cb s" "vp_thread s" "vp_use_fb s" "vp_vdec_res s" "vp_res s" "vc_reached (vp_clock s)" "vda_data p \<noteq> [] \<or> vda_eos p"
    "vdd_requests d = concat (map into_queue xs)"
  shows "\<exists>s'. decode_video a d p s = Some (0, s') \<and> vp_queue s' = vp_queue s @ map (\<lambda>x. fst (fst x)) xs \<and> on_display s' = on_display s"
proof -
  obtain s' where s': "vdec_requests a (concat (map into_queue xs)) s = Some s'" "vp_queue s' = vp_queue s @ map (\<lambda>x. fst (fst x)) xs"
    "on_display s' = on_display s" using fetched_into_queue [OF assms(1-6)] by blast
  have "vp_queue (count_video_error r s') = vp_queue s'" "on_display (count_video_error r s') = on_display s'" for r
    by (simp_all add: count_video_error_def Let_def on_display_def)
  then show ?thesis using s' assms(2,7,8) by (auto simp: decode_video_def)
qed

theorem decoded_pictures_queued_witness:
  "\<exists>s'. decode_video demo_vanswers \<lparr>vdd_requests = concat (map into_queue
        [((\<lparr>vfr_pts = 0, vfr_eos = False, vfr_data = [1]\<rparr>, no_frame_info), \<lparr>vfr_pts = 99, vfr_eos = True, vfr_data = []\<rparr>)]), vdd_ret = -1\<rparr>
      \<lparr>vda_pts = 0, vda_addr = 0, vda_data = [7], vda_eos = False\<rparr> (demo_video\<lparr>vp_use_fb := True, vp_fb_cb := True\<rparr>) = Some (0, s') \<and>
    vp_queue s' = [\<lparr>vfr_pts = 0, vfr_eos = False, vfr_data = [1]\<rparr>]"
  using decoded_pictures_queued [of "demo_video\<lparr>vp_use_fb := True, vp_fb_cb := True\<rparr>" "\<lparr>vda_pts = 0, vda_addr = 0, vda_data = [7], vda_eos = False\<rparr>"
      "\<lparr>vdd_requests = concat (map into_queue
        [((\<lparr>vfr_pts = 0, vfr_eos = False, vfr_data = [1]\<rparr>, no_frame_info), \<lparr>vfr_pts = 99, vfr_eos = True, vfr_data = []\<rparr>)]), vdd_ret = -1\<rparr>"
      "[((\<lparr>vfr_pts = 0, vfr_eos = False, vfr_data = [1]\<rparr>, no_frame_info), \<lparr>vfr_pts = 99, vfr_eos = True, vfr_data = []\<rparr>)]" demo_vanswers]
  by (auto simp: demo_video_def)

section \<open>Opening\<close>

text \<open>The resources that exist after a sequence of calls that all succeed, but for the last one when opening fails.\<close>

fun destroyed_by :: "renderer_call \<Rightarrow> renderer_call option" where
  "destroyed_by Rc_calloc = Some Rc_free"
| "destroyed_by Rc_mutex = Some Rc_mutex_destroy"
| "destroyed_by Rc_event_group = Some Rc_event_group_destroy"
| "destroyed_by _ = None"

text \<open>
  An unsuccessful \<open>av_render_open\<close> leaves nothing behind: with every resource that was created the call that destroys it
  follows, the structure last. It calls \<open>av_render_reset\<close>, which takes a mutex that may not have been created.
\<close>

theorem failed_open_releases:
  "\<not> fst (av_render_open c mem mutex event) \<longrightarrow>
     (\<forall>(made, r) \<in> set [(mem, Rc_calloc), (mutex, Rc_mutex), (event, Rc_event_group)].
        made \<and> r \<in> set (snd (av_render_open c mem mutex event)) \<longrightarrow> the (destroyed_by r) \<in> set (snd (av_render_open c mem mutex event)))"
  by (auto simp: av_render_open_def av_render_close_def split: option.splits if_splits)

theorem failed_open_releases_witness:
  "Rc_mutex_destroy \<in> set (snd (av_render_open (Some (True, False)) True True False))"
  using failed_open_releases [of "Some (True, False)" True True False] by (simp add: av_render_open_def av_render_close_def)

end
