(* ===== verification/Render_Drivers.thy ===== *)
theory Render_Drivers
  imports Av_Video
begin

text \<open>
  The drivers behind the sinks (\<open>components/av_render/render_impl/i2s_render.c\<close> and \<open>lcd_render.c\<close>), in the configuration of
  the ESP32-P4: the codec behind an I2S port with its change of speed, and the display, whose controller reports by an
  interrupt that it has drawn. Calls of the device libraries are recorded; their results are arguments. \<open>None\<close> is a
  division by zero or an access to released memory.
\<close>

section \<open>The codec\<close>

datatype i2s_call =
    I2_open audio_info int | I2_write "u8 list" int | I2_ref "u8 list" | I2_sonic_open audio_info bool | I2_alloc_out bool | I2_sonic_speed
  | I2_process "u8 list" | I2_close | I2_sonic_close | I2_free_out | I2_free

record i2s_render =
  i2_ref_cb :: bool
  i2_fixed_clock :: bool
  i2_info :: audio_info
  i2_sonic :: bool
  i2_enable :: bool
  i2_out :: "nat option"
  i2_calls :: "i2s_call list"

definition i2_call :: "i2s_call \<Rightarrow> i2s_render \<Rightarrow> i2s_render" where
  "i2_call c s = s\<lparr>i2_calls := i2_calls s @ [c]\<rparr>"

definition SAMPLE_BYTES :: "audio_info \<Rightarrow> nat" where
  "SAMPLE_BYTES i = channel i * bits_per_sample i div 8"

definition DEFALUT_SONIC_OUT_SAMPLES :: nat where "DEFALUT_SONIC_OUT_SAMPLES = 1024 * 4"

text \<open>\<open>cfg\<close> is the configuration of the right size: callback, fixed clock and whether there is a device.\<close>

definition i2s_render_init :: "(bool \<times> bool \<times> bool) option \<Rightarrow> bool \<Rightarrow> i2s_render option" where
  "i2s_render_init cfg mem =
     (case cfg of
        Some (cb, fixed, True) \<Rightarrow>
          if mem then Some \<lparr>i2_ref_cb = cb, i2_fixed_clock = fixed, i2_info = no_audio_info, i2_sonic = False, i2_enable = False, i2_out = None, i2_calls = []\<rparr>
          else None
      | _ \<Rightarrow> None)"

definition i2s_render_open :: "audio_info \<Rightarrow> int \<Rightarrow> i2s_render \<Rightarrow> int \<times> i2s_render" where
  "i2s_render_open i ret s = (let s1 = i2_call (I2_open i ret) s in (ret, if ret = 0 then s1\<lparr>i2_info := i\<rparr> else s1))"

text \<open>A round of the library that changes the speed: its code, the samples it took and what it made of them.\<close>

record sonic_round =
  sr_ret :: int
  sr_consumed :: nat
  sr_out :: "u8 list"
  sr_write :: int

definition to_device :: "u8 list \<Rightarrow> u8 list \<Rightarrow> int \<Rightarrow> i2s_render \<Rightarrow> i2s_render" where
  "to_device out d ret s = (let s1 = i2_call (I2_write out ret) s in if ret = 0 \<and> i2_ref_cb s1 then i2_call (I2_ref d) s1 else s1)"

text \<open>
  The loop: \<open>n\<close> samples are left, the input begins \<open>pos\<close> samples after the start of the data. The result is \<open>None\<close> when the
  rounds that are given do not finish it.
\<close>

fun sonic_loop :: "u8 list \<Rightarrow> nat \<Rightarrow> nat \<Rightarrow> int \<Rightarrow> sonic_round list \<Rightarrow> i2s_render \<Rightarrow> (int \<times> i2s_render) option" where
  "sonic_loop d n pos ret rs s =
     (if n = 0 then Some (ret, s)
      else case rs of
             [] \<Rightarrow> None
           | r # rs \<Rightarrow>
               let ss = SAMPLE_BYTES (i2_info s); s1 = i2_call (I2_process (take (n * ss) (drop (pos * ss) d))) s
               in if sr_ret r \<noteq> 0 then Some (-1, s1)
                  else if sr_out r = [] then Some (sr_ret r, s1)
                  else sonic_loop d (n - sr_consumed r) (sr_consumed r) (sr_write r) rs (to_device (sr_out r) d (sr_write r) s1))"

text \<open>Without a change of speed the code of the device is assigned to a variable of the inner block.\<close>

definition i2s_render_write :: "u8 list \<Rightarrow> sonic_round list \<Rightarrow> int \<Rightarrow> i2s_render \<Rightarrow> (int \<times> i2s_render) option" where
  "i2s_render_write d rs ret s =
     (if i2_enable s then
        (if SAMPLE_BYTES (i2_info s) = 0 then None
         else sonic_loop d (length d div SAMPLE_BYTES (i2_info s)) 0 0 rs s)
      else Some (0, to_device d d ret s))"

definition i2s_render_get_latency :: "int \<times> u32" where "i2s_render_get_latency = (0, 0)"

definition i2s_render_get_frame_info :: "i2s_render \<Rightarrow> int \<times> audio_info" where "i2s_render_get_frame_info s = (0, i2_info s)"

text \<open>\<open>one\<close> says that the speed is 1; the library and the allocator answer when they are asked.\<close>

definition i2s_render_set_speed :: "bool \<Rightarrow> bool \<Rightarrow> bool \<Rightarrow> i2s_render \<Rightarrow> int \<times> i2s_render" where
  "i2s_render_set_speed one opens mem s =
     (let s1 = (if \<not> one \<and> \<not> i2_sonic s
                then (i2_call (I2_alloc_out mem) (i2_call (I2_sonic_open (i2_info s) opens) s))
                  \<lparr>i2_sonic := opens, i2_out := (if mem then Some (DEFALUT_SONIC_OUT_SAMPLES * SAMPLE_BYTES (i2_info s)) else None)\<rparr>
                else s);
          s2 = (if \<not> one \<and> i2_sonic s1 \<and> i2_out s1 \<noteq> None then s1\<lparr>i2_enable := True\<rparr> else s1)
      in (0, if i2_enable s2 then i2_call I2_sonic_speed s2 else s2))"

definition i2s_render_close :: "i2s_render \<Rightarrow> int \<times> i2s_render" where
  "i2s_render_close s =
     (let s1 = i2_call I2_close s;
          s2 = (if i2_sonic s1 then (i2_call I2_sonic_close s1)\<lparr>i2_sonic := False\<rparr> else s1);
          s3 = (if i2_out s2 \<noteq> None then (i2_call I2_free_out s2)\<lparr>i2_out := None\<rparr> else s2)
      in (0, s3\<lparr>i2_enable := False\<rparr>))"

definition i2s_render_deinit :: "i2s_render \<Rightarrow> i2s_render" where "i2s_render_deinit s = i2_call I2_free s"

section \<open>The display\<close>

datatype lcd_call = Lc_register | Lc_draw nat nat nat nat "u8 list" int | Lc_free

record lcd_render =
  lc_info :: frame_info
  lc_rgb :: bool
  lc_dsi :: bool
  lc_fb0 :: "nat option"
  lc_fb1 :: "nat option"
  lc_sel :: bool
  lc_start_time :: u32
  lc_frame_num :: u8
  lc_drawing :: bool
  lc_calls :: "lcd_call list"

definition lc_call :: "lcd_call \<Rightarrow> lcd_render \<Rightarrow> lcd_render" where
  "lc_call c s = s\<lparr>lc_calls := lc_calls s @ [c]\<rparr>"

definition lc_freed :: "lcd_render \<Rightarrow> bool" where "lc_freed s \<longleftrightarrow> Lc_free \<in> set (lc_calls s)"

text \<open>The interrupt; its context is the structure, also when that was released.\<close>

definition draw_finished :: "lcd_render \<Rightarrow> lcd_render option" where
  "draw_finished s = (if lc_freed s then None else Some (s\<lparr>lc_drawing := False\<rparr>))"

text \<open>
  \<open>fbs\<close> are the frame buffers of the panel, when the configuration asks for them (the ESP32-P4 has them for DSI panels
  only). When they are missing the structure is closed again.
\<close>

definition lcd_render_open :: "(bool \<times> bool \<times> bool) option \<Rightarrow> bool \<Rightarrow> nat option \<times> nat option \<Rightarrow> lcd_render option" where
  "lcd_render_open cfg mem fbs =
     (case cfg of
        None \<Rightarrow> None
      | Some (rgb, dsi, use_fb) \<Rightarrow>
          if \<not> mem then None
          else let (a, b) = (if use_fb \<and> dsi then fbs else (None, None))
            in if use_fb \<and> a = None then None
               else Some \<lparr>lc_info = no_frame_info, lc_rgb = rgb, lc_dsi = dsi, lc_fb0 = a, lc_fb1 = b, lc_sel = False, lc_start_time = 0, lc_frame_num = 0,
                      lc_drawing = False, lc_calls = [Lc_register]\<rparr>)"

text \<open>Without a handle the function returns an error code, which is true.\<close>

definition lcd_render_format_supported :: "frame_type \<Rightarrow> lcd_render option \<Rightarrow> bool" where
  "lcd_render_format_supported t h = (case h of None \<Rightarrow> True | Some s \<Rightarrow> t = RAW_TYPE_RGB565)"

definition lcd_render_set_frame_info :: "frame_info \<Rightarrow> lcd_render \<Rightarrow> int \<times> lcd_render" where
  "lcd_render_set_frame_info i s =
     (if \<not> lcd_render_format_supported (fi_type i) (Some s) then (ESP_MEDIA_ERR_NOT_SUPPORT, s) else (0, s\<lparr>lc_info := i\<rparr>))"

text \<open>The statistics, before a frame is drawn; \<open>t\<close> and \<open>t'\<close> are the times of the two readings of the clock.\<close>

definition lcd_statistics :: "u32 \<Rightarrow> u32 \<Rightarrow> lcd_render \<Rightarrow> lcd_render option" where
  "lcd_statistics t t' s =
     (let s1 = (if lc_start_time s = 0 \<or> lc_frame_num s = 0 then s\<lparr>lc_start_time := t\<rparr> else s);
          s2 = s1\<lparr>lc_frame_num := lc_frame_num s1 + 1\<rparr>
      in if lc_start_time s2 + 1000000 < t'
         then (if t' - lc_start_time s2 = 0 then None else Some (s2\<lparr>lc_start_time := t', lc_frame_num := 0\<rparr>))
         else Some s2)"

text \<open>The part behind the wait for the last drawing.\<close>

definition lcd_draw :: "u8 list \<Rightarrow> int \<Rightarrow> lcd_render \<Rightarrow> int \<times> lcd_render" where
  "lcd_draw d ret s =
     (let s1 = s\<lparr>lc_drawing := True\<rparr>; i = lc_info s1
      in if fi_type i = RAW_TYPE_RGB565 \<or> fi_type i = RAW_TYPE_RGB565_BE then
           (if length d < fi_width i * fi_height i * 2 then (AV_ERR_INVALID_ARG, s1)
            else let s2 = (if lc_fb0 s1 \<noteq> None then s1\<lparr>lc_sel := \<not> lc_sel s1\<rparr> else s1)
              in (ret, lc_call (Lc_draw 0 0 (fi_width i) (fi_height i) d ret) s2))
         else (ESP_MEDIA_ERR_NOT_SUPPORT, s1))"

datatype lcd_result = Lcd_done int lcd_render | Lcd_waits lcd_render

definition lcd_render_write :: "u32 \<Rightarrow> u32 \<Rightarrow> u8 list \<Rightarrow> int \<Rightarrow> lcd_render \<Rightarrow> lcd_result option" where
  "lcd_render_write t t' d ret s =
     (if d = [] then Some (Lcd_done AV_ERR_INVALID_ARG s)
      else lcd_statistics t t' s \<bind> (\<lambda>s1. if lc_drawing s1 then Some (Lcd_waits s1) else Some (case lcd_draw d ret s1 of (r, s2) \<Rightarrow> Lcd_done r s2)))"

definition lcd_render_get_frame_buffer :: "lcd_render \<Rightarrow> int \<times> (nat \<times> nat) option" where
  "lcd_render_get_frame_buffer s =
     (case lc_fb0 s of
        None \<Rightarrow> (ESP_MEDIA_ERR_NOT_SUPPORT, None)
      | Some a \<Rightarrow> (0, Some (case (if lc_sel s then lc_fb1 s else lc_fb0 s) of None \<Rightarrow> a | Some b \<Rightarrow> b, fi_width (lc_info s) * fi_height (lc_info s) * 2)))"

definition lcd_render_get_latency :: "int \<times> u32" where "lcd_render_get_latency = (0, 0)"

definition lcd_render_get_frame_info :: "lcd_render \<Rightarrow> int \<times> frame_info" where "lcd_render_get_frame_info s = (0, lc_info s)"

text \<open>The frame buffer is set to zero and its first pixel drawn; without one the ESP32-P4 does nothing.\<close>

definition lcd_render_clear :: "int \<Rightarrow> lcd_render \<Rightarrow> lcd_render" where
  "lcd_render_clear ret s =
     (if fi_width (lc_info s) \<noteq> 0 \<and> (if lc_sel s then lc_fb1 s else lc_fb0 s) \<noteq> None
      then lc_call (Lc_draw 0 0 1 1 (replicate (fi_width (lc_info s) * fi_height (lc_info s) * 2) 0) ret) s else s)"

definition lcd_render_close :: "int \<Rightarrow> lcd_render \<Rightarrow> lcd_render" where
  "lcd_render_close ret s = lc_call Lc_free (lcd_render_clear ret s)"

section \<open>The change of speed\<close>

text \<open>What the library is given to work on.\<close>

definition processed :: "i2s_render \<Rightarrow> u8 list list" where
  "processed s = concat (map (\<lambda>c. case c of I2_process d \<Rightarrow> [d] | _ \<Rightarrow> []) (i2_calls s))"

lemma i2_call_sel [simp]:
  "i2_info (i2_call c s) = i2_info s" "i2_enable (i2_call c s) = i2_enable s" "i2_ref_cb (i2_call c s) = i2_ref_cb s"
  "i2_calls (i2_call c s) = i2_calls s @ [c]" "i2_sonic (i2_call c s) = i2_sonic s" "i2_out (i2_call c s) = i2_out s"
  by (simp_all add: i2_call_def)

lemma processed_simps [simp]:
  "processed (i2_call c s) = processed s @ (case c of I2_process d \<Rightarrow> [d] | _ \<Rightarrow> [])"
  "processed (to_device out d r s) = processed s" "i2_info (to_device out d r s) = i2_info s"
  by (simp_all add: processed_def to_device_def Let_def)

text \<open>
  The pointer to the samples that are left is computed from the start of the data and the samples of the last round alone:
  when the library needs three rounds, the third is given samples it has had, and the end of the data is never played.
\<close>

theorem speed_change_repeats_samples:
  assumes "i2_enable s" "SAMPLE_BYTES (i2_info s) = b" "0 < b" "0 < c" "length d = 3 * c * b"
    "\<forall>r \<in> {r1, r2, r3}. sr_ret r = 0 \<and> sr_consumed r = c \<and> sr_out r \<noteq> []"
  shows "\<exists>r s'. i2s_render_write d [r1, r2, r3] ret s = Some (r, s') \<and>
    processed s' = processed s @ [d, drop (c * b) d, take (c * b) (drop (c * b) d)]"
proof -
  have n: "length d div b = 3 * c" using assms(3,5) by simp
  have "take (3 * (c * b)) d = d" "take (2 * (c * b)) (drop (c * b) d) = drop (c * b) d" using assms(5) by simp_all
  then show ?thesis using assms(1-4,6) n by (simp add: i2s_render_write_def Let_def mult.assoc numeral_3_eq_3 add_mult_distrib)
qed

theorem speed_change_repeats_samples_witness:
  "\<exists>r s'. i2s_render_write [1, 2, 3] (replicate 3 \<lparr>sr_ret = 0, sr_consumed = 1, sr_out = [9], sr_write = 0\<rparr>) 0
      \<lparr>i2_ref_cb = False, i2_fixed_clock = False, i2_info = \<lparr>channel = 1, bits_per_sample = 8, sample_rate = 8000\<rparr>, i2_sonic = True, i2_enable = True,
       i2_out = Some 4096, i2_calls = []\<rparr> = Some (r, s') \<and>
    processed s' = [[1, 2, 3], [2, 3], [2]]"
  using speed_change_repeats_samples [of "\<lparr>i2_ref_cb = False, i2_fixed_clock = False, i2_info = \<lparr>channel = 1, bits_per_sample = 8, sample_rate = 8000\<rparr>,
      i2_sonic = True, i2_enable = True, i2_out = Some 4096, i2_calls = []\<rparr>" 1 1 "[1, 2, 3]"
      "\<lparr>sr_ret = 0, sr_consumed = 1, sr_out = [9], sr_write = 0\<rparr>" "\<lparr>sr_ret = 0, sr_consumed = 1, sr_out = [9], sr_write = 0\<rparr>"
      "\<lparr>sr_ret = 0, sr_consumed = 1, sr_out = [9], sr_write = 0\<rparr>" 0]
  by (simp add: SAMPLE_BYTES_def processed_def numeral_3_eq_3)

text \<open>At normal speed a device that refuses the samples is not noticed: the renderer goes on as if they had been played.\<close>

theorem i2s_write_error_hidden:
  assumes "\<not> i2_enable s"
  shows "i2s_render_write d rs ret s = Some (0, to_device d d ret s)"
  using assms by (simp add: i2s_render_write_def)

theorem i2s_write_error_hidden_witness:
  "\<exists>s'. i2s_render_write [1] [] (-1)
      \<lparr>i2_ref_cb = True, i2_fixed_clock = False, i2_info = no_audio_info, i2_sonic = False, i2_enable = False, i2_out = None, i2_calls = []\<rparr> = Some (0, s') \<and>
    i2_calls s' = [I2_write [1] (-1)]"
  using i2s_write_error_hidden [of "\<lparr>i2_ref_cb = True, i2_fixed_clock = False, i2_info = no_audio_info, i2_sonic = False, i2_enable = False, i2_out = None, i2_calls = []\<rparr>" "[1]" "[]" "-1"]
  by (simp add: to_device_def i2_call_def)

section \<open>One drawing at a time\<close>

text \<open>
  The thread of the renderer and the controller of the display: the thread waits inside \<open>lcd_render_write\<close> with the frame
  it was given. The controller finishes what it was asked to draw.
\<close>

datatype writer_pc = Wr_idle | Wr_waiting "u8 list" int

record display_sys =
  ds_lcd :: lcd_render
  ds_pc :: writer_pc
  ds_finished :: nat

datatype display_event = De_write u32 u32 "u8 list" int | De_poll | De_finished

definition accepted_draws :: "lcd_render \<Rightarrow> nat" where
  "accepted_draws s = length (filter (\<lambda>c. case c of Lc_draw x y x' y' d r \<Rightarrow> r = 0 | _ \<Rightarrow> False) (lc_calls s))"

fun display_step :: "display_sys \<Rightarrow> display_event \<Rightarrow> display_sys option" where
  "display_step s (De_write t t' d ret) =
     (if ds_pc s \<noteq> Wr_idle then Some s
      else case lcd_render_write t t' d ret (ds_lcd s) of
             None \<Rightarrow> None
           | Some (Lcd_done r l) \<Rightarrow> Some (s\<lparr>ds_lcd := l\<rparr>)
           | Some (Lcd_waits l) \<Rightarrow> Some (s\<lparr>ds_lcd := l, ds_pc := Wr_waiting d ret\<rparr>))"
| "display_step s De_poll =
     (case ds_pc s of
        Wr_idle \<Rightarrow> Some s
      | Wr_waiting d ret \<Rightarrow> if lc_drawing (ds_lcd s) then Some s else Some (s\<lparr>ds_lcd := snd (lcd_draw d ret (ds_lcd s)), ds_pc := Wr_idle\<rparr>))"
| "display_step s De_finished =
     (if ds_finished s < accepted_draws (ds_lcd s) then map_option (\<lambda>l. s\<lparr>ds_lcd := l, ds_finished := ds_finished s + 1\<rparr>) (draw_finished (ds_lcd s))
      else Some s)"

text \<open>The clock is read in order and is not in the last second before it wraps.\<close>

fun clock_ok :: "display_event \<Rightarrow> bool" where
  "clock_ok (De_write t t' d ret) \<longleftrightarrow> t < 4293967296 \<and> t' < 4293967296"
| "clock_ok _ \<longleftrightarrow> True"

definition display_inv :: "display_sys \<Rightarrow> bool" where
  "display_inv s \<longleftrightarrow> \<not> lc_freed (ds_lcd s) \<and> lc_start_time (ds_lcd s) < 4293967296 \<and>
     ds_finished s \<le> accepted_draws (ds_lcd s) \<and> accepted_draws (ds_lcd s) \<le> ds_finished s + (if lc_drawing (ds_lcd s) then 1 else 0)"

lemma statistics_total:
  assumes "t < 4293967296" "t' < 4293967296" "lc_start_time s < 4293967296"
  shows "\<exists>s'. lcd_statistics t t' s = Some s' \<and> lc_start_time s' < 4293967296 \<and> lc_calls s' = lc_calls s \<and> lc_drawing s' = lc_drawing s \<and> lc_info s' = lc_info s \<and>
    lc_fb0 s' = lc_fb0 s"
proof -
  have "x < (4293967296 :: u32) \<Longrightarrow> x + 1000000 < y \<Longrightarrow> y - x \<noteq> 0" for x y :: u32
    by (auto simp: word_less_nat_alt unat_word_ariths)
  then show ?thesis using assms by (auto simp: lcd_statistics_def Let_def)
qed

lemma draw_effect:
  "lc_drawing (snd (lcd_draw d ret s))" "lc_start_time (snd (lcd_draw d ret s)) = lc_start_time s" "lc_freed (snd (lcd_draw d ret s)) = lc_freed s"
  "accepted_draws s \<le> accepted_draws (snd (lcd_draw d ret s))" "accepted_draws (snd (lcd_draw d ret s)) \<le> accepted_draws s + 1"
  by (auto simp: lcd_draw_def Let_def lc_call_def lc_freed_def accepted_draws_def)

lemma draw_keeps_inv:
  assumes "display_inv (s\<lparr>ds_lcd := l\<rparr>)" "\<not> lc_drawing l"
  shows "display_inv (s\<lparr>ds_lcd := snd (lcd_draw d ret l)\<rparr>)"
  using assms draw_effect [where d = d and ret = ret and s = l] by (simp add: display_inv_def)

lemma display_step_inv:
  assumes "display_inv s" "clock_ok e"
  shows "\<exists>s'. display_step s e = Some s' \<and> display_inv s'"
proof (cases e)
  case (De_write t t' d ret)
  show ?thesis
  proof (cases "ds_pc s \<noteq> Wr_idle \<or> d = []")
    case True
    then show ?thesis using De_write assms by (auto simp: lcd_render_write_def)
  next
    case False
    from statistics_total [of t t' "ds_lcd s"] De_write assms obtain l where l: "lcd_statistics t t' (ds_lcd s) = Some l"
      "lc_start_time l < 4293967296" "lc_calls l = lc_calls (ds_lcd s)" "lc_drawing l = lc_drawing (ds_lcd s)" by (auto simp: display_inv_def)
    then have "display_inv (s\<lparr>ds_lcd := l\<rparr>)" using assms(1) by (auto simp: display_inv_def lc_freed_def accepted_draws_def)
    note inv = this
    show ?thesis
    proof (cases "lc_drawing l")
      case True
      then have "display_step s e = Some (s\<lparr>ds_lcd := l, ds_pc := Wr_waiting d ret\<rparr>)"
        using False De_write l(1) by (simp add: lcd_render_write_def)
      then show ?thesis using inv by (simp add: display_inv_def)
    next
      case free: False
      then have "display_step s e = Some (s\<lparr>ds_lcd := snd (lcd_draw d ret l)\<rparr>)"
        using False De_write l(1) by (simp add: lcd_render_write_def case_prod_unfold)
      then show ?thesis using draw_keeps_inv [OF inv] free by simp
    qed
  qed
next
  case De_poll
  show ?thesis
  proof (cases "ds_pc s")
    case (Wr_waiting d ret)
    show ?thesis
    proof (cases "lc_drawing (ds_lcd s)")
      case False
      have "display_inv (s\<lparr>ds_lcd := ds_lcd s\<rparr>)" using assms(1) by simp
      from draw_keeps_inv [OF this False, of d ret] have "display_inv (s\<lparr>ds_lcd := snd (lcd_draw d ret (ds_lcd s)), ds_pc := Wr_idle\<rparr>)"
        by (simp add: display_inv_def)
      then show ?thesis using De_poll Wr_waiting False by simp
    qed (use De_poll Wr_waiting assms in simp)
  qed (use De_poll assms in simp)
next
  case De_finished
  then show ?thesis using assms(1)
    by (auto simp: display_inv_def draw_finished_def lc_freed_def accepted_draws_def split: if_splits)
qed

interpretation display: simulation display_step "\<lambda>s (u :: unit). display_inv s" "\<lambda>u _. u" "\<lambda>_. clock_ok"
  by unfold_locales (rule display_step_inv)

lemma clock_path: "list_all clock_ok es \<Longrightarrow> path_ok (\<lambda>_. clock_ok) f a es"
  by (induction es arbitrary: a) simp_all

definition sample_lcd :: lcd_render where
  "sample_lcd = \<lparr>lc_info = \<lparr>fi_type = RAW_TYPE_RGB565, fi_width = 1, fi_height = 1, fi_fps = 0\<rparr>, lc_rgb = False, lc_dsi = True, lc_fb0 = None, lc_fb1 = None,
     lc_sel = False, lc_start_time = 0, lc_frame_num = 0, lc_drawing = False, lc_calls = [Lc_register]\<rparr>"

definition sample_display :: display_sys where
  "sample_display = \<lparr>ds_lcd = sample_lcd, ds_pc = Wr_idle, ds_finished = 0\<rparr>"

lemma sample_display_inv: "display_inv sample_display"
  by (simp add: display_inv_def sample_display_def sample_lcd_def lc_freed_def accepted_draws_def)

text \<open>
  The display is never asked to draw while it draws: in every interleaving of frames, of the waiting and of the interrupt at
  most one drawing is not finished, and nothing crashes.
\<close>

theorem display_draws_one_at_a_time:
  assumes "display_inv s" "list_all clock_ok es"
  shows "\<exists>s'. run_events display_step s es = Some s' \<and>
    ds_finished s' \<le> accepted_draws (ds_lcd s') \<and> accepted_draws (ds_lcd s') \<le> ds_finished s' + 1"
proof -
  have "\<exists>s'. run_events display_step s es = Some s' \<and> display_inv s'"
    using display.run_sim [OF assms(1) clock_path [OF assms(2)]] by simp
  then show ?thesis by (auto simp: display_inv_def split: if_splits)
qed

theorem display_draws_one_at_a_time_witness:
  "\<exists>s'. run_events display_step sample_display [De_write 5 6 [1, 2] 0, De_write 40 41 [3, 4] 0, De_poll, De_finished, De_poll] = Some s' \<and>
    ds_finished s' \<le> accepted_draws (ds_lcd s') \<and> accepted_draws (ds_lcd s') \<le> ds_finished s' + 1"
  by (rule display_draws_one_at_a_time [OF sample_display_inv]) simp

text \<open>A display that waits for a drawing that was never begun.\<close>

definition dead_display :: "display_sys \<Rightarrow> nat \<Rightarrow> bool" where
  "dead_display s n \<longleftrightarrow> display_inv s \<and> lc_drawing (ds_lcd s) \<and> ds_finished s = n \<and> accepted_draws (ds_lcd s) = n"

lemma dead_display_step:
  assumes "dead_display s n" "clock_ok e"
  shows "\<exists>s'. display_step s e = Some s' \<and> dead_display s' n"
proof (cases e)
  case (De_write t t' d ret)
  show ?thesis
  proof (cases "ds_pc s \<noteq> Wr_idle \<or> d = []")
    case True
    then show ?thesis using De_write assms by (auto simp: lcd_render_write_def)
  next
    case False
    from statistics_total [of t t' "ds_lcd s"] De_write assms obtain l where l: "lcd_statistics t t' (ds_lcd s) = Some l"
      "lc_start_time l < 4293967296" "lc_calls l = lc_calls (ds_lcd s)" "lc_drawing l = lc_drawing (ds_lcd s)"
      by (auto simp: dead_display_def display_inv_def)
    then show ?thesis using False De_write assms(1)
      by (auto simp: lcd_render_write_def dead_display_def display_inv_def lc_freed_def accepted_draws_def)
  qed
qed (use assms in \<open>auto simp: dead_display_def split: writer_pc.splits\<close>)

interpretation dead: simulation display_step dead_display "\<lambda>n _. n" "\<lambda>_. clock_ok"
  by unfold_locales (rule dead_display_step)

text \<open>
  One frame that is too small, or that the panel refuses, stops the display for good: the flag that a drawing is under way
  is set before the frame is looked at, and no interrupt will ever clear it. The thread waits for ever with the next frame.
\<close>

theorem refused_frame_stops_display:
  assumes "display_inv s" "ds_pc s = Wr_idle" "\<not> lc_drawing (ds_lcd s)" "d \<noteq> []"
    "length d < fi_width (lc_info (ds_lcd s)) * fi_height (lc_info (ds_lcd s)) * 2 \<or> ret \<noteq> 0"
    "clock_ok (De_write t t' d ret)" "list_all clock_ok es"
  shows "\<exists>s'. run_events display_step s (De_write t t' d ret # es) = Some s' \<and> accepted_draws (ds_lcd s') = accepted_draws (ds_lcd s)"
proof -
  let ?n = "accepted_draws (ds_lcd s)"
  from statistics_total [of t t' "ds_lcd s"] assms(1,6) obtain l where l: "lcd_statistics t t' (ds_lcd s) = Some l"
    "lc_start_time l < 4293967296" "lc_calls l = lc_calls (ds_lcd s)" "lc_drawing l = lc_drawing (ds_lcd s)" "lc_info l = lc_info (ds_lcd s)"
    by (auto simp: display_inv_def)
  have a: "accepted_draws (snd (lcd_draw d ret l)) = ?n"
    using assms(5) l(3,5) by (auto simp: lcd_draw_def Let_def lc_call_def accepted_draws_def)
  let ?s = "s\<lparr>ds_lcd := snd (lcd_draw d ret l)\<rparr>"
  have "display_step s (De_write t t' d ret) = Some ?s"
    using assms(2-4) l by (simp add: lcd_render_write_def split: prod.splits)
  moreover have "dead_display ?s ?n"
    using assms(1,3) l a draw_effect [where d = d and ret = ret and s = l] by (auto simp: dead_display_def display_inv_def lc_freed_def accepted_draws_def)
  moreover have "foldl (\<lambda>n _. n) ?n es = ?n" by (induction es) simp_all
  ultimately show ?thesis using dead.run_sim [of ?s ?n es, OF _ clock_path [OF assms(7)]] by (auto simp: dead_display_def)
qed

theorem refused_frame_stops_display_witness:
  "\<exists>s'. run_events display_step sample_display [De_write 5 6 [1] 0, De_finished, De_write 40 41 [3, 4] 0, De_poll, De_finished, De_poll] = Some s' \<and>
    accepted_draws (ds_lcd s') = 0"
  using refused_frame_stops_display [OF sample_display_inv, of "[1]" 0 5 6 "[De_finished, De_write 40 41 [3, 4] 0, De_poll, De_finished, De_poll]"]
  by (simp add: sample_display_def sample_lcd_def accepted_draws_def del: run_events.simps)

text \<open>Closing the display does not wait for it: the interrupt that ends its last drawing works on released memory.\<close>

theorem close_while_drawing:
  assumes "ds_finished s < accepted_draws (ds_lcd s)"
  shows "display_step (s\<lparr>ds_lcd := lcd_render_close ret (ds_lcd s)\<rparr>) De_finished = None"
proof -
  have "accepted_draws (ds_lcd s) \<le> accepted_draws (lcd_render_close ret (ds_lcd s))"
    by (simp add: accepted_draws_def lcd_render_close_def lcd_render_clear_def lc_call_def)
  moreover have "lc_freed (lcd_render_close ret (ds_lcd s))" by (simp add: lc_freed_def lcd_render_close_def lc_call_def)
  ultimately show ?thesis using assms by (simp add: draw_finished_def)
qed

theorem close_while_drawing_witness:
  "display_step (sample_display\<lparr>ds_lcd := lcd_render_close 0 (sample_lcd\<lparr>lc_calls := [Lc_draw 0 0 1 1 [1, 2] 0]\<rparr>)\<rparr>) De_finished = None"
  using close_while_drawing [of "sample_display\<lparr>ds_lcd := sample_lcd\<lparr>lc_calls := [Lc_draw 0 0 1 1 [1, 2] 0]\<rparr>\<rparr>" 0]
  by (simp add: sample_display_def accepted_draws_def)

text \<open>In the last second before the clock wraps the statistics may divide by zero: two readings in the same microsecond.\<close>

theorem lcd_clock_wrap:
  assumes "lc_frame_num s = 0" "4293967296 \<le> t"
  shows "lcd_statistics t t s = None"
proof -
  have l: "unat t < 4294967296" "4293967296 \<le> unat t" using assms(2) unsigned_less [of t, where 'a = nat] by (simp_all add: word_le_nat_alt)
  then have "(unat t + 1000000) mod 4294967296 = unat t + 1000000 - 4294967296" by (simp add: le_mod_geq)
  then have "t + 1000000 < t" using l by (simp add: word_less_nat_alt unat_word_ariths)
  then show ?thesis using assms(1) by (simp add: lcd_statistics_def)
qed

theorem lcd_clock_wrap_witness: "lcd_statistics 0xFFFFFFFF 0xFFFFFFFF sample_lcd = None"
  by (rule lcd_clock_wrap) (simp_all add: sample_lcd_def)

end
