(* ===== verification/Spec2Isabelle.thy ===== *)
theory Spec2Isabelle
  imports Can_Bus Motor_Control Servo_Control App_Commands Data_Queue Msg_Queue Rtp_Transform Webrtc_Session
    Data_Channels Webrtc_App Mqtt_Bridge Control_Loop Janus_Signal Color_Convert Audio_Resample Board_Config Mem_History Mem_Trace Render_Sinks Av_Packets Av_Sync Audio_Decoder Video_Decoder Render_Threads Ble_Server Av_Audio Av_Video Render_Drivers
begin

text \<open>
  A model of the firmware of \<^emph>\<open>MapMindAI/Esp32Demos\<close> and the theorems that make its parts correct.

  \<^bold>\<open>The program.\<close> Three devices and a gateway. The ESP32-P4 (\<open>IDF_esp32p4_webrtc\<close>) runs a WebRTC session
  with a web client through a Janus server, listens to MQTT, and turns the commands it hears into frames on a
  CAN bus. The robot controller (\<open>IDF_robot_control\<close>) turns them into motor motion, the ESP32-C3
  (\<open>IDF_esp32c3_servo_control\<close>) into servo angles. Below the session lie the media libraries: queues,
  colour conversion, resampling, the board description and the memory tracer.

  \<^bold>\<open>How a command travels.\<close> \<open>Mqtt_Bridge\<close> or a data channel (\<open>Webrtc_Session\<close>) hands a text to
  \<open>Control_Loop\<close> or \<open>App_Commands\<close>; \<open>App_Commands\<close> sends CAN messages (\<open>Can_Bus\<close>); \<open>Motor_Control\<close> and
  \<open>Servo_Control\<close> receive them. A Bluetooth client (\<open>Ble_Server\<close>) reaches the message handler of \<open>Motor_Control\<close>
  without the bus. The properties of this theory follow the way from end to end.

  \<^bold>\<open>Theories and sources\<close> (paths under \<open>src/\<close>, \<open>C\<close> is \<open>IDF_esp32p4_webrtc/components\<close>, \<open>M\<close> is
  \<open>IDF_esp32p4_webrtc/main\<close>):
  \<^item> \<open>Esp_Prelude\<close>: words, little-endian bytes, C string functions, runs of event-driven machines, and the
    interfaces \<open>safe_machine\<close>, \<open>event_machine\<close>, \<open>simulation\<close>, \<open>fifo\<close>, \<open>bounded_fifo\<close>.
  \<^item> \<open>Can_Bus\<close>: \<open>submodules/robot_canbus/lib\<close>. The record \<open>canbus\<close> keeps the handler and the send queue.
  \<^item> \<open>Motor_Control\<close>: \<open>IDF_robot_control/main/control/control_callback.c\<close>. The record \<open>motor\<close> is the
    requested motion with its lock; an event is a CAN or text message, a pass of the task or a poll of the watchdog.
    The direction only changes at speed 0, every request is reached, the watchdog stops the wheels.
  \<^item> \<open>Servo_Control\<close>: \<open>IDF_esp32c3_servo_control/main/servo_control.c\<close>. Angles stay in range, duties
    stand for the angles, outputs are switched off when idle.
  \<^item> \<open>App_Commands\<close>, \<open>Rtp_Transform\<close>, \<open>Data_Channels\<close>, \<open>Webrtc_App\<close>: \<open>M/webrtc.c\<close>, in the order of
    its parts: the command dispatcher and door bell; the transformer of RTP frames with its round trip; the
    table of data channels; start, stop and retry of the session.
  \<^item> \<open>Mqtt_Bridge\<close>: \<open>M/mqtt_bridge.c\<close>; \<open>Control_Loop\<close>: \<open>M/main.c\<close>, the supervision of the session.
  \<^item> \<open>Data_Queue\<close>, \<open>Msg_Queue\<close>: \<open>C/media_lib_sal/port/data_queue.c\<close> and \<open>msg_q.c\<close>. The ring
    buffers, byte by byte, implement the FIFO interfaces.
  \<^item> \<open>Webrtc_Session\<close>: \<open>C/esp_webrtc/src/esp_webrtc.c\<close> with the wrappers it calls.
  \<^item> \<open>Janus_Signal\<close>: \<open>C/esp_webrtc/impl/janus_signal/janus_signaling.c\<close>, its start, poll thread and stop.
  \<^item> \<open>Color_Convert\<close>, \<open>Audio_Resample\<close>: \<open>C/av_render/src/color_convert.c\<close>, \<open>audio_resample.c\<close>.
  \<^item> \<open>Board_Config\<close>: \<open>C/codec_board/cfg_parse.c\<close>, \<open>codec_board.c\<close>, the parser of board descriptions.
  \<^item> \<open>Mem_History\<close>, \<open>Mem_Trace\<close>: \<open>C/media_lib_sal/mem_trace\<close> and the decoder in \<open>mem_trace.pl\<close>.
  \<^item> \<open>Render_Sinks\<close>: \<open>C/av_render/src/audio_render.c\<close> and \<open>video_render.c\<close>. The records \<open>audio_sink\<close> and
    \<open>video_sink\<close> refine a reference count (\<open>counted_sink\<close>).
  \<^item> \<open>Audio_Decoder\<close>, \<open>Video_Decoder\<close>: \<open>C/av_render/src/audio_decoder.c\<close> and \<open>video_decoder.c\<close>. Decoding with a
    growing buffer equals decoding without one; no block is released twice; fetched frame buffers are returned.
  \<^item> \<open>Av_Packets\<close>, \<open>Av_Sync\<close>, \<open>Render_Threads\<close>: \<open>C/av_render/src/av_render.c\<close>: the packets in its data queues
    (over \<open>Data_Queue\<close>), its clocks, and its threads with flush and reset, in all interleavings.
  \<^item> \<open>Av_Audio\<close>: the audio side of \<open>av_render.c\<close>: \<open>audio_path\<close> carries a packet from \<open>av_render_add_audio_data\<close>
    over the decoder, the resampler and the queue to the sink; no frame and no block of a pool is lost or used twice.
  \<^item> \<open>Ble_Server\<close>: \<open>IDF_robot_control/main/ble/ble_client.c\<close>. The server (\<open>ble_server\<close>) reacts to the events of the
    Bluetooth stack; it stays inside its buffers whatever a peer sends, and agrees with the view of its peer.

  \<^bold>\<open>How code is modelled.\<close> A structure is a record, an enumeration a datatype, an unsigned integer a word
  where it can wrap and a number where its range is shown to suffice. Calls into FreeRTOS, the drivers, the WebRTC
  peer, HTTP, JSON or codec libraries, whose sources are not in the repository, are recorded in a list in the
  order in which they are made; what they return is an argument. A section under a mutex is one step; code
  that is not under a lock is split at every access to shared data, and an event list gives the interleaving.
  An abort, a null pointer or an access outside a buffer is a result of its own (\<open>None\<close> or \<open>Crash\<close>), so is
  a wait that cannot end (\<open>Blocked\<close>, \<open>Deadlock\<close>).

  \<^bold>\<open>What the lemmas show.\<close> For each machine an invariant that every step keeps, and that no step crashes
  under the stated use (interpretations of \<open>safe_machine\<close>, \<open>event_machine\<close>); for containers the refinement of
  lists and maps (\<open>fifo\<close>, \<open>simulation\<close>); for the converters equality with a reference definition; for
  codecs and parsers round trips; for loops that they end. Where the code does not do what it means to,
  the theorem states what it does, and the manifest lists it as a finding.

  \<^bold>\<open>Bounds and fuel.\<close> Loops over data recurse on the data. Loops that may not end take fuel or are
  \<open>partial_function\<close>s into \<open>option\<close>: \<open>parse_cfg\<close> (one pass more than lines is enough,
  \<open>board_config_terminates\<close>; without a closing brace none is, \<open>unclosed_line_hangs\<close>), \<open>decoder_one_frame\<close> (it ends for a codec that consumes input, \<open>adec_decodes_all\<close>; \<open>adec_stalls\<close>), \<open>get_section_data\<close> (the
  length of the text bounds the boards), \<open>parse_file\<close> (one more than the records), the loops of
  \<open>Data_Queue\<close> (total on every well-formed queue). Waits take the list of what other tasks do meanwhile.

  \<^bold>\<open>Not modelled.\<close> The examples, the RTSP demonstration and the alternative signalling clients, which the
  configuration does not build; adapters that only forward to the ESP-IDF; driver set-up without logic; DTLS and
  SRTP, a layer over libraries that are not in the repository. Logging and printing are left out throughout. Timing is not
  modelled beyond the clock values the code reads.
\<close>

section \<open>From the web client to the motors and servos\<close>

text \<open>
  The movement commands of the web client and the motion each one asks for, and the servo commands
  with the change of the left/right and of the up/down angle for a step \<open>k\<close>.
\<close>

definition motion_commands :: "(string \<times> motion_cmd) list" where
  "motion_commands =
     [(''ROBOT_UP'', MOTION_FORWARD), (''ROBOT_DOWN'', MOTION_BACKWARD), (''ROBOT_LEFT'', MOTION_LEFT),
      (''ROBOT_RIGHT'', MOTION_RIGHT), (''ROBOT_ROTATE_LEFT'', MOTION_ROTATE_LEFT),
      (''ROBOT_ROTATE_RIGHT'', MOTION_ROTATE_RIGHT), (''ROBOT_STOP'', MOTION_STOP)]"

definition servo_commands :: "int \<Rightarrow> (string \<times> int \<times> int) list" where
  "servo_commands k =
     [(''SERVO_UP'', 0, - k), (''SERVO_DOWN'', 0, k), (''SERVO_LEFT'', k, 0), (''SERVO_RIGHT'', - k, 0)]"

definition motion_type :: "motion_cmd \<Rightarrow> u8" where
  "motion_type m =
     (case m of MOTION_FORWARD \<Rightarrow> 8 | MOTION_BACKWARD \<Rightarrow> 2 | MOTION_LEFT \<Rightarrow> 4 | MOTION_RIGHT \<Rightarrow> 6
      | MOTION_ROTATE_LEFT \<Rightarrow> 7 | MOTION_ROTATE_RIGHT \<Rightarrow> 9 | MOTION_STOP \<Rightarrow> 5)"

lemma motion_commands_pass:
  "list_all (\<lambda>(cmd, m). ProcessServoConfigCommand cmd a = (False, a)) motion_commands"
  "list_all (\<lambda>(cmd, m). ProcessMoveConfigCommand cmd a = (False, a)) motion_commands"
  "list_all (\<lambda>(cmd, m). ProcessServoCommand cmd a = (False, a)) motion_commands"
  "list_all (\<lambda>(cmd, m). ProcessMoveCommand cmd a =
      (True, send_can (motion_type m) (if m = MOTION_STOP then 0 else current_velocity a) a)) motion_commands"
  by (simp_all add: motion_commands_def motion_type_def ProcessServoConfigCommand_def
      ProcessMoveConfigCommand_def ProcessServoCommand_def ProcessMoveCommand_def is_cmd_def strncmp_eq_def)

lemma motion_command_sent:
  assumes "(cmd, m) \<in> set motion_commands" "webrtc_open a" "len \<noteq> 0"
  shows "door_bell_on_cmd VIA_SIGNALING cmd len a =
    send_can (motion_type m) (if m = MOTION_STOP then 0 else current_velocity a) a"
proof -
  have "ProcessServoConfigCommand cmd a = (False, a)" "ProcessMoveConfigCommand cmd a = (False, a)"
    "ProcessServoCommand cmd a = (False, a)" "ProcessMoveCommand cmd a =
      (True, send_can (motion_type m) (if m = MOTION_STOP then 0 else current_velocity a) a)"
    using motion_commands_pass [of a] assms(1) by (auto simp: list_all_iff)
  then show ?thesis using assms(2,3) by (simp add: door_bell_on_cmd_def)
qed

lemma can_value:
  "v \<le> 255 \<Longrightarrow> parse_speed_or_default 5 (t # le32 v @ replicate 3 0) s = Some (uint v)"
proof -
  assume "v \<le> 255"
  have "read_le32 (t # le32 v @ replicate 3 0) 1 = Some v"
    using read_le32_append [of "[t]" v "replicate 3 0"] by simp
  with \<open>v \<le> 255\<close> show ?thesis by (auto simp: parse_speed_or_default_def dest: leD)
qed

lemma apply_motion_type:
  "apply_message (motion_type m) sp s = set_motion_target_locked m (if m = MOTION_STOP then 0 else sp) s"
  by (cases m) (simp_all add: apply_message_def motion_type_def)

lemma motion_type_not_restart: "motion_type m \<noteq> 66"
  by (cases m) (simp_all add: motion_type_def)

text \<open>The way of a frame from the sending task to the wheels.\<close>

lemma frame_to_motors:
  assumes v: "v \<le> 255" and m0: "m = MOTION_STOP \<longrightarrow> v = 0"
    and tx: "send_queue_created tx" and rx: "canbus_message_handler rx = Some h" and s: "motor_inv s"
  shows "canbus_send_task tx (Some (can_frame (motion_type m) v)) =
           Some (TwaiTransmit (can_frame (motion_type m) v) CANBUS_MAX_WAIT_MS)"
    and "canbus_receive_task rx (Some (can_frame (motion_type m) v)) = Some (h, 5, data (can_frame (motion_type m) v))"
    and "\<exists>s'. CansbusControlMessageCallback now 5 (Some (data (can_frame (motion_type m) v))) s = Some s' \<and>
           current_motion (motor_ticks 54 s') = m \<and> current_speed (motor_ticks 54 s') = uint v"
proof -
  let ?f = "can_frame (motion_type m) v"
  let ?s = "emit [Gpio_set_level LED_LIGHT_ON]
     ((set_motion_target_locked m (uint v) s)\<lparr>led_updated_time := now\<rparr>)"
  have u: "uint v \<le> 255" "m = MOTION_STOP \<longrightarrow> uint v = 0" using v m0 by (auto simp: word_le_def)
  have c: "CansbusControlMessageCallback now 5 (Some (data ?f)) s = Some ?s"
    using can_value [OF v, of "motion_type m" s] motion_type_not_restart [of m] m0
    by (simp add: CansbusControlMessageCallback_def HandleControlMessage_def apply_motion_type)
  have "motor_step s (Can_message now 5 (Some (data ?f))) = Some ?s" using c by simp
  then have i: "motor_inv ?s" by (rule motor.step_inv [OF s])
  have "requested_motion ?s = m" "requested_speed ?s = uint v"
    using u by (simp_all add: set_motion_target_locked_def Let_def not_less)
  moreover have "settled (motor_ticks 54 ?s)"
    by (rule motor_ticks_settle [OF i periods_left_bound [OF i]])
  ultimately have "current_motion (motor_ticks 54 ?s) = m \<and> current_speed (motor_ticks 54 ?s) = uint v"
    unfolding settled_def motor_ticks_requests by simp
  with c show "\<exists>s'. CansbusControlMessageCallback now 5 (Some (data ?f)) s = Some s' \<and>
           current_motion (motor_ticks 54 s') = m \<and> current_speed (motor_ticks 54 s') = uint v" by blast
qed (use receive_can_frame [OF rx] tx in \<open>simp_all add: canbus_send_task_def\<close>)



lemma mqtt_motion_sent:
  assumes cmd: "(cmd, m) \<in> set motion_commands" and h: "cmd_handler (mqtt c)"
  shows "\<exists>c'. on_mqtt_event e t (MQTT_EVENT_DATA ''1234/command'' cmd) c = Some c' \<and>
    app_calls (cmds (web c')) = app_calls (cmds (web c)) @
      [Can (XQueueSend (can_frame (motion_type m) (if m = MOTION_STOP then 0 else current_velocity (cmds (web c)))) 10)] \<and>
    handle (web c') = handle (web c) \<and> last_heartbeat_ms c' = last_heartbeat_ms c"
proof -
  let ?a = "cmds (web c)"
  let ?x = "Can (XQueueSend (can_frame (motion_type m) (if m = MOTION_STOP then 0 else current_velocity ?a)) 10)"
  have plain: "length cmd < 200 \<and> CHR 0x00 \<notin> set cmd \<and> cmd \<notin> {''OPEN_WEBRTC'', ''CLOSE_WEBRTC'', ''HEARTBEAT''}"
    using cmd by (auto simp: motion_commands_def)
  have pass: "ProcessServoConfigCommand cmd ?a = (False, ?a)" "ProcessServoCommand cmd ?a = (False, ?a)"
    "ProcessMoveCommand cmd ?a = (True, send_can (motion_type m) (if m = MOTION_STOP then 0 else current_velocity ?a) ?a)"
    using motion_commands_pass [of ?a] cmd by (auto simp: list_all_iff)
  have calls: "app_calls (send_cmd (Some cmd) ?a) = app_calls ?a @ [?x]"
    by (simp add: send_cmd_def pass send_can_def app_emit_def AddMessageToSend_def)
  have "takeWhile (\<lambda>c. \<not> is_nul c) (take 200 cmd) = cmd"
    using plain by (auto simp: takeWhile_eq_all_conv is_nul_def)
  then have ev: "mqtt_event_handler (MQTT_EVENT_DATA ''1234/command'' cmd) (mqtt c) = (Some cmd, mqtt c)"
    using h by (simp add: mqtt_event_handler_def MQTT_CMD_TOPIC_def MQTT_USERNAME_def strncmp_eq_def)
  have "\<exists>w. wapp_send_cmd (env_ret e) (env_event e) Other_thread (Some cmd) (web c) = App_done () w \<and>
      app_calls (cmds w) = app_calls ?a @ [?x] \<and> handle w = handle (web c)"
    using calls by (cases "handle (web c)")
      (auto simp: wapp_send_cmd_def with_commands_def Let_def run_app_call_def set_handle_def)
  then obtain w where w: "wapp_send_cmd (env_ret e) (env_event e) Other_thread (Some cmd) (web c) = App_done () w"
    "app_calls (cmds w) = app_calls ?a @ [?x]" "handle w = handle (web c)" by blast
  then show ?thesis
    using plain ev by (auto simp: on_mqtt_event_def mqtt_control_cmd_handler_def control_send_cmd_def on_web_def)
qed

text \<open>
  C7. End to end from the broker: a movement command published on the command topic reaches the same
  frame, and the wheels, also while no session is open; neither the session nor the supervision times
  of the main program change.
\<close>

theorem mqtt_command_to_motors:
  assumes cmd: "(cmd, m) \<in> set motion_commands" and c: "cmd_handler (mqtt c)" "app_inv (cmds (web c))"
    and tx: "send_queue_created tx" and rx: "canbus_message_handler rx = Some h" and s: "motor_inv s"
  shows "\<exists>c' f s'. on_mqtt_event e t (MQTT_EVENT_DATA ''1234/command'' cmd) c = Some c' \<and>
           app_calls (cmds (web c')) = app_calls (cmds (web c)) @ [Can (XQueueSend f 10)] \<and>
           handle (web c') = handle (web c) \<and> last_heartbeat_ms c' = last_heartbeat_ms c \<and>
           canbus_send_task tx (Some f) = Some (TwaiTransmit f CANBUS_MAX_WAIT_MS) \<and>
           canbus_receive_task rx (Some f) = Some (h, 5, data f) \<and>
           CansbusControlMessageCallback now 5 (Some (data f)) s = Some s' \<and>
           current_motion (motor_ticks 54 s') = m \<and>
           current_speed (motor_ticks 54 s') = (if m = MOTION_STOP then 0 else uint (current_velocity (cmds (web c))))"
proof -
  let ?v = "if m = MOTION_STOP then 0 else current_velocity (cmds (web c))"
  have v: "?v \<le> 255" using c(2) by (simp add: app_inv_def)
  obtain c' where "on_mqtt_event e t (MQTT_EVENT_DATA ''1234/command'' cmd) c = Some c'"
    "app_calls (cmds (web c')) = app_calls (cmds (web c)) @ [Can (XQueueSend (can_frame (motion_type m) ?v) 10)]"
    "handle (web c') = handle (web c)" "last_heartbeat_ms c' = last_heartbeat_ms c"
    using mqtt_motion_sent [OF cmd c(1), of e t] by blast
  then show ?thesis
    using frame_to_motors(1,2) [OF v _ tx rx s, of m] frame_to_motors(3) [OF v _ tx rx s, of m now] by auto
qed

theorem mqtt_command_to_motors_witness:
  "\<exists>c' f s'. on_mqtt_event calm_env 0 (MQTT_EVENT_DATA ''1234/command'' ''ROBOT_STOP'')
       (control_initial\<lparr>mqtt := mqtt_initial\<lparr>cmd_handler := True\<rparr>\<rparr>) = Some c' \<and>
     CansbusControlMessageCallback 7 5 (Some (data f)) motor_initial = Some s' \<and>
     app_calls (cmds (web c')) = [Can (XQueueSend f 10)] \<and>
     current_motion (motor_ticks 54 s') = MOTION_STOP \<and> current_speed (motor_ticks 54 s') = 0"
proof -
  let ?c = "control_initial\<lparr>mqtt := mqtt_initial\<lparr>cmd_handler := True\<rparr>\<rparr>"
  have "(''ROBOT_STOP'', MOTION_STOP) \<in> set motion_commands" by (simp add: motion_commands_def)
  moreover have "cmd_handler (mqtt ?c)" "app_inv (cmds (web ?c))" "app_calls (cmds (web ?c)) = []"
    using app_inv_initial by (simp_all add: control_initial_def wapp_initial_def app_initial_def)
  moreover have "send_queue_created (\<lparr>canbus_message_handler = Some (), send_queue_created = True\<rparr> :: unit canbus)"
    "canbus_message_handler (\<lparr>canbus_message_handler = Some (), send_queue_created = True\<rparr> :: unit canbus) = Some ()"
    by simp_all
  ultimately show ?thesis
    using mqtt_command_to_motors [of "''ROBOT_STOP''" MOTION_STOP ?c _ _ "()" motor_initial calm_env 0 7]
      motor_inv_initial by fastforce
qed

definition servo_type :: "int \<Rightarrow> int \<Rightarrow> int \<Rightarrow> u8" where
  "servo_type k dlr dud =
     (if (dlr, dud) = (0, - k) then 18 else if (dlr, dud) = (0, k) then 12
      else if (dlr, dud) = (k, 0) then 14 else 16)"

lemma servo_commands_pass:
  assumes "0 < k"
  shows
  "list_all (\<lambda>(cmd, dlr, dud). ProcessServoConfigCommand cmd a = (False, a)) (servo_commands k)"
  "list_all (\<lambda>(cmd, dlr, dud). ProcessMoveConfigCommand cmd a = (False, a)) (servo_commands k)"
  "list_all (\<lambda>(cmd, dlr, dud). ProcessServoCommand cmd a =
      (True, send_can (servo_type k dlr dud) (servo_velocity a) a)) (servo_commands k)"
  using assms
  by (simp_all add: servo_commands_def servo_type_def ProcessServoConfigCommand_def
      ProcessMoveConfigCommand_def ProcessServoCommand_def is_cmd_def strncmp_eq_def)

lemma servo_command_sent:
  assumes "(cmd, dlr, dud) \<in> set (servo_commands k)" "0 < k" "webrtc_open a" "len \<noteq> 0"
  shows "door_bell_on_cmd VIA_SIGNALING cmd len a = send_can (servo_type k dlr dud) (servo_velocity a) a"
proof -
  have "ProcessServoConfigCommand cmd a = (False, a)" "ProcessMoveConfigCommand cmd a = (False, a)"
    "ProcessServoCommand cmd a = (True, send_can (servo_type k dlr dud) (servo_velocity a) a)"
    using servo_commands_pass [OF assms(2), of a] assms(1) by (auto simp: list_all_iff)
  then show ?thesis using assms(3,4) by (simp add: door_bell_on_cmd_def)
qed

lemma servo_type_moves:
  assumes "(cmd, dlr, dud) \<in> set (servo_commands k)" "0 < k"
    "saturate 0 180 lr = lr" "saturate 0 180 ud = ud"
  shows "servo_type k dlr dud \<in> {CMD_SERVO_UP, CMD_SERVO_DOWN, CMD_SERVO_LEFT, CMD_SERVO_RIGHT}"
    and "moved_angles (servo_type k dlr dud) k (lr, ud) = (saturate 0 180 (lr + dlr), saturate 0 180 (ud + dud))"
  using assms by (auto simp: servo_commands_def servo_type_def moved_angles_def servo_cmds)

lemma can_step:
  "v \<le> 20 \<Longrightarrow> decode_step (Some (t # le32 v @ replicate 3 0)) 5 = Some (if v = 0 then 3 else uint v)"
proof -
  assume v: "v \<le> 20"
  have "read_le32 (t # le32 v @ replicate 3 0) 1 = Some v"
    using read_le32_append [of "[t]" v "replicate 3 0"] by simp
  with v show ?thesis by (auto simp: decode_step_def dest: leD)
qed



text \<open>
  The bus heartbeat keeps a robot moving. The two-byte frame an idle sending node transmits is
  delivered to the robot's message handler like a command: it changes neither the requested motion
  nor the speeds, but it restarts the dead-man timer, so that for the next second no poll stops the
  platform, although no command has arrived.
\<close>

theorem heartbeat_feeds_watchdog:
  assumes tx: "send_queue_created tx" and rx: "canbus_message_handler rx = Some h"
    and poll: "later \<le> now + NO_MESSAGE_STOP_DELAY"
  shows "\<exists>f s'. canbus_send_task tx None = Some (TwaiTransmit f CANBUS_MAX_WAIT_MS) \<and>
           canbus_receive_task rx (Some f) = Some (h, 2, data f) \<and>
           CansbusControlMessageCallback now 2 (Some (data f)) s = Some s' \<and>
           requested_motion s' = requested_motion s \<and> requested_speed s' = requested_speed s \<and>
           configured_speed s' = configured_speed s \<and> UpdateLed later s' = s'"
proof -
  let ?s = "emit [Gpio_set_level LED_LIGHT_ON] (s\<lparr>led_updated_time := now\<rparr>)"
  have "CansbusControlMessageCallback now 2 (Some (data heart_beat)) s = Some ?s"
    by (simp add: CansbusControlMessageCallback_def HandleControlMessage_def heart_beat_def
        parse_speed_or_default_def apply_message_def)
  moreover have "UpdateLed later ?s = ?s" using poll by (simp add: UpdateLed_def)
  ultimately show ?thesis
    using tx rx by (auto simp: canbus_send_task_def canbus_receive_task_def heart_beat_def)
qed

theorem heartbeat_feeds_watchdog_witness:
  "\<exists>f s'. canbus_send_task (\<lparr>canbus_message_handler = Some (), send_queue_created = True\<rparr> :: unit canbus) None =
       Some (TwaiTransmit f CANBUS_MAX_WAIT_MS) \<and>
     CansbusControlMessageCallback 5000000 2 (Some (data f)) (set_motion_target_locked MOTION_FORWARD 99 motor_initial)
       = Some s' \<and> UpdateLed 6000000 s' = s' \<and> requested_motion s' = MOTION_FORWARD"
  using heartbeat_feeds_watchdog [of "\<lparr>canbus_message_handler = Some (), send_queue_created = True\<rparr>"
      "\<lparr>canbus_message_handler = Some (), send_queue_created = True\<rparr>" "()" 6000000 5000000
      "set_motion_target_locked MOTION_FORWARD 99 motor_initial"]
  by (fastforce simp: NO_MESSAGE_STOP_DELAY_def set_motion_target_locked_def)

section \<open>From the Bluetooth peer to the motors\<close>

lemma ble_message_to_motors:
  assumes s: "motor_inv s" and sp: "parse_speed_or_default len (motion_type m # v) s = Some sp" "0 < len" and m0: "m = MOTION_STOP \<longrightarrow> sp = 0"
  shows "\<exists>s'. ControlMessageCallback now len (Some (motion_type m # v)) s = Some s' \<and>
    current_motion (motor_ticks 54 s') = m \<and> current_speed (motor_ticks 54 s') = sp"
proof -
  let ?s = "emit [Gpio_set_level LED_LIGHT_ON] ((set_motion_target_locked m sp s)\<lparr>led_updated_time := now\<rparr>)"
  have r: "0 \<le> sp \<and> sp \<le> 255" by (rule parse_speed_range [OF s sp(1)])
  have c: "ControlMessageCallback now len (Some (motion_type m # v)) s = Some ?s"
    using sp motion_type_not_restart [of m] m0
    by (simp add: ControlMessageCallback_def HandleControlMessage_def apply_motion_type)
  have "motor_step s (Ble_message now len (Some (motion_type m # v))) = Some ?s" using c by simp
  then have i: "motor_inv ?s" by (rule motor.step_inv [OF s])
  have "requested_motion ?s = m" "requested_speed ?s = sp"
    using r m0 by (simp_all add: set_motion_target_locked_def Let_def not_less)
  moreover have "settled (motor_ticks 54 ?s)"
    by (rule motor_ticks_settle [OF i periods_left_bound [OF i]])
  ultimately have "current_motion (motor_ticks 54 ?s) = m \<and> current_speed (motor_ticks 54 ?s) = sp"
    unfolding settled_def motor_ticks_requests by simp
  with c show ?thesis by blast
qed



text \<open>
  C26. Subscribing drives the robot backwards. The message handler is called for every attribute, the configuration
  descriptor included, and the value 2 that asks for indications is the type of the command to move back: a client
  that subscribes sets the platform in motion at the configured speed.
\<close>

theorem subscribing_drives_backwards:
  assumes b: "bs_handler b" "\<not> wr_is_prep r" "g \<noteq> ESP_GATT_IF_NONE" "bp_if (bs_a b) = g" "bp_if (bs_b b) \<noteq> g"
    and r: "wr_handle r = bp_descr (bs_a b)" "wr_value r = [2, 0]" and s: "motor_inv s"
  shows "\<exists>b' s'. ble_step M b (Ble_gatts e (G_write r) g) = Some b' \<and> bs_descr_value b' = 2 \<and> delivered b' = delivered b @ [[2, 0]] \<and>
    ControlMessageCallback now 2 (Some [2, 0]) s = Some s' \<and>
    current_motion (motor_ticks 54 s') = MOTION_BACKWARD \<and> current_speed (motor_ticks 54 s') = configured_speed s"
proof -
  have "parse_speed_or_default 2 (motion_type MOTION_BACKWARD # [0]) s = Some (configured_speed s)" by (simp add: parse_speed_or_default_def)
  from ble_message_to_motors [OF s this, of now] obtain s' where
    "ControlMessageCallback now 2 (Some [2, 0]) s = Some s'" "current_motion (motor_ticks 54 s') = MOTION_BACKWARD"
    "current_speed (motor_ticks 54 s') = configured_speed s" by (auto simp: motion_type_def)
  moreover have "\<exists>b'. ble_step M b (Ble_gatts e (G_write r) g) = Some b' \<and> bs_descr_value b' = 2 \<and> delivered b' = delivered b @ [[2, 0]]"
    using b r by (simp add: gatts_event_handler_def call_profiles_def a_write_event_def Let_def example_write_event_env_def
        delivered_def configure_descr_def descr_of_def)
  ultimately show ?thesis by blast
qed

theorem subscribing_drives_backwards_witness:
  "\<exists>b' s'. ble_step 512 ble_ready (Ble_gatts sample_memory (G_write (sample_write 43 0 False [2, 0])) 3) = Some b' \<and> bs_descr_value b' = 2 \<and>
    delivered b' = delivered ble_ready @ [[2, 0]] \<and> ControlMessageCallback 7 2 (Some [2, 0]) motor_initial = Some s' \<and>
    current_motion (motor_ticks 54 s') = MOTION_BACKWARD \<and> current_speed (motor_ticks 54 s') = configured_speed motor_initial"
proof -
  have "bs_handler ble_ready" "bp_if (bs_a ble_ready) = 3" "bp_if (bs_b ble_ready) \<noteq> 3" "bp_descr (bs_a ble_ready) = 43" by code_simp+
  then show ?thesis
    by (intro subscribing_drives_backwards motor_inv_initial) (simp_all add: sample_write_def ESP_GATT_IF_NONE_def)
qed

end
